(* ===== verification/JS_Prelude.thy ===== *)
theory JS_Prelude
  imports Complex_Main "HOL-Library.Multiset" "HOL-Library.Sublist"
begin

text \<open>
  The part of the JavaScript language and of its standard library that the front end uses, and the
  generic contracts that the component theories share.

  A JavaScript string is a sequence of code units. It is modelled as \<^typ>\<open>string\<close>, whose characters
  are the code units 0 to 255; on them \<open>trim\<close>, \<open>toLowerCase\<close>, \<open>split\<close> and the others below are exactly
  the functions of the language. A thrown value is a \<open>js_error\<close>, and code that may throw returns
  \<open>js_error + 'a\<close>. \<open>null\<close> and \<open>undefined\<close> are \<^const>\<open>None\<close> where the source treats them alike.

  The locales at the end are the interfaces of the library: a state machine with an invariant, a
  functional refinement between two machines, and a consistent comparison function for
  \<open>Array.prototype.sort\<close>.
\<close>

named_theorems step_defs "definitions of the operations that change the state of a component"

section \<open>Errors\<close>

datatype js_error =
    Error string             \<comment> \<open>\<open>new Error(message)\<close>\<close>
  | WebPreviewError string   \<comment> \<open>\<open>new WebPreviewError(message)\<close>\<close>
  | TypeError string         \<comment> \<open>raised by the runtime\<close>
  | Rejected string          \<comment> \<open>a rejected promise of a native call\<close>

type_synonym 'a result = "js_error + 'a"

definition is_ok :: "'a result \<Rightarrow> bool" where
  "is_ok r \<longleftrightarrow> (case r of Inl _ \<Rightarrow> False | Inr _ \<Rightarrow> True)"

definition try_bind :: "'a result \<Rightarrow> ('a \<Rightarrow> 'b result) \<Rightarrow> 'b result" where
  "try_bind r f = (case r of Inl e \<Rightarrow> Inl e | Inr x \<Rightarrow> f x)"

lemma is_ok_simps [simp]: "is_ok (Inr x)" "\<not> is_ok (Inl e)"
  by (simp_all add: is_ok_def)

lemma try_bind_simps [simp]: "try_bind (Inl e) f = Inl e" "try_bind (Inr x) f = f x"
  by (simp_all add: try_bind_def)

lemma try_bind_Inr [simp]:
  "(try_bind r f = Inr y) = (\<exists>x. r = Inr x \<and> f x = Inr y)"
  by (cases r) auto

section \<open>Strings\<close>

definition char_code :: "char \<Rightarrow> nat" where
  "char_code c = of_char c"

definition js_space :: "char \<Rightarrow> bool" where
  "js_space c \<longleftrightarrow> (let n = char_code c in (9 \<le> n \<and> n \<le> 13) \<or> n = 32 \<or> n = 160)"

definition js_trim :: "string \<Rightarrow> string" where
  "js_trim s = rev (dropWhile js_space (rev (dropWhile js_space s)))"

definition lower_char :: "char \<Rightarrow> char" where
  "lower_char c =
     (let n = char_code c in
      if (65 \<le> n \<and> n \<le> 90) \<or> (192 \<le> n \<and> n \<le> 222 \<and> n \<noteq> 215) then char_of (n + 32) else c)"

definition js_lower :: "string \<Rightarrow> string" where
  "js_lower s = map lower_char s"

fun js_split :: "char \<Rightarrow> string \<Rightarrow> string list" where
  "js_split d [] = [[]]"
| "js_split d (c # cs) =
     (if c = d then [] # js_split d cs
      else (case js_split d cs of [] \<Rightarrow> [[c]] | w # ws \<Rightarrow> (c # w) # ws))"

fun js_join :: "string \<Rightarrow> string list \<Rightarrow> string" where
  "js_join sep [] = []"
| "js_join sep [w] = w"
| "js_join sep (w # ws) = w @ sep @ js_join sep ws"

fun js_includes :: "string \<Rightarrow> string \<Rightarrow> bool" where
  "js_includes [] p = (p = [])"
| "js_includes (c # cs) p = (prefix p (c # cs) \<or> js_includes cs p)"

definition js_starts_with :: "string \<Rightarrow> string \<Rightarrow> bool" where
  "js_starts_with s p = prefix p s"

definition js_ends_with :: "string \<Rightarrow> string \<Rightarrow> bool" where
  "js_ends_with s p = suffix p s"

text \<open>\<open>s.lastIndexOf(c)\<close>, with \<^const>\<open>None\<close> for \<open>-1\<close>.\<close>

fun js_last_index :: "char \<Rightarrow> string \<Rightarrow> nat option" where
  "js_last_index c [] = None"
| "js_last_index c (x # xs) =
     (case js_last_index c xs of
        Some i \<Rightarrow> Some (Suc i)
      | None \<Rightarrow> if x = c then Some 0 else None)"

text \<open>\<open>s.replace(/\\/g, '/')\<close>: every backslash becomes a slash.\<close>

definition js_slashes :: "string \<Rightarrow> string" where
  "js_slashes s = map (\<lambda>c. if c = CHR 0x5C then CHR ''/'' else c) s"

text \<open>\<open>a || b\<close> on strings, and \<open>xs.filter(Boolean)\<close> on arrays of strings.\<close>

definition js_or :: "string \<Rightarrow> string \<Rightarrow> string" where
  "js_or a b = (if a = [] then b else a)"

definition js_filter_boolean :: "string list \<Rightarrow> string list" where
  "js_filter_boolean xs = filter (\<lambda>s. s \<noteq> []) xs"

text \<open>A number in a template literal (non-negative integers only).\<close>

fun show_nat :: "nat \<Rightarrow> string" where
  "show_nat n =
     (if n < 10 then [char_of (48 + n)] else show_nat (n div 10) @ [char_of (48 + n mod 10)])"

declare show_nat.simps [simp del]

lemma char_code_char_of [simp]: "char_code (char_of n) = n mod 256"
  by (simp add: char_code_def)

lemma char_code_less [simp]: "char_code c < 256"
  by (simp add: char_code_def)

lemma lower_char_idem [simp]: "lower_char (lower_char c) = lower_char c"
  by (auto simp: lower_char_def Let_def)

lemma js_lower_idem [simp]: "js_lower (js_lower s) = js_lower s"
  by (simp add: js_lower_def)

lemma length_js_lower [simp]: "length (js_lower s) = length s"
  by (simp add: js_lower_def)

lemma js_lower_Nil [simp]: "(js_lower s = []) = (s = [])" "js_lower [] = []"
  by (simp_all add: js_lower_def)

lemma js_trim_Nil [simp]: "js_trim [] = []"
  by (simp add: js_trim_def)

lemma js_trim_idem [simp]: "js_trim (js_trim s) = js_trim s"
proof -
  define u where "u = dropWhile js_space (rev (dropWhile js_space s))"
  have hu: "u = [] \<or> \<not> js_space (hd u)"
    unfolding u_def by (metis hd_dropWhile)
  have lu: "u = [] \<or> \<not> js_space (last u)"
  proof (cases "u = []")
    case False
    have "last u = hd (dropWhile js_space s)"
      using False unfolding u_def
      by (metis append_is_Nil_conv hd_rev last_appendR rev_is_Nil_conv takeWhile_dropWhile_id last_rev)
    then show ?thesis
      using False unfolding u_def by (metis hd_dropWhile dropWhile.simps(1) rev.simps(1))
  qed simp
  have a: "dropWhile js_space (rev u) = rev u"
    using lu by (cases "rev u") (auto simp: dropWhile_eq_self_iff hd_rev)
  have b: "dropWhile js_space u = u"
    using hu by (simp add: dropWhile_eq_self_iff)
  show ?thesis
    unfolding js_trim_def u_def [symmetric] using a b by simp
qed

lemma js_trim_last: "js_trim s \<noteq> [] \<Longrightarrow> \<not> js_space (last (js_trim s))"
  unfolding js_trim_def by (metis hd_dropWhile last_rev rev_is_Nil_conv)

lemma length_js_trim: "length (js_trim s) \<le> length s"
  unfolding js_trim_def by (metis length_dropWhile_le length_rev order_trans)

lemma set_js_trim: "set (js_trim s) \<subseteq> set s"
  unfolding js_trim_def by (force dest: set_dropWhileD)

lemma js_split_not_Nil [simp]: "js_split d s \<noteq> []"
  by (induction s) (auto split: list.splits)

lemma js_split_no_sep: "w \<in> set (js_split d s) \<Longrightarrow> d \<notin> set w"
  by (induction s arbitrary: w) (auto split: list.splits if_splits)

lemma js_join_split [simp]: "js_join [d] (js_split d s) = s"
proof (induction s)
  case (Cons c cs)
  then show ?case
    by (cases "js_split d cs"; cases "tl (js_split d cs)") auto
qed simp

lemma js_split_single: "d \<notin> set s \<Longrightarrow> js_split d s = [s]"
  by (induction s) auto

lemma js_split_join:
  "ws \<noteq> [] \<Longrightarrow> \<forall>w\<in>set ws. d \<notin> set w \<Longrightarrow> js_split d (js_join [d] ws) = ws"
proof (induction "[d]" ws rule: js_join.induct)
  case (2 w)
  then show ?case by (simp add: js_split_single)
next
  case (3 w v vs)
  have "js_split d (w @ d # js_join [d] (v # vs)) = w # js_split d (js_join [d] (v # vs))"
    using 3 by (induction w) auto
  with 3 show ?case by simp
qed simp

lemma js_last_index_Some:
  "js_last_index c s = Some i \<Longrightarrow> i < length s \<and> s ! i = c"
  by (induction s arbitrary: i) (auto split: option.splits if_splits)

lemma js_slashes_no_backslash: "CHR 0x5C \<notin> set (js_slashes s)"
  by (auto simp: js_slashes_def)

lemma js_slashes_idem [simp]: "js_slashes (js_slashes s) = js_slashes s"
  by (simp add: js_slashes_def)

lemma show_nat_not_Nil [simp]: "show_nat n \<noteq> []"
  by (subst show_nat.simps) simp

section \<open>Arrays\<close>

text \<open>
  \<open>[...xs].sort(cmp)\<close>. The sort of the language is stable, so for a consistent comparison function its
  result is unique; insertion after the equal elements computes it.
\<close>

fun js_insert :: "('a \<Rightarrow> 'a \<Rightarrow> int) \<Rightarrow> 'a \<Rightarrow> 'a list \<Rightarrow> 'a list" where
  "js_insert cmp x [] = [x]"
| "js_insert cmp x (y # ys) = (if cmp y x \<le> 0 then y # js_insert cmp x ys else x # y # ys)"

definition js_sort :: "('a \<Rightarrow> 'a \<Rightarrow> int) \<Rightarrow> 'a list \<Rightarrow> 'a list" where
  "js_sort cmp xs = foldl (\<lambda>acc x. js_insert cmp x acc) [] xs"

text \<open>A comparison function is consistent when it is the sign of a total preorder.\<close>

definition consistent :: "('a \<Rightarrow> 'a \<Rightarrow> int) \<Rightarrow> bool" where
  "consistent cmp \<longleftrightarrow>
     (\<forall>x y. sgn (cmp x y) = - sgn (cmp y x)) \<and>
     (\<forall>x y z. cmp x y \<le> 0 \<longrightarrow> cmp y z \<le> 0 \<longrightarrow> cmp x z \<le> 0)"

text \<open>\<open>Set\<close> in insertion order: adding a present element keeps its place.\<close>

definition js_set_add :: "'a list \<Rightarrow> 'a \<Rightarrow> 'a list" where
  "js_set_add xs x = (if x \<in> set xs then xs else xs @ [x])"

lemma set_js_set_add [simp]: "set (js_set_add xs x) = insert x (set xs)"
  by (auto simp: js_set_add_def)

lemma distinct_js_set_add [simp]: "distinct (js_set_add xs x) = distinct xs"
  by (auto simp: js_set_add_def)

lemma set_foldl_js_set_add [simp]: "set (foldl js_set_add xs ys) = set xs \<union> set ys"
  by (induction ys arbitrary: xs) auto

lemma distinct_foldl_js_set_add [simp]: "distinct (foldl js_set_add xs ys) = distinct xs"
  by (induction ys arbitrary: xs) auto

lemma prefix_foldl_js_set_add: "prefix xs (foldl js_set_add xs ys)"
proof (induction ys arbitrary: xs)
  case (Cons y ys)
  have "prefix xs (js_set_add xs y)" by (simp add: js_set_add_def)
  also have "prefix \<dots> (foldl js_set_add (js_set_add xs y) ys)" by (rule Cons.IH)
  finally show ?case by simp
qed simp

text \<open>
  An object or \<open>Map\<close> in insertion order: assigning to a present key keeps its place.
\<close>

fun assoc_put :: "'k \<Rightarrow> 'v \<Rightarrow> ('k \<times> 'v) list \<Rightarrow> ('k \<times> 'v) list" where
  "assoc_put k v [] = [(k, v)]"
| "assoc_put k v ((k', v') # xs) = (if k = k' then (k, v) # xs else (k', v') # assoc_put k v xs)"

definition assoc_delete :: "'k \<Rightarrow> ('k \<times> 'v) list \<Rightarrow> ('k \<times> 'v) list" where
  "assoc_delete k xs = filter (\<lambda>p. fst p \<noteq> k) xs"

lemma map_of_assoc_put [simp]: "map_of (assoc_put k v xs) = (map_of xs)(k \<mapsto> v)"
  by (induction xs) auto

lemma map_of_assoc_delete [simp]: "map_of (assoc_delete k xs) = (map_of xs)(k := None)"
  by (induction xs) (auto simp: assoc_delete_def)

lemma fst_assoc_put: "fst ` set (assoc_put k v xs) = insert k (fst ` set xs)"
proof (induction xs)
  case (Cons p xs)
  obtain k' v' where p: "p = (k', v')" by (cases p)
  show ?case
    using Cons.IH by (cases "k = k'") (simp_all add: p insert_commute)
qed simp

lemma distinct_assoc_put: "distinct (map fst xs) \<Longrightarrow> distinct (map fst (assoc_put k v xs))"
  by (induction xs) (auto simp: fst_assoc_put)

lemma distinct_assoc_delete: "distinct (map fst xs) \<Longrightarrow> distinct (map fst (assoc_delete k xs))"
  by (simp add: assoc_delete_def distinct_map_filter)

lemma fst_assoc_delete: "fst ` set (assoc_delete k xs) = fst ` set xs - {k}"
  by (auto simp: assoc_delete_def)

section \<open>Interfaces\<close>

text \<open>A sequence of operations on a state, in the order in which the event loop runs them.\<close>

definition run_ops :: "('s \<Rightarrow> 'e \<Rightarrow> 's) \<Rightarrow> 's \<Rightarrow> 'e list \<Rightarrow> 's" where
  "run_ops step s es = foldl step s es"

lemma run_ops_simps [simp]:
  "run_ops step s [] = s"
  "run_ops step s (e # es) = run_ops step (step s e) es"
  "run_ops step s (es @ fs) = run_ops step (run_ops step s es) fs"
  by (simp_all add: run_ops_def)

lemma run_ops_filter: "run_ops (\<lambda>s e. if P e then step s e else s) s es = run_ops step s (filter P es)"
  by (induction es arbitrary: s) simp_all

text \<open>The contract of a component with state: an invariant that every operation keeps.\<close>

locale state_machine =
  fixes init :: 's
    and step :: "'s \<Rightarrow> 'e \<Rightarrow> 's"
    and inv :: "'s \<Rightarrow> bool"
  assumes inv_init: "inv init"
    and inv_step: "inv s \<Longrightarrow> inv (step s e)"
begin

lemma inv_run: "inv s \<Longrightarrow> inv (run_ops step s es)"
  by (induction es arbitrary: s) (auto intro: inv_step)

lemma reachable_inv: "inv (run_ops step init es)"
  by (rule inv_run [OF inv_init])

end

text \<open>A functional refinement: the abstraction of a concrete step is the abstract step.\<close>

locale refinement = state_machine init step inv
  for init :: 's and step :: "'s \<Rightarrow> 'e \<Rightarrow> 's" and inv :: "'s \<Rightarrow> bool" +
  fixes abs :: "'s \<Rightarrow> 'a"
    and astep :: "'a \<Rightarrow> 'e \<Rightarrow> 'a"
  assumes abs_step: "inv s \<Longrightarrow> abs (step s e) = astep (abs s) e"
begin

lemma abs_run: "inv s \<Longrightarrow> abs (run_ops step s es) = run_ops astep (abs s) es"
  by (induction es arbitrary: s) (auto simp: abs_step inv_step)

lemma abs_reachable: "abs (run_ops step init es) = run_ops astep (abs init) es"
  by (rule abs_run [OF inv_init])

end

text \<open>A consistent comparison function, and what the sort does with it.\<close>

locale comparator =
  fixes cmp :: "'a \<Rightarrow> 'a \<Rightarrow> int"
  assumes cmp_sym: "sgn (cmp x y) = - sgn (cmp y x)"
    and cmp_trans: "cmp x y \<le> 0 \<Longrightarrow> cmp y z \<le> 0 \<Longrightarrow> cmp x z \<le> 0"
begin

lemma cmp_total: "cmp x y \<le> 0 \<or> cmp y x \<le> 0"
  using cmp_sym [of x y] by (auto simp: sgn_if split: if_splits)

lemma sorted_insert:
  "sorted_wrt (\<lambda>a b. cmp a b \<le> 0) ys \<Longrightarrow> sorted_wrt (\<lambda>a b. cmp a b \<le> 0) (js_insert cmp x ys)"
proof (induction ys)
  case (Cons y ys)
  have "set (js_insert cmp x ys) = insert x (set ys)" for x ys
    by (induction ys) auto
  then show ?case
    using Cons cmp_total [of x y] by (auto intro: cmp_trans)
qed simp

lemma sorted_sort: "sorted_wrt (\<lambda>a b. cmp a b \<le> 0) (js_sort cmp xs)"
proof -
  have "sorted_wrt (\<lambda>a b. cmp a b \<le> 0) acc \<Longrightarrow>
        sorted_wrt (\<lambda>a b. cmp a b \<le> 0) (foldl (\<lambda>acc x. js_insert cmp x acc) acc xs)" for acc
    by (induction xs arbitrary: acc) (auto intro: sorted_insert)
  then show ?thesis by (simp add: js_sort_def)
qed

end

lemma mset_js_insert [simp]: "mset (js_insert cmp x ys) = add_mset x (mset ys)"
  by (induction ys) auto

lemma mset_js_sort [simp]: "mset (js_sort cmp xs) = mset xs"
proof -
  have "mset (foldl (\<lambda>acc x. js_insert cmp x acc) acc xs) = mset acc + mset xs" for acc
    by (induction xs arbitrary: acc) auto
  then show ?thesis by (simp add: js_sort_def)
qed

lemma set_js_sort [simp]: "set (js_sort cmp xs) = set xs"
  by (metis mset_js_sort set_mset_mset)

lemma length_js_sort [simp]: "length (js_sort cmp xs) = length xs"
  by (metis mset_js_sort size_mset)

lemma distinct_map_js_sort [simp]: "distinct (map f (js_sort cmp xs)) = distinct (map f xs)"
proof -
  have "mset (map f (js_sort cmp xs)) = mset (map f xs)" by simp
  then show ?thesis by (metis mset_eq_imp_distinct_iff)
qed

lemma consistent_comparator: "consistent cmp \<Longrightarrow> comparator cmp"
  unfolding consistent_def by unfold_locales blast+

lemma sum_list_js_sort: "sum_list (map f (js_sort cmp xs)) = sum_list (map (f :: _ \<Rightarrow> nat) xs)"
proof -
  have "mset (map f (js_sort cmp xs)) = mset (map f xs)" by simp
  then show ?thesis by (metis sum_mset_sum_list)
qed

text \<open>Comparison functions are built from keys and by trying one after the other.\<close>

definition cmp_then :: "('a \<Rightarrow> 'a \<Rightarrow> int) \<Rightarrow> ('a \<Rightarrow> 'a \<Rightarrow> int) \<Rightarrow> 'a \<Rightarrow> 'a \<Rightarrow> int" where
  "cmp_then c1 c2 a b = (if c1 a b \<noteq> 0 then c1 a b else c2 a b)"

lemma consistent_key: "consistent (\<lambda>a b. f a - f b)"
  by (auto simp: consistent_def sgn_if)

lemma consistent_on: "consistent cmp \<Longrightarrow> consistent (\<lambda>a b. cmp (f a) (f b))"
  unfolding consistent_def by blast

lemma consistent_zero:
  assumes "consistent cmp"
  shows "cmp x y = 0 \<longleftrightarrow> cmp x y \<le> 0 \<and> cmp y x \<le> 0"
proof -
  have "sgn (cmp x y) = - sgn (cmp y x)" using assms unfolding consistent_def by blast
  then show ?thesis by (auto simp: sgn_if split: if_splits)
qed

lemma consistent_then:
  assumes "consistent c1" "consistent c2"
  shows "consistent (cmp_then c1 c2)"
  unfolding consistent_def
proof (intro conjI allI impI)
  fix x y z
  note c1 = assms(1) [unfolded consistent_def] and c2 = assms(2) [unfolded consistent_def]
  note z1 = consistent_zero [OF assms(1)]
  have s: "sgn (c1 x y) = - sgn (c1 y x)" "sgn (c2 x y) = - sgn (c2 y x)" using c1 c2 by blast+
  then show "sgn (cmp_then c1 c2 x y) = - sgn (cmp_then c1 c2 y x)"
    by (auto simp: cmp_then_def sgn_if split: if_splits)
  have t: "c1 x y \<le> 0 \<Longrightarrow> c1 y z \<le> 0 \<Longrightarrow> c1 x z \<le> 0" "c1 z y \<le> 0 \<Longrightarrow> c1 y x \<le> 0 \<Longrightarrow> c1 z x \<le> 0"
    "c1 y z \<le> 0 \<Longrightarrow> c1 z x \<le> 0 \<Longrightarrow> c1 y x \<le> 0" "c1 z x \<le> 0 \<Longrightarrow> c1 x y \<le> 0 \<Longrightarrow> c1 z y \<le> 0"
    "c2 x y \<le> 0 \<Longrightarrow> c2 y z \<le> 0 \<Longrightarrow> c2 x z \<le> 0"
    using c1 c2 by blast+
  assume "cmp_then c1 c2 x y \<le> 0" "cmp_then c1 c2 y z \<le> 0"
  then show "cmp_then c1 c2 x z \<le> 0"
    using t z1 [of x y] z1 [of y z] z1 [of x z] by (auto simp: cmp_then_def split: if_splits)
qed

lemma consistent_sorted:
  "consistent cmp \<Longrightarrow> sorted_wrt (\<lambda>a b. cmp a b \<le> 0) (js_sort cmp xs)"
  by (rule comparator.sorted_sort) (rule consistent_comparator)

end
