(* ===== verification/Platform.thy ===== *)
theory Platform
  imports JS_Prelude
begin

text \<open>
  Platform detection, \<open>lib/platform.ts\<close>. The module is evaluated once, from the build-time constants
  of Vite and from the globals of the page; \<open>platform_env\<close> holds these inputs, and every exported flag
  is a function of it. The other components take the flag they branch on as an argument.
\<close>

record platform_env =
  has_window :: bool                          \<comment> \<open>\<open>typeof window !== 'undefined'\<close>\<close>
  tauri_internals :: bool                     \<comment> \<open>\<open>window.__TAURI_INTERNALS__ != null\<close>\<close>
  tauri_global :: bool                        \<comment> \<open>\<open>window.__TAURI__ != null\<close>\<close>
  VITE_APP_PLATFORM :: "string option"
  TAURI_PLATFORM :: "string option"
  VITE_IS_FLATPAK :: "string option"
  VITE_ANDROID_UPDATE_CHECK :: "string option"

definition appPlatform :: "platform_env \<Rightarrow> string" where
  "appPlatform e = (case VITE_APP_PLATFORM e of None \<Rightarrow> [] | Some s \<Rightarrow> s)"

definition os_platform :: "platform_env \<Rightarrow> string" where
  "os_platform e = (case TAURI_PLATFORM e of None \<Rightarrow> [] | Some s \<Rightarrow> s)"

definition isTauriRuntime :: "platform_env \<Rightarrow> bool" where
  "isTauriRuntime e =
     (if \<not> has_window e then appPlatform e = ''tauri''
      else tauri_internals e \<or> tauri_global e)"

definition IS_TAURI :: "platform_env \<Rightarrow> bool" where
  "IS_TAURI e = isTauriRuntime e"

definition IS_WEB :: "platform_env \<Rightarrow> bool" where
  "IS_WEB e = (\<not> IS_TAURI e)"

definition IS_ANDROID :: "platform_env \<Rightarrow> bool" where
  "IS_ANDROID e = (IS_TAURI e \<and> js_includes (os_platform e) ''android'')"

definition IS_IOS :: "platform_env \<Rightarrow> bool" where
  "IS_IOS e = (IS_TAURI e \<and> js_includes (os_platform e) ''ios'')"

definition IS_MOBILE :: "platform_env \<Rightarrow> bool" where
  "IS_MOBILE e = (IS_ANDROID e \<or> IS_IOS e)"

definition IS_MACOS :: "platform_env \<Rightarrow> bool" where
  "IS_MACOS e = (IS_TAURI e \<and> js_includes (os_platform e) ''darwin'')"

definition IS_WINDOWS :: "platform_env \<Rightarrow> bool" where
  "IS_WINDOWS e = (IS_TAURI e \<and> js_includes (os_platform e) ''windows'')"

definition IS_LINUX :: "platform_env \<Rightarrow> bool" where
  "IS_LINUX e = (IS_TAURI e \<and> js_includes (os_platform e) ''linux'')"

definition IS_DESKTOP :: "platform_env \<Rightarrow> bool" where
  "IS_DESKTOP e = (IS_TAURI e \<and> \<not> IS_MOBILE e \<and> (IS_MACOS e \<or> IS_WINDOWS e \<or> IS_LINUX e))"

definition IS_PAIRING_CAPABLE :: "platform_env \<Rightarrow> bool" where
  "IS_PAIRING_CAPABLE e = (IS_DESKTOP e \<or> IS_ANDROID e)"

definition IS_FLATPAK :: "platform_env \<Rightarrow> bool" where
  "IS_FLATPAK e = (IS_TAURI e \<and> VITE_IS_FLATPAK e = Some ''true'')"

definition IS_ANDROID_UPDATE_CHECK_ENABLED :: "platform_env \<Rightarrow> bool" where
  "IS_ANDROID_UPDATE_CHECK_ENABLED e =
     (IS_ANDROID e \<and> VITE_ANDROID_UPDATE_CHECK e = Some ''true'')"

definition IS_UPDATER_AVAILABLE :: "platform_env \<Rightarrow> bool" where
  "IS_UPDATER_AVAILABLE e =
     ((IS_DESKTOP e \<and> \<not> IS_FLATPAK e) \<or> IS_ANDROID_UPDATE_CHECK_ENABLED e)"

lemmas platform_defs =
  appPlatform_def os_platform_def isTauriRuntime_def IS_TAURI_def IS_WEB_def IS_ANDROID_def
  IS_IOS_def IS_MOBILE_def IS_MACOS_def IS_WINDOWS_def IS_LINUX_def IS_DESKTOP_def
  IS_PAIRING_CAPABLE_def IS_FLATPAK_def IS_ANDROID_UPDATE_CHECK_ENABLED_def
  IS_UPDATER_AVAILABLE_def

lemma desktop_not_mobile: "IS_DESKTOP e \<Longrightarrow> \<not> IS_MOBILE e"
  by (simp add: IS_DESKTOP_def)

lemma pairing_capable_tauri: "IS_PAIRING_CAPABLE e \<Longrightarrow> IS_TAURI e"
  by (auto simp: IS_PAIRING_CAPABLE_def IS_DESKTOP_def IS_ANDROID_def)

lemma updater_pairing_capable: "IS_UPDATER_AVAILABLE e \<Longrightarrow> IS_PAIRING_CAPABLE e"
  by (auto simp: IS_UPDATER_AVAILABLE_def IS_PAIRING_CAPABLE_def IS_ANDROID_UPDATE_CHECK_ENABLED_def)

section \<open>A plain browser\<close>

text \<open>
  A page that runs in a plain browser never takes a native path: when the page has a window and
  Tauri has not injected its globals, no flag that guards a native call is set, whatever the build
  constants say, so a wrong dev script or environment file cannot enable one. In the other direction
  every flag that enables a native feature implies the Tauri runtime, no build is desktop and mobile
  at once, and an updater is only offered where pairing is.
\<close>

theorem browser_never_native:
  "(has_window e \<and> \<not> tauri_internals e \<and> \<not> tauri_global e \<longrightarrow>
      IS_WEB e \<and> \<not> IS_TAURI e \<and> \<not> IS_ANDROID e \<and> \<not> IS_IOS e \<and> \<not> IS_MACOS e \<and> \<not> IS_WINDOWS e \<and>
      \<not> IS_LINUX e \<and> \<not> IS_DESKTOP e \<and> \<not> IS_PAIRING_CAPABLE e \<and> \<not> IS_FLATPAK e \<and>
      \<not> IS_UPDATER_AVAILABLE e) \<and>
   (IS_PAIRING_CAPABLE e \<longrightarrow> IS_TAURI e) \<and> (IS_UPDATER_AVAILABLE e \<longrightarrow> IS_PAIRING_CAPABLE e) \<and>
   \<not> (IS_DESKTOP e \<and> IS_MOBILE e)"
proof (intro conjI)
  show "has_window e \<and> \<not> tauri_internals e \<and> \<not> tauri_global e \<longrightarrow>
      IS_WEB e \<and> \<not> IS_TAURI e \<and> \<not> IS_ANDROID e \<and> \<not> IS_IOS e \<and> \<not> IS_MACOS e \<and> \<not> IS_WINDOWS e \<and>
      \<not> IS_LINUX e \<and> \<not> IS_DESKTOP e \<and> \<not> IS_PAIRING_CAPABLE e \<and> \<not> IS_FLATPAK e \<and>
      \<not> IS_UPDATER_AVAILABLE e"
    by (auto simp: platform_defs)
qed (use desktop_not_mobile pairing_capable_tauri updater_pairing_capable in blast)+

theorem browser_never_native_witness:
  "\<not> IS_DESKTOP \<lparr>has_window = True, tauri_internals = False, tauri_global = False,
      VITE_APP_PLATFORM = Some ''tauri'', TAURI_PLATFORM = Some ''linux'',
      VITE_IS_FLATPAK = None, VITE_ANDROID_UPDATE_CHECK = None\<rparr> \<and>
   IS_DESKTOP \<lparr>has_window = True, tauri_internals = True, tauri_global = False,
      VITE_APP_PLATFORM = Some ''tauri'', TAURI_PLATFORM = Some ''linux'',
      VITE_IS_FLATPAK = None, VITE_ANDROID_UPDATE_CHECK = None\<rparr>"
  using browser_never_native [of "\<lparr>has_window = True, tauri_internals = False, tauri_global = False,
      VITE_APP_PLATFORM = Some ''tauri'', TAURI_PLATFORM = Some ''linux'',
      VITE_IS_FLATPAK = None, VITE_ANDROID_UPDATE_CHECK = None\<rparr>"]
  by (simp add: platform_defs)

end
