(* ===== verification/Web_Event_Bus.thy ===== *)
theory Web_Event_Bus
  imports JS_Prelude
begin

text \<open>
  The browser event bus, \<open>lib/web-event-bus.ts\<close>. \<open>listeners\<close> maps an event name to a \<open>Set\<close> of handlers,
  and the function that \<open>subscribeWebEvent\<close> returns keeps a reference to that \<open>Set\<close>, which may
  outlive its entry in the map. The model therefore has a store: a \<open>Set\<close> is an address, \<open>handler_sets\<close>
  gives its elements in insertion order, and an unsubscribe function is a token of the event name,
  the address and the handler. Handlers are values of an arbitrary type; a dispatch is the list of the
  calls it makes, for handlers that do not themselves subscribe to or leave the event while it runs.
\<close>

record 'h bus =
  listeners :: "string \<rightharpoonup> nat"
  handler_sets :: "nat \<Rightarrow> 'h list"
  next_set :: nat

datatype 'h unlisten = Unlisten (ul_event: string) (ul_set: nat) (ul_handler: 'h)

definition empty_bus :: "'h bus" where
  "empty_bus = \<lparr>listeners = Map.empty, handler_sets = (\<lambda>_. []), next_set = 0\<rparr>"

text \<open>The calls a dispatch makes: each handler with the payload, \<^const>\<open>None\<close> for \<open>null\<close>.\<close>

definition dispatchWebEvent :: "'h bus \<Rightarrow> string \<Rightarrow> string option \<Rightarrow> ('h \<times> string option) list" where
  "dispatchWebEvent b ev payload =
     (case listeners b ev of
        None \<Rightarrow> []
      | Some a \<Rightarrow> map (\<lambda>h. (h, payload)) (handler_sets b a))"

definition subscribeWebEvent :: "'h bus \<Rightarrow> string \<Rightarrow> 'h \<Rightarrow> 'h bus \<times> 'h unlisten" where
  "subscribeWebEvent b ev h =
     (case listeners b ev of
        Some a \<Rightarrow>
          (b\<lparr>handler_sets := (handler_sets b)(a := js_set_add (handler_sets b a) h)\<rparr>, Unlisten ev a h)
      | None \<Rightarrow>
          (let a = next_set b in
           (b\<lparr>listeners := (listeners b)(ev \<mapsto> a),
              handler_sets := (handler_sets b)(a := js_set_add [] h),
              next_set := Suc a\<rparr>, Unlisten ev a h)))"

definition run_unlisten :: "'h bus \<Rightarrow> 'h unlisten \<Rightarrow> 'h bus" where
  "run_unlisten b u =
     (let a = ul_set u; hs = removeAll (ul_handler u) (handler_sets b a) in
      b\<lparr>handler_sets := (handler_sets b)(a := hs),
        listeners := (if hs = [] then (listeners b)(ul_event u := None) else listeners b)\<rparr>)"

text \<open>Every entry of the map is a \<open>Set\<close> of its own, allocated and without repetition.\<close>

definition bus_inv :: "'h bus \<Rightarrow> bool" where
  "bus_inv b \<longleftrightarrow>
     inj_on (listeners b) (dom (listeners b)) \<and>
     (\<forall>ev a. listeners b ev = Some a \<longrightarrow> a < next_set b) \<and>
     (\<forall>a. distinct (handler_sets b a))"

datatype 'h bus_op = Subscribe string 'h | RunUnlisten "'h unlisten"

fun bus_step :: "'h bus \<Rightarrow> 'h bus_op \<Rightarrow> 'h bus" where
  "bus_step b (Subscribe ev h) = fst (subscribeWebEvent b ev h)"
| "bus_step b (RunUnlisten u) = run_unlisten b u"

lemma bus_inv_subscribe: "bus_inv b \<Longrightarrow> bus_inv (fst (subscribeWebEvent b ev h))"
proof (cases "listeners b ev")
  case None
  assume inv: "bus_inv b"
  have "listeners b ev' \<noteq> Some (next_set b)" for ev'
    using inv by (auto simp: bus_inv_def)
  with inv None show ?thesis
    by (auto simp: subscribeWebEvent_def bus_inv_def Let_def inj_on_def js_set_add_def
        intro: less_SucI split: if_splits)
next
  case (Some a)
  assume "bus_inv b"
  with Some show ?thesis
    by (auto simp: subscribeWebEvent_def bus_inv_def)
qed

lemma bus_inv_unlisten: "bus_inv b \<Longrightarrow> bus_inv (run_unlisten b u)"
  by (auto simp: run_unlisten_def bus_inv_def Let_def inj_on_def distinct_removeAll split: if_splits)

interpretation bus_machine: state_machine "empty_bus :: 'h bus" bus_step bus_inv
proof
  show "bus_inv (empty_bus :: 'h bus)"
    by (simp add: bus_inv_def empty_bus_def)
next
  fix b :: "'h bus" and op
  assume "bus_inv b"
  then show "bus_inv (bus_step b op)"
    by (cases op) (simp_all add: bus_inv_subscribe bus_inv_unlisten)
qed

text \<open>The handlers an event reaches.\<close>

definition active :: "'h bus \<Rightarrow> string \<Rightarrow> 'h list" where
  "active b ev = map fst (dispatchWebEvent b ev None)"

lemma dispatch_active: "dispatchWebEvent b ev p = map (\<lambda>h. (h, p)) (active b ev)"
  by (simp add: active_def dispatchWebEvent_def comp_def split: option.splits)

lemma active_eq: "active b ev = (case listeners b ev of None \<Rightarrow> [] | Some a \<Rightarrow> handler_sets b a)"
  by (simp add: active_def dispatchWebEvent_def comp_def split: option.splits)

text \<open>An unsubscribe function is live while the \<open>Set\<close> it refers to is the one in the map.\<close>

definition live :: "'h bus \<Rightarrow> 'h unlisten \<Rightarrow> bool" where
  "live b u \<longleftrightarrow> listeners b (ul_event u) = Some (ul_set u)"

lemma live_subscribe: "live (fst (subscribeWebEvent b ev h)) (snd (subscribeWebEvent b ev h))"
  by (simp add: live_def subscribeWebEvent_def Let_def split: option.splits)

lemma active_subscribe:
  assumes "bus_inv b"
  shows "active (fst (subscribeWebEvent b ev h)) ev' =
    (if ev' = ev then js_set_add (active b ev) h else active b ev')"
proof (cases "listeners b ev")
  case None
  have "listeners b ev' \<noteq> Some (next_set b)" for ev'
    using assms by (auto simp: bus_inv_def)
  with None show ?thesis
    by (auto simp: active_eq subscribeWebEvent_def Let_def split: option.splits)
next
  case (Some a)
  have "ev' \<noteq> ev \<Longrightarrow> listeners b ev' \<noteq> Some a"
    using assms Some by (auto simp: bus_inv_def inj_on_def dom_def)
  with Some show ?thesis
    by (auto simp: active_eq subscribeWebEvent_def split: option.splits)
qed

lemma active_unlisten:
  assumes "bus_inv b" and "live b u"
  shows "active (run_unlisten b u) ev =
    (if ev = ul_event u then removeAll (ul_handler u) (active b ev) else active b ev)"
proof -
  have "ev \<noteq> ul_event u \<Longrightarrow> listeners b ev \<noteq> Some (ul_set u)"
    using assms by (auto simp: bus_inv_def live_def inj_on_def dom_def)
  with assms(2) show ?thesis
    by (auto simp: active_eq run_unlisten_def live_def Let_def split: option.splits)
qed

section \<open>Subscription and unsubscription\<close>

text \<open>
  In every state that subscriptions and unsubscriptions can reach, subscribing a handler adds it
  to its own event and to no other, once however often it is subscribed, after the handlers already
  there; and the function the subscription returned then takes exactly that handler of that event
  away again. Every other handler still gets every event, in the same order and with the same payload.
\<close>

theorem subscription_cycle:
  fixes ops :: "'h bus_op list"
  defines "b \<equiv> run_ops bus_step empty_bus ops"
  shows "dispatchWebEvent (fst (subscribeWebEvent b ev h)) ev' p =
      (if ev' = ev then map (\<lambda>x. (x, p)) (js_set_add (map fst (dispatchWebEvent b ev None)) h)
       else dispatchWebEvent b ev' p) \<and>
    dispatchWebEvent (run_unlisten (fst (subscribeWebEvent b ev h)) (snd (subscribeWebEvent b ev h))) ev' p =
      filter (\<lambda>call. \<not> (ev' = ev \<and> fst call = h)) (dispatchWebEvent b ev' p)"
proof -
  have inv: "bus_inv b" unfolding b_def by (rule bus_machine.reachable_inv)
  let ?s = "subscribeWebEvent b ev h"
  have u: "ul_event (snd ?s) = ev" "ul_handler (snd ?s) = h"
    by (simp_all add: subscribeWebEvent_def Let_def split: option.splits)
  have "removeAll h (js_set_add xs h) = filter (\<lambda>x. x \<noteq> h) xs" for xs :: "'h list"
    by (auto simp: js_set_add_def removeAll_filter_not_eq eq_commute)
  then have "active (run_unlisten (fst ?s) (snd ?s)) ev' =
      (if ev' = ev then filter (\<lambda>x. x \<noteq> h) (active b ev') else active b ev')"
    by (simp add: active_unlisten [OF bus_inv_subscribe [OF inv] live_subscribe] u
        active_subscribe [OF inv])
  then show ?thesis
    by (simp add: dispatch_active active_subscribe [OF inv] filter_map comp_def)
qed

text \<open>
  An unsubscribe function is meant to be called once. A second call is harmless only as long as the
  \<open>Set\<close> it captured is still the one in the map: when the first call emptied that \<open>Set\<close>, and so removed
  its entry, and another handler subscribed since, the second call finds its own \<open>Set\<close> empty and
  removes the entry of the new one. The new subscriber no longer gets the event.
\<close>

lemma stale_unlisten_drops_new_subscriber:
  assumes "listeners b ev = None" and "subscribeWebEvent b ev h = (b1, u)"
    and "subscribeWebEvent (run_unlisten b1 u) ev h' = (b2, u')"
  shows "dispatchWebEvent b2 ev p = [(h', p)]" "dispatchWebEvent (run_unlisten b2 u) ev p = []"
  using assms
  by (auto simp: subscribeWebEvent_def run_unlisten_def dispatchWebEvent_def Let_def js_set_add_def)

end
