(* ===== verification/Web_File_Store.thy ===== *)
theory Web_File_Store
  imports JS_Prelude "HOL-Library.Word"
begin

text \<open>
  The browser's table of selected files, \<open>lib/web-file-store.ts\<close>: \<open>filesByPath\<close> is a \<open>Map\<close> in insertion
  order and \<open>directoryPaths\<close> a \<open>Set\<close>. A browser \<open>File\<close> is a record of its name, MIME type, relative path
  and contents; its \<open>size\<close> is the number of bytes.

  The interface the send path relies on is the locale \<open>file_registry\<close>; the model's operations
  interpret it.
\<close>

type_synonym byte = "8 word"

record web_file =
  wf_name :: string
  wf_type :: string
  webkitRelativePath :: "string option"
  wf_bytes :: "byte list"

definition wf_size :: "web_file \<Rightarrow> nat" where
  "wf_size f = length (wf_bytes f)"

record web_files =
  filesByPath :: "(string \<times> web_file) list"
  directoryPaths :: "string list"

definition no_web_files :: web_files where
  "no_web_files = \<lparr>filesByPath = [], directoryPaths = []\<rparr>"

definition registerWebFile :: "string \<Rightarrow> web_file \<Rightarrow> web_files \<Rightarrow> web_files" where
  "registerWebFile path file s =
     s\<lparr>filesByPath := assoc_put path file (filesByPath s),
       directoryPaths := removeAll path (directoryPaths s)\<rparr>"

definition registerWebDirectory :: "string \<Rightarrow> web_files \<Rightarrow> web_files" where
  "registerWebDirectory path s =
     s\<lparr>directoryPaths := js_set_add (directoryPaths s) path,
       filesByPath := assoc_delete path (filesByPath s)\<rparr>"

definition getWebFile :: "web_files \<Rightarrow> string \<Rightarrow> web_file option" where
  "getWebFile s path = map_of (filesByPath s) path"

definition isWebDirectory :: "web_files \<Rightarrow> string \<Rightarrow> bool" where
  "isWebDirectory s path \<longleftrightarrow> path \<in> set (directoryPaths s)"

definition clearWebFile :: "string \<Rightarrow> web_files \<Rightarrow> web_files" where
  "clearWebFile path s =
     s\<lparr>filesByPath := assoc_delete path (filesByPath s),
       directoryPaths := removeAll path (directoryPaths s)\<rparr>"

definition clearWebFiles :: "web_files \<Rightarrow> web_files" where
  "clearWebFiles s = s\<lparr>filesByPath := [], directoryPaths := []\<rparr>"

definition webFilePathKey :: "web_file \<Rightarrow> string" where
  "webFilePathKey f =
     (case webkitRelativePath f of
        Some r \<Rightarrow> if r \<noteq> [] \<and> length r > 0 then r else wf_name f
      | None \<Rightarrow> wf_name f)"

definition listWebFileEntriesUnderPath :: "web_files \<Rightarrow> string \<Rightarrow> (string \<times> web_file) list" where
  "listWebFileEntriesUnderPath s path =
     filter (\<lambda>(filePath, file). filePath = path \<or> js_starts_with filePath (path @ ''/'')) (filesByPath s)"

definition listWebFilesUnderPath :: "web_files \<Rightarrow> string \<Rightarrow> web_file list" where
  "listWebFilesUnderPath s path = map snd (listWebFileEntriesUnderPath s path)"

text \<open>Each path is registered once, and never as a file and a directory at the same time.\<close>

definition web_files_inv :: "web_files \<Rightarrow> bool" where
  "web_files_inv s \<longleftrightarrow>
     distinct (map fst (filesByPath s)) \<and> distinct (directoryPaths s) \<and>
     fst ` set (filesByPath s) \<inter> set (directoryPaths s) = {}"

section \<open>The interface of the send path\<close>

locale file_registry =
  fixes empty :: 's
    and reg_file :: "string \<Rightarrow> 'f \<Rightarrow> 's \<Rightarrow> 's"
    and reg_dir :: "string \<Rightarrow> 's \<Rightarrow> 's"
    and unreg :: "string \<Rightarrow> 's \<Rightarrow> 's"
    and file_at :: "'s \<Rightarrow> string \<Rightarrow> 'f option"
    and dir_at :: "'s \<Rightarrow> string \<Rightarrow> bool"
    and invar :: "'s \<Rightarrow> bool"
  assumes empty_specs: "invar empty" "file_at empty p = None" "\<not> dir_at empty p"
    and reg_file_specs:
      "invar s \<Longrightarrow> invar (reg_file q f s)"
      "invar s \<Longrightarrow> file_at (reg_file q f s) p = (if p = q then Some f else file_at s p)"
      "invar s \<Longrightarrow> dir_at (reg_file q f s) p = (p \<noteq> q \<and> dir_at s p)"
    and reg_dir_specs:
      "invar s \<Longrightarrow> invar (reg_dir q s)"
      "invar s \<Longrightarrow> file_at (reg_dir q s) p = (if p = q then None else file_at s p)"
      "invar s \<Longrightarrow> dir_at (reg_dir q s) p = (p = q \<or> dir_at s p)"
    and unreg_specs:
      "invar s \<Longrightarrow> invar (unreg q s)"
      "invar s \<Longrightarrow> file_at (unreg q s) p = (if p = q then None else file_at s p)"
      "invar s \<Longrightarrow> dir_at (unreg q s) p = (p \<noteq> q \<and> dir_at s p)"
    and exclusive: "invar s \<Longrightarrow> dir_at s p \<Longrightarrow> file_at s p = None"
begin

lemma reg_files_invar: "invar s \<Longrightarrow> invar (foldl (\<lambda>s (p, f). reg_file p f s) s pfs)"
  by (induction pfs arbitrary: s) (auto simp: reg_file_specs)

lemma reg_files_file:
  "invar s \<Longrightarrow> file_at (foldl (\<lambda>s (p, f). reg_file p f s) s pfs) p =
     (case map_of (rev pfs) p of Some f \<Rightarrow> Some f | None \<Rightarrow> file_at s p)"
  by (induction pfs arbitrary: s)
    (auto simp: reg_file_specs map_add_def split: option.splits)

lemma reg_files_dir:
  "invar s \<Longrightarrow> dir_at (foldl (\<lambda>s (p, f). reg_file p f s) s pfs) p =
     (dir_at s p \<and> p \<notin> fst ` set pfs)"
  by (induction pfs arbitrary: s) (force simp: reg_file_specs)+

lemma reg_dirs_invar: "invar s \<Longrightarrow> invar (foldl (\<lambda>s p. reg_dir p s) s ds)"
  by (induction ds arbitrary: s) (auto simp: reg_dir_specs)

lemma reg_dirs_dir: "invar s \<Longrightarrow> dir_at (foldl (\<lambda>s p. reg_dir p s) s ds) p = (p \<in> set ds \<or> dir_at s p)"
  by (induction ds arbitrary: s) (auto simp: reg_dir_specs)

lemma reg_dirs_file:
  "invar s \<Longrightarrow> file_at (foldl (\<lambda>s p. reg_dir p s) s ds) p = (if p \<in> set ds then None else file_at s p)"
  by (induction ds arbitrary: s) (auto simp: reg_dir_specs)

end

interpretation registry:
  file_registry no_web_files registerWebFile registerWebDirectory clearWebFile
    getWebFile isWebDirectory web_files_inv
proof (unfold_locales, goal_cases)
  case (13 s p)
  then show ?case
    by (auto simp: web_files_inv_def isWebDirectory_def getWebFile_def map_of_eq_None_iff)
qed (auto simp: web_files_inv_def no_web_files_def registerWebFile_def registerWebDirectory_def
    clearWebFile_def getWebFile_def isWebDirectory_def distinct_assoc_put distinct_assoc_delete
    fst_assoc_put fst_assoc_delete distinct_removeAll)

datatype web_files_op =
    RegisterFile string web_file | RegisterDirectory string | ClearFile string | ClearFiles

fun web_files_step :: "web_files \<Rightarrow> web_files_op \<Rightarrow> web_files" where
  "web_files_step s (RegisterFile p f) = registerWebFile p f s"
| "web_files_step s (RegisterDirectory p) = registerWebDirectory p s"
| "web_files_step s (ClearFile p) = clearWebFile p s"
| "web_files_step s ClearFiles = clearWebFiles s"

lemma clear_all_inv: "web_files_inv (clearWebFiles s)"
  by (simp add: clearWebFiles_def web_files_inv_def)

interpretation files_machine: state_machine no_web_files web_files_step web_files_inv
proof
  show "web_files_inv no_web_files" by (rule registry.empty_specs)
next
  fix s op
  assume "web_files_inv s"
  then show "web_files_inv (web_files_step s op)"
    by (cases op)
      (simp_all add: registry.reg_file_specs registry.reg_dir_specs registry.unreg_specs
        clear_all_inv)
qed

lemma entries_under_iff:
  assumes "web_files_inv s"
  shows "(p, f) \<in> set (listWebFileEntriesUnderPath s path) \<longleftrightarrow>
    getWebFile s p = Some f \<and> (p = path \<or> js_starts_with p (path @ ''/''))"
proof -
  have "(p, f) \<in> set (filesByPath s) \<longleftrightarrow> getWebFile s p = Some f"
    using assms by (simp add: web_files_inv_def getWebFile_def)
  then show ?thesis by (simp add: listWebFileEntriesUnderPath_def)
qed

end
