(* ===== verification/JS_Json.thy ===== *)
theory JS_Json
  imports JS_Prelude
begin

text \<open>
  Dynamic JavaScript values, \<open>JSON.parse\<close> and \<open>JSON.stringify\<close>. Event payloads reach the front end as
  JSON text, and every handler parses before it looks; \<open>jsval\<close> is what a parse returns.

  Numbers are \<open>NaN\<close>, the infinities, or an exact rational: the rounding of IEEE doubles is not part of
  the model (the byte counts and times the program computes with are integers below \<open>2^53\<close>).
  An escape \<open>\u\<close> above \<open>00ff\<close> denotes a code unit outside the model's strings and is refused.

  The parser is a recursive descent over the text. Its recursion is bounded by a fuel argument;
  \<open>json_fuel_enough\<close> shows that the fuel \<open>JSON_parse\<close> gives never runs out, and
  \<open>parse_stringify\<close> that parsing undoes printing.
\<close>

datatype jsnum = NaN | PosInf | NegInf | Fin rat

datatype jsval =
    Undefined
  | Null
  | Bool bool
  | Num jsnum
  | Str string
  | Arr "jsval list"
  | Obj "(string \<times> jsval) list"

fun js_truthy :: "jsval \<Rightarrow> bool" where
  "js_truthy Undefined = False"
| "js_truthy Null = False"
| "js_truthy (Bool b) = b"
| "js_truthy (Num NaN) = False"
| "js_truthy (Num (Fin q)) = (q \<noteq> 0)"
| "js_truthy (Num _) = True"
| "js_truthy (Str s) = (s \<noteq> [])"
| "js_truthy _ = True"

text \<open>\<open>v.key\<close>: throws on \<open>null\<close> and \<open>undefined\<close>, and gives \<open>undefined\<close> for a missing property.\<close>

fun js_get :: "jsval \<Rightarrow> string \<Rightarrow> jsval result" where
  "js_get Undefined k = Inl (TypeError k)"
| "js_get Null k = Inl (TypeError k)"
| "js_get (Obj kvs) k = Inr (case map_of kvs k of None \<Rightarrow> Undefined | Some v \<Rightarrow> v)"
| "js_get _ k = Inr Undefined"

text \<open>\<open>v?.key\<close>.\<close>

definition js_opt_get :: "jsval \<Rightarrow> string \<Rightarrow> jsval" where
  "js_opt_get v k = (case js_get v k of Inl _ \<Rightarrow> Undefined | Inr x \<Rightarrow> x)"

section \<open>JSON.parse\<close>

definition json_space :: "char \<Rightarrow> bool" where
  "json_space c \<longleftrightarrow> c = CHR '' '' \<or> c = CHR 0x09 \<or> c = CHR 0x0A \<or> c = CHR 0x0D"

abbreviation skip :: "string \<Rightarrow> string" where
  "skip s \<equiv> dropWhile json_space s"

definition js_digit :: "char \<Rightarrow> bool" where
  "js_digit c \<longleftrightarrow> 48 \<le> char_code c \<and> char_code c \<le> 57"

definition digit_val :: "char \<Rightarrow> nat" where
  "digit_val c = char_code c - 48"

definition digits_val :: "string \<Rightarrow> nat" where
  "digits_val ds = foldl (\<lambda>n c. 10 * n + digit_val c) 0 ds"

definition hex_digit :: "char \<Rightarrow> nat option" where
  "hex_digit c =
     (let n = char_code c in
      if 48 \<le> n \<and> n \<le> 57 then Some (n - 48)
      else if 97 \<le> n \<and> n \<le> 102 then Some (n - 87)
      else if 65 \<le> n \<and> n \<le> 70 then Some (n - 55)
      else None)"

definition hex4 :: "char \<Rightarrow> char \<Rightarrow> char \<Rightarrow> char \<Rightarrow> nat option" where
  "hex4 a b c d =
     (case (hex_digit a, hex_digit b, hex_digit c, hex_digit d) of
        (Some w, Some x, Some y, Some z) \<Rightarrow> Some (((w * 16 + x) * 16 + y) * 16 + z)
      | _ \<Rightarrow> None)"

definition json_escape :: "char \<Rightarrow> char option" where
  "json_escape c =
     (if c = CHR 0x22 \<or> c = CHR 0x5C \<or> c = CHR ''/'' then Some c
      else if c = CHR ''b'' then Some (CHR 0x08)
      else if c = CHR ''f'' then Some (CHR 0x0C)
      else if c = CHR ''n'' then Some (CHR 0x0A)
      else if c = CHR ''r'' then Some (CHR 0x0D)
      else if c = CHR ''t'' then Some (CHR 0x09)
      else None)"

text \<open>The rest of a string literal, after the opening quote.\<close>

fun json_str :: "string \<Rightarrow> (string \<times> string) option" where
  "json_str [] = None"
| "json_str (c # cs) =
     (if c = CHR 0x22 then Some ([], cs)
      else if c = CHR 0x5C then
        (case cs of
           [] \<Rightarrow> None
         | e # ds \<Rightarrow>
             if e = CHR ''u'' then
               (case ds of
                  h1 # h2 # h3 # h4 # r \<Rightarrow>
                    (case hex4 h1 h2 h3 h4 of
                       Some n \<Rightarrow>
                         if n < 256 then map_option (\<lambda>(s, t). (char_of n # s, t)) (json_str r) else None
                     | None \<Rightarrow> None)
                | _ \<Rightarrow> None)
             else (case json_escape e of
                     Some x \<Rightarrow> map_option (\<lambda>(s, t). (x # s, t)) (json_str ds)
                   | None \<Rightarrow> None))
      else if char_code c < 32 then None
      else map_option (\<lambda>(s, t). (c # s, t)) (json_str cs))"

text \<open>A number: sign, integer part without a leading zero, fraction, exponent.\<close>

definition json_frac :: "string \<Rightarrow> (rat \<times> string) option" where
  "json_frac s =
     (case s of
        c # cs \<Rightarrow>
          if c = CHR ''.'' then
            (let ds = takeWhile js_digit cs in
             if ds = [] then None
             else Some (of_nat (digits_val ds) / 10 ^ length ds, dropWhile js_digit cs))
          else Some (0, s)
      | [] \<Rightarrow> Some (0, s))"

definition json_exp :: "string \<Rightarrow> (rat \<times> string) option" where
  "json_exp s =
     (case s of
        c # cs \<Rightarrow>
          if c = CHR ''e'' \<or> c = CHR ''E'' then
            (let neg = (case cs of d # _ \<Rightarrow> d = CHR ''-'' | [] \<Rightarrow> False);
                 cs' = (case cs of d # r \<Rightarrow> if d = CHR ''-'' \<or> d = CHR ''+'' then r else cs | [] \<Rightarrow> cs);
                 ds = takeWhile js_digit cs' in
             if ds = [] then None
             else Some (if neg then 1 / 10 ^ digits_val ds else 10 ^ digits_val ds,
                        dropWhile js_digit cs'))
          else Some (1, s)
      | [] \<Rightarrow> Some (1, s))"

definition json_num :: "string \<Rightarrow> (rat \<times> string) option" where
  "json_num s =
     (let neg = (case s of c # _ \<Rightarrow> c = CHR ''-'' | [] \<Rightarrow> False);
          t = (if neg then tl s else s);
          ds = takeWhile js_digit t in
      if ds = [] \<or> (hd ds = CHR ''0'' \<and> tl ds \<noteq> []) then None
      else case json_frac (dropWhile js_digit t) of
        None \<Rightarrow> None
      | Some (fr, t1) \<Rightarrow>
          (case json_exp t1 of
             None \<Rightarrow> None
           | Some (ex, t2) \<Rightarrow>
               Some ((if neg then -1 else 1) * (of_nat (digits_val ds) + fr) * ex, t2)))"

text \<open>Later members of an object win, in the place of the first.\<close>

definition obj_of_members :: "(string \<times> jsval) list \<Rightarrow> (string \<times> jsval) list" where
  "obj_of_members ms = foldl (\<lambda>o' (k, v). assoc_put k v o') [] ms"

definition json_atom :: "string \<Rightarrow> (jsval \<times> string) option" where
  "json_atom s =
     (if prefix ''true'' s then Some (Bool True, drop 4 s)
      else if prefix ''false'' s then Some (Bool False, drop 5 s)
      else if prefix ''null'' s then Some (Null, drop 4 s)
      else map_option (\<lambda>(q, r). (Num (Fin q), r)) (json_num s))"

fun json_val :: "nat \<Rightarrow> string \<Rightarrow> (jsval \<times> string) option"
  and json_elems :: "nat \<Rightarrow> string \<Rightarrow> (jsval list \<times> string) option"
  and json_members :: "nat \<Rightarrow> string \<Rightarrow> ((string \<times> jsval) list \<times> string) option" where
  "json_val 0 s = None"
| "json_val (Suc n) s =
     (case skip s of
        [] \<Rightarrow> None
      | c # cs \<Rightarrow>
          if c = CHR 0x22 then map_option (\<lambda>(x, r). (Str x, r)) (json_str cs)
          else if c = CHR ''['' then
            (case skip cs of
               [] \<Rightarrow> None
             | d # r \<Rightarrow>
                 if d = CHR '']'' then Some (Arr [], r)
                 else map_option (\<lambda>(xs, r). (Arr xs, r)) (json_elems n (d # r)))
          else if c = CHR ''{'' then
            (case skip cs of
               [] \<Rightarrow> None
             | d # r \<Rightarrow>
                 if d = CHR ''}'' then Some (Obj [], r)
                 else map_option (\<lambda>(ms, r). (Obj (obj_of_members ms), r)) (json_members n (d # r)))
          else json_atom (c # cs))"
| "json_elems 0 s = None"
| "json_elems (Suc n) s =
     (case json_val n s of
        None \<Rightarrow> None
      | Some (v, r) \<Rightarrow>
          (case skip r of
             [] \<Rightarrow> None
           | c # t \<Rightarrow>
               if c = CHR '','' then map_option (\<lambda>(vs, u). (v # vs, u)) (json_elems n t)
               else if c = CHR '']'' then Some ([v], t)
               else None))"
| "json_members 0 s = None"
| "json_members (Suc n) s =
     (case skip s of
        [] \<Rightarrow> None
      | q # cs \<Rightarrow>
          if q \<noteq> CHR 0x22 then None
          else case json_str cs of
            None \<Rightarrow> None
          | Some (k, r) \<Rightarrow>
              (case skip r of
                 [] \<Rightarrow> None
               | c # t \<Rightarrow>
                   if c \<noteq> CHR '':'' then None
                   else case json_val n t of
                     None \<Rightarrow> None
                   | Some (v, u) \<Rightarrow>
                       (case skip u of
                          [] \<Rightarrow> None
                        | d # w \<Rightarrow>
                            if d = CHR '','' then
                              map_option (\<lambda>(ms, x). ((k, v) # ms, x)) (json_members n w)
                            else if d = CHR ''}'' then Some ([(k, v)], w)
                            else None)))"

definition json_fuel :: "string \<Rightarrow> nat" where
  "json_fuel s = 2 * length s + 2"

definition JSON_parse :: "string \<Rightarrow> jsval option" where
  "JSON_parse s =
     (case json_val (json_fuel s) s of
        Some (v, r) \<Rightarrow> if skip r = [] then Some v else None
      | None \<Rightarrow> None)"

section \<open>JSON.stringify\<close>

text \<open>The values the front end writes out: its numbers are counts and sizes.\<close>

datatype json =
    JNull
  | JBool bool
  | JNat nat
  | JStr string
  | JArr "json list"
  | JObj "(string \<times> json) list"

fun json_embed :: "json \<Rightarrow> jsval" where
  "json_embed JNull = Null"
| "json_embed (JBool b) = Bool b"
| "json_embed (JNat n) = Num (Fin (of_nat n))"
| "json_embed (JStr s) = Str s"
| "json_embed (JArr xs) = Arr (map json_embed xs)"
| "json_embed (JObj ms) = Obj (map (\<lambda>(k, v). (k, json_embed v)) ms)"

definition hex_char :: "nat \<Rightarrow> char" where
  "hex_char n = (if n < 10 then char_of (48 + n) else char_of (87 + n))"

definition quote_char :: "char \<Rightarrow> string" where
  "quote_char c =
     (if c = CHR 0x22 then [CHR 0x5C, CHR 0x22]
      else if c = CHR 0x5C then [CHR 0x5C, CHR 0x5C]
      else if c = CHR 0x08 then [CHR 0x5C, CHR ''b'']
      else if c = CHR 0x0C then [CHR 0x5C, CHR ''f'']
      else if c = CHR 0x0A then [CHR 0x5C, CHR ''n'']
      else if c = CHR 0x0D then [CHR 0x5C, CHR ''r'']
      else if c = CHR 0x09 then [CHR 0x5C, CHR ''t'']
      else if char_code c < 32 then
        [CHR 0x5C, CHR ''u'', CHR ''0'', CHR ''0'', hex_char (char_code c div 16), hex_char (char_code c mod 16)]
      else [c])"

definition json_quote :: "string \<Rightarrow> string" where
  "json_quote s = [CHR 0x22] @ concat (map quote_char s) @ [CHR 0x22]"

fun JSON_stringify :: "json \<Rightarrow> string" where
  "JSON_stringify JNull = ''null''"
| "JSON_stringify (JBool b) = (if b then ''true'' else ''false'')"
| "JSON_stringify (JNat n) = show_nat n"
| "JSON_stringify (JStr s) = json_quote s"
| "JSON_stringify (JArr xs) = ''['' @ js_join '','' (map JSON_stringify xs) @ '']''"
| "JSON_stringify (JObj ms) =
     ''{'' @ js_join '','' (map (\<lambda>(k, v). json_quote k @ '':'' @ JSON_stringify v) ms) @ ''}''"

section \<open>The fuel is enough\<close>

lemma length_skip: "length (skip s) \<le> length s"
  by (rule length_dropWhile_le)

lemma json_str_shorter: "json_str s = Some (x, r) \<Longrightarrow> length r < length s"
proof (induction s arbitrary: x r rule: json_str.induct)
  case (2 c cs)
  then show ?case
    by (force split: if_splits list.splits option.splits)
qed simp

lemma json_frac_shorter: "json_frac s = Some (q, r) \<Longrightarrow> length r \<le> length s"
  by (auto simp: json_frac_def Let_def intro: order_trans [OF length_dropWhile_le] le_SucI
      split: list.splits if_splits)

lemma json_exp_shorter: "json_exp s = Some (q, r) \<Longrightarrow> length r \<le> length s"
  by (auto simp: json_exp_def Let_def intro: order_trans [OF length_dropWhile_le] le_SucI
      split: list.splits if_splits)

lemma length_dropWhile_less: "takeWhile p t \<noteq> [] \<Longrightarrow> length (dropWhile p t) < length t"
  by (cases t) (auto simp: less_Suc_eq_le length_dropWhile_le split: if_splits)

lemma json_num_shorter:
  assumes "json_num s = Some (q, r)"
  shows "length r < length s"
proof -
  define t where "t = (if (case s of c # _ \<Rightarrow> c = CHR ''-'' | [] \<Rightarrow> False) then tl s else s)"
  have t: "length t \<le> length s" by (simp add: t_def)
  from assms obtain fr t1 ex where
    ne: "takeWhile js_digit t \<noteq> []" and
    f: "json_frac (dropWhile js_digit t) = Some (fr, t1)" and
    e: "json_exp t1 = Some (ex, r)"
    by (auto simp: json_num_def Let_def t_def split: if_splits option.splits)
  have "length r \<le> length t1" by (rule json_exp_shorter [OF e])
  also have "\<dots> \<le> length (dropWhile js_digit t)" by (rule json_frac_shorter [OF f])
  also have "\<dots> < length t" by (rule length_dropWhile_less [OF ne])
  finally show ?thesis using t by simp
qed

lemma json_atom_shorter: "json_atom s = Some (v, r) \<Longrightarrow> length r < length s"
  by (auto simp: json_atom_def dest: json_num_shorter prefix_length_le split: if_splits)

lemma skip_Cons: "skip s = c # cs \<Longrightarrow> length cs < length s"
  using length_skip [of s] by simp

lemma json_shorter:
  "json_val n s = Some (v, r) \<Longrightarrow> length r < length s"
  "json_elems n s = Some (vs, r) \<Longrightarrow> length r < length s"
  "json_members n s = Some (ms, r) \<Longrightarrow> length r < length s"
proof (induction n s and n s and n s arbitrary: v r and vs r and ms r
    rule: json_val_json_elems_json_members.induct)
  case (2 n s)
  obtain c cs where c: "skip s = c # cs"
    using "2.prems" by (cases "skip s") auto
  show ?case
    using "2.prems" "2.IH" c length_skip [of s] length_skip [of cs]
    by (auto dest!: json_str_shorter json_atom_shorter split: if_splits list.splits) force+
next
  case (4 n s)
  then show ?case
    by (auto split: if_splits list.splits option.splits dest!: skip_Cons) force+
next
  case (6 n s)
  obtain q cs where q: "skip s = q # cs" "q = CHR 0x22"
    using "6.prems" by (cases "skip s") (auto split: if_splits)
  obtain k u where k: "json_str cs = Some (k, u)"
    using "6.prems" q by (auto split: option.splits)
  obtain t where t: "skip u = CHR '':'' # t"
    using "6.prems" q k by (cases "skip u") (auto split: if_splits)
  obtain x w where x: "json_val n t = Some (x, w)"
    using "6.prems" q k t by (auto split: option.splits)
  obtain d y where d: "skip w = d # y"
    using "6.prems" q k t x by (cases "skip w") auto
  have "length w < length t"
    using "6.IH" q k t x by simp
  then have y: "length y < length s"
    using skip_Cons [OF q(1)] json_str_shorter [OF k] skip_Cons [OF t] skip_Cons [OF d] by simp
  show ?case
  proof (cases "d = CHR '',''")
    case True
    then obtain ms' where "json_members n y = Some (ms', r)"
      using "6.prems" q k t x d by auto
    then have "length r < length y"
      using "6.IH" q k t x d True by simp
    with y show ?thesis by simp
  next
    case False
    then show ?thesis using "6.prems" q k t x d y by (auto split: if_splits)
  qed
qed auto

lemma json_fuel_step:
  "2 * length s + 1 \<le> n \<Longrightarrow> json_val (Suc n) s = json_val n s"
  "2 * length s + 2 \<le> n \<Longrightarrow> json_elems (Suc n) s = json_elems n s"
  "2 * length s + 2 \<le> n \<Longrightarrow> json_members (Suc n) s = json_members n s"
  supply dropWhile_eq_Nil_conv [simp del]
proof (induction n arbitrary: s)
  case (Suc n)
  { case 1
    show ?case
    proof (cases "skip s")
      case (Cons c cs)
      have "json_elems (Suc n) (d # r) = json_elems n (d # r)"
        and "json_members (Suc n) (d # r) = json_members n (d # r)" if "skip cs = d # r" for d r
        using Suc.IH(2,3) [of "d # r"] 1 skip_Cons [OF Cons] length_skip [of cs] that by auto
      then show ?thesis
        using Cons
        by (cases "skip cs") (simp_all del: json_val.simps json_elems.simps json_members.simps
            add: json_val.simps(2) [of n] json_val.simps(2) [of "Suc n"])
    qed simp
  next
    case 2
    have v: "json_val (Suc n) s = json_val n s" using Suc.IH(1) 2 by simp
    have "json_elems (Suc n) t = json_elems n t"
      if "json_val n s = Some (x, r)" and "skip r = c # t" for x r c t
      using json_shorter(1) [OF that(1)] skip_Cons [OF that(2)] 2 by (intro Suc.IH(2)) simp
    then show ?case
      by (simp del: json_val.simps json_elems.simps json_members.simps
            add: json_elems.simps(2) [of n] json_elems.simps(2) [of "Suc n"] v
            split: list.split option.split)
  next
    case 3
    have v: "json_val (Suc n) t = json_val n t"
      if "skip s = q # cs" "json_str cs = Some (k, u)" "skip u = c # t" for q cs k u c t
      using skip_Cons [OF that(1)] json_str_shorter [OF that(2)] skip_Cons [OF that(3)] 3
      by (intro Suc.IH(1)) simp
    have m: "json_members (Suc n) y = json_members n y"
      if "skip s = q # cs" "json_str cs = Some (k, u)" "skip u = c # t"
        "json_val n t = Some (x, w)" "skip w = d # y" for q cs k u c t x w d y
      using skip_Cons [OF that(1)] json_str_shorter [OF that(2)] skip_Cons [OF that(3)]
        json_shorter(1) [OF that(4)] skip_Cons [OF that(5)] 3
      by (intro Suc.IH(3)) simp
    from v m show ?case
      by (simp del: json_val.simps json_elems.simps json_members.simps
            add: json_members.simps(2) [of n] json_members.simps(2) [of "Suc n"]
            split: list.split option.split)
  }
qed simp_all

lemma json_fuel_enough: "json_fuel s \<le> n \<Longrightarrow> json_val n s = json_val (json_fuel s) s"
proof (induction n rule: dec_induct)
  case (step n)
  then show ?case using json_fuel_step(1) [of s n] by (simp add: json_fuel_def)
qed simp

section \<open>Parsing undoes printing\<close>

lemma hex_digit_hex_char: "k < 16 \<Longrightarrow> hex_digit (hex_char k) = Some k"
  by (auto simp: hex_digit_def hex_char_def Let_def)

lemma hex4_control: "n < 32 \<Longrightarrow> hex4 (CHR ''0'') (CHR ''0'') (hex_char (n div 16)) (hex_char (n mod 16)) = Some n"
proof -
  assume n: "n < 32"
  have z: "hex_digit (CHR ''0'') = Some 0" by (simp add: hex_digit_def char_code_def)
  have "n div 16 < 16" "n mod 16 < 16" using n by auto
  then show ?thesis
    by (simp add: hex4_def z hex_digit_hex_char)
qed

lemma json_str_quote_char:
  "json_str (quote_char c @ r) = map_option (\<lambda>(s, t). (c # s, t)) (json_str r)"
proof -
  have "char_of (char_code c) = c" by (simp add: char_code_def)
  then show ?thesis
    using char_code_less [of c]
    by (auto simp: quote_char_def json_escape_def hex4_control)
qed

lemma json_str_quote: "json_str (concat (map quote_char s) @ CHR 0x22 # r) = Some (s, r)"
  by (induction s) (simp_all add: json_str_quote_char del: json_str.simps, simp)

lemma digits_val_snoc [simp]: "digits_val (ds @ [d]) = 10 * digits_val ds + digit_val d"
  by (simp add: digits_val_def)

lemma digit_char [simp]: "n < 10 \<Longrightarrow> js_digit (char_of (48 + n)) \<and> digit_val (char_of (48 + n)) = n"
  by (simp add: js_digit_def digit_val_def)

lemma digits_show_nat: "digits_val (show_nat n) = n \<and> list_all js_digit (show_nat n)"
proof (induction n rule: show_nat.induct)
  case (1 n)
  show ?case
  proof (cases "n < 10")
    case True
    then show ?thesis by (subst (1 2) show_nat.simps) (simp add: digits_val_def)
  next
    case False
    with 1 have IH: "digits_val (show_nat (n div 10)) = n div 10" "list_all js_digit (show_nat (n div 10))"
      by auto
    have "n mod 10 < 10" by simp
    note d = digit_char [OF this]
    show ?thesis
      using False IH d by (simp add: show_nat.simps [of n])
  qed
qed

lemma show_nat_hd: "hd (show_nat n) = CHR ''0'' \<Longrightarrow> n = 0"
proof (induction n rule: show_nat.induct)
  case (1 n)
  show ?case
  proof (cases "n < 10")
    case True
    have "char_code (char_of (48 + n)) = 48" 
      using 1(2) True by (simp add: show_nat.simps [of n] char_code_def)
    with True show ?thesis by simp
  next
    case False
    then have "hd (show_nat (n div 10)) = CHR ''0''" using 1(2) by (simp add: show_nat.simps [of n])
    with 1(1) False show ?thesis by simp
  qed
qed

text \<open>What may follow a value inside a printed text.\<close>

definition follows :: "string \<Rightarrow> bool" where
  "follows r \<longleftrightarrow> (case r of [] \<Rightarrow> True | c # _ \<Rightarrow> c = CHR '','' \<or> c = CHR '']'' \<or> c = CHR ''}'')"

lemma json_num_show_nat:
  assumes "follows r"
  shows "json_num (show_nat n @ r) = Some (of_nat n, r)"
proof -
  have dig: "list_all js_digit (show_nat n)" and val: "digits_val (show_nat n) = n"
    using digits_show_nat by auto
  have nd: "\<not> js_digit c" if "c = CHR '','' \<or> c = CHR '']'' \<or> c = CHR ''}''" for c
    using that by (auto simp: js_digit_def char_code_def)
  have tw: "takeWhile js_digit (show_nat n @ r) = show_nat n" 
    and dw: "dropWhile js_digit (show_nat n @ r) = r"
    using dig assms nd
    by (auto simp: takeWhile_append dropWhile_append list_all_iff follows_def split: list.splits)
  have hd: "show_nat n \<noteq> [] \<and> js_digit (hd (show_nat n))"
    using dig by (cases "show_nat n") auto
  have "\<not> js_digit (CHR ''-'')" by (simp add: js_digit_def char_code_def)
  then have neg: "(case show_nat n @ r of c # _ \<Rightarrow> c = CHR ''-'' | [] \<Rightarrow> False) = False"
    using hd by (cases "show_nat n") auto
  have lead: "\<not> (hd (show_nat n) = CHR ''0'' \<and> tl (show_nat n) \<noteq> [])"
  proof
    assume a: "hd (show_nat n) = CHR ''0'' \<and> tl (show_nat n) \<noteq> []"
    then have "n = 0" by (auto dest: show_nat_hd)
    with a show False by (simp add: show_nat.simps [of 0])
  qed
  have fr: "json_frac r = Some (0, r)" and ex: "json_exp r = Some (1, r)"
    using assms by (auto simp: json_frac_def json_exp_def follows_def split: list.splits)
  show ?thesis
    using hd lead by (simp add: json_num_def neg tw dw fr ex val Let_def)
qed

fun json_wf :: "json \<Rightarrow> bool" where
  "json_wf (JArr xs) = list_all json_wf xs"
| "json_wf (JObj ms) = (distinct (map fst ms) \<and> list_all (\<lambda>(k, v). json_wf v) ms)"
| "json_wf _ = True"

lemma obj_of_members_distinct: "distinct (map fst ms) \<Longrightarrow> obj_of_members ms = ms"
proof -
  have put: "k \<notin> fst ` set o' \<Longrightarrow> assoc_put k v o' = o' @ [(k, v)]" for k v and o' :: "(string \<times> jsval) list"
    by (induction o') auto
  have "distinct (map fst (acc @ ms)) \<Longrightarrow> foldl (\<lambda>o' (k, v). assoc_put k v o') acc ms = acc @ ms" for acc
  proof (induction ms arbitrary: acc)
    case (Cons m ms)
    obtain k v where m: "m = (k, v)" by (cases m)
    have "assoc_put k v acc = acc @ [(k, v)]"
      using Cons.prems m by (intro put) auto
    then show ?case using Cons.IH [of "acc @ [(k, v)]"] Cons.prems by (simp add: m)
  qed simp
  from this [of "[]"] show "distinct (map fst ms) \<Longrightarrow> ?thesis" by (simp add: obj_of_members_def)
qed

lemma stringify_hd:
  obtains c cs where "JSON_stringify v = c # cs" "\<not> json_space c" "c \<noteq> CHR '']''" "c \<noteq> CHR ''}''"
proof (cases v)
  case (JNat n)
  have "list_all js_digit (show_nat n)" using digits_show_nat by simp
  moreover obtain c cs where c: "show_nat n = c # cs" by (cases "show_nat n") auto
  ultimately have "js_digit c" by simp
  then have "\<not> json_space c" "c \<noteq> CHR '']''" "c \<noteq> CHR ''}''"
    by (auto simp: js_digit_def json_space_def char_code_def)
  with that c JNat show ?thesis by simp
next
  case (JBool b)
  then show ?thesis
    using that by (cases b) (auto simp: json_space_def)
qed (auto intro: that simp: json_space_def json_quote_def)

lemma js_join_Cons: "js_join sep (w # ws) = w @ (if ws = [] then [] else sep @ js_join sep ws)"
  by (cases ws) auto

lemma skip_non_space [simp]: "\<not> json_space c \<Longrightarrow> skip (c # cs) = c # cs"
  by simp

lemma json_space_punct [simp]:
  "\<not> json_space (CHR '','')" "\<not> json_space (CHR '']'')" "\<not> json_space (CHR ''}'')"
  "\<not> json_space (CHR '':'')" "\<not> json_space (CHR ''['')" "\<not> json_space (CHR ''{'')"
  "\<not> json_space (CHR 0x22)"
  by (simp_all add: json_space_def)

definition prints_back :: "json \<Rightarrow> bool" where
  "prints_back v \<longleftrightarrow> (\<forall>n r. follows r \<longrightarrow> 2 * length (JSON_stringify v @ r) + 1 \<le> n \<longrightarrow>
     json_val n (JSON_stringify v @ r) = Some (json_embed v, r))"

lemma prints_backD:
  "prints_back v \<Longrightarrow> follows r \<Longrightarrow> 2 * length (JSON_stringify v @ r) + 1 \<le> n \<Longrightarrow>
   json_val n (JSON_stringify v @ r) = Some (json_embed v, r)"
  unfolding prints_back_def by blast

lemma prints_backI:
  assumes "\<And>m r. follows r \<Longrightarrow> 2 * length (JSON_stringify v @ r) \<le> m \<Longrightarrow>
    json_val (Suc m) (JSON_stringify v @ r) = Some (json_embed v, r)"
  shows "prints_back v"
  unfolding prints_back_def
proof (intro allI impI)
  fix n r assume "follows r" "2 * length (JSON_stringify v @ r) + 1 \<le> n"
  then obtain m where "n = Suc m" "2 * length (JSON_stringify v @ r) \<le> m" by (cases n) auto
  with assms \<open>follows r\<close> show "json_val n (JSON_stringify v @ r) = Some (json_embed v, r)" by blast
qed

lemma elems_back:
  assumes "\<forall>v \<in> set vs. prints_back v" and "vs \<noteq> []"
    and "2 * length (js_join '','' (map JSON_stringify vs) @ '']'' @ r) + 2 \<le> n"
  shows "json_elems n (js_join '','' (map JSON_stringify vs) @ '']'' @ r) = Some (map json_embed vs, r)"
  using assms
proof (induction vs arbitrary: n)
  case (Cons v vs)
  obtain m where m: "n = Suc m" using Cons.prems(3) by (cases n) auto
  define t where "t = (if vs = [] then '']'' @ r else '','' @ js_join '','' (map JSON_stringify vs) @ '']'' @ r)"
  have s: "js_join '','' (map JSON_stringify (v # vs)) @ '']'' @ r = JSON_stringify v @ t"
    by (simp add: js_join_Cons t_def)
  have "json_val m (JSON_stringify v @ t) = Some (json_embed v, t)"
  proof (rule prints_backD)
    show "prints_back v" using Cons.prems(1) by simp
    show "follows t" by (simp add: follows_def t_def)
    show "2 * length (JSON_stringify v @ t) + 1 \<le> m" using Cons.prems(3) m unfolding s by simp
  qed
  moreover have "json_elems m (js_join '','' (map JSON_stringify vs) @ '']'' @ r) = Some (map json_embed vs, r)"
    if "vs \<noteq> []"
    using Cons.prems that m by (intro Cons.IH) (auto simp: js_join_Cons)
  ultimately show ?case
    unfolding s m by (simp add: t_def)
qed simp

lemma members_back:
  assumes "\<forall>(k, v) \<in> set ms. prints_back v" and "ms \<noteq> []"
    and "2 * length (js_join '','' (map (\<lambda>(k, v). json_quote k @ '':'' @ JSON_stringify v) ms) @ ''}'' @ r) + 2 \<le> n"
  shows "json_members n (js_join '','' (map (\<lambda>(k, v). json_quote k @ '':'' @ JSON_stringify v) ms) @ ''}'' @ r) =
    Some (map (\<lambda>(k, v). (k, json_embed v)) ms, r)"
  using assms
proof (induction ms arbitrary: n)
  case (Cons kv ms)
  obtain k v where kv: "kv = (k, v)" by (cases kv)
  obtain m where m: "n = Suc m" using Cons.prems(3) by (cases n) auto
  define J where "J = js_join '','' (map (\<lambda>(k, v). json_quote k @ '':'' @ JSON_stringify v) ms)"
  define t where "t = (if ms = [] then ''}'' @ r else '','' @ J @ ''}'' @ r)"
  have s: "js_join '','' (map (\<lambda>(k, v). json_quote k @ '':'' @ JSON_stringify v) (kv # ms)) @ ''}'' @ r =
      CHR 0x22 # concat (map quote_char k) @ CHR 0x22 # CHR '':'' # JSON_stringify v @ t"
    by (simp add: js_join_Cons t_def J_def kv json_quote_def)
  have v: "json_val m (JSON_stringify v @ t) = Some (json_embed v, t)"
  proof (rule prints_backD)
    show "prints_back v" using Cons.prems(1) kv by simp
    show "follows t" by (simp add: follows_def t_def)
    show "2 * length (JSON_stringify v @ t) + 1 \<le> m" using Cons.prems(3) m unfolding s by simp
  qed
  have IH: "json_members m (J @ ''}'' @ r) = Some (map (\<lambda>(k, v). (k, json_embed v)) ms, r)"
    if "ms \<noteq> []"
    unfolding J_def using Cons.prems that m by (intro Cons.IH) (auto simp: js_join_Cons kv)
  show ?case
    unfolding s m using v IH by (simp add: t_def json_str_quote kv)
qed simp

lemma json_val_other:
  "\<not> json_space c \<Longrightarrow> c \<noteq> CHR 0x22 \<Longrightarrow> c \<noteq> CHR ''['' \<Longrightarrow> c \<noteq> CHR ''{'' \<Longrightarrow>
   json_val (Suc m) (c # cs) = json_atom (c # cs)"
  by simp

lemma nat_back: "prints_back (JNat k)"
proof (rule prints_backI)
  fix m r assume r: "follows r"
  have "list_all js_digit (show_nat k)" using digits_show_nat by simp
  moreover obtain c cs where c: "show_nat k = c # cs" by (cases "show_nat k") auto
  ultimately have d: "js_digit c" by simp
  have "json_val (Suc m) (c # cs @ r) = json_atom (c # cs @ r)"
    using d by (intro json_val_other) (auto simp: js_digit_def json_space_def char_code_def)
  moreover have "\<not> prefix ''true'' (c # cs @ r)" "\<not> prefix ''false'' (c # cs @ r)" "\<not> prefix ''null'' (c # cs @ r)"
    using d by (auto simp: js_digit_def char_code_def)
  moreover have "json_num (c # cs @ r) = Some (of_nat k, r)"
    using json_num_show_nat [OF r, of k] c by simp
  ultimately show "json_val (Suc m) (JSON_stringify (JNat k) @ r) = Some (json_embed (JNat k), r)"
    using c by (simp add: json_atom_def del: json_val.simps)
qed

lemma arr_back:
  assumes "\<forall>v \<in> set vs. prints_back v"
  shows "prints_back (JArr vs)"
proof (rule prints_backI)
  fix m r
  assume m: "2 * length (JSON_stringify (JArr vs) @ r) \<le> m"
  show "json_val (Suc m) (JSON_stringify (JArr vs) @ r) = Some (json_embed (JArr vs), r)"
  proof (cases vs)
    case (Cons v ws)
    obtain c cs where c: "JSON_stringify v = c # cs" "\<not> json_space c" "c \<noteq> CHR '']''"
      by (rule stringify_hd)
    have "json_elems m (js_join '','' (map JSON_stringify vs) @ '']'' @ r) = Some (map json_embed vs, r)"
      using m Cons assms by (intro elems_back) auto
    with c Cons show ?thesis by (simp add: js_join_Cons)
  qed simp
qed

lemma obj_back:
  assumes "\<forall>(k, v) \<in> set ms. prints_back v" and "distinct (map fst ms)"
  shows "prints_back (JObj ms)"
proof (rule prints_backI)
  fix m r
  assume m: "2 * length (JSON_stringify (JObj ms) @ r) \<le> m"
  have "distinct (map fst (map (\<lambda>(k, v). (k, json_embed v)) ms))"
    using assms(2) by (simp add: comp_def case_prod_beta')
  note ob = obj_of_members_distinct [OF this]
  show "json_val (Suc m) (JSON_stringify (JObj ms) @ r) = Some (json_embed (JObj ms), r)"
  proof (cases ms)
    case (Cons kv ws)
    obtain k v where kv: "kv = (k, v)" by (cases kv)
    have "json_members m (js_join '','' (map (\<lambda>(k, v). json_quote k @ '':'' @ JSON_stringify v) ms) @ ''}'' @ r) =
        Some (map (\<lambda>(k, v). (k, json_embed v)) ms, r)"
      using m Cons assms(1) by (intro members_back) auto
    with Cons ob show ?thesis by (simp add: js_join_Cons kv json_quote_def)
  qed simp
qed

lemma stringify_back: "json_wf v \<Longrightarrow> prints_back v"
proof (induction v rule: json_wf.induct [case_names arr obj null bool nat str])
  case (arr xs)
  then show ?case by (intro arr_back) (auto simp: list_all_iff)
next
  case (obj ms)
  then show ?case by (intro obj_back) (auto simp: list_all_iff)
next
  case null
  show ?case by (rule prints_backI) (simp add: json_atom_def json_space_def)
next
  case (bool b)
  show ?case by (rule prints_backI) (cases b; simp add: json_atom_def json_space_def)
next
  case (nat k)
  show ?case by (rule nat_back)
next
  case (str s)
  show ?case by (rule prints_backI) (simp add: json_quote_def json_str_quote)
qed

lemma parse_stringify: "json_wf v \<Longrightarrow> JSON_parse (JSON_stringify v) = Some (json_embed v)"
  using prints_backD [OF stringify_back, of v "[]" "json_fuel (JSON_stringify v)"]
  by (simp add: JSON_parse_def json_fuel_def follows_def)

end
