(* ===== verification/Web_Send.thy ===== *)
theory Web_Send
  imports Web_File_Store JS_Json
begin

text \<open>
  What a browser send hands to the engine: \<open>lib/web-send-metadata.ts\<close> and \<open>lib/web-send-items.ts\<close>.
  Every function reads the table of \<open>Web_File_Store\<close>, which the argument \<open>s\<close> holds; the table is
  not changed while a payload is collected. Two library functions of the host are parameters: \<open>lc\<close>
  is \<open>String.prototype.localeCompare\<close>, which depends on the user's locale, and \<open>read\<close> is
  \<open>File.arrayBuffer\<close>, which may reject.
\<close>

record preview_item =
  pi_file_name :: string
  pi_size :: nat
  pi_mime_type :: string

record web_metadata =
  md_file_name :: string
  md_item_count :: nat
  md_size :: nat
  md_mime_type :: string
  md_items :: "preview_item list option"

definition webMimeType :: "web_file \<Rightarrow> string" where
  "webMimeType file = js_or (wf_type file) ''application/octet-stream''"

definition basename :: "string \<Rightarrow> string" where
  "basename path =
     (let segments = js_filter_boolean (js_split (CHR ''/'') path) in
      if segments = [] then path else last segments)"

text \<open>The \<open>seen\<close> map of \<open>dedupName\<close> is its counter per name, 0 where it has no entry.\<close>

definition dedupName :: "string \<Rightarrow> (string \<Rightarrow> nat) \<Rightarrow> string \<times> (string \<Rightarrow> nat)" where
  "dedupName name seen =
     (let count = seen name; seen' = seen(name := count + 1) in
      if count = 0 then (name, seen')
      else case js_last_index (CHR ''.'') name of
        Some dot \<Rightarrow>
          if dot > 0 then (take dot name @ '' ('' @ show_nat count @ '')'' @ drop dot name, seen')
          else (name @ '' ('' @ show_nat count @ '')'', seen')
      | None \<Rightarrow> (name @ '' ('' @ show_nat count @ '')'', seen'))"

definition under_size :: "web_files \<Rightarrow> string \<Rightarrow> nat" where
  "under_size s path = sum_list (map wf_size (listWebFilesUnderPath s path))"

fun preview_items_from :: "web_files \<Rightarrow> (string \<Rightarrow> nat) \<Rightarrow> string list \<Rightarrow> preview_item list" where
  "preview_items_from s seen [] = []"
| "preview_items_from s seen (path # paths) =
     (if isWebDirectory s path then
        (let (nm, seen') = dedupName (basename path) seen in
         \<lparr>pi_file_name = nm, pi_size = under_size s path, pi_mime_type = ''inode/directory''\<rparr>
         # preview_items_from s seen' paths)
      else case getWebFile s path of
        None \<Rightarrow> preview_items_from s seen paths
      | Some file \<Rightarrow>
          (let (nm, seen') = dedupName (basename path) seen in
           \<lparr>pi_file_name = nm, pi_size = wf_size file, pi_mime_type = webMimeType file\<rparr>
           # preview_items_from s seen' paths))"

definition buildPreviewItems ::
  "(string \<Rightarrow> string \<Rightarrow> int) \<Rightarrow> web_files \<Rightarrow> string list \<Rightarrow> preview_item list" where
  "buildPreviewItems lc s paths =
     js_sort (\<lambda>a b. lc (pi_file_name a) (pi_file_name b)) (preview_items_from s (\<lambda>_. 0) paths)"

fun totalSizeForPaths :: "web_files \<Rightarrow> string list \<Rightarrow> nat" where
  "totalSizeForPaths s [] = 0"
| "totalSizeForPaths s (path # paths) =
     (if isWebDirectory s path then under_size s path
      else case getWebFile s path of None \<Rightarrow> 0 | Some file \<Rightarrow> wf_size file)
     + totalSizeForPaths s paths"

definition preview_item_json :: "preview_item \<Rightarrow> json" where
  "preview_item_json i =
     JObj [(''file_name'', JStr (pi_file_name i)), (''size'', JNat (pi_size i)),
           (''thumbnail'', JNull), (''mime_type'', JStr (pi_mime_type i))]"

definition metadata_json :: "web_metadata \<Rightarrow> json" where
  "metadata_json m =
     JObj ([(''file_name'', JStr (md_file_name m)), (''item_count'', JNat (md_item_count m)),
            (''size'', JNat (md_size m)), (''mime_type'', JStr (md_mime_type m)),
            (''thumbnail'', JNull)] @
           (case md_items m of
              None \<Rightarrow> []
            | Some items \<Rightarrow> [(''items'', JArr (map preview_item_json items))]))"

definition file_metadata :: "web_file \<Rightarrow> web_metadata" where
  "file_metadata file =
     \<lparr>md_file_name = wf_name file, md_item_count = 1, md_size = wf_size file,
      md_mime_type = webMimeType file, md_items = None\<rparr>"

definition buildWebSendMetadataForFile :: "web_file \<Rightarrow> string" where
  "buildWebSendMetadataForFile file = JSON_stringify (metadata_json (file_metadata file))"

definition folder_metadata :: "web_files \<Rightarrow> string \<Rightarrow> web_metadata" where
  "folder_metadata s path =
     \<lparr>md_file_name = basename path, md_item_count = 1, md_size = totalSizeForPaths s [path],
      md_mime_type = ''inode/directory'', md_items = None\<rparr>"

definition collection_metadata ::
  "(string \<Rightarrow> string \<Rightarrow> int) \<Rightarrow> web_files \<Rightarrow> string list \<Rightarrow> web_metadata" where
  "collection_metadata lc s paths =
     (let items = buildPreviewItems lc s paths in
      \<lparr>md_file_name = basename (hd paths), md_item_count = length items,
       md_size = totalSizeForPaths s paths,
       md_mime_type = ''application/x-iroh-collection'', md_items = Some items\<rparr>)"

definition buildWebSendMetadataForPaths ::
  "(string \<Rightarrow> string \<Rightarrow> int) \<Rightarrow> web_files \<Rightarrow> string list \<Rightarrow> string result" where
  "buildWebSendMetadataForPaths lc s paths =
     (case paths of
        [] \<Rightarrow> Inl (Error ''No paths provided'')
      | [path] \<Rightarrow>
          if isWebDirectory s path then Inr (JSON_stringify (metadata_json (folder_metadata s path)))
          else (case getWebFile s path of
                  None \<Rightarrow> Inl (Error ''Selected file is no longer available'')
                | Some file \<Rightarrow> Inr (buildWebSendMetadataForFile file))
      | _ \<Rightarrow> Inr (JSON_stringify (metadata_json (collection_metadata lc s paths))))"

section \<open>The payload\<close>

datatype WebSendEntryType = EFile | EDirectory | ECollection

record send_payload =
  names :: "string list"
  bytesList :: "byte list list"
  entryType :: WebSendEntryType
  metadataJson :: string

definition webSendEntryType :: "web_files \<Rightarrow> string list \<Rightarrow> WebSendEntryType" where
  "webSendEntryType s paths =
     (if length paths > 1 then ECollection
      else if length paths = 1 \<and> isWebDirectory s (paths ! 0) then EDirectory
      else EFile)"

fun read_entries ::
  "(web_file \<Rightarrow> byte list result) \<Rightarrow> (string \<times> web_file) list \<Rightarrow> (string \<times> byte list) list result" where
  "read_entries read [] = Inr []"
| "read_entries read ((path, file) # es) =
     try_bind (read file) (\<lambda>bytes. try_bind (read_entries read es) (\<lambda>rest. Inr ((path, bytes) # rest)))"

text \<open>The loop of \<open>collectWebSendPayload\<close>, with what it pushes as its value.\<close>

fun collect_paths ::
  "(web_file \<Rightarrow> byte list result) \<Rightarrow> web_files \<Rightarrow> string list \<Rightarrow> (string \<times> byte list) list result" where
  "collect_paths read s [] = Inr []"
| "collect_paths read s (path # paths) =
     (if isWebDirectory s path then
        (let entries = listWebFileEntriesUnderPath s path in
         if entries = [] then
           Inl (WebPreviewError (''Folder \"'' @ path @
             ''\" has no files to share. Please choose the folder again.''))
         else try_bind (read_entries read entries)
           (\<lambda>xs. try_bind (collect_paths read s paths) (\<lambda>ys. Inr (xs @ ys))))
      else case getWebFile s path of
        None \<Rightarrow>
          Inl (WebPreviewError ''Selected file is no longer available. Please choose the file again.'')
      | Some file \<Rightarrow>
          try_bind (read file)
            (\<lambda>bytes. try_bind (collect_paths read s paths) (\<lambda>ys. Inr ((path, bytes) # ys))))"

definition collectWebSendPayload ::
  "(string \<Rightarrow> string \<Rightarrow> int) \<Rightarrow> (web_file \<Rightarrow> byte list result) \<Rightarrow> web_files \<Rightarrow> string list \<Rightarrow> send_payload result"
where
  "collectWebSendPayload lc read s paths =
     try_bind (collect_paths read s paths)
       (\<lambda>xs. if xs = [] then Inl (Error ''No files selected'')
             else try_bind (buildWebSendMetadataForPaths lc s paths)
               (\<lambda>json. Inr \<lparr>names = map fst xs, bytesList = map snd xs,
                             entryType = webSendEntryType s paths, metadataJson = json\<rparr>))"

section \<open>Lemmas\<close>

text \<open>
  What a path stands for, read off the table itself: for a registered folder every registered file
  whose path is the folder's or goes on after it with a slash, in the order of the table, and
  otherwise the one file registered under the path.
\<close>

definition expand_path :: "web_files \<Rightarrow> string \<Rightarrow> (string \<times> web_file) list" where
  "expand_path s path =
     (if path \<in> set (directoryPaths s)
      then [e \<leftarrow> filesByPath s. fst e = path \<or> take (length path + 1) (fst e) = path @ ''/'']
      else case map_of (filesByPath s) path of None \<Rightarrow> [] | Some file \<Rightarrow> [(path, file)])"

lemma starts_with_take: "js_starts_with s p \<longleftrightarrow> take (length p) s = p"
  by (auto simp: js_starts_with_def prefix_def) (metis append_take_drop_id)

lemma expand_path_code:
  "expand_path s path =
     (if isWebDirectory s path then listWebFileEntriesUnderPath s path
      else case getWebFile s path of None \<Rightarrow> [] | Some file \<Rightarrow> [(path, file)])"
  by (simp add: expand_path_def isWebDirectory_def getWebFile_def listWebFileEntriesUnderPath_def
      starts_with_take case_prod_beta')

definition shareable :: "web_files \<Rightarrow> string \<Rightarrow> bool" where
  "shareable s path \<longleftrightarrow> expand_path s path \<noteq> []"

lemma total_size_expand:
  "totalSizeForPaths s paths = sum_list (map (wf_size \<circ> snd) (concat (map (expand_path s) paths)))"
  by (induction paths)
    (auto simp: expand_path_code under_size_def listWebFilesUnderPath_def comp_def split: option.splits)

text \<open>The host reads every file in full.\<close>

definition read_all :: "web_file \<Rightarrow> byte list result" where
  "read_all f = Inr (wf_bytes f)"

lemma read_entries_all:
  "read_entries read_all es = Inr (map (\<lambda>(p, f). (p, wf_bytes f)) es)"
  by (induction es) (auto simp: read_all_def)

lemma collect_paths_all:
  assumes "\<forall>p \<in> set paths. shareable s p"
  shows "collect_paths read_all s paths =
    Inr (map (\<lambda>(p, f). (p, wf_bytes f)) (concat (map (expand_path s) paths)))"
  using assms
proof (induction paths)
  case (Cons p ps)
  then show ?case
    by (cases "isWebDirectory s p"; cases "getWebFile s p")
      (simp_all add: shareable_def expand_path_code Let_def read_entries_all,
       simp_all add: read_all_def)
qed simp

lemma collect_paths_fails:
  assumes "p \<in> set paths" and "\<not> shareable s p"
  shows "\<exists>m. collect_paths read_all s paths = Inl (WebPreviewError m)"
  using assms(1)
proof (induction paths)
  case (Cons q ps)
  show ?case
  proof (cases "shareable s q")
    case True
    then have "p \<in> set ps" using Cons.prems assms(2) by auto
    then obtain m where m: "collect_paths read_all s ps = Inl (WebPreviewError m)" using Cons.IH by blast
    then have "collect_paths read_all s (q # ps) = Inl (WebPreviewError m)"
      using True
      by (cases "isWebDirectory s q"; cases "getWebFile s q")
        (simp_all add: shareable_def expand_path_code Let_def read_entries_all,
         simp_all add: read_all_def)
    then show ?thesis by blast
  next
    case False
    then show ?thesis
      by (cases "isWebDirectory s q"; cases "getWebFile s q")
        (simp_all add: shareable_def expand_path_code Let_def)
  qed
qed simp

lemma metadata_wf: "json_wf (metadata_json m)"
  by (auto simp: metadata_json_def preview_item_json_def list_all_iff split: option.splits)

lemma metadata_parses: "JSON_parse (JSON_stringify (metadata_json m)) = Some (json_embed (metadata_json m))"
  by (rule parse_stringify [OF metadata_wf])

lemma metadata_size: "js_get (json_embed (metadata_json m)) ''size'' = Inr (Num (Fin (of_nat (md_size m))))"
  by (simp add: metadata_json_def split: option.splits)

lemma metadata_item_count:
  "js_get (json_embed (metadata_json m)) ''item_count'' = Inr (Num (Fin (of_nat (md_item_count m))))"
  by (simp add: metadata_json_def split: option.splits)

lemma length_preview_items_from:
  "length (preview_items_from s seen paths) =
   length (filter (\<lambda>p. isWebDirectory s p \<or> getWebFile s p \<noteq> None) paths)"
  by (induction paths arbitrary: seen) (auto simp: Let_def split: option.splits prod.splits)

lemma preview_sizes:
  "sum_list (map pi_size (preview_items_from s seen paths)) = totalSizeForPaths s paths"
  by (induction paths arbitrary: seen) (auto simp: Let_def split: option.splits prod.splits)

section \<open>Properties\<close>

lemma payload_metadata:
  assumes "paths \<noteq> []" and "\<forall>p \<in> set paths. shareable s p"
  shows "\<exists>m. buildWebSendMetadataForPaths lc s paths = Inr (JSON_stringify (metadata_json m)) \<and>
    md_size m = totalSizeForPaths s paths"
proof (cases "tl paths = []")
  case True
  then obtain p where p: "paths = [p]" using assms(1) by (cases paths) auto
  show ?thesis
  proof (cases "isWebDirectory s p")
    case True
    then show ?thesis
      by (intro exI [of _ "folder_metadata s p"])
        (simp add: p buildWebSendMetadataForPaths_def folder_metadata_def)
  next
    case False
    then obtain f where "getWebFile s p = Some f"
      using assms(2) p by (auto simp: shareable_def expand_path_code split: option.splits)
    with False show ?thesis
      by (intro exI [of _ "file_metadata f"])
        (simp add: p buildWebSendMetadataForPaths_def buildWebSendMetadataForFile_def file_metadata_def)
  qed
next
  case False
  then obtain p q ps where "paths = p # q # ps"
    by (metis assms(1) list.exhaust list.sel(3))
  then show ?thesis
    by (intro exI [of _ "collection_metadata lc s paths"])
      (simp add: buildWebSendMetadataForPaths_def collection_metadata_def Let_def)
qed

text \<open>
  C3. A browser send of paths that are all registered succeeds. Its names and contents are, in
  order, exactly the files the paths stand for (for a folder every file registered below it, in the
  order of the table), and the metadata text it attaches parses back to an
  object whose \<open>size\<close> is the number of bytes handed to the engine.
\<close>

theorem send_payload_complete:
  assumes "paths \<noteq> []" and "\<forall>p \<in> set paths. shareable s p"
  shows "\<exists>pl v. collectWebSendPayload lc read_all s paths = Inr pl \<and>
    zip (names pl) (bytesList pl) = map (\<lambda>(p, f). (p, wf_bytes f)) (concat (map (expand_path s) paths)) \<and>
    length (names pl) = length (bytesList pl) \<and>
    JSON_parse (metadataJson pl) = Some v \<and>
    js_get v ''size'' = Inr (Num (Fin (of_nat (sum_list (map length (bytesList pl))))))"
proof -
  define xs where "xs = map (\<lambda>(p, f). (p, wf_bytes f)) (concat (map (expand_path s) paths))"
  obtain m where m: "buildWebSendMetadataForPaths lc s paths = Inr (JSON_stringify (metadata_json m))"
    and size: "md_size m = totalSizeForPaths s paths"
    using payload_metadata [OF assms] by blast
  have "xs \<noteq> []"
    using assms by (cases paths) (auto simp: xs_def shareable_def)
  moreover have "collect_paths read_all s paths = Inr xs"
    unfolding xs_def by (rule collect_paths_all [OF assms(2)])
  ultimately have pl: "collectWebSendPayload lc read_all s paths =
      Inr \<lparr>names = map fst xs, bytesList = map snd xs, entryType = webSendEntryType s paths,
           metadataJson = JSON_stringify (metadata_json m)\<rparr>"
    by (simp add: collectWebSendPayload_def m)
  have "sum_list (map length (map snd xs)) = md_size m"
    by (simp add: size total_size_expand xs_def comp_def case_prod_beta' wf_size_def)
  with pl show ?thesis
    by (simp add: metadata_parses metadata_size zip_map_fst_snd flip: xs_def)
qed

definition demo_file :: web_file where
  "demo_file = \<lparr>wf_name = ''a.txt'', wf_type = '''', webkitRelativePath = None, wf_bytes = [1, 2, 3]\<rparr>"

definition demo_files :: web_files where
  "demo_files = registerWebFile ''d/b'' demo_file
     (registerWebDirectory ''d'' (registerWebFile ''a.txt'' demo_file no_web_files))"

lemmas demo_defs =
  demo_files_def demo_file_def no_web_files_def registerWebFile_def registerWebDirectory_def
  isWebDirectory_def getWebFile_def listWebFileEntriesUnderPath_def js_starts_with_def
  js_set_add_def assoc_delete_def expand_path_def shareable_def

theorem send_payload_complete_witness:
  "\<exists>pl v. collectWebSendPayload (\<lambda>_ _. 0) read_all demo_files [''a.txt'', ''d''] = Inr pl \<and>
    zip (names pl) (bytesList pl) = [(''a.txt'', [1, 2, 3]), (''d/b'', [1, 2, 3])] \<and>
    JSON_parse (metadataJson pl) = Some v \<and> js_get v ''size'' = Inr (Num (Fin 6))"
proof -
  have sh: "\<forall>p \<in> set [''a.txt'', ''d'']. shareable demo_files p" by (simp add: demo_defs)
  have ex: "map (\<lambda>(p, f). (p, wf_bytes f)) (concat (map (expand_path demo_files) [''a.txt'', ''d''])) =
      [(''a.txt'', [1, 2, 3]), (''d/b'', [1, 2, 3])]"
    by (simp add: demo_defs)
  from send_payload_complete [OF _ sh, of "\<lambda>_ _. 0"] obtain pl v where
    *: "collectWebSendPayload (\<lambda>_ _. 0) read_all demo_files [''a.txt'', ''d''] = Inr pl"
    "zip (names pl) (bytesList pl) = [(''a.txt'', [1, 2, 3]), (''d/b'', [1, 2, 3])]"
    "length (names pl) = length (bytesList pl)" "JSON_parse (metadataJson pl) = Some v"
    "js_get v ''size'' = Inr (Num (Fin (of_nat (sum_list (map length (bytesList pl))))))"
    unfolding ex by auto
  have "map snd (zip (names pl) (bytesList pl)) = bytesList pl" by (simp add: *(3))
  then have "bytesList pl = [[1, 2, 3], [1, 2, 3]]" using *(2) by simp
  with * show ?thesis by auto
qed

text \<open>
  C31. A selected path that is no longer registered, or a folder without files, makes the whole
  send fail with the error the user sees; no payload without it is ever built.
\<close>

theorem send_payload_refuses:
  assumes "p \<in> set paths" and "\<not> shareable s p"
  shows "\<exists>m. collectWebSendPayload lc read_all s paths = Inl (WebPreviewError m)"
  using collect_paths_fails [OF assms] by (auto simp: collectWebSendPayload_def)

theorem send_payload_refuses_witness:
  "\<exists>m. collectWebSendPayload (\<lambda>_ _. 0) read_all demo_files [''a.txt'', ''gone''] = Inl (WebPreviewError m)"
  by (rule send_payload_refuses [of "''gone''"]) (simp_all add: demo_defs)

end
