(* ===== verification/Web_Drop.thy ===== *)
theory Web_Drop
  imports Web_File_Store
begin

text \<open>
  How browser files get into the table of \<open>Web_File_Store\<close>: dropping them, \<open>lib/web-drag-drop.ts\<close>,
  and the file picker of \<open>lib/platform-api.ts\<close>.

  A dropped \<open>FileSystemEntry\<close> is a tree. Reading a file may fail, so its content is a result; a
  directory reader hands out its children in batches and an empty batch marks the end. Whether the
  host disables the items of a drop once the handler has yielded is the parameter \<open>disables\<close>: the HTML
  standard ends the association between a \<open>DataTransfer\<close> and its drag data store when the event is
  over, after which \<open>kind\<close> reads as the empty string.
\<close>

datatype fs_entry =
    FileEntry string "web_file result"
  | DirEntry string "fs_entry list list"
  | OtherEntry string

fun entry_name :: "fs_entry \<Rightarrow> string" where
  "entry_name (FileEntry n _) = n"
| "entry_name (DirEntry n _) = n"
| "entry_name (OtherEntry n) = n"

fun readDirectoryEntries :: "fs_entry list list \<Rightarrow> fs_entry list" where
  "readDirectoryEntries [] = []"
| "readDirectoryEntries (entries # later) =
     (if entries = [] then [] else entries @ readDirectoryEntries later)"

fun all_results :: "'a result list \<Rightarrow> 'a list result" where
  "all_results [] = Inr []"
| "all_results (r # rs) = try_bind r (\<lambda>x. try_bind (all_results rs) (\<lambda>xs. Inr (x # xs)))"

definition under_base :: "string \<Rightarrow> string \<Rightarrow> string" where
  "under_base basePath nm = (if basePath \<noteq> [] then basePath @ ''/'' @ nm else nm)"

lemma readDirectoryEntries_size:
  "c \<in> set (readDirectoryEntries bs) \<Longrightarrow> size c < Suc (size_list (size_list size) bs)"
proof (induction bs)
  case (Cons b bs)
  show ?case
  proof (cases "c \<in> set b")
    case True
    then have "size c \<le> size_list size b" by (simp add: size_list_estimation')
    then show ?thesis by simp
  next
    case False
    with Cons have "c \<in> set (readDirectoryEntries bs)" by (auto split: if_splits)
    with Cons.IH show ?thesis by simp
  qed
qed simp

function readEntryRecursively :: "fs_entry \<Rightarrow> string \<Rightarrow> (string \<times> web_file) list result" where
  "readEntryRecursively (FileEntry nm content) basePath =
     try_bind content (\<lambda>file. Inr [(under_base basePath nm, file)])"
| "readEntryRecursively (DirEntry nm batches) basePath =
     (let dirPath = under_base basePath nm; children = readDirectoryEntries batches in
      try_bind (all_results (map (\<lambda>child. readEntryRecursively child dirPath) children))
        (\<lambda>nested. Inr (concat nested)))"
| "readEntryRecursively (OtherEntry nm) basePath = Inr []"
  by pat_completeness auto
termination
  by (relation "measure (\<lambda>(e, p). size e)") (auto dest: readDirectoryEntries_size)

definition registerPlainFiles :: "web_file list \<Rightarrow> web_files \<Rightarrow> web_files \<times> string list" where
  "registerPlainFiles files s =
     (foldl (\<lambda>s file. registerWebFile (webFilePathKey file) file s) s files, map webFilePathKey files)"

datatype path_type = PFile | PDirectory

definition resolvePathType :: "string list \<Rightarrow> bool \<Rightarrow> bool \<Rightarrow> path_type option" where
  "resolvePathType paths hasDirectory hasFile =
     (if length paths \<noteq> 1 then (if hasDirectory \<and> \<not> hasFile then Some PDirectory else None)
      else if hasDirectory \<and> \<not> hasFile then Some PDirectory
      else if hasFile \<and> \<not> hasDirectory then Some PFile
      else None)"

text \<open>
  An item of the drop: its \<open>kind\<close>, and what \<open>webkitGetAsEntry\<close> and \<open>getAsFile\<close> return.
\<close>

datatype drop_item = TextItem | FileItem "fs_entry option" "web_file option"

record drop_state =
  ds_files :: web_files
  ds_paths :: "string list"
  hasDirectory :: bool
  hasFile :: bool

definition register_top :: "web_file \<Rightarrow> drop_state \<Rightarrow> drop_state" where
  "register_top file d =
     (let path = webFilePathKey file in
      d\<lparr>ds_files := registerWebFile path file (ds_files d), ds_paths := ds_paths d @ [path],
        hasFile := True\<rparr>)"

text \<open>
  The loop over the items. \<open>yielded\<close> says whether an earlier iteration has awaited; the second
  component is the error of a rejected read, after which the loop is left.
\<close>

fun drop_items :: "bool \<Rightarrow> bool \<Rightarrow> drop_item list \<Rightarrow> drop_state \<Rightarrow> drop_state \<times> js_error option" where
  "drop_items disables yielded [] d = (d, None)"
| "drop_items disables yielded (item # items) d =
     (case item of
        TextItem \<Rightarrow> drop_items disables yielded items d
      | FileItem entry file \<Rightarrow>
          if disables \<and> yielded then drop_items disables yielded items d
          else case entry of
            None \<Rightarrow>
              (case file of
                 None \<Rightarrow> drop_items disables yielded items d
               | Some f \<Rightarrow> drop_items disables yielded items (register_top f d))
          | Some (DirEntry nm batches) \<Rightarrow>
              (let d1 = d\<lparr>hasDirectory := True, ds_files := registerWebDirectory nm (ds_files d),
                          ds_paths := ds_paths d @ [nm]\<rparr> in
               case readEntryRecursively (DirEntry nm batches) [] of
                 Inl e \<Rightarrow> (d1, Some e)
               | Inr nested \<Rightarrow>
                   drop_items disables True items
                     (d1\<lparr>ds_files := foldl (\<lambda>s (p, f). registerWebFile p f s) (ds_files d1) nested\<rparr>))
          | Some (FileEntry nm content) \<Rightarrow>
              (let d1 = d\<lparr>hasFile := True\<rparr> in
               case content of
                 Inl e \<Rightarrow> (d1, Some e)
               | Inr f \<Rightarrow> drop_items disables True items (register_top f d1))
          | Some (OtherEntry nm) \<Rightarrow> drop_items disables yielded items d)"

record WebDropResult =
  drop_paths :: "string list"
  drop_pathType :: "path_type option"

definition processWebDataTransfer ::
  "bool \<Rightarrow> drop_item list \<Rightarrow> web_file list \<Rightarrow> web_files \<Rightarrow> web_files \<times> WebDropResult result" where
  "processWebDataTransfer disables items files s =
     (if items = [] then
        (let (s', paths) = registerPlainFiles files s in
         (s', Inr \<lparr>drop_paths = paths, drop_pathType = (if length paths = 1 then Some PFile else None)\<rparr>))
      else
        (let (d, err) = drop_items disables False items
               \<lparr>ds_files = s, ds_paths = [], hasDirectory = False, hasFile = False\<rparr> in
         (ds_files d,
          case err of
            Some e \<Rightarrow> Inl e
          | None \<Rightarrow> Inr \<lparr>drop_paths = ds_paths d,
                         drop_pathType = resolvePathType (ds_paths d) (hasDirectory d) (hasFile d)\<rparr>)))"

section \<open>The file picker\<close>

datatype picked = PickedNone | PickedOne string | PickedMany "string list"

definition pick_result :: "bool \<Rightarrow> string list \<Rightarrow> picked" where
  "pick_result multiple xs =
     (if multiple then PickedMany xs else case xs of [] \<Rightarrow> PickedNone | x # _ \<Rightarrow> PickedOne x)"

fun register_picked :: "web_file list \<Rightarrow> web_files \<Rightarrow> string list \<Rightarrow> web_files \<times> string list" where
  "register_picked [] s topLevel = (s, topLevel)"
| "register_picked (file # files) s topLevel =
     (let path = webFilePathKey file; root = hd (js_split (CHR ''/'') path) in
      register_picked files (registerWebFile path file s)
        (if root \<noteq> [] then js_set_add topLevel root else topLevel))"

text \<open>The \<open>change\<close> listener; the \<open>cancel\<close> listener is the call with no files.\<close>

definition pickPathsInBrowser :: "bool \<Rightarrow> bool \<Rightarrow> web_file list \<Rightarrow> web_files \<Rightarrow> web_files \<times> picked" where
  "pickPathsInBrowser multiple directory files s =
     (if files = [] then (s, PickedNone)
      else if directory then
        (let (s1, folders) = register_picked files s [] in
         (foldl (\<lambda>s folder. registerWebDirectory folder s) s1 folders, pick_result multiple folders))
      else
        (let (s1, paths) = registerPlainFiles files s in (s1, pick_result multiple paths)))"

section \<open>Lemmas\<close>

lemma plain_files_state:
  "fst (registerPlainFiles files s) =
   foldl (\<lambda>s (p, f). registerWebFile p f s) s (map (\<lambda>f. (webFilePathKey f, f)) files)"
  by (simp add: registerPlainFiles_def foldl_map)

lemma plain_files_inv: "web_files_inv s \<Longrightarrow> web_files_inv (fst (registerPlainFiles files s))"
  unfolding plain_files_state by (rule registry.reg_files_invar)

lemma drop_items_inv:
  "web_files_inv (ds_files d) \<Longrightarrow> web_files_inv (ds_files (fst (drop_items disables y items d)))"
proof (induction disables y items d rule: drop_items.induct)
  case (2 disables y item items d)
  then show ?case
    by (auto simp: Let_def register_top_def registry.reg_file_specs registry.reg_dir_specs
        registry.reg_files_invar split: drop_item.split option.split fs_entry.split sum.split)
qed simp

lemma register_picked_state:
  "fst (register_picked files s t) = fst (registerPlainFiles files s)"
  by (induction files arbitrary: s t) (auto simp: registerPlainFiles_def Let_def)

lemma register_picked_roots:
  "set (snd (register_picked files s t)) =
   set t \<union> {hd (js_split (CHR ''/'') (webFilePathKey f)) | f. f \<in> set files \<and> hd (js_split (CHR ''/'') (webFilePathKey f)) \<noteq> []}"
  by (induction files arbitrary: s t) (auto simp: Let_def)

lemma pick_inv: "web_files_inv s \<Longrightarrow> web_files_inv (fst (pickPathsInBrowser m d files s))"
proof -
  assume inv: "web_files_inv s"
  have "web_files_inv (fst (register_picked files s []))"
    unfolding register_picked_state by (rule plain_files_inv [OF inv])
  then show ?thesis
    using plain_files_inv [OF inv, of files] inv
    by (auto simp: pickPathsInBrowser_def case_prod_beta' Let_def registry.reg_dirs_invar)
qed

lemma process_drop_inv: "web_files_inv s \<Longrightarrow> web_files_inv (fst (processWebDataTransfer dis items files s))"
  using plain_files_inv [of s files] drop_items_inv
  by (auto simp: processWebDataTransfer_def case_prod_beta' Let_def)

lemma all_results_Inr: "all_results rs = Inr xs \<longleftrightarrow> rs = map Inr xs"
  by (induction rs arbitrary: xs) (auto simp: map_eq_Cons_conv Cons_eq_map_conv)

lemma dir_nestedE:
  assumes "readEntryRecursively (DirEntry nm bs) base = Inr nested" and "(p, f) \<in> set nested"
  obtains c xs where "c \<in> set (readDirectoryEntries bs)"
    "readEntryRecursively c (under_base base nm) = Inr xs" "(p, f) \<in> set xs"
proof -
  define g where "g = (\<lambda>c. readEntryRecursively c (under_base base nm))"
  obtain ns where ns: "map g (readDirectoryEntries bs) = map Inr ns" and "nested = concat ns"
    using assms(1) by (auto simp: Let_def all_results_Inr g_def)
  with assms(2) obtain xs where xs: "xs \<in> set ns" "(p, f) \<in> set xs" by auto
  have "Inr xs \<in> g ` set (readDirectoryEntries bs)"
    using xs(1) ns by (metis image_eqI list.set_map)
  then show ?thesis using that xs(2) by (metis g_def imageE)
qed

lemma entry_paths_under:
  "readEntryRecursively e base = Inr nested \<Longrightarrow> base \<noteq> [] \<Longrightarrow> (p, f) \<in> set nested \<Longrightarrow>
   \<exists>t. p = base @ ''/'' @ t"
proof (induction e base arbitrary: nested p f rule: readEntryRecursively.induct)
  case (2 nm bs base)
  then obtain c xs where c: "c \<in> set (readDirectoryEntries bs)"
    "readEntryRecursively c (under_base base nm) = Inr xs" "(p, f) \<in> set xs"
    by (meson dir_nestedE)
  from "2.prems" have "under_base base nm \<noteq> []" by (simp add: under_base_def)
  from "2.IH" [OF refl refl c(1,2) this c(3)] show ?case
    using "2.prems"(2) by (auto simp: under_base_def)
qed (auto simp: under_base_def)

lemma folder_paths_under:
  assumes "readEntryRecursively (DirEntry nm bs) [] = Inr nested" and "nm \<noteq> []" and "(p, f) \<in> set nested"
  shows "\<exists>t. p = nm @ ''/'' @ t"
  using assms(1,3)
proof (rule dir_nestedE)
  fix c xs
  assume c: "readEntryRecursively c (under_base [] nm) = Inr xs" "(p, f) \<in> set xs"
  have "under_base [] nm = nm" by (simp add: under_base_def)
  with entry_paths_under [OF c(1) _ c(2)] assms(2) show ?thesis by simp
qed

text \<open>Everything the front end does to the table of files.\<close>

datatype files_event =
    Base web_files_op
  | Drop bool "drop_item list" "web_file list"
  | Pick bool bool "web_file list"

fun files_event_step :: "web_files \<Rightarrow> files_event \<Rightarrow> web_files" where
  "files_event_step s (Base op) = web_files_step s op"
| "files_event_step s (Drop disables items files) = fst (processWebDataTransfer disables items files s)"
| "files_event_step s (Pick multiple directory files) = fst (pickPathsInBrowser multiple directory files s)"

interpretation files_events: state_machine no_web_files files_event_step web_files_inv
proof
  show "web_files_inv no_web_files" by (rule registry.empty_specs)
next
  fix s ev
  assume "web_files_inv s"
  then show "web_files_inv (files_event_step s ev)"
    by (cases ev) (simp_all add: files_machine.inv_step process_drop_inv pick_inv)
qed

section \<open>Properties\<close>

text \<open>
  Whatever files and folders the user picks, drops, removes or clears, in any order, no path
  of the browser's table is ever a file and a folder at the same time, and no path is listed twice
  when a folder is expanded for sending.
\<close>

theorem web_files_never_ambiguous:
  "\<not> (isWebDirectory (run_ops files_event_step no_web_files evs) p \<and>
       getWebFile (run_ops files_event_step no_web_files evs) p \<noteq> None) \<and>
   distinct (map fst (listWebFileEntriesUnderPath (run_ops files_event_step no_web_files evs) q))"
proof -
  have inv: "web_files_inv (run_ops files_event_step no_web_files evs)"
    by (rule files_events.reachable_inv)
  then show ?thesis
    using registry.exclusive [OF inv]
    by (auto simp: web_files_inv_def listWebFileEntriesUnderPath_def distinct_map_filter)
qed

text \<open>
  Dropping a folder registers it as a folder together with every file of its tree, each under
  the folder's name, so that expanding the folder for a send finds all of them.
\<close>

theorem dropped_folder_complete:
  assumes "web_files_inv s" and "nm \<noteq> []"
    and "readEntryRecursively (DirEntry nm bs) [] = Inr nested" and "distinct (map fst nested)"
  shows "\<exists>s' r. processWebDataTransfer disables [FileItem (Some (DirEntry nm bs)) gf] files s = (s', Inr r) \<and>
    drop_paths r = [nm] \<and> drop_pathType r = Some PDirectory \<and> isWebDirectory s' nm \<and>
    set nested \<subseteq> set (listWebFileEntriesUnderPath s' nm)"
proof -
  define s1 where "s1 = registerWebDirectory nm s"
  define s2 where "s2 = foldl (\<lambda>s (p, f). registerWebFile p f s) s1 nested"
  have inv1: "web_files_inv s1" using assms(1) by (simp add: s1_def registry.reg_dir_specs)
  have inv2: "web_files_inv s2" using inv1 by (simp add: s2_def registry.reg_files_invar)
  have under: "\<exists>t. p = nm @ ''/'' @ t" if "(p, f) \<in> set nested" for p f
    by (rule folder_paths_under [OF assms(3,2) that])
  have "nm \<notin> fst ` set nested" using under by force
  then have dir: "isWebDirectory s2 nm"
    using inv1 assms(1) by (simp add: s2_def registry.reg_files_dir s1_def registry.reg_dir_specs)
  have "getWebFile s2 p = Some f" if "(p, f) \<in> set nested" for p f
  proof -
    have "map_of (rev nested) p = Some f"
      using that assms(4) by (intro map_of_is_SomeI) (simp_all add: rev_map [symmetric])
    then show ?thesis using inv1 by (simp add: s2_def registry.reg_files_file)
  qed
  then have sub: "set nested \<subseteq> set (listWebFileEntriesUnderPath s2 nm)"
    using under by (auto simp: entries_under_iff [OF inv2] js_starts_with_def prefix_def)
  show ?thesis
    using dir sub unfolding s1_def s2_def
    by (simp add: processWebDataTransfer_def assms(3) Let_def resolvePathType_def
        del: readEntryRecursively.simps)
qed

definition demo_drop_file :: web_file where
  "demo_drop_file = \<lparr>wf_name = ''a'', wf_type = '''', webkitRelativePath = None, wf_bytes = [7]\<rparr>"

theorem dropped_folder_complete_witness:
  "\<exists>s' r. processWebDataTransfer True
      [FileItem (Some (DirEntry ''d'' [[FileEntry ''a'' (Inr demo_drop_file)], []])) None] [] no_web_files = (s', Inr r) \<and>
    drop_paths r = [''d''] \<and> isWebDirectory s' ''d'' \<and>
    (''d/a'', demo_drop_file) \<in> set (listWebFileEntriesUnderPath s' ''d'')"
proof -
  have nested: "readEntryRecursively (DirEntry ''d'' [[FileEntry ''a'' (Inr demo_drop_file)], []]) [] =
      Inr [(''d/a'', demo_drop_file)]"
    by (simp add: under_base_def)
  from dropped_folder_complete [OF registry.empty_specs(1) _ nested, of True None "[]"]
  show ?thesis by auto
qed

text \<open>
  In a browser that disables the items of a drop once the event is over, everything after the
  first file or folder of a drop is ignored: the loop awaits while it reads that entry, and every
  later \<open>item.kind\<close> is then the empty string.
\<close>

theorem drop_keeps_only_first_entry:
  assumes "(\<exists>n c. e = FileEntry n c) \<or> (\<exists>n b. e = DirEntry n b)"
  shows "processWebDataTransfer True (FileItem (Some e) gf # items) files s =
         processWebDataTransfer True [FileItem (Some e) gf] files s"
proof -
  have skip: "drop_items True True items d = (d, None)" for d
    by (induction items) (auto split: drop_item.split)
  show ?thesis
    using assms
    by (cases e)
      (simp_all add: processWebDataTransfer_def Let_def skip del: readEntryRecursively.simps
        split: sum.split)
qed

theorem drop_keeps_only_first_entry_witness:
  "drop_paths (projr (snd (processWebDataTransfer True
     [FileItem (Some (FileEntry ''a'' (Inr demo_drop_file))) None,
      FileItem (Some (FileEntry ''b'' (Inr (demo_drop_file\<lparr>wf_name := ''b''\<rparr>)))) None] [] no_web_files))) = [''a'']"
  by (subst drop_keeps_only_first_entry)
    (simp_all add: processWebDataTransfer_def register_top_def Let_def webFilePathKey_def demo_drop_file_def)

end
