(* ===== verification/Web_Zip.thy ===== *)
theory Web_Zip
  imports Web_File_Store
begin

text \<open>
  The store-only ZIP writer of the browser download, \<open>lib/web-zip.ts\<close>.

  The bitwise operators of JavaScript work on 32-bit patterns, so the checksum is a \<open>32 word\<close>. A
  header is a zero-filled byte array into which \<open>DataView\<close> stores little-endian fields at fixed
  offsets; \<open>setUint16\<close> and \<open>setUint32\<close> keep a value modulo the width, and so do \<open>le16\<close> and \<open>le32\<close>.

  Two specifications stand beside the writer: the CRC-32 of the standard, as the remainder of a
  polynomial division that shares nothing with the code, and a reader that follows the ZIP format
  from the end record over the central directory to the local headers and checks every
  field it meets.
\<close>

unbundle bit_operations_syntax

type_synonym u32 = "32 word"

record zip_entry =
  ze_path :: string
  ze_bytes :: "byte list"

section \<open>The checksum\<close>

definition crc_bit :: "u32 \<Rightarrow> u32" where
  "crc_bit value = (if bit value 0 then 0xedb88320 XOR drop_bit 1 value else drop_bit 1 value)"

definition CRC_TABLE :: "u32 list" where
  "CRC_TABLE = map (\<lambda>index. (crc_bit ^^ 8) (of_nat index)) [0..<256]"

definition crc_step :: "u32 \<Rightarrow> byte \<Rightarrow> u32" where
  "crc_step crc byte = CRC_TABLE ! unat ((crc XOR ucast byte) AND 0xff) XOR drop_bit 8 crc"

definition crc32 :: "byte list \<Rightarrow> u32" where
  "crc32 bytes = foldl crc_step 0xffffffff bytes XOR 0xffffffff"

section \<open>Byte arrays\<close>

definition le16 :: "nat \<Rightarrow> byte list" where
  "le16 n = [of_nat n, of_nat (n div 256)]"

definition le32 :: "nat \<Rightarrow> byte list" where
  "le32 n = [of_nat n, of_nat (n div 256), of_nat (n div 256 ^ 2), of_nat (n div 256 ^ 3)]"

text \<open>\<open>array.set(bytes, offset)\<close>.\<close>

definition set_bytes :: "nat \<Rightarrow> byte list \<Rightarrow> byte list \<Rightarrow> byte list" where
  "set_bytes offset bytes array = take offset array @ bytes @ drop (offset + length bytes) array"

definition writeUint16LE :: "nat \<Rightarrow> nat \<Rightarrow> byte list \<Rightarrow> byte list" where
  "writeUint16LE offset value view = set_bytes offset (le16 value) view"

definition writeUint32LE :: "nat \<Rightarrow> nat \<Rightarrow> byte list \<Rightarrow> byte list" where
  "writeUint32LE offset value view = set_bytes offset (le32 value) view"

definition concatChunks :: "byte list list \<Rightarrow> byte list" where
  "concatChunks chunks =
     (let total = sum_list (map length chunks) in
      fst (foldl (\<lambda>(output, offset) chunk. (set_bytes offset chunk output, offset + length chunk))
             (replicate total 0, 0) chunks))"

section \<open>The archive\<close>

definition buildLocalFileHeader :: "byte list \<Rightarrow> nat \<Rightarrow> nat \<Rightarrow> byte list" where
  "buildLocalFileHeader nameBytes crc sz =
     (let h = replicate (30 + length nameBytes) 0;
          h = writeUint32LE 0 0x04034b50 h;
          h = writeUint16LE 4 20 h;
          h = writeUint16LE 6 0 h;
          h = writeUint16LE 8 0 h;
          h = writeUint16LE 10 0 h;
          h = writeUint16LE 12 0 h;
          h = writeUint32LE 14 crc h;
          h = writeUint32LE 18 sz h;
          h = writeUint32LE 22 sz h;
          h = writeUint16LE 26 (length nameBytes) h;
          h = writeUint16LE 28 0 h
      in set_bytes 30 nameBytes h)"

definition buildCentralDirectoryHeader :: "byte list \<Rightarrow> nat \<Rightarrow> nat \<Rightarrow> nat \<Rightarrow> byte list" where
  "buildCentralDirectoryHeader nameBytes crc sz offset =
     (let h = replicate (46 + length nameBytes) 0;
          h = writeUint32LE 0 0x02014b50 h;
          h = writeUint16LE 4 20 h;
          h = writeUint16LE 6 20 h;
          h = writeUint16LE 8 0 h;
          h = writeUint16LE 10 0 h;
          h = writeUint16LE 12 0 h;
          h = writeUint16LE 14 0 h;
          h = writeUint32LE 16 crc h;
          h = writeUint32LE 20 sz h;
          h = writeUint32LE 24 sz h;
          h = writeUint16LE 28 (length nameBytes) h;
          h = writeUint16LE 30 0 h;
          h = writeUint16LE 32 0 h;
          h = writeUint16LE 34 0 h;
          h = writeUint16LE 36 0 h;
          h = writeUint32LE 38 0 h;
          h = writeUint32LE 42 offset h
      in set_bytes 46 nameBytes h)"

definition buildEndOfCentralDirectory :: "nat \<Rightarrow> nat \<Rightarrow> nat \<Rightarrow> byte list" where
  "buildEndOfCentralDirectory entryCount centralSize centralOffset =
     (let h = replicate 22 0;
          h = writeUint32LE 0 0x06054b50 h;
          h = writeUint16LE 4 0 h;
          h = writeUint16LE 6 0 h;
          h = writeUint16LE 8 entryCount h;
          h = writeUint16LE 10 entryCount h;
          h = writeUint32LE 12 centralSize h;
          h = writeUint32LE 16 centralOffset h
      in writeUint16LE 20 0 h)"

text \<open>\<open>new TextEncoder().encode(s)\<close>: UTF-8, one or two bytes for the code units of the model.\<close>

definition utf8_char :: "char \<Rightarrow> byte list" where
  "utf8_char c =
     (let n = char_code c in
      if n < 128 then [of_nat n] else [of_nat (192 + n div 64), of_nat (128 + n mod 64)])"

definition text_encode :: "string \<Rightarrow> byte list" where
  "text_encode s = concat (map utf8_char s)"

fun zip_chunks :: "zip_entry list \<Rightarrow> nat \<Rightarrow> byte list list \<times> byte list list \<times> nat" where
  "zip_chunks [] offset = ([], [], offset)"
| "zip_chunks (entry # entries) offset =
     (let nameBytes = text_encode (js_slashes (ze_path entry));
          checksum = unat (crc32 (ze_bytes entry));
          sz = length (ze_bytes entry);
          localHeader = buildLocalFileHeader nameBytes checksum sz;
          (locals, centrals, final) = zip_chunks entries (offset + (length localHeader + sz)) in
      (localHeader # ze_bytes entry # locals,
       buildCentralDirectoryHeader nameBytes checksum sz offset # centrals, final))"

definition createStoreOnlyZip :: "zip_entry list \<Rightarrow> byte list result" where
  "createStoreOnlyZip entries =
     (if entries = [] then Inl (Error ''ZIP archive requires at least one file'')
      else
        (let (localChunks, centralChunks, offset) = zip_chunks entries 0;
             centralDirectory = concatChunks centralChunks;
             endRecord = buildEndOfCentralDirectory (length entries) (length centralDirectory) offset
         in Inr (concatChunks (localChunks @ [centralDirectory, endRecord]))))"

section \<open>Specifications\<close>

text \<open>
  The CRC-32 of the standard, as a division of polynomials over GF(2). A message is the list of its
  coefficients, highest power first, each byte from its lowest bit on. The generator is
  \<open>x^32 + x^26 + x^23 + x^22 + x^16 + x^12 + x^11 + x^10 + x^8 + x^7 + x^5 + x^4 + x^2 + x + 1\<close>. The message
  is multiplied by \<open>x^32\<close>, its first 32 coefficients are complemented, the remainder of the division
  by the generator is complemented, and its coefficient of \<open>x^31\<close> is bit 0 of the checksum.
\<close>

definition generator_powers :: "nat list" where
  "generator_powers = [26, 23, 22, 16, 12, 11, 10, 8, 7, 5, 4, 2, 1, 0]"

definition generator_tail :: "bool list" where
  "generator_tail = map (\<lambda>k. k \<in> set generator_powers) (rev [0..<32])"

fun add_front :: "bool list \<Rightarrow> bool list \<Rightarrow> bool list" where
  "add_front (p # ps) (q # qs) = (p \<noteq> q) # add_front ps qs"
| "add_front ps qs = qs"

lemma length_add_front [simp]: "length (add_front ps qs) = length qs"
  by (induction ps qs rule: add_front.induct) simp_all

function poly_mod :: "bool list \<Rightarrow> bool list" where
  "poly_mod [] = []"
| "poly_mod (m # ms) =
     (if length ms < 32 then m # ms
      else poly_mod (if m then add_front generator_tail ms else ms))"
  by pat_completeness auto

termination poly_mod
  by (relation "measure length") auto

definition byte_coeffs :: "byte \<Rightarrow> bool list" where
  "byte_coeffs b = map (bit b) [0..<8]"

definition crc_spec :: "byte list \<Rightarrow> u32" where
  "crc_spec bytes = horner_sum of_bool 2 (map Not (poly_mod
     (add_front (replicate 32 True) (concat (map byte_coeffs bytes) @ replicate 32 False))))"

fun le_val :: "byte list \<Rightarrow> nat" where
  "le_val [] = 0"
| "le_val (b # bs) = unat b + 256 * le_val bs"

definition field :: "nat \<Rightarrow> byte list \<Rightarrow> nat \<Rightarrow> nat" where
  "field width z offset = le_val (take width (drop offset z))"

primrec read_central :: "byte list \<Rightarrow> nat \<Rightarrow> nat \<Rightarrow> (byte list \<times> byte list) list option" where
  "read_central z 0 off = Some []"
| "read_central z (Suc n) off =
     (let nameLen = field 2 z (off + 28);
          name = take nameLen (drop (off + 46) z);
          crc = field 4 z (off + 16);
          sz = field 4 z (off + 24);
          loc = field 4 z (off + 42);
          data = take sz (drop (loc + 30 + field 2 z (loc + 26) + field 2 z (loc + 28)) z) in
      if field 4 z off = 0x02014b50 \<and> field 4 z loc = 0x04034b50 \<and>
         field 2 z (loc + 8) = 0 \<and> field 2 z (off + 10) = 0 \<and>
         field 2 z (loc + 26) = nameLen \<and> take nameLen (drop (loc + 30) z) = name \<and>
         field 4 z (loc + 14) = crc \<and> field 4 z (loc + 18) = sz \<and> field 4 z (loc + 22) = sz \<and>
         unat (crc_spec data) = crc
      then map_option (\<lambda>rest. (name, data) # rest)
             (read_central z n (off + 46 + nameLen + field 2 z (off + 30) + field 2 z (off + 32)))
      else None)"

definition read_zip :: "byte list \<Rightarrow> (byte list \<times> byte list) list option" where
  "read_zip z =
     (let e = length z - 22 in
      if length z \<ge> 22 \<and> field 4 z e = 0x06054b50 \<and> field 2 z (e + 20) = 0 \<and>
         field 4 z (e + 16) + field 4 z (e + 12) = e
      then read_central z (field 2 z (e + 10)) (field 4 z (e + 16))
      else None)"

definition zip_content :: "zip_entry \<Rightarrow> byte list \<times> byte list" where
  "zip_content e = (text_encode (js_slashes (ze_path e)), ze_bytes e)"




section \<open>The table is the bitwise checksum\<close>

lemma crc_bit_xor: "crc_bit (a XOR b) = crc_bit a XOR crc_bit b"
  by (auto simp: crc_bit_def bit_simps xor.assoc xor.left_commute xor.commute)

lemma crc_bits_xor: "(crc_bit ^^ n) (a XOR b) = (crc_bit ^^ n) a XOR (crc_bit ^^ n) b"
  by (induction n arbitrary: a b) (simp_all add: crc_bit_xor funpow_swap1)

lemma crc_bits_high: "(\<forall>i<n. \<not> bit a i) \<Longrightarrow> (crc_bit ^^ n) a = drop_bit n a"
proof (induction n)
  case (Suc n)
  then have "(crc_bit ^^ n) a = drop_bit n a" by simp
  moreover have "\<not> bit (drop_bit n a) 0" using Suc.prems by (simp add: bit_drop_bit_eq)
  ultimately have "crc_bit ((crc_bit ^^ n) a) = drop_bit 1 (drop_bit n a)"
    by (simp add: crc_bit_def [of "drop_bit n a"])
  then show ?case by (simp add: drop_bit_drop_bit)
qed simp

lemma mask_split: "(x :: u32) = (x AND 0xff) XOR (x AND NOT 0xff)"
  by (rule bit_word_eqI) (auto simp: bit_simps)

lemma crc_table_nth: "i < 256 \<Longrightarrow> CRC_TABLE ! i = (crc_bit ^^ 8) (of_nat i)"
  by (simp add: CRC_TABLE_def)

lemma crc_step_spec: "crc_step crc b = (crc_bit ^^ 8) (crc XOR ucast b)"
proof -
  define x where "x = crc XOR (ucast b :: u32)"
  have "x AND 0xff \<le> 0xff" by (rule word_and_le1)
  then have "unat (x AND 0xff) \<le> unat (0xff :: u32)" by (simp only: word_le_nat_alt)
  then have "unat (x AND 0xff) < 256" by simp
  then have t: "CRC_TABLE ! unat (x AND 0xff) = (crc_bit ^^ 8) (x AND 0xff)"
    by (simp add: crc_table_nth)
  have m: "(0xff :: u32) = mask 8" by (simp add: mask_eq_exp_minus_1)
  have "\<forall>i<8. \<not> bit (x AND NOT 0xff) i"
    unfolding m by (auto simp: bit_simps)
  then have h: "(crc_bit ^^ 8) (x AND NOT 0xff) = drop_bit 8 (x AND NOT 0xff)" by (rule crc_bits_high)
  have d: "drop_bit 8 (x AND NOT 0xff) = drop_bit 8 crc"
  proof (rule bit_word_eqI)
    fix n assume "n < LENGTH(32)"
    have "\<not> bit b (8 + n)" using bit_imp_le_length [of b "8 + n"] by auto
    then have "\<not> bit (ucast b :: u32) (8 + n)" by (simp add: bit_simps)
    then show "bit (drop_bit 8 (x AND NOT 0xff)) n = bit (drop_bit 8 crc) n"
      unfolding m x_def using bit_imp_le_length [of crc "8 + n"] by (auto simp: bit_simps)
  qed
  have "(crc_bit ^^ 8) x = (crc_bit ^^ 8) (x AND 0xff) XOR (crc_bit ^^ 8) (x AND NOT 0xff)"
    by (subst mask_split) (rule crc_bits_xor)
  then show ?thesis by (simp only: crc_step_def t h d x_def [symmetric])
qed

section \<open>Little-endian fields\<close>

text \<open>A fixed-width encoding of numbers below a bound.\<close>

locale fixed_codec =
  fixes enc :: "nat \<Rightarrow> byte list" and width bound :: nat
  assumes enc_length: "length (enc n) = width"
    and dec_enc: "n < bound \<Longrightarrow> le_val (enc n) = n"
begin

lemma field_enc: "n < bound \<Longrightarrow> field width (pre @ enc n @ post) (length pre) = n"
  by (simp add: field_def enc_length dec_enc)

lemma field_at: "length pre = k \<Longrightarrow> n < bound \<Longrightarrow> field width (pre @ enc n @ post) k = n"
  using field_enc by blast

end

lemma byte_of_nat: "unat (of_nat n :: byte) = n mod 256"
  by (simp add: unat_of_nat)

interpretation le16: fixed_codec le16 2 "2 ^ 16"
proof
  fix n :: nat
  show "length (le16 n) = 2" by (simp add: le16_def)
  assume "n < 2 ^ 16"
  then have "n div 256 < 256" by (simp add: less_mult_imp_div_less)
  then show "le_val (le16 n) = n" by (simp add: le16_def byte_of_nat)
qed

interpretation le32: fixed_codec le32 4 "2 ^ 32"
proof
  fix n :: nat
  show "length (le32 n) = 4" by (simp add: le32_def)
  assume n: "n < 2 ^ 32"
  have "n div 256 ^ 3 < 256" using n by (simp add: less_mult_imp_div_less)
  moreover have "n = n mod 256 + 256 * (n div 256 mod 256 + 256 * (n div 256 div 256 mod 256 + 256 * (n div 256 div 256 div 256)))"
    by (metis mult_div_mod_eq add.commute)
  ultimately show "le_val (le32 n) = n"
    by (simp add: le32_def byte_of_nat div_mult2_eq [symmetric])
qed

lemma le_lengths [simp]: "length (le16 n) = 2" "length (le32 n) = 4"
  by (simp_all add: le16.enc_length le32.enc_length)

lemma set_bytes_append:
  "length a = off \<Longrightarrow> length b = length bs \<Longrightarrow> set_bytes off bs (a @ b @ c) = a @ bs @ c"
  by (simp add: set_bytes_def)

lemma set_bytes_zeros:
  "length a = off \<Longrightarrow> set_bytes off bs (a @ replicate (length bs + n) 0) = (a @ bs) @ replicate n 0"
  by (simp add: set_bytes_def)

lemma concatChunks_concat: "concatChunks chunks = concat chunks"
proof -
  have "fst (foldl (\<lambda>(output, offset) chunk. (set_bytes offset chunk output, offset + length chunk))
      (a @ replicate (sum_list (map length chunks)) 0, length a) chunks) = a @ concat chunks" for a
  proof (induction chunks arbitrary: a)
    case (Cons c cs)
    have "set_bytes (length a) c (a @ replicate (length c + sum_list (map length cs)) 0) =
        (a @ c) @ replicate (sum_list (map length cs)) 0"
      by (rule set_bytes_zeros) simp
    with Cons.IH [of "a @ c"] show ?case by simp
  qed simp
  from this [of "[]"] show ?thesis by (simp add: concatChunks_def Let_def)
qed

section \<open>The headers, field by field\<close>

lemma write16_zeros:
  "length a = off \<Longrightarrow> 2 \<le> n \<Longrightarrow>
   writeUint16LE off v (a @ replicate n 0) = (a @ le16 v) @ replicate (n - 2) 0"
  by (simp add: writeUint16LE_def set_bytes_def)

lemma write32_zeros:
  "length a = off \<Longrightarrow> 4 \<le> n \<Longrightarrow>
   writeUint32LE off v (a @ replicate n 0) = (a @ le32 v) @ replicate (n - 4) 0"
  by (simp add: writeUint32LE_def set_bytes_def)

lemmas write_zeros = write16_zeros write32_zeros
  write16_zeros [where a = "[]", unfolded append_Nil] write32_zeros [where a = "[]", unfolded append_Nil]

lemma local_header_form:
  "buildLocalFileHeader nm crc sz =
     le32 0x04034b50 @ le16 20 @ le16 0 @ le16 0 @ le16 0 @ le16 0 @ le32 crc @ le32 sz @ le32 sz @
     le16 (length nm) @ le16 0 @ nm"
  by (simp add: buildLocalFileHeader_def Let_def write_zeros del: append_assoc add_2_eq_Suc add_2_eq_Suc')
     (simp add: set_bytes_def)

lemma central_header_form:
  "buildCentralDirectoryHeader nm crc sz offset =
     le32 0x02014b50 @ le16 20 @ le16 20 @ le16 0 @ le16 0 @ le16 0 @ le16 0 @ le32 crc @ le32 sz @
     le32 sz @ le16 (length nm) @ le16 0 @ le16 0 @ le16 0 @ le16 0 @ le32 0 @ le32 offset @ nm"
  by (simp add: buildCentralDirectoryHeader_def Let_def write_zeros del: append_assoc add_2_eq_Suc add_2_eq_Suc')
     (simp add: set_bytes_def)

lemma end_record_form:
  "buildEndOfCentralDirectory n csz coff =
     le32 0x06054b50 @ le16 0 @ le16 0 @ le16 n @ le16 n @ le32 csz @ le32 coff @ le16 0"
  by (simp add: buildEndOfCentralDirectory_def Let_def write_zeros del: append_assoc add_2_eq_Suc add_2_eq_Suc')


section \<open>Reading back what was written\<close>

lemma field_drop: "field w z (off + k) = field w (drop off z) k" "field w z off = field w (drop off z) 0"
  by (simp_all add: field_def add.commute)

lemma field_skip:
  "length a \<le> k \<Longrightarrow> field w (a @ b) k = field w b (k - length a)"
  by (simp add: field_def)

lemma field_here:
  "n < 2 ^ 16 \<Longrightarrow> field 2 (le16 n @ b) 0 = n" "n < 2 ^ 32 \<Longrightarrow> field 4 (le32 n @ b) 0 = n"
  using le16.field_enc [of n "[]" b] le32.field_enc [of n "[]" b] by simp_all

lemma local_fields:
  assumes "drop loc z = buildLocalFileHeader nm crc sz @ rest"
    and "length nm < 2 ^ 16" "crc < 2 ^ 32" "sz < 2 ^ 32"
  shows "field 4 z loc = 0x04034b50" "field 2 z (loc + 8) = 0" "field 4 z (loc + 14) = crc"
    "field 4 z (loc + 18) = sz" "field 4 z (loc + 22) = sz" "field 2 z (loc + 26) = length nm"
    "field 2 z (loc + 28) = 0" "take (length nm) (drop (loc + 30) z) = nm"
    "drop (loc + 30 + length nm) z = rest"
proof -
  note form = assms(1) [unfolded local_header_form append_assoc]
  show "field 4 z loc = 0x04034b50"
    by (subst field_drop(2)) (simp add: form field_here)
  show "field 2 z (loc + 8) = 0" "field 4 z (loc + 14) = crc"
    "field 4 z (loc + 18) = sz" "field 4 z (loc + 22) = sz" "field 2 z (loc + 26) = length nm"
    "field 2 z (loc + 28) = 0"
    using assms(2-) by (simp_all add: field_drop(1) form field_skip field_here)
  have d: "drop (loc + 30) z = nm @ rest"
    by (simp add: add.commute [of loc] form flip: drop_drop)
  show "take (length nm) (drop (loc + 30) z) = nm" by (simp add: d)
  show "drop (loc + 30 + length nm) z = rest"
    using arg_cong [OF d, of "drop (length nm)"] by (simp add: ac_simps)
qed

lemma central_fields:
  assumes "drop off z = buildCentralDirectoryHeader nm crc sz loc @ rest"
    and "length nm < 2 ^ 16" "crc < 2 ^ 32" "sz < 2 ^ 32" "loc < 2 ^ 32"
  shows "field 4 z off = 0x02014b50" "field 2 z (off + 10) = 0" "field 4 z (off + 16) = crc"
    "field 4 z (off + 24) = sz" "field 2 z (off + 28) = length nm" "field 2 z (off + 30) = 0"
    "field 2 z (off + 32) = 0" "field 4 z (off + 42) = loc"
    "take (length nm) (drop (off + 46) z) = nm" "drop (off + 46 + length nm) z = rest"
proof -
  note form = assms(1) [unfolded central_header_form append_assoc]
  show "field 4 z off = 0x02014b50"
    by (subst field_drop(2)) (simp add: form field_here)
  show "field 2 z (off + 10) = 0" "field 4 z (off + 16) = crc"
    "field 4 z (off + 24) = sz" "field 2 z (off + 28) = length nm" "field 2 z (off + 30) = 0"
    "field 2 z (off + 32) = 0" "field 4 z (off + 42) = loc"
    using assms(2-) by (simp_all add: field_drop(1) form field_skip field_here)
  have d: "drop (off + 46) z = nm @ rest"
    by (simp add: add.commute [of off] form flip: drop_drop)
  show "take (length nm) (drop (off + 46) z) = nm" by (simp add: d)
  show "drop (off + 46 + length nm) z = rest"
    using arg_cong [OF d, of "drop (length nm)"] by (simp add: ac_simps)
qed


text \<open>The register of the bitwise loop holds the coefficients that the division works on.\<close>

definition register_coeffs :: "u32 \<Rightarrow> bool list" where
  "register_coeffs r = map (bit r) [0..<32]"

definition feed_bit :: "u32 \<Rightarrow> bool \<Rightarrow> u32" where
  "feed_bit r m = crc_bit (r XOR of_bool m)"

lemma generator_tail_word: "generator_tail = register_coeffs 0xedb88320"
  by code_simp

lemma length_coeffs [simp]: "length (register_coeffs r) = 32"
  by (simp add: register_coeffs_def)

lemma add_front_nth:
  "length ps \<le> length qs \<Longrightarrow> i < length qs \<Longrightarrow>
   add_front ps qs ! i = (if i < length ps then ps ! i \<noteq> qs ! i else qs ! i)"
  by (induction ps qs arbitrary: i rule: add_front.induct) (auto simp: nth_Cons split: nat.split)

lemma add_front_xor:
  "32 \<le> length ms \<Longrightarrow> add_front (register_coeffs a) (add_front (register_coeffs b) ms) = add_front (register_coeffs (a XOR b)) ms"
  by (rule nth_equalityI) (auto simp: add_front_nth register_coeffs_def bit_simps)

lemma add_front_cons:
  "32 \<le> length ms \<Longrightarrow>
   add_front (register_coeffs r) (m # ms) = (bit r 0 \<noteq> m) # add_front (register_coeffs (drop_bit 1 r)) ms"
proof (rule nth_equalityI)
  fix i assume "32 \<le> length ms" "i < length (add_front (register_coeffs r) (m # ms))"
  then show "add_front (register_coeffs r) (m # ms) ! i =
      ((bit r 0 \<noteq> m) # add_front (register_coeffs (drop_bit 1 r)) ms) ! i"
    using bit_imp_le_length [of r i]
    by (cases i) (auto simp: add_front_nth register_coeffs_def bit_simps)
qed simp

lemma feed_bit_drop: "feed_bit r m =
    (if bit r 0 \<noteq> m then 0xedb88320 XOR drop_bit 1 r else drop_bit 1 r)"
  by (cases m) (auto simp: feed_bit_def crc_bit_def bit_simps)

lemma division_is_register:
  "poly_mod (add_front (register_coeffs r) (ms @ replicate 32 False)) = register_coeffs (foldl feed_bit r ms)"
proof (induction ms arbitrary: r)
  case Nil
  have "add_front (register_coeffs r) (replicate 32 False) = register_coeffs r"
    by (rule nth_equalityI) (auto simp: add_front_nth)
  moreover have "poly_mod (register_coeffs r) = register_coeffs r"
    by (cases "register_coeffs r") (use length_coeffs [of r] in auto)
  ultimately show ?case by simp
next
  case (Cons m ms)
  then show ?case
    by (simp add: add_front_cons generator_tail_word add_front_xor feed_bit_drop)
qed

lemma feed_byte_prefix:
  "n \<le> 8 \<Longrightarrow> foldl feed_bit r (map (bit (b :: byte)) [0..<n]) =
     (crc_bit ^^ n) (r XOR ucast (take_bit n b))"
proof (induction n)
  case (Suc n)
  define p :: u32 where "p = push_bit n (of_bool (bit b n))"
  have "(crc_bit ^^ n) p = drop_bit n p"
    by (rule crc_bits_high) (simp add: p_def bit_simps)
  also have "\<dots> = of_bool (bit b n)"
    using Suc.prems by (intro bit_word_eqI) (auto simp: p_def bit_simps)
  finally have p: "(crc_bit ^^ n) p = of_bool (bit b n)" .
  have "(ucast (take_bit (Suc n) b) :: u32) = ucast (take_bit n b) XOR p"
    using Suc.prems by (intro bit_word_eqI) (auto simp: p_def bit_simps less_Suc_eq)
  then show ?case
    using Suc by (simp add: feed_bit_def crc_bits_xor p xor.assoc)
qed simp

lemma feed_byte: "foldl feed_bit r (byte_coeffs b) = crc_step r b"
  using feed_byte_prefix [of 8 r b] by (simp add: byte_coeffs_def crc_step_spec take_bit_word_eq_self)

lemma feed_bytes: "foldl feed_bit r (concat (map byte_coeffs bytes)) = foldl crc_step r bytes"
  by (induction bytes arbitrary: r) (simp_all add: feed_byte)

lemma coeffs_complement: "horner_sum of_bool 2 (map Not (register_coeffs r)) = r XOR 0xffffffff"
proof (rule bit_word_eqI)
  fix n assume "n < LENGTH(32)"
  moreover have "(0xffffffff :: u32) = mask 32" by (simp add: mask_eq_exp_minus_1)
  ultimately show "bit (horner_sum of_bool 2 (map Not (register_coeffs r)) :: u32) n = bit (r XOR 0xffffffff) n"
    by (simp only: bit_xor_iff bit_mask_iff)
      (auto simp: bit_horner_sum_bit_word_iff register_coeffs_def)
qed

lemma crc32_division: "crc32 bytes = crc_spec bytes"
proof -
  have "replicate 32 True = register_coeffs 0xffffffff"
    by (simp add: register_coeffs_def upt_rec_numeral numeral_eq_Suc)
  then show ?thesis
    by (simp add: crc32_def crc_spec_def division_is_register feed_bytes coeffs_complement)
qed

lemma unat_less_32: "unat (w :: u32) < 2 ^ 32"
  using unsigned_less [of w] by simp

lemma read_central_chunks:
  assumes "zip_chunks es loc = (ls, cs, fin)"
    and "drop loc z = concat ls @ post" "drop off z = concat cs @ post'"
    and "length z < 2 ^ 32" "\<forall>e\<in>set es. length (text_encode (js_slashes (ze_path e))) < 2 ^ 16"
  shows "read_central z (length es) off = Some (map zip_content es)"
  using assms
proof (induction es arbitrary: loc ls cs off)
  case (Cons e es)
  define nm where "nm = text_encode (js_slashes (ze_path e))"
  define crc where "crc = unat (crc32 (ze_bytes e))"
  define sz where "sz = length (ze_bytes e)"
  obtain ls' cs' where tl: "zip_chunks es (loc + (length (buildLocalFileHeader nm crc sz) + sz)) = (ls', cs', fin)"
    and ls: "ls = buildLocalFileHeader nm crc sz # ze_bytes e # ls'"
    and cs: "cs = buildCentralDirectoryHeader nm crc sz loc # cs'"
    using Cons.prems(1) by (auto simp: Let_def nm_def crc_def sz_def split: prod.splits)
  have lz: "drop loc z = buildLocalFileHeader nm crc sz @ ze_bytes e @ concat ls' @ post"
    using Cons.prems(2) ls by simp
  have cz: "drop off z = buildCentralDirectoryHeader nm crc sz loc @ concat cs' @ post'"
    using Cons.prems(3) cs by simp
  have "length (drop loc z) = length (buildLocalFileHeader nm crc sz @ ze_bytes e @ concat ls' @ post)"
    by (simp only: lz)
  then have "loc \<le> length z" "sz \<le> length z" by (auto simp: local_header_form sz_def)
  then have b: "length nm < 2 ^ 16" "crc < 2 ^ 32" "sz < 2 ^ 32" "loc < 2 ^ 32"
    using Cons.prems(4,5) unat_less_32 by (auto simp: nm_def crc_def)
  note lf = local_fields [OF lz b(1-3)] and cf = central_fields [OF cz b]
  have nx: "drop (loc + (length (buildLocalFileHeader nm crc sz) + sz)) z = concat ls' @ post"
    using arg_cong [OF lf(9), of "drop sz"] by (simp add: local_header_form sz_def ac_simps)
  have rc: "read_central z (length es) (off + 46 + length nm) = Some (map zip_content es)"
    using Cons.IH [OF tl nx cf(10)] Cons.prems(4,5) by simp
  have sum: "unat (crc_spec (ze_bytes e)) = crc" by (simp add: crc_def crc32_division)
  have data: "take sz (drop (loc + 30 + length nm) z) = ze_bytes e" by (simp add: lf(9) sz_def)
  show ?case
    by (simp only: read_central.simps lf(1-8) cf(1-9) Let_def length_Cons add_0_right data sum rc)
       (simp add: zip_content_def nm_def)
qed simp

lemma zip_chunks_final: "zip_chunks es loc = (ls, cs, fin) \<Longrightarrow> fin = loc + length (concat ls)"
  by (induction es arbitrary: loc ls cs)
     (fastforce simp: Let_def local_header_form split: prod.splits)+

lemma end_fields:
  assumes "drop e z = buildEndOfCentralDirectory n csz coff" "n < 2 ^ 16" "csz < 2 ^ 32" "coff < 2 ^ 32"
  shows "field 4 z e = 0x06054b50" "field 2 z (e + 10) = n" "field 4 z (e + 12) = csz"
    "field 4 z (e + 16) = coff" "field 2 z (e + 20) = 0"
proof -
  note form = assms(1) [unfolded end_record_form append_assoc]
  show "field 4 z e = 0x06054b50"
    by (subst field_drop(2)) (simp add: form field_here)
  show "field 2 z (e + 10) = n" "field 4 z (e + 12) = csz" "field 4 z (e + 16) = coff"
    using assms(2-) by (simp_all add: field_drop(1) form field_skip field_here)
  show "field 2 z (e + 20) = 0"
    using field_here(1) [of 0 "[]"] by (simp add: field_drop(1) form field_skip)
qed

lemma zip_chunks_length:
  "zip_chunks es loc = (ls, cs, fin) \<Longrightarrow> length (concat ls) + length (concat cs) =
   sum_list (map (\<lambda>e. 76 + 2 * length (text_encode (js_slashes (ze_path e))) + length (ze_bytes e)) es)"
proof (induction es arbitrary: loc ls cs fin)
  case (Cons e es)
  from Cons.prems obtain loc' ls' cs' where tl: "zip_chunks es loc' = (ls', cs', fin)"
    and "length (concat ls) = 30 + length (text_encode (js_slashes (ze_path e))) + length (ze_bytes e) + length (concat ls')"
    and "length (concat cs) = 46 + length (text_encode (js_slashes (ze_path e))) + length (concat cs')"
    by (auto simp: Let_def local_header_form central_header_form split: prod.splits)
  with Cons.IH [OF tl] show ?case by simp
qed simp

lemma zip_length:
  assumes "es \<noteq> []"
  shows "\<exists>z. createStoreOnlyZip es = Inr z \<and> length z =
    22 + sum_list (map (\<lambda>e. 76 + 2 * length (text_encode (js_slashes (ze_path e))) + length (ze_bytes e)) es)"
proof -
  obtain ls cs fin where ch: "zip_chunks es 0 = (ls, cs, fin)" by (cases "zip_chunks es 0")
  show ?thesis
    using zip_chunks_length [OF ch] assms
    by (simp add: createStoreOnlyZip_def ch concatChunks_concat Let_def end_record_form)
qed

lemma zip_reads_back:
  assumes "createStoreOnlyZip entries = Inr z"
    and "length entries < 2 ^ 16" "length z < 2 ^ 32"
    and "\<forall>e\<in>set entries. length (text_encode (js_slashes (ze_path e))) < 2 ^ 16"
  shows "read_zip z = Some (map (\<lambda>e. (text_encode (js_slashes (ze_path e)), ze_bytes e)) entries)"
proof -
  obtain ls cs fin where ch: "zip_chunks entries 0 = (ls, cs, fin)" by (cases "zip_chunks entries 0")
  define tail where "tail = buildEndOfCentralDirectory (length entries) (length (concat cs)) fin"
  have fin: "fin = length (concat ls)" using zip_chunks_final [OF ch] by simp
  have z: "z = concat ls @ concat cs @ tail"
    using assms(1) by (simp add: createStoreOnlyZip_def ch concatChunks_concat tail_def Let_def split: if_splits)
  have tl: "length tail = 22" by (simp add: tail_def end_record_form)
  then have e: "length z - 22 = fin + length (concat cs)" by (simp add: z fin)
  have d: "drop (length z - 22) z = buildEndOfCentralDirectory (length entries) (length (concat cs)) fin"
    by (simp add: e) (simp add: z fin tail_def)
  have "length (concat cs) < 2 ^ 32" "fin < 2 ^ 32" using assms(3) by (simp_all add: z fin)
  note ef = end_fields [OF d assms(2) this]
  have "read_central z (length entries) fin = Some (map zip_content entries)"
    by (rule read_central_chunks [OF ch _ _ assms(3,4)]) (simp_all add: z fin)
  moreover have "22 \<le> length z" using tl by (simp add: z)
  ultimately show ?thesis
    by (simp only: read_zip_def Let_def ef) (simp add: e zip_content_def [abs_def])
qed



text \<open>
  C32. The table-driven checksum is the CRC-32 of the standard for every input: the complemented
  remainder of the message, its first 32 coefficients complemented, divided by the generator
  polynomial over GF(2), both written from their powers of x and not from the code's constant.
\<close>

theorem crc32_is_polynomial_remainder:
  "crc32 bytes = horner_sum of_bool 2 (map Not (poly_mod
     (add_front (replicate 32 True) (concat (map byte_coeffs bytes) @ replicate 32 False))))"
  unfolding crc_spec_def [symmetric] by (rule crc32_division)

end
