(* ===== verification/Web_Save.thy ===== *)
theory Web_Save
  imports Web_Zip
begin

text \<open>
  Saving received files in the browser, \<open>lib/web-save-location.ts\<close>.

  The directory the user picked is a handle of the File System Access API. The model has one disk, a
  map from absolute paths (lists of names) to nodes, and a handle is the path it stands for. Of the
  API the code relies on the documented behaviour: a name that is empty, \<open>.\<close>, \<open>..\<close> or has a separator
  is a \<open>TypeError\<close>, a missing entry a \<open>NotFoundError\<close> unless it is created, and an entry of the other
  kind a \<open>TypeMismatchError\<close>. Everything else that may go wrong is an argument: whether the permission
  is granted, what the picker and IndexedDB answer, and which writes fail.
\<close>

section \<open>The file system\<close>

datatype fs_node = FsFile "byte list" | FsDir

type_synonym fs_path = "string list"
type_synonym disk = "fs_path \<rightharpoonup> fs_node"

definition valid_name :: "string \<Rightarrow> bool" where
  "valid_name n \<longleftrightarrow> n \<noteq> [] \<and> n \<noteq> ''.'' \<and> n \<noteq> ''..'' \<and> CHR ''/'' \<notin> set n"

definition getFileHandle :: "bool \<Rightarrow> disk \<Rightarrow> fs_path \<Rightarrow> string \<Rightarrow> disk \<times> fs_path result" where
  "getFileHandle create d dir name =
     (if \<not> valid_name name then (d, Inl (TypeError ''Name is not allowed''))
      else case d (dir @ [name]) of
        Some FsDir \<Rightarrow> (d, Inl (Rejected ''TypeMismatchError''))
      | Some (FsFile _) \<Rightarrow> (d, Inr (dir @ [name]))
      | None \<Rightarrow>
          if create then (d(dir @ [name] \<mapsto> FsFile []), Inr (dir @ [name]))
          else (d, Inl (Rejected ''NotFoundError'')))"

definition getDirectoryHandle :: "disk \<Rightarrow> fs_path \<Rightarrow> string \<Rightarrow> disk \<times> fs_path result" where
  "getDirectoryHandle d dir name =
     (if \<not> valid_name name then (d, Inl (TypeError ''Name is not allowed''))
      else case d (dir @ [name]) of
        Some FsDir \<Rightarrow> (d, Inr (dir @ [name]))
      | Some (FsFile _) \<Rightarrow> (d, Inl (Rejected ''TypeMismatchError''))
      | None \<Rightarrow> (d(dir @ [name] \<mapsto> FsDir), Inr (dir @ [name])))"

section \<open>The save location\<close>

record ReceivedWebFile =
  rf_name :: string
  rf_bytes :: "byte list"

record WebWriteConflict =
  original :: string
  resolved :: string

record WriteCollectionResult =
  savedToDirectory :: bool
  zippedDownload :: bool
  wr_conflicts :: "WebWriteConflict list"

record save_state =
  cachedDirHandle :: "fs_path option"
  saved_handle :: "fs_path option"               \<comment> \<open>the entry of IndexedDB\<close>
  sv_disk :: disk
  downloads :: "(string \<times> byte list) list"        \<comment> \<open>what the browser was told to download\<close>

text \<open>\<open>idbGet\<close> and \<open>idbSet\<close> on the one key; a database error rejects and changes nothing.\<close>

definition idbGet :: "js_error option \<Rightarrow> save_state \<Rightarrow> fs_path option result" where
  "idbGet db_error s = (case db_error of Some e \<Rightarrow> Inl e | None \<Rightarrow> Inr (saved_handle s))"

definition idbSet :: "js_error option \<Rightarrow> fs_path \<Rightarrow> save_state \<Rightarrow> save_state \<times> unit result" where
  "idbSet db_error h s =
     (case db_error of Some e \<Rightarrow> (s, Inl e) | None \<Rightarrow> (s\<lparr>saved_handle := Some h\<rparr>, Inr ()))"

definition supportsWebSaveLocationPicker :: "bool \<Rightarrow> bool \<Rightarrow> bool \<Rightarrow> bool" where
  "supportsWebSaveLocationPicker has_window isSecureContext showDirectoryPicker \<longleftrightarrow>
     has_window \<and> isSecureContext \<and> showDirectoryPicker"

text \<open>\<open>queryPermission\<close> and \<open>requestPermission\<close> answer whether the permission is granted.\<close>

definition ensureDirWritePermission :: "bool \<Rightarrow> bool \<Rightarrow> bool" where
  "ensureDirWritePermission current requested = (if current then True else requested)"

definition saveDirectoryHandle :: "js_error option \<Rightarrow> fs_path \<Rightarrow> save_state \<Rightarrow> save_state \<times> unit result" where
  "saveDirectoryHandle db_error h s =
     (case idbSet db_error h s of
        (s1, Inl e) \<Rightarrow> (s1, Inl e)
      | (s1, Inr _) \<Rightarrow> (s1\<lparr>cachedDirHandle := Some h\<rparr>, Inr ()))"

definition loadSavedDirectoryHandle :: "js_error option \<Rightarrow> save_state \<Rightarrow> save_state \<times> fs_path option" where
  "loadSavedDirectoryHandle db_error s =
     (case idbGet db_error s of
        Inl _ \<Rightarrow> (s, None)
      | Inr None \<Rightarrow> (s, None)
      | Inr (Some h) \<Rightarrow> (s\<lparr>cachedDirHandle := Some h\<rparr>, Some h))"

text \<open>The \<open>name\<close> of a handle: the last name of its path.\<close>

definition handle_name :: "fs_path \<Rightarrow> string" where
  "handle_name h = (if h = [] then [] else last h)"

definition initWebSaveLocation :: "js_error option \<Rightarrow> save_state \<Rightarrow> save_state \<times> string" where
  "initWebSaveLocation db_error s =
     (let (s1, h) = loadSavedDirectoryHandle db_error s in
      (s1, case h of None \<Rightarrow> [] | Some p \<Rightarrow> handle_name p))"

definition pickDownloadDirectory ::
    "bool \<Rightarrow> fs_path result \<Rightarrow> js_error option \<Rightarrow> save_state \<Rightarrow> save_state \<times> string option result" where
  "pickDownloadDirectory supported picker db_error s =
     (if \<not> supported then (s, Inr None)
      else
        (let (s1, r) =
           (case picker of
              Inl e \<Rightarrow> (s, Inl e)
            | Inr h \<Rightarrow>
                (case saveDirectoryHandle db_error h s of
                   (s1, Inl e) \<Rightarrow> (s1, Inl e)
                 | (s1, Inr _) \<Rightarrow> (s1, Inr (Some (handle_name h)))))
         in (s1, if r = Inl (Rejected ''AbortError'') then Inr None else r)))"

section \<open>Names that are free\<close>

definition save_basename :: "string \<Rightarrow> string" where
  "save_basename path = last (js_split (CHR ''/'') (js_slashes path))"

definition resolveConflictName :: "string \<Rightarrow> nat \<Rightarrow> string" where
  "resolveConflictName fileName index =
     (case js_last_index (CHR ''.'') fileName of
        Some dot \<Rightarrow>
          if dot > 0
          then take dot fileName @ '' ('' @ show_nat index @ '')'' @ drop dot fileName
          else fileName @ '' ('' @ show_nat index @ '')''
      | None \<Rightarrow> fileName @ '' ('' @ show_nat index @ '')'')"

definition fileExists :: "disk \<Rightarrow> fs_path \<Rightarrow> string \<Rightarrow> bool" where
  "fileExists d dir fileName = is_ok (snd (getFileHandle False d dir fileName))"

function resolve_from ::
    "disk \<Rightarrow> fs_path \<Rightarrow> string \<Rightarrow> string \<Rightarrow> nat \<Rightarrow> (string \<times> WebWriteConflict option) result" where
  "resolve_from d dir fileName candidate index =
     (if index < 10000 then
        if \<not> fileExists d dir candidate then
          Inr (candidate,
            if candidate = fileName then None
            else Some \<lparr>original = fileName, resolved = candidate\<rparr>)
        else resolve_from d dir fileName (resolveConflictName fileName index) (Suc index)
      else Inl (Error (''Too many filename conflicts for '' @ fileName)))"
  by pat_completeness auto
termination
  by (relation "measure (\<lambda>(d, dir, fileName, candidate, index). 10000 - index)") auto

declare resolve_from.simps [simp del]

definition resolveWritableFileName ::
    "disk \<Rightarrow> fs_path \<Rightarrow> string \<Rightarrow> (string \<times> WebWriteConflict option) result" where
  "resolveWritableFileName d dir fileName = resolve_from d dir fileName fileName 1"

section \<open>Writing\<close>

fun open_directories :: "disk \<Rightarrow> fs_path \<Rightarrow> string list \<Rightarrow> disk \<times> fs_path result" where
  "open_directories d current [] = (d, Inr current)"
| "open_directories d current (part # parts) =
     (case getDirectoryHandle d current part of
        (d1, Inl e) \<Rightarrow> (d1, Inl e)
      | (d1, Inr dir) \<Rightarrow> open_directories d1 dir parts)"

definition getDirectoryForRelativePath ::
    "disk \<Rightarrow> fs_path \<Rightarrow> string \<Rightarrow> disk \<times> (fs_path \<times> string) result" where
  "getDirectoryForRelativePath d rootDir relativePath =
     (let parts = js_filter_boolean (js_split (CHR ''/'') (js_slashes relativePath)) in
      if parts = [] then (d, Inl (Error ''Invalid relative path''))
      else case open_directories d rootDir (butlast parts) of
        (d1, Inl e) \<Rightarrow> (d1, Inl e)
      | (d1, Inr dir) \<Rightarrow> (d1, Inr (dir, last parts)))"

text \<open>\<open>io\<close> gives the error with which \<open>createWritable\<close>, \<open>write\<close> or \<open>close\<close> fails for a path, if any.\<close>

definition writeBytesToDirectory ::
    "(fs_path \<Rightarrow> js_error option) \<Rightarrow> disk \<Rightarrow> fs_path \<Rightarrow> string \<Rightarrow> byte list \<Rightarrow>
     disk \<times> WebWriteConflict option result" where
  "writeBytesToDirectory io d dir fileName bytes =
     (case resolveWritableFileName d dir fileName of
        Inl e \<Rightarrow> (d, Inl e)
      | Inr (name, conflict) \<Rightarrow>
          (case getFileHandle True d dir name of
             (d1, Inl e) \<Rightarrow> (d1, Inl e)
           | (d1, Inr p) \<Rightarrow>
               (case io p of
                  Some e \<Rightarrow> (d1, Inl e)
                | None \<Rightarrow> (d1(p \<mapsto> FsFile bytes), Inr conflict))))"

definition deriveZipDownloadName :: "string list \<Rightarrow> string" where
  "deriveZipDownloadName paths =
     (let roots = foldl js_set_add []
            (js_filter_boolean (map (\<lambda>path. hd (js_split (CHR ''/'') (js_slashes path))) paths)) in
      if length roots = 1 then hd roots @ ''.zip'' else ''download.zip'')"

fun writeCollectionToDirectory ::
    "(fs_path \<Rightarrow> js_error option) \<Rightarrow> disk \<Rightarrow> fs_path \<Rightarrow> ReceivedWebFile list \<Rightarrow>
     disk \<times> WebWriteConflict list result" where
  "writeCollectionToDirectory io d rootDir [] = (d, Inr [])"
| "writeCollectionToDirectory io d rootDir (file # files) =
     (case getDirectoryForRelativePath d rootDir (js_slashes (rf_name file)) of
        (d1, Inl e) \<Rightarrow> (d1, Inl e)
      | (d1, Inr (dir, fileName)) \<Rightarrow>
          (case writeBytesToDirectory io d1 dir fileName (rf_bytes file) of
             (d2, Inl e) \<Rightarrow> (d2, Inl e)
           | (d2, Inr conflict) \<Rightarrow>
               (case writeCollectionToDirectory io d2 rootDir files of
                  (d3, Inl e) \<Rightarrow> (d3, Inl e)
                | (d3, Inr conflicts) \<Rightarrow>
                    (d3, Inr ((case conflict of None \<Rightarrow> [] | Some c \<Rightarrow> [c]) @ conflicts)))))"

definition isSimpleSingleFile :: "ReceivedWebFile list \<Rightarrow> bool" where
  "isSimpleSingleFile files \<longleftrightarrow>
     length files = 1 \<and> CHR ''/'' \<notin> set (rf_name (hd files)) \<and> CHR 0x5C \<notin> set (rf_name (hd files))"

definition triggerBrowserDownload :: "byte list \<Rightarrow> string \<Rightarrow> save_state \<Rightarrow> save_state" where
  "triggerBrowserDownload bytes fileName s = s\<lparr>downloads := downloads s @ [(fileName, bytes)]\<rparr>"

definition writeReceivedCollection ::
    "bool \<Rightarrow> bool \<Rightarrow> (fs_path \<Rightarrow> js_error option) \<Rightarrow> ReceivedWebFile list \<Rightarrow> save_state \<Rightarrow>
     save_state \<times> WriteCollectionResult result" where
  "writeReceivedCollection current requested io files s =
     (if files = [] then (s, Inl (Error ''No files to save''))
      else
        (let simple = isSimpleSingleFile files;
             file = hd files;
             download =
               (if simple then
                  (triggerBrowserDownload (rf_bytes file) (save_basename (rf_name file)) s,
                   Inr \<lparr>savedToDirectory = False, zippedDownload = False, wr_conflicts = []\<rparr>)
                else
                  (case createStoreOnlyZip (map (\<lambda>f. \<lparr>ze_path = rf_name f, ze_bytes = rf_bytes f\<rparr>) files) of
                     Inl e \<Rightarrow> (s, Inl e)
                   | Inr zipBytes \<Rightarrow>
                       (triggerBrowserDownload zipBytes (deriveZipDownloadName (map rf_name files)) s,
                        Inr \<lparr>savedToDirectory = False, zippedDownload = True, wr_conflicts = []\<rparr>)))
         in case cachedDirHandle s of
              None \<Rightarrow> download
            | Some rootDir \<Rightarrow>
                if \<not> ensureDirWritePermission current requested then download
                else if simple then
                  (case writeBytesToDirectory io (sv_disk s) rootDir (save_basename (rf_name file)) (rf_bytes file) of
                     (d, Inl e) \<Rightarrow> (s\<lparr>sv_disk := d\<rparr>, Inl e)
                   | (d, Inr conflict) \<Rightarrow>
                       (s\<lparr>sv_disk := d\<rparr>,
                        Inr \<lparr>savedToDirectory = True, zippedDownload = False,
                             wr_conflicts = (case conflict of None \<Rightarrow> [] | Some c \<Rightarrow> [c])\<rparr>))
                else
                  (case writeCollectionToDirectory io (sv_disk s) rootDir files of
                     (d, Inl e) \<Rightarrow> (s\<lparr>sv_disk := d\<rparr>, Inl e)
                   | (d, Inr conflicts) \<Rightarrow>
                       (s\<lparr>sv_disk := d\<rparr>,
                        Inr \<lparr>savedToDirectory = True, zippedDownload = False, wr_conflicts = conflicts\<rparr>))))"

definition writeReceivedFile ::
    "bool \<Rightarrow> bool \<Rightarrow> (fs_path \<Rightarrow> js_error option) \<Rightarrow> string \<Rightarrow> byte list \<Rightarrow> save_state \<Rightarrow> save_state \<times> unit result" where
  "writeReceivedFile current requested io fileName bytes s =
     (case writeReceivedCollection current requested io [\<lparr>rf_name = fileName, rf_bytes = bytes\<rparr>] s of
        (s1, Inl e) \<Rightarrow> (s1, Inl e)
      | (s1, Inr _) \<Rightarrow> (s1, Inr ()))"

section \<open>Nothing on the disk is lost\<close>

text \<open>
  What a write may do to the disk: every entry that was there stays as it was, and what is new lies
  below the directory, each name of its path a valid one.
\<close>

definition extends_below :: "fs_path \<Rightarrow> disk \<Rightarrow> disk \<Rightarrow> bool" where
  "extends_below dir d d' \<longleftrightarrow>
     d \<subseteq>\<^sub>m d' \<and>
     (\<forall>p \<in> dom d' - dom d. \<exists>names. p = dir @ names \<and> names \<noteq> [] \<and> list_all valid_name names)"

lemma extends_refl [simp]: "extends_below dir d d"
  by (simp add: extends_below_def)

lemma extends_trans:
  "extends_below dir d d1 \<Longrightarrow> extends_below dir d1 d2 \<Longrightarrow> extends_below dir d d2"
  unfolding extends_below_def by (meson DiffD1 DiffD2 DiffI map_le_trans)

lemma extends_parent:
  assumes "extends_below (dir @ names) d d'" and "list_all valid_name names"
  shows "extends_below dir d d'"
  unfolding extends_below_def
proof (intro conjI ballI)
  show "d \<subseteq>\<^sub>m d'" using assms(1) by (simp add: extends_below_def)
  fix p
  assume "p \<in> dom d' - dom d"
  then obtain ns where "p = (dir @ names) @ ns" "ns \<noteq> []" "list_all valid_name ns"
    using assms(1) unfolding extends_below_def by blast
  then show "\<exists>names. p = dir @ names \<and> names \<noteq> [] \<and> list_all valid_name names"
    using assms(2) by (intro exI [of _ "names @ ns"]) simp
qed

lemma extends_new:
  assumes "d (dir @ [name]) = None" and "valid_name name"
  shows "extends_below dir d (d(dir @ [name] \<mapsto> node))"
  using assms by (auto simp: extends_below_def map_le_def)

lemma getDirectoryHandle_extends:
  assumes "getDirectoryHandle d dir name = (d', r)"
  shows "extends_below dir d d'" "r = Inr p \<Longrightarrow> p = dir @ [name] \<and> valid_name name"
  using assms by (auto simp: getDirectoryHandle_def extends_new split: if_splits option.splits fs_node.splits)

lemma open_directories_extends:
  "open_directories d dir parts = (d', r) \<Longrightarrow>
   extends_below dir d d' \<and> (\<forall>p. r = Inr p \<longrightarrow> p = dir @ parts \<and> list_all valid_name parts)"
proof (induction d dir parts arbitrary: d' r rule: open_directories.induct)
  case (2 d dir part parts)
  obtain d1 r1 where g: "getDirectoryHandle d dir part = (d1, r1)" by fastforce
  note g1 = getDirectoryHandle_extends [OF g]
  show ?case
  proof (cases r1)
    case (Inl e)
    then show ?thesis using "2.prems" g g1 by auto
  next
    case (Inr dir1)
    then have eq: "dir1 = dir @ [part]" "valid_name part" using g1(2) by auto
    have o: "open_directories d1 dir1 parts = (d', r)" using "2.prems" g Inr by simp
    note ih = "2.IH" [OF g [symmetric] Inr o]
    then have "extends_below dir d1 d'"
      using eq by (auto intro: extends_parent)
    then show ?thesis using g1(1) ih eq by (auto intro: extends_trans)
  qed
qed auto

lemma relative_directory_extends:
  assumes "getDirectoryForRelativePath d dir path = (d', r)"
  shows "extends_below dir d d'"
    "r = Inr (sub, name) \<Longrightarrow> \<exists>parts. sub = dir @ parts \<and> list_all valid_name parts \<and>
       parts @ [name] = js_filter_boolean (js_split (CHR ''/'') (js_slashes path))"
proof -
  define parts where "parts = js_filter_boolean (js_split (CHR ''/'') (js_slashes path))"
  obtain d1 r1 where o: "open_directories d dir (butlast parts) = (d1, r1)" by fastforce
  note oe = open_directories_extends [OF o]
  have d: "getDirectoryForRelativePath d dir path =
    (if parts = [] then (d, Inl (Error ''Invalid relative path''))
     else case r1 of Inl e \<Rightarrow> (d1, Inl e) | Inr dir \<Rightarrow> (d1, Inr (dir, last parts)))"
    by (simp add: getDirectoryForRelativePath_def o parts_def [symmetric] Let_def split: sum.splits)
  show "extends_below dir d d'"
    using assms oe unfolding d by (auto split: if_splits sum.splits)
  show "\<exists>ps. sub = dir @ ps \<and> list_all valid_name ps \<and> ps @ [name] = js_filter_boolean (js_split (CHR ''/'') (js_slashes path))"
    if "r = Inr (sub, name)"
    using assms oe that unfolding d parts_def [symmetric]
    by (intro exI [of _ "butlast parts"]) (auto split: if_splits sum.splits)
qed

subsection \<open>Free names\<close>

definition candidate_name :: "string \<Rightarrow> nat \<Rightarrow> string" where
  "candidate_name fileName k = (if k = 0 then fileName else resolveConflictName fileName k)"

definition conflict_of :: "string \<Rightarrow> string \<Rightarrow> WebWriteConflict option" where
  "conflict_of fileName name =
     (if name = fileName then None else Some \<lparr>original = fileName, resolved = name\<rparr>)"

lemma resolve_from_find:
  "j \<le> 9999 \<Longrightarrow> resolve_from d dir fileName (candidate_name fileName j) (Suc j) =
    (case find (\<lambda>k. \<not> fileExists d dir (candidate_name fileName k)) [j..<9999] of
       Some k \<Rightarrow> Inr (candidate_name fileName k, conflict_of fileName (candidate_name fileName k))
     | None \<Rightarrow> Inl (Error (''Too many filename conflicts for '' @ fileName)))"
proof (induction "9999 - j" arbitrary: j)
  case 0
  then have "j = 9999" by simp
  then show ?case by (subst resolve_from.simps) simp
next
  case (Suc n)
  then have jk: "n = 9999 - Suc j" "Suc j \<le> 9999" by simp_all
  have "candidate_name fileName (Suc j) = resolveConflictName fileName (Suc j)"
    by (simp add: candidate_name_def)
  moreover have "[j..<9999] = j # [Suc j..<9999]" using jk(2) by (simp add: upt_conv_Cons)
  ultimately show ?case
    using Suc.hyps(1) [OF jk] jk
    by (subst resolve_from.simps) (simp add: conflict_of_def)
qed

lemma resolve_from_free:
  "resolve_from d dir fileName cand index = Inr (name, c) \<Longrightarrow>
   \<not> fileExists d dir name \<and> c = conflict_of fileName name"
proof (induction d dir fileName cand index rule: resolve_from.induct)
  case (1 d dir fileName cand index)
  show ?case
  proof (cases "index < 10000 \<and> fileExists d dir cand")
    case True
    then show ?thesis
      using "1.prems" "1.IH" by (simp add: resolve_from.simps [of d dir fileName cand index])
  next
    case False
    then show ?thesis
      using "1.prems" resolve_from.simps [of d dir fileName cand index]
      by (auto simp: conflict_of_def split: if_splits)
  qed
qed

lemma write_bytes_extends:
  assumes "writeBytesToDirectory io d dir fileName bytes = (d', r)"
  shows "extends_below dir d d'"
    "r = Inr c \<Longrightarrow> \<exists>name. d (dir @ [name]) = None \<and> d' (dir @ [name]) = Some (FsFile bytes) \<and>
       valid_name name \<and> c = conflict_of fileName name"
proof -
  have "extends_below dir d d' \<and>
    (r = Inr c \<longrightarrow> (\<exists>name. d (dir @ [name]) = None \<and> d' (dir @ [name]) = Some (FsFile bytes) \<and>
       valid_name name \<and> c = conflict_of fileName name))"
  proof (cases "resolveWritableFileName d dir fileName")
    case (Inl e)
    with assms show ?thesis by (auto simp: writeBytesToDirectory_def)
  next
    case (Inr nc)
    obtain name c' where nc: "nc = (name, c')" by fastforce
    have free: "\<not> fileExists d dir name" "c' = conflict_of fileName name"
      using Inr resolve_from_free unfolding resolveWritableFileName_def nc by blast+
    show ?thesis
    proof (cases "valid_name name \<and> d (dir @ [name]) = None")
      case True
      then have g: "getFileHandle True d dir name = (d(dir @ [name] \<mapsto> FsFile []), Inr (dir @ [name]))"
        by (simp add: getFileHandle_def)
      show ?thesis
        using assms True by (auto simp: writeBytesToDirectory_def Inr nc g free extends_new split: option.splits)
    next
      case False
      then have "\<exists>e. getFileHandle True d dir name = (d, Inl e)"
        using free(1) by (auto simp: getFileHandle_def fileExists_def split: option.splits fs_node.splits)
      then show ?thesis using assms by (auto simp: writeBytesToDirectory_def Inr nc)
    qed
  qed
  then show "extends_below dir d d'" "r = Inr c \<Longrightarrow> \<exists>name. d (dir @ [name]) = None \<and>
      d' (dir @ [name]) = Some (FsFile bytes) \<and> valid_name name \<and> c = conflict_of fileName name"
    by blast+
qed

subsection \<open>Collections\<close>

lemma write_collection_extends:
  "writeCollectionToDirectory io d rootDir files = (d', r) \<Longrightarrow> extends_below rootDir d d'"
proof (induction files arbitrary: d r)
  case (Cons fl files)
  obtain d1 r1 where g: "getDirectoryForRelativePath d rootDir (js_slashes (rf_name fl)) = (d1, r1)" by fastforce
  note ge = relative_directory_extends [OF g]
  show ?case
  proof (cases r1)
    case (Inl e)
    then show ?thesis using Cons.prems g ge(1) by simp
  next
    case (Inr dn)
    obtain dir name where dn: "dn = (dir, name)" by fastforce
    obtain parts where parts: "dir = rootDir @ parts" "list_all valid_name parts"
      using ge(2) Inr dn by blast
    obtain d2 r2 where w: "writeBytesToDirectory io d1 dir name (rf_bytes fl) = (d2, r2)" by fastforce
    have w1: "extends_below rootDir d1 d2"
      using write_bytes_extends(1) [OF w] parts by (auto intro: extends_parent)
    then have "extends_below rootDir d d2" using ge(1) extends_trans by blast
    moreover have "extends_below rootDir d2 d'" if "r2 = Inr c" for c
      using Cons.prems Cons.IH that g Inr dn w by (auto split: prod.splits sum.splits)
    ultimately show ?thesis
      using Cons.prems g Inr dn w by (cases r2) (auto intro: extends_trans)
  qed
qed simp

definition conflict_list :: "WebWriteConflict option \<Rightarrow> WebWriteConflict list" where
  "conflict_list c = (case c of None \<Rightarrow> [] | Some x \<Rightarrow> [x])"

lemma write_collection_saves:
  "writeCollectionToDirectory io d rootDir files = (d', Inr cs) \<Longrightarrow>
   \<exists>paths. distinct paths \<and> set paths \<inter> dom d = {} \<and>
     list_all2 (\<lambda>p f. d' p = Some (FsFile (rf_bytes f))) paths files \<and>
     cs = concat (map2 (\<lambda>p f. conflict_list (conflict_of
            (last (js_filter_boolean (js_split (CHR ''/'') (js_slashes (rf_name f))))) (last p))) paths files)"
proof (induction files arbitrary: d cs)
  case (Cons fl files)
  from Cons.prems obtain d1 dir name d2 c cs2
    where g: "getDirectoryForRelativePath d rootDir (js_slashes (rf_name fl)) = (d1, Inr (dir, name))"
      and w: "writeBytesToDirectory io d1 dir name (rf_bytes fl) = (d2, Inr c)"
      and rest: "writeCollectionToDirectory io d2 rootDir files = (d', Inr cs2)"
      and cs: "cs = conflict_list c @ cs2"
    by (auto simp: conflict_list_def split: prod.splits sum.splits)
  have nm: "name = last (js_filter_boolean (js_split (CHR ''/'') (js_slashes (rf_name fl))))"
    using relative_directory_extends(2) [OF g, of dir name] by (metis js_slashes_idem last_snoc)
  have d01: "d \<subseteq>\<^sub>m d1" using relative_directory_extends(1) [OF g] by (simp add: extends_below_def)
  have d12: "d1 \<subseteq>\<^sub>m d2" using write_bytes_extends(1) [OF w] by (simp add: extends_below_def)
  have d23: "d2 \<subseteq>\<^sub>m d'" using write_collection_extends [OF rest] by (simp add: extends_below_def)
  obtain n where n: "d1 (dir @ [n]) = None" "d2 (dir @ [n]) = Some (FsFile (rf_bytes fl))"
    "c = conflict_of name n"
    using write_bytes_extends(2) [OF w] by blast
  obtain paths where ps: "distinct paths" "set paths \<inter> dom d2 = {}"
    "list_all2 (\<lambda>p f. d' p = Some (FsFile (rf_bytes f))) paths files"
    "cs2 = concat (map2 (\<lambda>p f. conflict_list (conflict_of
            (last (js_filter_boolean (js_split (CHR ''/'') (js_slashes (rf_name f))))) (last p))) paths files)"
    using Cons.IH [OF rest] by blast
  have "dom d \<subseteq> dom d2" "dom d \<subseteq> dom d1"
    using d01 d12 map_le_trans map_le_implies_dom_le by blast+
  moreover have "dir @ [n] \<notin> dom d" using n(1) d01 by (auto dest: map_le_implies_dom_le)
  moreover have "dir @ [n] \<notin> set paths" using n(2) ps(2) by blast
  moreover have "d' (dir @ [n]) = Some (FsFile (rf_bytes fl))"
    using d23 n(2) by (metis domI map_le_def)
  ultimately show ?case
    using ps n(3) nm by (intro exI [of _ "(dir @ [n]) # paths"]) (auto simp: cs)
qed simp

section \<open>Properties\<close>

text \<open>
  C2. A receive in the browser never harms what is on the disk, whichever names the sender chose and
  whether it succeeds or fails half-way: every file and folder that was there is still there with the
  same content, and everything new lies strictly below the directory the user picked, with no \<open>.\<close> or
  \<open>..\<close> and no separator in any name on the way. Without a picked directory, or without the permission,
  the disk is not touched at all.
\<close>

theorem receive_never_overwrites:
  assumes "writeReceivedCollection current requested io files s = (s', r)"
  shows "case cachedDirHandle s of
      None \<Rightarrow> sv_disk s' = sv_disk s
    | Some rootDir \<Rightarrow>
        if ensureDirWritePermission current requested
        then sv_disk s \<subseteq>\<^sub>m sv_disk s' \<and>
          (\<forall>p \<in> dom (sv_disk s') - dom (sv_disk s).
             \<exists>names. p = rootDir @ names \<and> names \<noteq> [] \<and> list_all valid_name names)
        else sv_disk s' = sv_disk s"
proof (cases "cachedDirHandle s")
  case None
  then show ?thesis
    using assms by (auto simp: writeReceivedCollection_def triggerBrowserDownload_def Let_def
        split: if_splits sum.splits)
next
  case (Some rootDir)
  show ?thesis
  proof (cases "files \<noteq> [] \<and> ensureDirWritePermission current requested")
    case False
    then show ?thesis
      using assms Some by (auto simp: writeReceivedCollection_def triggerBrowserDownload_def Let_def
          split: if_splits sum.splits)
  next
    case True
    have "extends_below rootDir (sv_disk s) (sv_disk s')"
      using assms Some True
      by (auto simp: writeReceivedCollection_def Let_def split: if_splits sum.splits prod.splits
          intro: write_bytes_extends(1) write_collection_extends)
    then show ?thesis using Some True by (simp add: extends_below_def)
  qed
qed

lemma empty_name_unwritable: "writeBytesToDirectory io d dir [] bytes \<noteq> (d', Inr c)"
  by (simp add: writeBytesToDirectory_def resolveWritableFileName_def resolve_from.simps fileExists_def getFileHandle_def
      valid_name_def split: option.splits)

lemma plain_names:
  assumes "CHR ''/'' \<notin> set n" "CHR 0x5C \<notin> set n"
  shows "js_slashes n = n" "save_basename n = n"
proof -
  show "js_slashes n = n" using assms(2) by (induction n) (auto simp: js_slashes_def)
  then show "save_basename n = n" using assms(1) by (simp add: save_basename_def js_split_single)
qed

lemma write_single_saves:
  assumes "writeBytesToDirectory io d dir (save_basename (rf_name f)) (rf_bytes f) = (d', Inr c)"
    and "CHR ''/'' \<notin> set (rf_name f)" "CHR 0x5C \<notin> set (rf_name f)"
  shows "\<exists>p. d p = None \<and> d' p = Some (FsFile (rf_bytes f)) \<and>
    conflict_list c = (let own = last (js_filter_boolean (js_split (CHR ''/'') (js_slashes (rf_name f)))) in
      if last p = own then [] else [\<lparr>original = own, resolved = last p\<rparr>])"
proof -
  have n: "rf_name f \<noteq> []" using assms(1) empty_name_unwritable by (auto simp: plain_names assms(2,3))
  obtain name where "d (dir @ [name]) = None" "d' (dir @ [name]) = Some (FsFile (rf_bytes f))" "c = conflict_of (rf_name f) name"
    using write_bytes_extends(2) [OF assms(1) refl] by (auto simp: plain_names assms(2,3))
  then show ?thesis
    using n by (intro exI [of _ "dir @ [name]"])
      (simp add: plain_names assms(2,3) js_split_single js_filter_boolean_def conflict_list_def conflict_of_def)
qed

text \<open>
  C10. When a receive, of one file or of several, reports that it was saved, all files are: there is one path
  for each file, all different and none of them in use before, and after the receive it holds exactly
  the bytes of that file, so two received files with the same name are both kept. The reported
  conflicts are exactly the files that got another name than their own.
\<close>

theorem receive_saves_every_file:
  assumes "writeReceivedCollection current requested io files s = (s', Inr res)" and "savedToDirectory res"
  shows "\<exists>paths. distinct paths \<and> set paths \<inter> dom (sv_disk s) = {} \<and>
     list_all2 (\<lambda>p f. sv_disk s' p = Some (FsFile (rf_bytes f))) paths files \<and>
     wr_conflicts res = concat (map2 (\<lambda>p f.
       (let own = last (js_filter_boolean (js_split (CHR ''/'') (js_slashes (rf_name f)))) in
        if last p = own then [] else [\<lparr>original = own, resolved = last p\<rparr>])) paths files)"
proof (cases "isSimpleSingleFile files")
  case True
  then obtain f where f: "files = [f]" "CHR ''/'' \<notin> set (rf_name f)" "CHR 0x5C \<notin> set (rf_name f)"
    by (cases files) (auto simp: isSimpleSingleFile_def)
  obtain rootDir c where w: "writeBytesToDirectory io (sv_disk s) rootDir (save_basename (rf_name f)) (rf_bytes f) = (sv_disk s', Inr c)"
    "wr_conflicts res = conflict_list c"
    using assms True by (auto simp: f(1) writeReceivedCollection_def conflict_list_def Let_def
        split: if_splits option.splits sum.splits prod.splits)
  obtain p where p: "sv_disk s p = None" "sv_disk s' p = Some (FsFile (rf_bytes f))"
    "conflict_list c = (let own = last (js_filter_boolean (js_split (CHR ''/'') (js_slashes (rf_name f)))) in
      if last p = own then [] else [\<lparr>original = own, resolved = last p\<rparr>])"
    using write_single_saves [OF w(1) f(2,3)] by blast
  then show ?thesis by (intro exI [of _ "[p]"]) (simp add: f(1) w(2) domIff)
next
  case False
  then obtain rootDir where
    w: "writeCollectionToDirectory io (sv_disk s) rootDir files = (sv_disk s', Inr (wr_conflicts res))"
    using assms by (auto simp: writeReceivedCollection_def Let_def split: if_splits option.splits sum.splits prod.splits)
  have "conflict_list (conflict_of own n) = (if n = own then [] else [\<lparr>original = own, resolved = n\<rparr>])" for own n
    by (simp add: conflict_list_def conflict_of_def)
  with write_collection_saves [OF w] show ?thesis by (simp add: Let_def)
qed

text \<open>
  C28. The search for a free name ends, and finds one whenever one of the first 9999 candidates (the
  name itself, then the name with \<open> (1)\<close>, \<open> (2)\<close> and so on before its extension) is not a file: it
  returns the first such candidate, reports a conflict unless that is the name itself, and otherwise
  fails with the error of the source.
\<close>

theorem first_free_name:
  "resolveWritableFileName d dir fileName =
     (case find (\<lambda>k. \<not> fileExists d dir (if k = 0 then fileName else resolveConflictName fileName k)) [0..<9999] of
        Some k \<Rightarrow>
          (let name = (if k = 0 then fileName else resolveConflictName fileName k) in
           Inr (name, if name = fileName then None else Some \<lparr>original = fileName, resolved = name\<rparr>))
      | None \<Rightarrow> Inl (Error (''Too many filename conflicts for '' @ fileName)))"
  using resolve_from_find [of 0 d dir fileName]
  by (simp add: resolveWritableFileName_def candidate_name_def conflict_of_def Let_def
      split: option.split)

definition demo_save :: save_state where
  "demo_save = \<lparr>cachedDirHandle = Some [''dl''], saved_handle = None,
     sv_disk = [[''dl''] \<mapsto> FsDir, [''dl'', ''a''] \<mapsto> FsFile [1]], downloads = []\<rparr>"

definition demo_received :: "ReceivedWebFile list" where
  "demo_received = [\<lparr>rf_name = ''a'', rf_bytes = [2]\<rparr>, \<lparr>rf_name = ''a'', rf_bytes = [3]\<rparr>]"

lemma show_nat_small: "show_nat (Suc 0) = ''1''" "show_nat 2 = ''2''" "show_nat (Suc (Suc 0)) = ''2''"
  by code_simp+

lemma demo_received_saved:
  "writeReceivedCollection True False (\<lambda>_. None) demo_received demo_save =
     (demo_save\<lparr>sv_disk := (sv_disk demo_save)([''dl'', ''a (1)''] \<mapsto> FsFile [2], [''dl'', ''a (2)''] \<mapsto> FsFile [3])\<rparr>,
      Inr \<lparr>savedToDirectory = True, zippedDownload = False,
           wr_conflicts = [\<lparr>original = ''a'', resolved = ''a (1)''\<rparr>, \<lparr>original = ''a'', resolved = ''a (2)''\<rparr>]\<rparr>)"
  by (simp add: writeReceivedCollection_def demo_save_def demo_received_def isSimpleSingleFile_def
      ensureDirWritePermission_def getDirectoryForRelativePath_def js_slashes_def js_filter_boolean_def
      writeBytesToDirectory_def resolveWritableFileName_def resolve_from.simps fileExists_def
      getFileHandle_def valid_name_def resolveConflictName_def show_nat_small Let_def)

theorem receive_never_overwrites_witness:
  "sv_disk (fst (writeReceivedCollection True False (\<lambda>_. None) demo_received demo_save)) [''dl'', ''a''] = Some (FsFile [1])"
  using receive_never_overwrites [OF demo_received_saved]
  unfolding demo_received_saved fst_conv
  by (simp add: demo_save_def ensureDirWritePermission_def map_le_def)

theorem receive_saves_every_file_witness:
  "\<exists>paths. distinct paths \<and> list_all2 (\<lambda>p f.
     sv_disk (fst (writeReceivedCollection True False (\<lambda>_. None) demo_received demo_save)) p = Some (FsFile (rf_bytes f)))
     paths demo_received"
  unfolding demo_received_saved fst_conv
  using receive_saves_every_file [OF demo_received_saved]
  by (auto simp: isSimpleSingleFile_def demo_received_def)

text \<open>
  C21. Without a picked directory, or when the permission is refused, nothing that was received is lost
  either: a single plain file is handed to the browser under its own name, and anything else as one
  ZIP archive that contains every received file under its name with its bytes, in order; and the
  result says which of the two it was. The bounds are those of a ZIP archive without ZIP64.
\<close>

theorem receive_downloads_every_file:
  assumes "cachedDirHandle s = None \<or> \<not> current \<and> \<not> requested"
    and "files \<noteq> []" "length files < 2 ^ 16"
    and "\<forall>f\<in>set files. length (text_encode (js_slashes (rf_name f))) < 2 ^ 16"
    and "22 + sum_list (map (\<lambda>f. 76 + 2 * length (text_encode (js_slashes (rf_name f))) + length (rf_bytes f)) files) < 2 ^ 32"
  shows "\<exists>name content s' res.
    writeReceivedCollection current requested io files s = (s', Inr res) \<and>
    s' = s\<lparr>downloads := downloads s @ [(name, content)]\<rparr> \<and>
    savedToDirectory res = False \<and> wr_conflicts res = [] \<and>
    (if length files = 1 \<and> CHR ''/'' \<notin> set (rf_name (hd files)) \<and> CHR 0x5C \<notin> set (rf_name (hd files))
     then name = rf_name (hd files) \<and> content = rf_bytes (hd files) \<and> \<not> zippedDownload res
     else zippedDownload res \<and> read_zip content = Some (map (\<lambda>f. (text_encode (js_slashes (rf_name f)), rf_bytes f)) files))"
proof (cases "isSimpleSingleFile files")
  case True
  then show ?thesis
    using assms(1,2)
    by (auto simp: plain_names writeReceivedCollection_def triggerBrowserDownload_def isSimpleSingleFile_def ensureDirWritePermission_def Let_def
        split: option.splits)
next
  case False
  define es where "es = map (\<lambda>f. \<lparr>ze_path = rf_name f, ze_bytes = rf_bytes f\<rparr>) files"
  have bound: "22 + sum_list (map (\<lambda>e. 76 + 2 * length (text_encode (js_slashes (ze_path e))) + length (ze_bytes e)) es) < 2 ^ 32"
    using assms(5) by (simp add: es_def comp_def)
  obtain z where z: "createStoreOnlyZip es = Inr z"
    "length z = 22 + sum_list (map (\<lambda>e. 76 + 2 * length (text_encode (js_slashes (ze_path e))) + length (ze_bytes e)) es)"
    using zip_length [of es] assms(2) by (auto simp: es_def)
  have "read_zip z = Some (map (\<lambda>e. (text_encode (js_slashes (ze_path e)), ze_bytes e)) es)"
    using z bound assms(3,4) by (intro zip_reads_back) (auto simp: es_def)
  then have "read_zip z = Some (map (\<lambda>f. (text_encode (js_slashes (rf_name f)), rf_bytes f)) files)"
    by (simp add: es_def comp_def)
  then show ?thesis
    unfolding isSimpleSingleFile_def [symmetric]
    using assms(1,2) False z(1)
    by (auto simp: writeReceivedCollection_def triggerBrowserDownload_def ensureDirWritePermission_def Let_def es_def split: option.splits)
qed

theorem receive_downloads_every_file_witness:
  "\<exists>name content s'. s' = fst (writeReceivedCollection False False (\<lambda>_. None) demo_received demo_save) \<and>
     downloads s' = [(name, content)] \<and> read_zip content = Some [([97], [2]), ([97], [3])]"
proof -
  have enc: "text_encode (js_slashes ''a'') = [97]"
    by (simp add: text_encode_def js_slashes_def utf8_char_def char_code_def)
  show ?thesis
    using receive_downloads_every_file [of demo_save False False demo_received "\<lambda>_. None"]
    by (auto simp: ensureDirWritePermission_def demo_received_def demo_save_def isSimpleSingleFile_def enc)
qed

section \<open>The picked directory\<close>

text \<open>The events that touch the save location, with what the browser answers.\<close>

datatype save_event =
    InitSave "js_error option"
  | PickSave bool "fs_path result" "js_error option"
  | WriteSave bool bool "fs_path \<Rightarrow> js_error option" "ReceivedWebFile list"

fun save_step :: "save_state \<Rightarrow> save_event \<Rightarrow> save_state" where
  "save_step s (InitSave db) = fst (initWebSaveLocation db s)"
| "save_step s (PickSave supported picker db) = fst (pickDownloadDirectory supported picker db s)"
| "save_step s (WriteSave current requested io files) = fst (writeReceivedCollection current requested io files s)"

definition save_inv :: "save_state \<Rightarrow> bool" where
  "save_inv s \<longleftrightarrow> cachedDirHandle s = None \<or> cachedDirHandle s = saved_handle s"

definition page_load :: "fs_path option \<Rightarrow> disk \<Rightarrow> save_state" where
  "page_load h d = \<lparr>cachedDirHandle = None, saved_handle = h, sv_disk = d, downloads = []\<rparr>"

lemma write_keeps_handles:
  "cachedDirHandle (fst (writeReceivedCollection current requested io files s)) = cachedDirHandle s \<and>
   saved_handle (fst (writeReceivedCollection current requested io files s)) = saved_handle s"
  by (simp add: writeReceivedCollection_def triggerBrowserDownload_def Let_def
      split: option.split sum.split prod.split)

interpretation save_machine: state_machine "page_load h d" save_step save_inv
proof
  show "save_inv (page_load h d)" by (simp add: save_inv_def page_load_def)
next
  fix s e
  assume "save_inv s"
  then show "save_inv (save_step s e)"
    using write_keeps_handles
    by (cases e) (auto simp: save_inv_def initWebSaveLocation_def loadSavedDirectoryHandle_def idbGet_def
        pickDownloadDirectory_def saveDirectoryHandle_def idbSet_def Let_def
        split: option.splits sum.splits)
qed

end
