(* ===== verification/Relay_Discovery.thy ===== *)
theory Relay_Discovery
  imports JS_Json
begin

text \<open>
  Relay and discovery configuration: \<open>lib/relay-config.ts\<close>, \<open>relay-auth-token.ts\<close>, \<open>relay-status.ts\<close>,
  \<open>relay.ts\<close>, \<open>discovery-config.ts\<close>, \<open>discovery.ts\<close>, the two \<open>*-url-validation.ts\<close>, the two
  \<open>*-change-warning.ts\<close>, \<open>relay-fallback-options.ts\<close> and \<open>relay-fallback-toast.ts\<close>.

  \<open>new URL(url)\<close> is the parameter \<open>URL\<close>: \<^const>\<open>None\<close> where the constructor throws. \<open>IS_WEB\<close> is an
  argument of the functions that read it. The settings store that \<open>getRelayConfigArg\<close> and
  \<open>getDiscoveryConfigArg\<close> read is their argument.
\<close>

section \<open>Configuration\<close>

datatype RelayMode = RDefault | RCustom | RDisabled
datatype RelayFallback = FStrict | FPublic

record RelayConfigArg =
  rc_mode :: RelayMode
  rc_urls :: "string list"
  rc_auth_token :: "string option"
  rc_fallback :: RelayFallback

record RelayConfigInput =
  relayMode :: RelayMode
  relayUrls :: "string list"
  relayAuthToken :: string
  relayFallback :: RelayFallback

definition relayAuthTokenForIpc :: "string \<Rightarrow> string option" where
  "relayAuthTokenForIpc value = (if length value > 0 then Some value else None)"

definition effectiveRelayMode :: "bool \<Rightarrow> RelayMode \<Rightarrow> RelayMode" where
  "effectiveRelayMode IS_WEB mode = (if IS_WEB \<and> mode = RDisabled then RDefault else mode)"

definition buildRelayConfigArg :: "bool \<Rightarrow> RelayConfigInput \<Rightarrow> RelayConfigArg" where
  "buildRelayConfigArg IS_WEB input =
     (let mode = effectiveRelayMode IS_WEB (relayMode input) in
      \<lparr>rc_mode = mode,
       rc_urls = (if mode = RCustom then js_filter_boolean (map js_trim (relayUrls input)) else []),
       rc_auth_token = (if mode = RCustom then relayAuthTokenForIpc (relayAuthToken input) else None),
       rc_fallback = relayFallback input\<rparr>)"

definition buildRelayStatusConfig :: "bool \<Rightarrow> RelayConfigInput \<Rightarrow> RelayConfigArg" where
  "buildRelayStatusConfig IS_WEB input =
     buildRelayConfigArg IS_WEB
       \<lparr>relayMode = relayMode input, relayUrls = relayUrls input,
        relayAuthToken = relayAuthToken input, relayFallback = relayFallback input\<rparr>"

datatype DiscoveryMode = DDefault | DCustom

record DiscoveryConfigArg =
  dc_mode :: DiscoveryMode
  pkarr_relay_url :: "string option"
  dns_origin :: "string option"

record DiscoveryConfigInput =
  discoveryMode :: DiscoveryMode
  pkarrRelayUrl :: string
  dnsOrigin :: "string option"

definition effectiveDiscoveryMode :: "bool \<Rightarrow> DiscoveryMode \<Rightarrow> DiscoveryMode" where
  "effectiveDiscoveryMode IS_WEB mode = (if IS_WEB then DDefault else mode)"

definition buildDiscoveryConfigArg :: "bool \<Rightarrow> DiscoveryConfigInput \<Rightarrow> DiscoveryConfigArg" where
  "buildDiscoveryConfigArg IS_WEB input =
     (let mode = effectiveDiscoveryMode IS_WEB (discoveryMode input);
          trimmedOrigin = js_trim (case dnsOrigin input of None \<Rightarrow> [] | Some s \<Rightarrow> s) in
      \<lparr>dc_mode = mode,
       pkarr_relay_url = (if mode = DCustom then Some (js_trim (pkarrRelayUrl input)) else None),
       dns_origin = (if mode = DCustom \<and> length trimmedOrigin > 0 then Some trimmedOrigin else None)\<rparr>)"

section \<open>Validation\<close>

record url_parts =
  protocol :: string
  hostname :: string
  username :: string
  password :: string

definition MAX_RELAY_URL_LENGTH :: nat where
  "MAX_RELAY_URL_LENGTH = 2048"

definition MAX_DISCOVERY_URL_LENGTH :: nat where
  "MAX_DISCOVERY_URL_LENGTH = 2048"

definition MAX_DNS_ORIGIN_LENGTH :: nat where
  "MAX_DNS_ORIGIN_LENGTH = 253"

definition isLoopbackHost :: "string \<Rightarrow> bool" where
  "isLoopbackHost host \<longleftrightarrow> host = ''localhost'' \<or> host = ''127.0.0.1'' \<or> host = ''[::1]''"

definition isLoopbackHost_discovery :: "string \<Rightarrow> bool" where
  "isLoopbackHost_discovery host \<longleftrightarrow> host = ''localhost'' \<or> host = ''127.0.0.1'' \<or> host = ''[::1]''"

definition isValidRelayUrl :: "(string \<Rightarrow> url_parts option) \<Rightarrow> string \<Rightarrow> bool" where
  "isValidRelayUrl URL url =
     (if length url = 0 \<or> length url > MAX_RELAY_URL_LENGTH then False
      else case URL url of
        None \<Rightarrow> False
      | Some parsed \<Rightarrow>
          if hostname parsed = [] then False
          else if username parsed \<noteq> [] \<or> password parsed \<noteq> [] then False
          else if protocol parsed = ''https:'' then True
          else if protocol parsed = ''http:'' \<and> isLoopbackHost (hostname parsed) then True
          else False)"

definition RELAY_URL_INVALID_MESSAGE_KEY :: string where
  "RELAY_URL_INVALID_MESSAGE_KEY = ''settings.network.relay.urlInvalidHint''"

definition relayUrlValidationMessageKey :: "(string \<Rightarrow> url_parts option) \<Rightarrow> string \<Rightarrow> string option" where
  "relayUrlValidationMessageKey URL url =
     (if isValidRelayUrl URL url then None else Some RELAY_URL_INVALID_MESSAGE_KEY)"

definition isValidDiscoveryUrl :: "(string \<Rightarrow> url_parts option) \<Rightarrow> string \<Rightarrow> bool" where
  "isValidDiscoveryUrl URL url =
     (if length url = 0 \<or> length url > MAX_DISCOVERY_URL_LENGTH then False
      else case URL url of
        None \<Rightarrow> False
      | Some parsed \<Rightarrow>
          if hostname parsed = [] then False
          else if username parsed \<noteq> [] \<or> password parsed \<noteq> [] then False
          else if protocol parsed = ''https:'' then True
          else if protocol parsed = ''http:'' \<and> isLoopbackHost_discovery (hostname parsed) then True
          else False)"

definition DISCOVERY_URL_INVALID_MESSAGE_KEY :: string where
  "DISCOVERY_URL_INVALID_MESSAGE_KEY = ''settings.network.discovery.urlInvalidHint''"

definition discoveryUrlValidationMessageKey :: "(string \<Rightarrow> url_parts option) \<Rightarrow> string \<Rightarrow> string option" where
  "discoveryUrlValidationMessageKey URL url =
     (if isValidDiscoveryUrl URL url then None else Some DISCOVERY_URL_INVALID_MESSAGE_KEY)"

text \<open>The class \<open>[a-z0-9]\<close> under the flag \<open>i\<close>.\<close>

definition ascii_alnum :: "char \<Rightarrow> bool" where
  "ascii_alnum c \<longleftrightarrow>
     (let n = char_code c in (48 \<le> n \<and> n \<le> 57) \<or> (65 \<le> n \<and> n \<le> 90) \<or> (97 \<le> n \<and> n \<le> 122))"

definition isValidDnsOriginLabel :: "string \<Rightarrow> bool" where
  "isValidDnsOriginLabel label =
     (if length label = 0 \<or> length label > 63 then False
      else if \<not> ascii_alnum (hd label) \<or> \<not> ascii_alnum (last label) then False
      else list_all (\<lambda>c. ascii_alnum c \<or> c = CHR ''-'') label)"

definition hasDisallowedDnsOriginChar :: "string \<Rightarrow> bool" where
  "hasDisallowedDnsOriginChar value =
     list_ex (\<lambda>c. char_code c \<le> 0x1f \<or> (0x7f \<le> char_code c \<and> char_code c \<le> 0x9f) \<or> js_space c) value"

definition strip_trailing_dots :: "string \<Rightarrow> string" where
  "strip_trailing_dots s = rev (dropWhile (\<lambda>c. c = CHR ''.'') (rev s))"

definition isValidDnsOrigin :: "string \<Rightarrow> bool" where
  "isValidDnsOrigin origin =
     (let trimmed = js_trim origin in
      if length trimmed = 0 then True
      else if length trimmed > MAX_DNS_ORIGIN_LENGTH then False
      else if hasDisallowedDnsOriginChar trimmed then False
      else if js_includes trimmed ''://'' \<or> js_includes trimmed ''/'' \<or>
              js_includes trimmed ''@'' \<or> js_includes trimmed '':'' then False
      else
        (let withoutDot = strip_trailing_dots trimmed in
         if length withoutDot = 0 \<or> withoutDot = ''.'' then False
         else list_all isValidDnsOriginLabel (js_split (CHR ''.'') withoutDot)))"

definition DNS_ORIGIN_INVALID_MESSAGE_KEY :: string where
  "DNS_ORIGIN_INVALID_MESSAGE_KEY = ''settings.network.discovery.dnsOriginInvalidHint''"

definition dnsOriginValidationMessageKey :: "string \<Rightarrow> string option" where
  "dnsOriginValidationMessageKey origin =
     (if isValidDnsOrigin origin then None else Some DNS_ORIGIN_INVALID_MESSAGE_KEY)"

section \<open>Warnings, options and regions\<close>

definition getRelayChangeWarningType ::
    "RelayMode \<Rightarrow> RelayFallback \<Rightarrow> RelayMode \<Rightarrow> RelayFallback \<Rightarrow> RelayMode option" where
  "getRelayChangeWarningType initialMode initialFallback currentMode currentFallback =
     (if currentMode \<noteq> initialMode then
        (if currentMode = RDisabled \<or> currentMode = RCustom then Some currentMode else None)
      else if initialMode = RCustom \<and> currentMode = RCustom \<and> currentFallback \<noteq> initialFallback
      then Some RCustom
      else None)"

definition shouldWarnDiscoveryChange :: "DiscoveryMode \<Rightarrow> DiscoveryMode \<Rightarrow> bool" where
  "shouldWarnDiscoveryChange initialMode currentMode \<longleftrightarrow>
     currentMode \<noteq> initialMode \<and> currentMode = DCustom"

definition relayFallbackFromRadioValue :: "string \<Rightarrow> RelayFallback" where
  "relayFallbackFromRadioValue value = (if value = ''public'' then FPublic else FStrict)"

definition RELAY_FALLBACK_OPTIONS :: "(RelayFallback \<times> string \<times> string) list" where
  "RELAY_FALLBACK_OPTIONS =
     [(FStrict, ''settings.network.relay.fallbackStrict'', ''settings.network.relay.fallbackStrictDesc''),
      (FPublic, ''settings.network.relay.fallbackPublic'', ''settings.network.relay.fallbackPublicDesc'')]"

definition relayFallbackToastDescriptionKey :: "string \<Rightarrow> string option" where
  "relayFallbackToastDescriptionKey payload =
     (if payload = ''send'' then Some ''footer.relay.fellBackToastSend''
      else if payload = ''receive'' then Some ''footer.relay.fellBackToastReceive''
      else None)"

definition RELAY_REGION_COUNTRY :: "(string \<times> string) list" where
  "RELAY_REGION_COUNTRY =
     [(''use1'', ''US''), (''use2'', ''US''), (''usw1'', ''US''), (''usw2'', ''US''), (''cac1'', ''CA''),
      (''sae1'', ''BR''), (''euw1'', ''IE''), (''euw2'', ''GB''), (''euw3'', ''FR''), (''euc1'', ''DE''),
      (''euc2'', ''DE''), (''eun1'', ''SE''), (''eus1'', ''IT''), (''eus2'', ''ES''), (''aps1'', ''IN''),
      (''aps2'', ''IN''), (''apse1'', ''SG''), (''apse2'', ''AU''), (''apse3'', ''ID''), (''apne1'', ''JP''),
      (''apne2'', ''KR''), (''apne3'', ''JP''), (''afs1'', ''ZA''), (''mes1'', ''BH''), (''mec1'', ''AE'')]"

text \<open>
  Indexing the table with a string also finds the members that every object inherits; of these,
  \<open>constructor\<close> and \<open>__proto__\<close> are the ones without a capital letter.
\<close>

datatype country_code = Country string | InheritedMember string

definition region_lookup :: "string \<Rightarrow> country_code option" where
  "region_lookup token =
     (case map_of RELAY_REGION_COUNTRY token of
        Some c \<Rightarrow> Some (Country c)
      | None \<Rightarrow>
          if token = ''constructor'' \<or> token = ''__proto__'' then Some (InheritedMember token) else None)"

record RelayRegion =
  regionCode :: string
  countryCode :: country_code

definition getRelayRegion :: "(string \<Rightarrow> url_parts option) \<Rightarrow> string \<Rightarrow> RelayRegion option" where
  "getRelayRegion URL url =
     (case URL (js_trim url) of
        None \<Rightarrow> None
      | Some parsed \<Rightarrow>
          (let token = js_lower (hd (js_split (CHR ''-'') (hd (js_split (CHR ''.'') (hostname parsed))))) in
           if token = [] then None
           else map_option (\<lambda>c. \<lparr>regionCode = token, countryCode = c\<rparr>) (region_lookup token)))"

definition getRelayConfigArg :: "bool \<Rightarrow> RelayConfigInput \<Rightarrow> RelayConfigArg" where
  "getRelayConfigArg IS_WEB settings = buildRelayConfigArg IS_WEB settings"

definition getDiscoveryConfigArg :: "bool \<Rightarrow> DiscoveryConfigInput \<Rightarrow> DiscoveryConfigArg" where
  "getDiscoveryConfigArg IS_WEB settings = buildDiscoveryConfigArg IS_WEB settings"

text \<open>The argument of the native command as JSON text, in the order of its properties.\<close>

fun relay_mode_name :: "RelayMode \<Rightarrow> string" where
  "relay_mode_name RDefault = ''default''"
| "relay_mode_name RCustom = ''custom''"
| "relay_mode_name RDisabled = ''disabled''"

fun relay_fallback_name :: "RelayFallback \<Rightarrow> string" where
  "relay_fallback_name FStrict = ''strict''"
| "relay_fallback_name FPublic = ''public''"

definition relay_config_json :: "RelayConfigArg \<Rightarrow> json" where
  "relay_config_json c =
     JObj [(''mode'', JStr (relay_mode_name (rc_mode c))),
           (''urls'', JArr (map JStr (rc_urls c))),
           (''auth_token'', case rc_auth_token c of None \<Rightarrow> JNull | Some t \<Rightarrow> JStr t),
           (''fallback'', JStr (relay_fallback_name (rc_fallback c)))]"

section \<open>What a validated address guarantees\<close>

text \<open>
  The contract that both address checks promise: an accepted address has a host and no credentials,
  is sent over TLS unless the host is the machine itself, and is of bounded length; and every such
  address is accepted.
\<close>

definition secure_url :: "url_parts \<Rightarrow> bool" where
  "secure_url u \<longleftrightarrow>
     hostname u \<noteq> [] \<and> username u = [] \<and> password u = [] \<and>
     (protocol u = ''https:'' \<or>
      protocol u = ''http:'' \<and> hostname u \<in> {''localhost'', ''127.0.0.1'', ''[::1]''})"

locale url_check =
  fixes valid :: "(string \<Rightarrow> url_parts option) \<Rightarrow> string \<Rightarrow> bool"
  assumes valid_iff: "valid URL url \<longleftrightarrow>
    url \<noteq> [] \<and> length url \<le> 2048 \<and> (\<exists>u. URL url = Some u \<and> secure_url u)"
begin

lemma cleartext_only_loopback:
  "valid URL url \<Longrightarrow> URL url = Some u \<Longrightarrow> protocol u \<noteq> ''https:'' \<Longrightarrow>
   hostname u \<in> {''localhost'', ''127.0.0.1'', ''[::1]''}"
  using valid_iff by (auto simp: secure_url_def)

end

interpretation relay_url: url_check isValidRelayUrl
  by unfold_locales (auto simp: isValidRelayUrl_def secure_url_def MAX_RELAY_URL_LENGTH_def
      isLoopbackHost_def split: option.splits if_splits)

interpretation discovery_url: url_check isValidDiscoveryUrl
  by unfold_locales (auto simp: isValidDiscoveryUrl_def secure_url_def MAX_DISCOVERY_URL_LENGTH_def
      isLoopbackHost_discovery_def split: option.splits if_splits)

section \<open>DNS origins\<close>

lemma js_includes_char: "js_includes s [c] \<longleftrightarrow> c \<in> set s"
  by (induction s) auto

lemma js_includes_head: "js_includes s (c # p) \<Longrightarrow> c \<in> set s"
  by (induction s) (auto simp: prefix_Cons)

definition dns_char :: "char \<Rightarrow> bool" where
  "dns_char c \<longleftrightarrow> ascii_alnum c \<or> c = CHR ''-'' \<or> c = CHR ''.''"

lemma dns_chars_allowed:
  assumes "\<forall>c\<in>set s. dns_char c"
  shows "\<not> hasDisallowedDnsOriginChar s" "\<not> js_includes s ''://''" "\<not> js_includes s ''/''"
    "\<not> js_includes s ''@''" "\<not> js_includes s '':''"
proof -
  have *: "\<not> dns_char CHR ''/''" "\<not> dns_char CHR ''@''" "\<not> dns_char CHR '':''"
    by (simp_all add: dns_char_def ascii_alnum_def char_code_def Let_def)
  have "char_code CHR ''-'' = 45" "char_code CHR ''.'' = 46" by (simp_all add: char_code_def)
  then show "\<not> hasDisallowedDnsOriginChar s"
    using assms
    by (auto simp: hasDisallowedDnsOriginChar_def list_ex_iff dns_char_def ascii_alnum_def js_space_def Let_def)
  show "\<not> js_includes s ''://''" "\<not> js_includes s ''/''" "\<not> js_includes s ''@''" "\<not> js_includes s '':''"
    using assms * by (auto simp: js_includes_char dest: js_includes_head)
qed

lemma set_js_join: "set (js_join sep ws) \<subseteq> \<Union> (set ` set ws) \<union> set sep"
  by (induction sep ws rule: js_join.induct) auto

lemma last_js_join: "ws \<noteq> [] \<Longrightarrow> last ws \<noteq> [] \<Longrightarrow> last (js_join sep ws) = last (last ws) \<and> js_join sep ws \<noteq> []"
  by (induction sep ws rule: js_join.induct) auto

lemma strip_dots_id: "s = [] \<or> last s \<noteq> CHR ''.'' \<Longrightarrow> strip_trailing_dots (s @ replicate k CHR ''.'') = s"
proof -
  assume "s = [] \<or> last s \<noteq> CHR ''.''"
  then have "dropWhile (\<lambda>c. c = CHR ''.'') (rev s) = rev s"
    by (cases "rev s") (auto simp: dropWhile_eq_self_iff hd_rev)
  moreover have "dropWhile (\<lambda>c. c = CHR ''.'') (replicate k CHR ''.'' @ rev s) = dropWhile (\<lambda>c. c = CHR ''.'') (rev s)"
    by (induction k) auto
  ultimately show ?thesis by (simp add: strip_trailing_dots_def)
qed

lemma strip_dots_split: "\<exists>k. s = strip_trailing_dots s @ replicate k CHR ''.''"
proof -
  let ?P = "\<lambda>c. c = CHR ''.''"
  have "rev s = takeWhile ?P (rev s) @ dropWhile ?P (rev s)" by simp
  then have "s = strip_trailing_dots s @ rev (takeWhile ?P (rev s))"
    unfolding strip_trailing_dots_def by (metis rev_append rev_rev_ident)
  moreover have "rev (takeWhile ?P xs) = replicate (length (takeWhile ?P xs)) CHR ''.''" for xs
    by (intro replicate_eqI) (auto dest: set_takeWhileD)
  ultimately show ?thesis by metis
qed

lemma label_chars:
  "isValidDnsOriginLabel l \<Longrightarrow> l \<noteq> [] \<and> (\<forall>c\<in>set l. dns_char c) \<and> CHR ''.'' \<notin> set l"
proof -
  have "\<not> ascii_alnum CHR ''.''" by (simp add: ascii_alnum_def char_code_def)
  then show "isValidDnsOriginLabel l \<Longrightarrow> ?thesis"
    by (auto simp: isValidDnsOriginLabel_def dns_char_def list_all_iff split: if_splits)
qed

section \<open>Properties\<close>

text \<open>
  C26. The check of a DNS origin accepts exactly the host names: after trimming, either nothing, or at
  most 253 characters that are one or more labels separated by single dots, possibly followed by
  dots. A label has 1 to 63 characters, letters, digits and hyphens, and begins and ends with a
  letter or digit. In particular no accepted origin has a scheme, a path, a port or credentials.
\<close>

theorem dns_origin_exact:
  "isValidDnsOrigin origin \<longleftrightarrow>
     js_trim origin = [] \<or>
     length (js_trim origin) \<le> 253 \<and>
     (\<exists>labels k. labels \<noteq> [] \<and> js_trim origin = js_join ''.'' labels @ replicate k CHR ''.'' \<and>
        list_all (\<lambda>l. 1 \<le> length l \<and> length l \<le> 63 \<and> ascii_alnum (hd l) \<and> ascii_alnum (last l) \<and>
           list_all (\<lambda>c. ascii_alnum c \<or> c = CHR ''-'') l) labels)"
proof -
  define t where "t = js_trim origin"
  have lab: "isValidDnsOriginLabel l \<longleftrightarrow> 1 \<le> length l \<and> length l \<le> 63 \<and> ascii_alnum (hd l) \<and>
      ascii_alnum (last l) \<and> (\<forall>c\<in>set l. ascii_alnum c \<or> c = CHR ''-'')" for l
    by (auto simp: isValidDnsOriginLabel_def list_all_iff Suc_le_eq split: if_splits)
  have fwd: "\<exists>labels k. labels \<noteq> [] \<and> t = js_join ''.'' labels @ replicate k CHR ''.'' \<and>
      (\<forall>l\<in>set labels. isValidDnsOriginLabel l)" if "isValidDnsOrigin origin" "t \<noteq> []"
  proof -
    obtain k where "t = strip_trailing_dots t @ replicate k CHR ''.''" using strip_dots_split by blast
    then show ?thesis
      using that unfolding isValidDnsOrigin_def Let_def t_def [symmetric]
      by (intro exI [of _ "js_split CHR ''.'' (strip_trailing_dots t)"] exI [of _ k])
         (auto simp: list_all_iff split: if_splits)
  qed
  have bwd: "isValidDnsOrigin origin" if "labels \<noteq> []" "t = js_join ''.'' labels @ replicate k CHR ''.''"
    "\<forall>l\<in>set labels. isValidDnsOriginLabel l" "length t \<le> 253" for labels k
  proof -
    note lc = label_chars [OF bspec [OF that(3)]]
    have "last labels \<in> set labels" using that(1) by simp
    then have j: "last (js_join ''.'' labels) = last (last labels)" "js_join ''.'' labels \<noteq> []"
      "last (last labels) \<noteq> CHR ''.''"
      using lc last_js_join [of labels "''.''"] that(1) by (metis, metis, metis last_in_set)
    then have s: "strip_trailing_dots t = js_join ''.'' labels" by (simp add: that(2) strip_dots_id)
    have "js_split CHR ''.'' (js_join ''.'' labels) = labels"
      using js_split_join [of labels "CHR ''.''"] lc that(1) by blast
    moreover have "js_join ''.'' labels \<noteq> ''.''" using j by auto
    moreover have "\<forall>c\<in>set t. dns_char c"
      using set_js_join [of "''.''" labels] lc that(2) by (fastforce simp: dns_char_def)
    ultimately show ?thesis
      using that(3,4) j(2) by (simp add: isValidDnsOrigin_def Let_def flip: t_def)
        (simp add: s dns_chars_allowed MAX_DNS_ORIGIN_LENGTH_def list_all_iff)
  qed
  have "t \<noteq> [] \<Longrightarrow> isValidDnsOrigin origin \<Longrightarrow> length t \<le> 253"
    by (auto simp: isValidDnsOrigin_def Let_def t_def MAX_DNS_ORIGIN_LENGTH_def split: if_splits)
  moreover have "t = [] \<Longrightarrow> isValidDnsOrigin origin" by (simp add: isValidDnsOrigin_def t_def Let_def)
  ultimately show ?thesis
    unfolding list_all_iff lab [symmetric] t_def [symmetric] using fwd bwd by blast
qed

text \<open>
  Relay and discovery addresses are judged by the same rule, and the rule is exact: an address of 1
  to 2048 characters that parses, has a host, has neither user name nor password, and uses TLS, or
  plain HTTP to the machine itself. So a relay token is never sent in the clear to another machine,
  and no address that meets the rule is refused.
\<close>

theorem relay_and_discovery_urls_secure:
  "(isValidRelayUrl URL url \<longleftrightarrow> isValidDiscoveryUrl URL url) \<and>
   (isValidRelayUrl URL url \<longleftrightarrow>
      1 \<le> length url \<and> length url \<le> 2048 \<and>
      (\<exists>u. URL url = Some u \<and> hostname u \<noteq> [] \<and> username u = [] \<and> password u = [] \<and>
         (protocol u = ''https:'' \<or>
          protocol u = ''http:'' \<and> hostname u \<in> {''localhost'', ''127.0.0.1'', ''[::1]''})))"
  unfolding relay_url.valid_iff discovery_url.valid_iff secure_url_def
  by (simp add: Suc_le_eq)

text \<open>
  The relay configuration that reaches the engine is well formed for every setting. In a browser
  relays are never disabled; addresses are only sent in custom mode, and then they are the non-empty
  ones, trimmed, in order; a token is only sent in custom mode and exactly as typed, so a token of
  blanks is passed on for the engine to refuse; and the JSON text of the configuration parses back to
  an object with these four values.
\<close>

theorem relay_config_well_formed:
  defines "c \<equiv> \<lambda>web input. buildRelayConfigArg web input"
  shows "rc_mode (c True input) \<noteq> RDisabled \<and>
    rc_mode (c False input) = relayMode input \<and>
    (\<forall>u\<in>set (rc_urls (c web input)). u \<noteq> [] \<and> js_trim u = u) \<and>
    (if rc_mode (c web input) = RCustom
     then rc_urls (c web input) = filter (\<lambda>u. u \<noteq> []) (map js_trim (relayUrls input)) \<and>
       (case rc_auth_token (c web input) of None \<Rightarrow> relayAuthToken input = []
        | Some t \<Rightarrow> t = relayAuthToken input \<and> t \<noteq> [])
     else rc_urls (c web input) = [] \<and> rc_auth_token (c web input) = None) \<and>
    rc_fallback (c web input) = relayFallback input \<and>
    JSON_parse (JSON_stringify (relay_config_json (c web input))) = Some (Obj
      [(''mode'', Str (relay_mode_name (rc_mode (c web input)))),
       (''urls'', Arr (map Str (rc_urls (c web input)))),
       (''auth_token'', case rc_auth_token (c web input) of None \<Rightarrow> Null | Some t \<Rightarrow> Str t),
       (''fallback'', Str (case relayFallback input of FStrict \<Rightarrow> ''strict'' | FPublic \<Rightarrow> ''public''))])"
proof -
  have "json_wf (relay_config_json x)" for x
    by (simp add: relay_config_json_def list_all_iff split: option.split)
  then have p: "JSON_parse (JSON_stringify (relay_config_json x)) = Some (json_embed (relay_config_json x))" for x
    by (rule parse_stringify)
  have e: "json_embed (relay_config_json x) = Obj
      [(''mode'', Str (relay_mode_name (rc_mode x))),
       (''urls'', Arr (map Str (rc_urls x))),
       (''auth_token'', case rc_auth_token x of None \<Rightarrow> Null | Some t \<Rightarrow> Str t),
       (''fallback'', Str (relay_fallback_name (rc_fallback x)))]" for x
    by (simp add: relay_config_json_def split: option.split)
  show ?thesis
    unfolding p e c_def
    by (auto simp: buildRelayConfigArg_def effectiveRelayMode_def relayAuthTokenForIpc_def
        js_filter_boolean_def Let_def split: RelayFallback.splits)
qed

theorem relay_config_well_formed_witness:
  "rc_urls (buildRelayConfigArg True \<lparr>relayMode = RCustom, relayUrls = ['' https://r.example '', ''  ''],
     relayAuthToken = '' '', relayFallback = FStrict\<rparr>) = [''https://r.example'']"
  using relay_config_well_formed [where web = True and input = "\<lparr>relayMode = RCustom,
     relayUrls = ['' https://r.example '', ''  ''], relayAuthToken = '' '', relayFallback = FStrict\<rparr>"]
  by (simp add: buildRelayConfigArg_def effectiveRelayMode_def js_filter_boolean_def js_trim_def
      js_space_def char_code_def)

text \<open>
  The region of a relay is meant to be \<open>null\<close> when the host does not start with a known code. A host
  whose first label is \<open>constructor\<close> or \<open>__proto__\<close> is not: the table inherits a member of that name, and
  what is returned as the country code is that member and not a string.
\<close>

lemma inherited_region:
  assumes "URL (js_trim url) = Some u" "hostname u = ''constructor.example''"
  shows "getRelayRegion URL url = Some \<lparr>regionCode = ''constructor'', countryCode = InheritedMember ''constructor''\<rparr>"
proof -
  have "js_lower ''constructor'' = ''constructor''"
    by (simp add: js_lower_def lower_char_def char_code_def Let_def)
  moreover have "region_lookup ''constructor'' = Some (InheritedMember ''constructor'')"
    by (simp add: region_lookup_def RELAY_REGION_COUNTRY_def)
  ultimately show ?thesis using assms by (simp add: getRelayRegion_def Let_def)
qed

lemma region_of_known_code:
  assumes "URL (js_trim url) = Some u" "hostname u = ''euc1-1.relay.example''"
  shows "getRelayRegion URL url = Some \<lparr>regionCode = ''euc1'', countryCode = Country ''DE''\<rparr>"
proof -
  have "js_lower ''euc1'' = ''euc1''"
    by (simp add: js_lower_def lower_char_def char_code_def Let_def)
  then show ?thesis
    using assms by (simp add: getRelayRegion_def region_lookup_def RELAY_REGION_COUNTRY_def Let_def)
qed

end
