(* ===== verification/Web_Platform_Api.thy ===== *)
theory Web_Platform_Api
  imports Web_Event_Bus Web_Send Web_Drop Web_Save Relay_Discovery
begin

text \<open>
  The command layer of the browser build: \<open>lib/wasm-bridge-client.ts\<close>, \<open>lib/web-preview-error.ts\<close> and
  the \<open>invoke\<close> half of \<open>lib/platform-api.ts\<close>.

  In a browser every native command is answered by the page itself: transfers by the WebAssembly
  engine, everything else by a stub. The engine is code outside the repository's front end. It is the
  record \<open>engine\<close>: what each of its functions answers, or with which error it rejects, for the
  arguments the client passes. The page's state is the file registry, the save location, the ticket of
  the running share, whether the engine is loaded, and the events dispatched so far.
\<close>

section \<open>The WebAssembly client\<close>

record engine =
  e_load :: "unit result"
  e_send_items :: "string list \<Rightarrow> byte list list \<Rightarrow> string \<Rightarrow> string \<Rightarrow> string option \<Rightarrow> string result"
  e_fetch_ticket_metadata :: "string \<Rightarrow> string option \<Rightarrow> string result"
  e_receive_file :: "string \<Rightarrow> string option \<Rightarrow> (string list \<times> byte list list) result"
  e_stop_sharing :: "unit result"
  e_verify_relays :: "string \<Rightarrow> string result"
  e_get_relay_status :: "string option \<Rightarrow> string result"

record page =
  wasm_loaded :: bool                       \<comment> \<open>\<open>initPromise\<close> holds a module\<close>
  currentTicket :: "string option"
  pg_files :: web_files
  pg_save :: save_state
  pg_events :: "(string \<times> string option) list"   \<comment> \<open>calls of \<open>dispatchWebEvent\<close>\<close>

definition relayJson :: "RelayConfigArg option \<Rightarrow> string option" where
  "relayJson relay = map_option (\<lambda>c. JSON_stringify (relay_config_json c)) relay"

text \<open>A failed load leaves \<open>initPromise\<close> null, so the next call loads again.\<close>

definition ensureWasmBridge :: "engine \<Rightarrow> page \<Rightarrow> page \<times> unit result" where
  "ensureWasmBridge eng s =
     (if wasm_loaded s then (s, Inr ())
      else case e_load eng of
        Inl e \<Rightarrow> (s, Inl e)
      | Inr _ \<Rightarrow> (s\<lparr>wasm_loaded := True\<rparr>, Inr ()))"

definition getWebSharingTicket :: "page \<Rightarrow> string option" where
  "getWebSharingTicket s = currentTicket s"

fun entry_type_name :: "WebSendEntryType \<Rightarrow> string" where
  "entry_type_name EFile = ''file''"
| "entry_type_name EDirectory = ''directory''"
| "entry_type_name ECollection = ''collection''"

definition wasmSendItems ::
    "engine \<Rightarrow> string list \<Rightarrow> byte list list \<Rightarrow> WebSendEntryType \<Rightarrow> string \<Rightarrow> RelayConfigArg option \<Rightarrow>
     page \<Rightarrow> page \<times> string result" where
  "wasmSendItems eng nms bytes kind meta relay s =
     (case ensureWasmBridge eng s of
        (s1, Inl e) \<Rightarrow> (s1, Inl e)
      | (s1, Inr _) \<Rightarrow>
          (case e_send_items eng nms bytes (entry_type_name kind) meta (relayJson relay) of
             Inl e \<Rightarrow> (s1, Inl e)
           | Inr ticket \<Rightarrow> (s1\<lparr>currentTicket := Some ticket\<rparr>, Inr ticket)))"

definition wasmStopSharing :: "engine \<Rightarrow> page \<Rightarrow> page \<times> unit result" where
  "wasmStopSharing eng s =
     (case ensureWasmBridge eng s of
        (s1, Inl e) \<Rightarrow> (s1, Inl e)
      | (s1, Inr _) \<Rightarrow>
          (case e_stop_sharing eng of
             Inl e \<Rightarrow> (s1, Inl e)
           | Inr _ \<Rightarrow> (s1\<lparr>currentTicket := None\<rparr>, Inr ())))"

definition wasmFetchTicketMetadata ::
    "engine \<Rightarrow> string \<Rightarrow> RelayConfigArg option \<Rightarrow> page \<Rightarrow> page \<times> string result" where
  "wasmFetchTicketMetadata eng ticket relay s =
     (case ensureWasmBridge eng s of
        (s1, Inl e) \<Rightarrow> (s1, Inl e)
      | (s1, Inr _) \<Rightarrow> (s1, e_fetch_ticket_metadata eng ticket (relayJson relay)))"

definition wasmReceiveFile ::
    "engine \<Rightarrow> string \<Rightarrow> RelayConfigArg option \<Rightarrow> page \<Rightarrow> page \<times> (string list \<times> byte list list) result" where
  "wasmReceiveFile eng ticket relay s =
     (case ensureWasmBridge eng s of
        (s1, Inl e) \<Rightarrow> (s1, Inl e)
      | (s1, Inr _) \<Rightarrow> (s1, e_receive_file eng ticket (relayJson relay)))"

definition json_parse_or_throw :: "string \<Rightarrow> jsval result" where
  "json_parse_or_throw text =
     (case JSON_parse text of None \<Rightarrow> Inl (Error ''SyntaxError'') | Some v \<Rightarrow> Inr v)"

definition wasmVerifyRelays :: "engine \<Rightarrow> RelayConfigArg \<Rightarrow> page \<Rightarrow> page \<times> jsval result" where
  "wasmVerifyRelays eng relay s =
     (case ensureWasmBridge eng s of
        (s1, Inl e) \<Rightarrow> (s1, Inl e)
      | (s1, Inr _) \<Rightarrow>
          (s1, try_bind (e_verify_relays eng (JSON_stringify (relay_config_json relay))) json_parse_or_throw))"

definition wasmGetRelayStatus :: "engine \<Rightarrow> RelayConfigArg option \<Rightarrow> page \<Rightarrow> page \<times> jsval result" where
  "wasmGetRelayStatus eng relay s =
     (case ensureWasmBridge eng s of
        (s1, Inl e) \<Rightarrow> (s1, Inl e)
      | (s1, Inr _) \<Rightarrow> (s1, try_bind (e_get_relay_status eng (relayJson relay)) json_parse_or_throw))"

section \<open>Errors of the preview\<close>

definition web_preview_default :: string where
  "web_preview_default =
     ''File transfer is not available in the web preview. Use the desktop app to send and receive files.''"

definition isWebPreviewError :: "js_error \<Rightarrow> bool" where
  "isWebPreviewError e = (case e of WebPreviewError _ \<Rightarrow> True | _ \<Rightarrow> False)"

definition getWebPreviewErrorMessage :: "js_error \<Rightarrow> string \<Rightarrow> string" where
  "getWebPreviewErrorMessage e fallback =
     (case e of
        WebPreviewError m \<Rightarrow> (let message = js_trim m in if length message > 0 then message else fallback)
      | _ \<Rightarrow> fallback)"

section \<open>Commands\<close>

text \<open>The arguments a command reads; \<^const>\<open>None\<close> when the caller leaves one out.\<close>

record invoke_args =
  arg_ticket :: "string option"
  arg_path :: "string option"
  arg_paths :: "string list option"
  arg_relay :: "RelayConfigArg option"

definition no_args :: invoke_args where
  "no_args = \<lparr>arg_ticket = None, arg_path = None, arg_paths = None, arg_relay = None\<rparr>"

definition js_nullish :: "string option \<Rightarrow> string" where
  "js_nullish x = (case x of None \<Rightarrow> [] | Some s \<Rightarrow> s)"

text \<open>What the browser answers while a command runs.\<close>

record browser =
  br_read :: "web_file \<Rightarrow> byte list result"           \<comment> \<open>\<open>File.arrayBuffer\<close>\<close>
  br_compare :: "string \<Rightarrow> string \<Rightarrow> int"             \<comment> \<open>\<open>String.localeCompare\<close>\<close>
  br_permission :: "bool \<times> bool"                    \<comment> \<open>\<open>queryPermission\<close>, \<open>requestPermission\<close>\<close>
  br_io :: "fs_path \<Rightarrow> js_error option"

definition relayFromArgs :: "invoke_args \<Rightarrow> RelayConfigArg option" where
  "relayFromArgs args = arg_relay args"

definition conflict_json :: "WebWriteConflict \<Rightarrow> json" where
  "conflict_json c = JObj [(''original'', JStr (original c)), (''resolved'', JStr (resolved c))]"

definition dispatch :: "string \<Rightarrow> string option \<Rightarrow> page \<Rightarrow> page" where
  "dispatch ev payload s = s\<lparr>pg_events := pg_events s @ [(ev, payload)]\<rparr>"

text \<open>The \<open>receive_file\<close> case, from the answer of the engine on.\<close>

definition receive_file_done ::
    "browser \<Rightarrow> string list \<Rightarrow> byte list list \<Rightarrow> page \<Rightarrow> page \<times> jsval result" where
  "receive_file_done br fileNames bytes s =
     (if length fileNames \<noteq> length bytes
      then (s, Inl (Error ''Received file payload was incomplete''))
      else
        (let files = map2 (\<lambda>n b. \<lparr>rf_name = n, rf_bytes = b\<rparr>) fileNames bytes in
         case writeReceivedCollection (fst (br_permission br)) (snd (br_permission br)) (br_io br) files (pg_save s) of
           (sv, Inl e) \<Rightarrow> (s\<lparr>pg_save := sv\<rparr>, Inl e)
         | (sv, Inr w) \<Rightarrow>
             (let s1 = s\<lparr>pg_save := sv\<rparr>;
                  s2 = (if length (wr_conflicts w) > 0
                        then dispatch ''receive-conflicts''
                               (Some (JSON_stringify (JArr (map conflict_json (wr_conflicts w))))) s1
                        else s1);
                  s3 = dispatch ''receive-completed'' None s2 in
              (s3, Inr (Str
                (if length files = 1 then ''Downloaded '' @ rf_name (hd files)
                 else if zippedDownload w
                 then ''Downloaded '' @ show_nat (length files) @ '' files as a ZIP archive''
                 else ''Downloaded '' @ show_nat (length files) @ '' files''))))))"

definition send_items_case ::
    "engine \<Rightarrow> browser \<Rightarrow> string list \<Rightarrow> invoke_args \<Rightarrow> page \<Rightarrow> page \<times> jsval result" where
  "send_items_case eng br paths args s =
     (if length paths = 0 \<or> list_ex (\<lambda>p. p = []) paths then (s, Inl (Error ''No file selected''))
      else case collectWebSendPayload (br_compare br) (br_read br) (pg_files s) paths of
        Inl e \<Rightarrow> (s, Inl e)
      | Inr payload \<Rightarrow>
          (case wasmSendItems eng (names payload) (bytesList payload) (entryType payload)
                  (metadataJson payload) (relayFromArgs args) s of
             (s1, Inl e) \<Rightarrow> (s1, Inl e)
           | (s1, Inr ticket) \<Rightarrow> (s1, Inr (Str ticket))))"

definition js_nat :: "nat \<Rightarrow> jsval" where
  "js_nat n = Num (Fin (of_nat n))"

text \<open>The commands the page answers without the engine. It only reads.\<close>

definition null_commands :: "string list" where
  "null_commands =
     [''check_launch_intent'', ''get_device_info'', ''set_device_display_name'', ''get_pairing_ticket'',
      ''transfer_open_target'', ''toggle_context_menu'', ''plugin:native-utils|select_send_document'',
      ''plugin:native-utils|select_send_folder'', ''plugin:native-utils|consume_share_intent'',
      ''plugin:native-utils|cancel_job'', ''plugin:native-utils|open_download_folder'',
      ''check_android_update'', ''autostart_is_enabled'']"

definition undefined_commands :: "string list" where
  "undefined_commands =
     [''delete_transfer_record'', ''clear_transfer_history'', ''clear_transfer_temp_data'',
      ''start_pairing_host'', ''join_pairing'', ''forget_paired_device'', ''rename_paired_device'',
      ''trust_paired_device'', ''invite_paired_device'', ''stop_pairing_host'', ''reconfigure_node_relay'',
      ''set_discoverability'', ''set_background_on_close'', ''set_tray_labels'', ''show_system_notification'']"

definition empty_list_commands :: "string list" where
  "empty_list_commands = [''list_paired_devices'', ''list_transfer_history'', ''list_nearby'']"

definition refused_commands :: "string list" where
  "refused_commands = [''invite_nearby_device'', ''request_nearby_pair'', ''respond_nearby_invite'']"

definition invokeWebStub :: "string \<Rightarrow> invoke_args \<Rightarrow> page \<Rightarrow> jsval result" where
  "invokeWebStub cmd args s =
     (if cmd = ''check_path_type'' then
        (let path = js_nullish (arg_path args) in
         if isWebDirectory (pg_files s) path then Inr (Str ''directory'')
         else if getWebFile (pg_files s) path \<noteq> None then Inr (Str ''file'')
         else Inr (Str (if js_ends_with path ''/'' then ''directory'' else ''file'')))
      else if cmd = ''get_paths_mime_types'' then
        (let paths = (case arg_paths args of None \<Rightarrow> [] | Some ps \<Rightarrow> ps) in
         Inr (Arr (map (\<lambda>path.
           if isWebDirectory (pg_files s) path then Str ''inode/directory''
           else case getWebFile (pg_files s) path of
             None \<Rightarrow> Null
           | Some file \<Rightarrow> if wf_type file = [] then Null else Str (wf_type file)) paths)))
      else if cmd = ''get_file_size'' then
        (let path = js_nullish (arg_path args) in
         case getWebFile (pg_files s) path of
           Some file \<Rightarrow> Inr (js_nat (wf_size file))
         | None \<Rightarrow>
             if isWebDirectory (pg_files s) path
             then Inr (js_nat (foldl (\<lambda>total e. total + wf_size (snd e)) 0
                                 (listWebFileEntriesUnderPath (pg_files s) path)))
             else Inr (js_nat 0))
      else if cmd = ''get_sharing_status'' then
        Inr (case getWebSharingTicket s of None \<Rightarrow> Null | Some t \<Rightarrow> Str t)
      else if cmd = ''get_node_status'' then
        Inr (Obj [(''status'', Str ''unavailable''), (''reason'', Str ''desktop_only''),
                  (''network_ready'', Bool False)])
      else if cmd = ''get_transfer_temp_data'' then
        Inr (Obj [(''exists'', Bool False), (''sizeBytes'', js_nat 0)])
      else if cmd = ''nearby_status'' then Inr (Obj [(''reason'', Null)])
      else if cmd = ''get_discoverability'' then Inr (Str ''off'')
      else if cmd = ''is_windows_portable'' then Inr (Bool False)
      else if cmd = ''autostart_set'' then Inr (Bool False)
      else if cmd \<in> set null_commands then Inr Null
      else if cmd \<in> set undefined_commands then Inr Undefined
      else if cmd \<in> set empty_list_commands then Inr (Arr [])
      else if cmd \<in> set refused_commands then Inl (WebPreviewError cmd)
      else Inl (WebPreviewError web_preview_default))"

definition transfer_commands :: "string list" where
  "transfer_commands =
     [''fetch_ticket_metadata'', ''send_items'', ''start_sharing'', ''receive_file'', ''stop_sharing'',
      ''verify_relays'', ''get_relay_status'']"

definition invokeWebTransfer ::
    "engine \<Rightarrow> browser \<Rightarrow> string \<Rightarrow> invoke_args \<Rightarrow> page \<Rightarrow> page \<times> jsval result" where
  "invokeWebTransfer eng br cmd args s =
     (if cmd = ''fetch_ticket_metadata'' then
        (let ticket = js_trim (js_nullish (arg_ticket args)) in
         if ticket = [] then (s, Inl (Error ''Ticket is required''))
         else case wasmFetchTicketMetadata eng ticket (relayFromArgs args) s of
           (s1, r) \<Rightarrow> (s1, try_bind r json_parse_or_throw))
      else if cmd = ''send_items'' \<or> cmd = ''start_sharing'' then
        send_items_case eng br
          (if cmd = ''start_sharing'' then [js_nullish (arg_path args)]
           else (case arg_paths args of None \<Rightarrow> [] | Some ps \<Rightarrow> ps)) args s
      else if cmd = ''receive_file'' then
        (let ticket = js_trim (js_nullish (arg_ticket args)) in
         if ticket = [] then (s, Inl (Error ''Ticket is required''))
         else case wasmReceiveFile eng ticket (relayFromArgs args) s of
           (s1, Inl e) \<Rightarrow> (s1, Inl e)
         | (s1, Inr (fileNames, bytes)) \<Rightarrow> receive_file_done br fileNames bytes s1)
      else if cmd = ''stop_sharing'' then
        (case wasmStopSharing eng s of
           (s1, Inl e) \<Rightarrow> (s1, Inl e)
         | (s1, Inr _) \<Rightarrow> (s1, Inr Undefined))
      else if cmd = ''verify_relays'' then
        (case relayFromArgs args of
           None \<Rightarrow> (s, Inl (Error ''Relay config is required''))
         | Some relay \<Rightarrow> wasmVerifyRelays eng relay s)
      else if cmd = ''get_relay_status'' then wasmGetRelayStatus eng (relayFromArgs args) s
      else (s, invokeWebStub cmd args s))"

definition webTransferUnavailable :: js_error where
  "webTransferUnavailable =
     WebPreviewError ''Web transfers require a built WASM engine. Run: pnpm build:wasm''"

definition invokeWeb ::
    "engine \<Rightarrow> browser \<Rightarrow> string \<Rightarrow> invoke_args \<Rightarrow> page \<Rightarrow> page \<times> jsval result" where
  "invokeWeb eng br cmd args s =
     (if cmd \<in> set transfer_commands then
        (case ensureWasmBridge eng s of
           (s1, Inl _) \<Rightarrow> (s1, Inl webTransferUnavailable)
         | (s1, Inr _) \<Rightarrow> invokeWebTransfer eng br cmd args s1)
      else (s, invokeWebStub cmd args s))"

text \<open>\<open>native\<close> is the \<open>invoke\<close> of the Tauri runtime.\<close>

definition invoke ::
    "bool \<Rightarrow> (string \<Rightarrow> invoke_args \<Rightarrow> jsval result) \<Rightarrow> engine \<Rightarrow> browser \<Rightarrow> string \<Rightarrow> invoke_args \<Rightarrow>
     page \<Rightarrow> page \<times> jsval result" where
  "invoke IS_WEB native eng br cmd args s =
     (if IS_WEB then invokeWeb eng br cmd args s else (s, native cmd args))"

section \<open>Paths\<close>

definition joinPath :: "bool \<Rightarrow> (string list \<Rightarrow> string) \<Rightarrow> string list \<Rightarrow> string" where
  "joinPath IS_TAURI native paths =
     (if IS_TAURI then native paths else js_join ''/'' (js_filter_boolean paths))"

definition downloadDir :: "bool \<Rightarrow> string \<Rightarrow> js_error option \<Rightarrow> save_state \<Rightarrow> save_state \<times> string" where
  "downloadDir IS_TAURI native db_error s =
     (if IS_TAURI then (s, native)
      else (let (s1, saved) = initWebSaveLocation db_error s in (s1, js_or saved ''Browser downloads'')))"

section \<open>Lemmas\<close>

lemma ensure_cases:
  "ensureWasmBridge eng s = (s', r) \<Longrightarrow>
   (case r of Inl _ \<Rightarrow> s' = s | Inr _ \<Rightarrow> s' = s\<lparr>wasm_loaded := True\<rparr>)"
  by (auto simp: ensureWasmBridge_def split: if_splits sum.splits)

lemma ensure_loaded [simp]: "ensureWasmBridge eng (s\<lparr>wasm_loaded := True\<rparr>) = (s\<lparr>wasm_loaded := True\<rparr>, Inr ())"
  by (simp add: ensureWasmBridge_def)

lemmas wasm_client_defs =
  wasmSendItems_def wasmStopSharing_def wasmFetchTicketMetadata_def wasmReceiveFile_def
  wasmVerifyRelays_def wasmGetRelayStatus_def

lemma receive_done_ticket:
  "receive_file_done br ns bs s = (s', r) \<Longrightarrow> currentTicket s' = currentTicket s \<and> wasm_loaded s' = wasm_loaded s"
  by (auto simp: receive_file_done_def dispatch_def Let_def split: if_splits sum.splits prod.splits)

lemma conflicts_parse:
  "JSON_parse (JSON_stringify (JArr (map conflict_json cs))) = Some (Arr (map (\<lambda>c.
     Obj [(''original'', Str (original c)), (''resolved'', Str (resolved c))]) cs))"
proof -
  have "json_wf (JArr (map conflict_json cs))" by (simp add: conflict_json_def list_all_iff)
  from parse_stringify [OF this] show ?thesis by (simp add: conflict_json_def comp_def)
qed

lemma receive_done_events:
  assumes "receive_file_done br ns bs s = (s', r)"
  shows "case r of
      Inl _ \<Rightarrow> pg_events s' = pg_events s
    | Inr _ \<Rightarrow>
        (\<exists>w. length ns = length bs \<and>
           writeReceivedCollection (fst (br_permission br)) (snd (br_permission br)) (br_io br)
             (map2 (\<lambda>n b. \<lparr>rf_name = n, rf_bytes = b\<rparr>) ns bs) (pg_save s) = (pg_save s', Inr w) \<and>
           (if wr_conflicts w = []
            then pg_events s' = pg_events s @ [(''receive-completed'', None)]
            else \<exists>json. pg_events s' =
                pg_events s @ [(''receive-conflicts'', Some json), (''receive-completed'', None)] \<and>
              JSON_parse json = Some (Arr (map (\<lambda>c.
                Obj [(''original'', Str (original c)), (''resolved'', Str (resolved c))]) (wr_conflicts w)))))"
proof -
  obtain sv rw where w: "writeReceivedCollection (fst (br_permission br)) (snd (br_permission br)) (br_io br)
      (map2 (\<lambda>n b. \<lparr>rf_name = n, rf_bytes = b\<rparr>) ns bs) (pg_save s) = (sv, rw)"
    by fastforce
  show ?thesis
  proof (cases rw)
    case (Inl e)
    then show ?thesis using assms w by (auto simp: receive_file_done_def Let_def split: if_splits)
  next
    case (Inr x)
    then show ?thesis
      using assms w conflicts_parse [of "wr_conflicts x"]
      by (auto simp: receive_file_done_def dispatch_def Let_def simp del: JSON_stringify.simps
          split: if_splits)
  qed
qed

lemma sharing_status_ticket:
  "invokeWebStub ''get_sharing_status'' a s = Inr (case currentTicket s of None \<Rightarrow> Null | Some t \<Rightarrow> Str t)"
  by (simp add: invokeWebStub_def getWebSharingTicket_def)

lemma transfer_ticket:
  assumes "invokeWebTransfer eng br cmd args (s\<lparr>wasm_loaded := True\<rparr>) = (s', r)"
  shows "currentTicket s' =
    (case r of
       Inl _ \<Rightarrow> currentTicket s
     | Inr v \<Rightarrow>
         if cmd = ''send_items'' \<or> cmd = ''start_sharing'' then (case v of Str t \<Rightarrow> Some t | _ \<Rightarrow> None)
         else if cmd = ''stop_sharing'' then None else currentTicket s)"
    and "wasm_loaded s'"
    and "r = Inr v \<Longrightarrow> cmd = ''send_items'' \<or> cmd = ''start_sharing'' \<Longrightarrow> \<exists>t. v = Str t"
proof -
  have send: "currentTicket s2 = (case r of Inl _ \<Rightarrow> currentTicket s | Inr v \<Rightarrow> (case v of Str t \<Rightarrow> Some t | _ \<Rightarrow> None)) \<and>
      wasm_loaded s2 \<and> (\<forall>v. r = Inr v \<longrightarrow> (\<exists>t. v = Str t))"
    if "send_items_case eng br ps args (s\<lparr>wasm_loaded := True\<rparr>) = (s2, r)" for ps s2 r
    using that by (auto simp: send_items_case_def wasmSendItems_def split: if_splits sum.splits)
  show "currentTicket s' =
    (case r of
       Inl _ \<Rightarrow> currentTicket s
     | Inr v \<Rightarrow>
         if cmd = ''send_items'' \<or> cmd = ''start_sharing'' then (case v of Str t \<Rightarrow> Some t | _ \<Rightarrow> None)
         else if cmd = ''stop_sharing'' then None else currentTicket s)"
    and "wasm_loaded s'"
    and "r = Inr v \<Longrightarrow> cmd = ''send_items'' \<or> cmd = ''start_sharing'' \<Longrightarrow> \<exists>t. v = Str t"
    using assms send
    by (auto simp: invokeWebTransfer_def wasm_client_defs Let_def try_bind_def dest!: receive_done_ticket
        split: if_splits sum.splits prod.splits option.splits)
qed

section \<open>Properties\<close>

text \<open>
  The sharing status the page reports is always that of the last share: after a send that
  succeeded it is the ticket the engine returned for it, after a stop that succeeded it is \<open>null\<close>, and
  every other command, and every command that failed, leaves it as it was.
\<close>

theorem sharing_status_follows_commands:
  assumes "invokeWeb eng br cmd args s = (s', r)"
  shows "invokeWebStub ''get_sharing_status'' a s' =
    (case r of
       Inl _ \<Rightarrow> invokeWebStub ''get_sharing_status'' a s
     | Inr v \<Rightarrow>
         if cmd = ''send_items'' \<or> cmd = ''start_sharing'' then Inr v
         else if cmd = ''stop_sharing'' then Inr Null
         else invokeWebStub ''get_sharing_status'' a s)"
proof (cases "cmd \<in> set transfer_commands")
  case True
  obtain s1 r1 where en: "ensureWasmBridge eng s = (s1, r1)" by fastforce
  show ?thesis
  proof (cases r1)
    case (Inl e)
    then show ?thesis
      using assms True en ensure_cases [OF en] by (auto simp: invokeWeb_def)
  next
    case (Inr u)
    then have "invokeWebTransfer eng br cmd args (s\<lparr>wasm_loaded := True\<rparr>) = (s', r)"
      using assms True en ensure_cases [OF en] by (auto simp: invokeWeb_def)
    from transfer_ticket [OF this] show ?thesis
      by (auto simp: sharing_status_ticket split: sum.splits)
  qed
next
  case False
  then have "s' = s" "cmd \<noteq> ''send_items''" "cmd \<noteq> ''start_sharing''" "cmd \<noteq> ''stop_sharing''"
    using assms by (auto simp: invokeWeb_def transfer_commands_def)
  then show ?thesis by (simp split: sum.split)
qed

definition demo_engine :: engine where
  "demo_engine = \<lparr>e_load = Inr (),
     e_send_items = (\<lambda>nms bs kind meta relay. Inr ''blobticket''),
     e_fetch_ticket_metadata = (\<lambda>t relay. Inr ''{}''),
     e_receive_file = (\<lambda>t relay. Inr ([''a''], [[2]])),
     e_stop_sharing = Inr (),
     e_verify_relays = (\<lambda>relay. Inl (Error ''relay'')),
     e_get_relay_status = (\<lambda>relay. Inl (Error ''relay''))\<rparr>"

definition demo_browser :: browser where
  "demo_browser = \<lparr>br_read = read_all, br_compare = (\<lambda>a b. 0), br_permission = (True, False), br_io = (\<lambda>_. None)\<rparr>"

definition demo_page :: page where
  "demo_page = \<lparr>wasm_loaded = False, currentTicket = Some ''old'', pg_files = no_web_files,
     pg_save = demo_save, pg_events = []\<rparr>"

lemmas demo_defs = demo_engine_def demo_browser_def demo_page_def

theorem sharing_status_follows_commands_witness:
  "invokeWebStub ''get_sharing_status'' no_args
     (fst (invokeWeb demo_engine demo_browser ''stop_sharing'' no_args demo_page)) = Inr Null"
proof -
  have "invokeWeb demo_engine demo_browser ''stop_sharing'' no_args demo_page =
      (demo_page\<lparr>wasm_loaded := True, currentTicket := None\<rparr>, Inr Undefined)"
    by (simp add: demo_defs invokeWeb_def transfer_commands_def ensureWasmBridge_def invokeWebTransfer_def
        wasmStopSharing_def)
  from sharing_status_follows_commands [OF this, of no_args] this show ?thesis by simp
qed

text \<open>
  A receive in the browser reports what it did. When it succeeds the page is told once, last, that
  it completed; before that it is told of the renamed files when there are any, as JSON text that
  parses back to exactly the conflicts of the write; the engine's names and contents were paired in
  order and handed to the save location as they are. When it fails, for whatever reason, no event is
  sent.
\<close>

theorem receive_reports:
  assumes "invokeWeb eng br ''receive_file'' args s = (s', r)"
  shows "case r of
      Inl _ \<Rightarrow> pg_events s' = pg_events s
    | Inr _ \<Rightarrow>
        (\<exists>ns bs w.
           e_receive_file eng (js_trim (js_nullish (arg_ticket args))) (relayJson (arg_relay args)) = Inr (ns, bs) \<and>
           length ns = length bs \<and>
           writeReceivedCollection (fst (br_permission br)) (snd (br_permission br)) (br_io br)
             (map2 (\<lambda>n b. \<lparr>rf_name = n, rf_bytes = b\<rparr>) ns bs) (pg_save s) = (pg_save s', Inr w) \<and>
           (if wr_conflicts w = []
            then pg_events s' = pg_events s @ [(''receive-completed'', None)]
            else \<exists>json. pg_events s' =
                pg_events s @ [(''receive-conflicts'', Some json), (''receive-completed'', None)] \<and>
              JSON_parse json = Some (Arr (map (\<lambda>c.
                Obj [(''original'', Str (original c)), (''resolved'', Str (resolved c))]) (wr_conflicts w)))))"
proof -
  obtain s1 r1 where en: "ensureWasmBridge eng s = (s1, r1)" by fastforce
  show ?thesis
  proof (cases r1)
    case (Inl e)
    then show ?thesis
      using assms en ensure_cases [OF en] by (auto simp: invokeWeb_def transfer_commands_def)
  next
    case (Inr u)
    then have s1: "s1 = s\<lparr>wasm_loaded := True\<rparr>" using ensure_cases [OF en] by auto
    have t: "invokeWebTransfer eng br ''receive_file'' args s1 = (s', r)"
      using assms en Inr by (simp add: invokeWeb_def transfer_commands_def)
    show ?thesis
    proof (cases "js_trim (js_nullish (arg_ticket args)) \<noteq> [] \<and>
        is_ok (e_receive_file eng (js_trim (js_nullish (arg_ticket args))) (relayJson (arg_relay args)))")
      case True
      then obtain ns bs where
        rx: "e_receive_file eng (js_trim (js_nullish (arg_ticket args))) (relayJson (arg_relay args)) = Inr (ns, bs)"
        by (auto simp: is_ok_def split: sum.splits)
      then have "receive_file_done br ns bs s1 = (s', r)"
        using t True by (simp add: s1 invokeWebTransfer_def wasmReceiveFile_def relayFromArgs_def)
      note ev = receive_done_events [OF this]
      have "pg_events s1 = pg_events s" "pg_save s1 = pg_save s" by (simp_all add: s1)
      note ev = ev [unfolded this]
      show ?thesis
      proof (cases r)
        case (Inr v)
        from ev show ?thesis unfolding Inr sum.case using rx by blast
      qed (use ev in simp)
    next
      case False
      then have "\<exists>e. s' = s1 \<and> r = Inl e"
        using t by (auto simp: s1 invokeWebTransfer_def wasmReceiveFile_def relayFromArgs_def Let_def is_ok_def
            split: sum.splits if_splits)
      then show ?thesis by (auto simp: s1)
    qed
  qed
qed

text \<open>
  A browser page answers every command it is asked. A command without the engine never changes the
  page, and one the page does not know is refused, never silently accepted. When the engine cannot be
  loaded every transfer command is refused with the same explanation and the page is as before, so a
  later attempt loads the engine again.
\<close>

theorem unavailable_commands_refused:
  "(cmd \<notin> set transfer_commands \<longrightarrow> invokeWeb eng br cmd args s = (s, invokeWebStub cmd args s)) \<and>
   (cmd \<in> set transfer_commands \<and> \<not> wasm_loaded s \<and> e_load eng = Inl e \<longrightarrow>
      invokeWeb eng br cmd args s = (s, Inl webTransferUnavailable)) \<and>
   (cmd \<notin> set (transfer_commands @ null_commands @ undefined_commands @ empty_list_commands @
        [''check_path_type'', ''get_paths_mime_types'', ''get_file_size'', ''get_sharing_status'',
         ''get_node_status'', ''get_transfer_temp_data'', ''nearby_status'', ''get_discoverability'',
         ''is_windows_portable'', ''autostart_set'']) \<longrightarrow>
      (\<exists>m. invokeWeb eng br cmd args s = (s, Inl (WebPreviewError m))))"
proof (intro conjI impI)
  show "invokeWeb eng br cmd args s = (s, invokeWebStub cmd args s)" if "cmd \<notin> set transfer_commands"
    using that by (simp add: invokeWeb_def)
  show "invokeWeb eng br cmd args s = (s, Inl webTransferUnavailable)"
    if "cmd \<in> set transfer_commands \<and> \<not> wasm_loaded s \<and> e_load eng = Inl e"
    using that by (simp add: invokeWeb_def ensureWasmBridge_def)
next
  assume "cmd \<notin> set (transfer_commands @ null_commands @ undefined_commands @ empty_list_commands @
        [''check_path_type'', ''get_paths_mime_types'', ''get_file_size'', ''get_sharing_status'',
         ''get_node_status'', ''get_transfer_temp_data'', ''nearby_status'', ''get_discoverability'',
         ''is_windows_portable'', ''autostart_set''])"
  then show "\<exists>m. invokeWeb eng br cmd args s = (s, Inl (WebPreviewError m))"
    by (simp add: invokeWeb_def invokeWebStub_def)
qed

theorem receive_reports_witness:
  "pg_events (fst (invokeWeb demo_engine demo_browser ''receive_file'' (no_args\<lparr>arg_ticket := Some ''t''\<rparr>) demo_page)) \<noteq> []"
proof -
  have "js_trim ''t'' = ''t''" by (simp add: js_trim_def js_space_def char_code_def)
  moreover have "js_slashes ''a'' = ''a''" by (simp add: js_slashes_def)
  ultimately have "snd (invokeWeb demo_engine demo_browser ''receive_file'' (no_args\<lparr>arg_ticket := Some ''t''\<rparr>) demo_page) =
      Inr (Str ''Downloaded a'')"
    by (simp add: demo_defs invokeWeb_def transfer_commands_def ensureWasmBridge_def invokeWebTransfer_def
        wasmReceiveFile_def receive_file_done_def js_nullish_def Let_def no_args_def demo_save_def
        writeReceivedCollection_def isSimpleSingleFile_def ensureDirWritePermission_def
        writeBytesToDirectory_def resolveWritableFileName_def resolve_from.simps fileExists_def
        getFileHandle_def valid_name_def resolveConflictName_def show_nat_small save_basename_def)
  then obtain s' where
    "invokeWeb demo_engine demo_browser ''receive_file'' (no_args\<lparr>arg_ticket := Some ''t''\<rparr>) demo_page =
      (s', Inr (Str ''Downloaded a''))"
    by (metis prod.collapse)
  from receive_reports [OF this] this show ?thesis by (auto split: if_splits)
qed

theorem unavailable_commands_refused_witness:
  "invokeWeb (demo_engine\<lparr>e_load := Inl (Error ''no wasm'')\<rparr>) demo_browser ''send_items'' no_args demo_page =
     (demo_page, Inl webTransferUnavailable)"
  using unavailable_commands_refused [where cmd = "''send_items''" and s = demo_page
      and eng = "demo_engine\<lparr>e_load := Inl (Error ''no wasm'')\<rparr>" and e = "Error ''no wasm''"
      and br = demo_browser and args = no_args]
  by (simp add: transfer_commands_def demo_page_def)

end
