(* ===== verification/App_Settings.thy ===== *)
theory App_Settings
  imports JS_Json
begin

text \<open>
  Settings: \<open>store/app-setting.ts\<close>, \<open>lib/setting-store.ts\<close>, \<open>lib/download-folder-migration.ts\<close>,
  \<open>store/theme-store.ts\<close>, \<open>types/app.ts\<close>, and the autostart step of the first run
  (\<open>lib/autostart-first-run.ts\<close>, \<open>hooks/useAutostartFirstRun.ts\<close>).

  What is read from disk has no type, so the settings are a JavaScript object, a list of properties
  with dynamic values, and a migration works on whatever was stored. The persistence middleware calls
  \<open>migrate\<close> with the stored state and version and \<open>merge\<close> with the result; it is not modelled itself.
\<close>

type_synonym js_object = "(string \<times> jsval) list"

text \<open>\<open>{ ...a, ...b }\<close>\<close>

definition js_spread :: "js_object \<Rightarrow> js_object \<Rightarrow> js_object" where
  "js_spread a b = foldl (\<lambda>acc (k, v). assoc_put k v acc) a b"

definition obj_get :: "js_object \<Rightarrow> string \<Rightarrow> jsval" where
  "obj_get o' k = (case map_of o' k of None \<Rightarrow> Undefined | Some v \<Rightarrow> v)"

lemma map_of_spread: "distinct (map fst b) \<Longrightarrow> map_of (js_spread a b) = map_of a ++ map_of b"
proof (induction b arbitrary: a)
  case (Cons p b)
  obtain k v where p: "p = (k, v)" by fastforce
  from Cons.prems have "k \<notin> dom (map_of b)" by (simp add: p dom_map_of_conv_image_fst)
  then have m: "(map_of a)(k \<mapsto> v) ++ map_of b = map_of a ++ map_of (p # b)"
    by (auto simp: p map_add_def fun_eq_iff domIff split: option.split)
  have "map_of (js_spread a (p # b)) = map_of (js_spread (assoc_put k v a) b)"
    by (simp add: p js_spread_def)
  also have "\<dots> = (map_of a)(k \<mapsto> v) ++ map_of b"
    using Cons.IH Cons.prems by simp
  finally show ?case by (simp only: m)
qed (simp add: js_spread_def)

section \<open>The settings store\<close>

definition defaultAppSettings :: js_object where
  "defaultAppSettings =
     [(''minimizeToTray'', Bool True), (''startOnBoot'', Bool False), (''enableNotifications'', Bool True),
      (''darkMode'', Bool False), (''autoUpdate'', Bool True), (''showProgressOnIcon'', Bool False),
      (''downloadsPath'', Str ''''), (''downloadsUri'', Str ''''), (''windowsContextMenu'', Bool True),
      (''relayMode'', Str ''default''), (''relayUrls'', Arr [Str '''']), (''relayAuthToken'', Str ''''),
      (''relayFallback'', Str ''strict''), (''discoveryMode'', Str ''default''), (''pkarrRelayUrl'', Str ''''),
      (''dnsOrigin'', Str ''''), (''showBroadcastToggle'', Bool False), (''showRelayStatus'', Bool False),
      (''discoverability'', Str ''everyone''), (''autostartInitialized'', Bool False),
      (''enableTransferHistory'', Bool True)]"

text \<open>The actions of the store; each is \<open>set({ key: value })\<close>.\<close>

datatype setting_action =
    SetMinimizeToTray bool
  | SetStartOnBoot bool
  | SetEnableNotifications bool
  | SetDarkMode bool
  | SetAutoUpdate bool
  | ToggleShowProgressOnIcon bool
  | SetDownloadsPath string
  | SetDownloadsUri string
  | SetWindowsContextMenu bool
  | SetRelayMode string
  | SetRelayUrls "string list"
  | SetRelayAuthToken string
  | SetRelayFallback string
  | SetDiscoveryMode string
  | SetPkarrRelayUrl string
  | SetDnsOrigin string
  | SetShowBroadcastToggle bool
  | SetShowRelayStatus bool
  | SetDiscoverability string
  | SetAutostartInitialized bool
  | SetEnableTransferHistory bool

fun action_entry :: "setting_action \<Rightarrow> string \<times> jsval" where
  "action_entry (SetMinimizeToTray b) = (''minimizeToTray'', Bool b)"
| "action_entry (SetStartOnBoot b) = (''startOnBoot'', Bool b)"
| "action_entry (SetEnableNotifications b) = (''enableNotifications'', Bool b)"
| "action_entry (SetDarkMode b) = (''darkMode'', Bool b)"
| "action_entry (SetAutoUpdate b) = (''autoUpdate'', Bool b)"
| "action_entry (ToggleShowProgressOnIcon b) = (''showProgressOnIcon'', Bool b)"
| "action_entry (SetDownloadsPath v) = (''downloadsPath'', Str v)"
| "action_entry (SetDownloadsUri v) = (''downloadsUri'', Str v)"
| "action_entry (SetWindowsContextMenu b) = (''windowsContextMenu'', Bool b)"
| "action_entry (SetRelayMode v) = (''relayMode'', Str v)"
| "action_entry (SetRelayUrls vs) = (''relayUrls'', Arr (map Str vs))"
| "action_entry (SetRelayAuthToken v) = (''relayAuthToken'', Str v)"
| "action_entry (SetRelayFallback v) = (''relayFallback'', Str v)"
| "action_entry (SetDiscoveryMode v) = (''discoveryMode'', Str v)"
| "action_entry (SetPkarrRelayUrl v) = (''pkarrRelayUrl'', Str v)"
| "action_entry (SetDnsOrigin v) = (''dnsOrigin'', Str v)"
| "action_entry (SetShowBroadcastToggle b) = (''showBroadcastToggle'', Bool b)"
| "action_entry (SetShowRelayStatus b) = (''showRelayStatus'', Bool b)"
| "action_entry (SetDiscoverability v) = (''discoverability'', Str v)"
| "action_entry (SetAutostartInitialized b) = (''autostartInitialized'', Bool b)"
| "action_entry (SetEnableTransferHistory b) = (''enableTransferHistory'', Bool b)"

definition setting_step :: "js_object \<Rightarrow> setting_action \<Rightarrow> js_object" where
  "setting_step s a = (let (k, v) = action_entry a in assoc_put k v s)"

section \<open>Migrations\<close>

definition MEDIA_STORE_DEFAULT_VERSION :: int where
  "MEDIA_STORE_DEFAULT_VERSION = 2"

definition migrateDownloadFolder :: "js_object \<Rightarrow> int \<Rightarrow> js_object" where
  "migrateDownloadFolder state version =
     (if version < MEDIA_STORE_DEFAULT_VERSION
      then js_spread state [(''downloadsUri'', Str ''''), (''downloadsPath'', Str '''')]
      else state)"

text \<open>A plain object, or the empty one for anything else that was stored.\<close>

definition object_or_empty :: "jsval \<Rightarrow> js_object" where
  "object_or_empty v = (case v of Obj kvs \<Rightarrow> kvs | _ \<Rightarrow> [])"

definition migrateAppSettings :: "jsval \<Rightarrow> int \<Rightarrow> js_object" where
  "migrateAppSettings persistedState version =
     (let state = object_or_empty persistedState;
          withDownloadFolder = migrateDownloadFolder state version in
      if version < 1 then js_spread withDownloadFolder [(''minimizeToTray'', Bool True)]
      else withDownloadFolder)"

definition merge_settings :: "js_object \<Rightarrow> js_object \<Rightarrow> js_object" where
  "merge_settings persistedState currentState = js_spread currentState persistedState"

section \<open>Themes\<close>

definition APP_THEMES :: "string list" where
  "APP_THEMES =
     [''auto'', ''light'', ''dark'', ''midnight'', ''paper'', ''nord'', ''cupcake'', ''corporate'', ''winter'',
      ''caramellatte'', ''silk'', ''dim'', ''night'', ''sunset'', ''abyss'', ''coffee'', ''dracula'',
      ''business'', ''synthwave'']"

definition NAMED_THEMES :: "string list" where
  "NAMED_THEMES =
     [''midnight'', ''paper'', ''nord'', ''cupcake'', ''corporate'', ''winter'', ''caramellatte'', ''silk'',
      ''dim'', ''night'', ''sunset'', ''abyss'', ''coffee'', ''dracula'', ''business'', ''synthwave'']"

definition DARK_BASE_THEMES :: "string list" where
  "DARK_BASE_THEMES =
     [''dark'', ''midnight'', ''dim'', ''night'', ''sunset'', ''abyss'', ''coffee'', ''dracula'', ''business'',
      ''synthwave'']"

definition THEME_LABELS :: "(string \<times> string) list" where
  "THEME_LABELS =
     [(''auto'', ''Auto''), (''light'', ''Light''), (''dark'', ''Dark''), (''midnight'', ''Midnight''),
      (''paper'', ''Paper''), (''nord'', ''Nord''), (''cupcake'', ''Cupcake''), (''corporate'', ''Corporate''),
      (''winter'', ''Winter''), (''caramellatte'', ''Caramel Latte''), (''silk'', ''Silk''), (''dim'', ''Dim''),
      (''night'', ''Night''), (''sunset'', ''Sunset''), (''abyss'', ''Abyss''), (''coffee'', ''Coffee''),
      (''dracula'', ''Dracula''), (''business'', ''Business''), (''synthwave'', ''Synthwave'')]"

definition isNamedTheme :: "string \<Rightarrow> bool" where
  "isNamedTheme theme \<longleftrightarrow> theme \<in> set NAMED_THEMES"

datatype color_mode = DarkMode | LightMode

definition resolveColorMode :: "string \<Rightarrow> bool \<Rightarrow> color_mode" where
  "resolveColorMode theme prefersDark =
     (if theme = ''auto'' then (if prefersDark then DarkMode else LightMode)
      else if theme \<in> set DARK_BASE_THEMES then DarkMode else LightMode)"

text \<open>
  The \<open>migrate\<close> of the theme store. \<open>null\<close> and \<open>undefined\<close> become the empty object; any other stored
  value is read for its \<open>activeTheme\<close> and returned as it is when no rule applies.
\<close>

definition migrate_theme :: "jsval \<Rightarrow> int \<Rightarrow> jsval" where
  "migrate_theme persistedState version =
     (let state = (case persistedState of Null \<Rightarrow> Obj [] | Undefined \<Rightarrow> Obj [] | v \<Rightarrow> v);
          activeTheme = js_opt_get state ''activeTheme'' in
      if js_truthy activeTheme \<and> activeTheme \<in> Str ` {''ocean'', ''forest'', ''high-contrast''}
      then Obj [(''activeTheme'', Str ''auto'')]
      else if version < 4 \<and> activeTheme = Str ''light'' then Obj [(''activeTheme'', Str ''auto'')]
      else if js_truthy activeTheme \<and> activeTheme \<notin> Str ` set APP_THEMES
      then Obj [(''activeTheme'', Str ''auto'')]
      else state)"

record theme_state =
  activeTheme :: string
  isDark :: bool

definition setTheme :: "string \<Rightarrow> theme_state \<Rightarrow> theme_state" where
  "setTheme theme s = s\<lparr>activeTheme := theme\<rparr>"

definition setIsDark :: "bool \<Rightarrow> theme_state \<Rightarrow> theme_state" where
  "setIsDark b s = s\<lparr>isDark := b\<rparr>"

section \<open>Autostart on the first run\<close>

definition shouldRunAutostartFirstRun :: "bool \<Rightarrow> bool \<Rightarrow> bool" where
  "shouldRunAutostartFirstRun is_hydrated initialized \<longleftrightarrow> is_hydrated \<and> \<not> initialized"

text \<open>
  The hook over the life of an installation. A mount is identified by a number; the number of the
  effect that is currently mounted is \<open>mounted\<close>, so an effect is disposed when it is another one.
  \<open>stored\<close> is the flag on disk, which every change of the flag writes and hydration reads; \<open>attempts\<close>
  counts the calls of \<open>setAutostart(true)\<close>, and \<open>in_flight\<close> are the mounts whose call has not settled.
\<close>

record autostart_state =
  autostartInitialized :: bool
  startOnBoot :: bool
  hydrated :: bool
  stored :: bool
  mounted :: "nat option"
  next_mount :: nat
  waiting :: bool
  in_flight :: "nat list"
  attempts :: nat

definition fresh_install :: autostart_state where
  "fresh_install = \<lparr>autostartInitialized = False, startOnBoot = False, hydrated = False, stored = False,
     mounted = None, next_mount = 0, waiting = False, in_flight = [], attempts = 0\<rparr>"

definition run_first :: "nat \<Rightarrow> autostart_state \<Rightarrow> autostart_state" where
  "run_first m s =
     (if \<not> shouldRunAutostartFirstRun True (autostartInitialized s) then s
      else s\<lparr>autostartInitialized := True, stored := True, in_flight := in_flight s @ [m],
             attempts := Suc (attempts s)\<rparr>)"

datatype autostart_event =
    AMount                          \<comment> \<open>the effect runs\<close>
  | AUnmount                        \<comment> \<open>its cleanup\<close>
  | AHydrate                        \<comment> \<open>the store finished reading the disk\<close>
  | AResolve nat bool               \<comment> \<open>the call of a mount resolves with the state of the OS\<close>
  | AReject nat
  | ARelaunch                       \<comment> \<open>the process starts again\<close>

fun autostart_step :: "bool \<Rightarrow> autostart_state \<Rightarrow> autostart_event \<Rightarrow> autostart_state" where
  "autostart_step IS_DESKTOP s AMount =
     (if \<not> IS_DESKTOP then s
      else
        (let m = next_mount s; s1 = s\<lparr>mounted := Some m, next_mount := Suc m\<rparr> in
         if hydrated s then run_first m s1 else s1\<lparr>waiting := True\<rparr>))"
| "autostart_step IS_DESKTOP s AUnmount = s\<lparr>mounted := None, waiting := False\<rparr>"
| "autostart_step IS_DESKTOP s AHydrate =
     (let s1 = s\<lparr>hydrated := True, autostartInitialized := stored s\<rparr> in
      case mounted s of
        Some m \<Rightarrow> if waiting s then run_first m s1 else s1
      | None \<Rightarrow> s1)"
| "autostart_step IS_DESKTOP s (AResolve m actual) =
     (if m \<in> set (in_flight s)
      then s\<lparr>in_flight := remove1 m (in_flight s),
             startOnBoot := (if mounted s = Some m then actual else startOnBoot s)\<rparr>
      else s)"
| "autostart_step IS_DESKTOP s (AReject m) = s\<lparr>in_flight := remove1 m (in_flight s)\<rparr>"
| "autostart_step IS_DESKTOP s ARelaunch =
     s\<lparr>autostartInitialized := False, hydrated := False, mounted := None, waiting := False, in_flight := []\<rparr>"

section \<open>Lemmas\<close>

lemma obj_get_spread:
  "distinct (map fst b) \<Longrightarrow>
   obj_get (js_spread a b) k = (case map_of b k of Some v \<Rightarrow> v | None \<Rightarrow> obj_get a k)"
  by (simp add: obj_get_def map_of_spread map_add_def split: option.split)

lemma spread_absorb:
  "(\<And>k v. (k, v) \<in> set b \<Longrightarrow> map_of a k = Some v) \<Longrightarrow> js_spread a b = a"
proof (induction b)
  case (Cons p b)
  obtain k v where p: "p = (k, v)" by fastforce
  have "map_of a k = Some v \<Longrightarrow> assoc_put k v a = a" by (induction a) auto
  then show ?case using Cons by (simp add: p js_spread_def)
qed (simp add: js_spread_def)

definition autostart_inv :: "autostart_state \<Rightarrow> bool" where
  "autostart_inv s \<longleftrightarrow>
     attempts s \<le> 1 \<and> (attempts s = 1 \<longrightarrow> stored s) \<and> (hydrated s \<longrightarrow> autostartInitialized s = stored s)"

lemma run_first_inv: "autostart_inv s \<Longrightarrow> hydrated s \<Longrightarrow> autostart_inv (run_first m s)"
  by (auto simp: autostart_inv_def run_first_def shouldRunAutostartFirstRun_def)

interpretation autostart_machine: state_machine fresh_install "autostart_step IS_DESKTOP" autostart_inv
proof
  show "autostart_inv fresh_install" by (simp add: autostart_inv_def fresh_install_def)
next
  fix s e
  assume inv: "autostart_inv s"
  show "autostart_inv (autostart_step IS_DESKTOP s e)"
  proof (cases e)
    case AMount
    then show ?thesis
      using inv run_first_inv [of "s\<lparr>mounted := Some (next_mount s), next_mount := Suc (next_mount s)\<rparr>"]
      by (auto simp: Let_def autostart_inv_def)
  next
    case AHydrate
    have "autostart_inv (s\<lparr>hydrated := True, autostartInitialized := stored s\<rparr>)"
      using inv by (simp add: autostart_inv_def)
    then show ?thesis using AHydrate by (auto simp: Let_def run_first_inv split: option.split)
  qed (use inv in \<open>auto simp: autostart_inv_def\<close>)
qed

definition setting_inv :: "js_object \<Rightarrow> bool" where
  "setting_inv s \<longleftrightarrow> distinct (map fst s) \<and> fst ` set defaultAppSettings \<subseteq> fst ` set s"

interpretation setting_machine: state_machine defaultAppSettings setting_step setting_inv
proof
  show "setting_inv defaultAppSettings" by (simp add: setting_inv_def defaultAppSettings_def)
next
  fix s a
  assume "setting_inv s"
  then show "setting_inv (setting_step s a)"
    by (auto simp: setting_inv_def setting_step_def Let_def distinct_assoc_put fst_assoc_put split: prod.split)
qed

section \<open>Properties\<close>

text \<open>
  C38. The migration of the stored settings corrects what it is meant to and nothing else, whatever was
  on disk. Anything that is not an object counts as no settings. Below version 1 closing the window
  hides it again, below version 2 the stored download folder is dropped; every other value is carried
  through; from version 2 on nothing changes; and migrating twice is migrating once. After the merge
  every setting that the stored object does not have keeps its current value.
\<close>

theorem settings_migration:
  defines "m \<equiv> migrateAppSettings"
  shows "obj_get (m p v) k =
      (if k = ''minimizeToTray'' \<and> v < 1 then Bool True
       else if (k = ''downloadsUri'' \<or> k = ''downloadsPath'') \<and> v < 2 then Str ''''
       else obj_get (object_or_empty p) k) \<and>
    (v \<ge> 2 \<longrightarrow> m p v = object_or_empty p) \<and>
    m (Obj (m p v)) v = m p v \<and>
    (distinct (map fst (m p v)) \<longrightarrow>
       obj_get (merge_settings (m p v) current) k =
         (if k \<in> fst ` set (m p v) then obj_get (m p v) k else obj_get current k))"
proof (intro conjI)
  show "obj_get (m p v) k =
      (if k = ''minimizeToTray'' \<and> v < 1 then Bool True
       else if (k = ''downloadsUri'' \<or> k = ''downloadsPath'') \<and> v < 2 then Str ''''
       else obj_get (object_or_empty p) k)"
    by (simp add: m_def migrateAppSettings_def migrateDownloadFolder_def MEDIA_STORE_DEFAULT_VERSION_def
        Let_def obj_get_spread)
  show "v \<ge> 2 \<longrightarrow> m p v = object_or_empty p"
    by (simp add: m_def migrateAppSettings_def migrateDownloadFolder_def MEDIA_STORE_DEFAULT_VERSION_def)
  have dl: "js_spread x [(''downloadsUri'', Str ''''), (''downloadsPath'', Str '''')] = x"
    if "map_of x ''downloadsUri'' = Some (Str '''')" "map_of x ''downloadsPath'' = Some (Str '''')" for x
    using that by (intro spread_absorb) auto
  have mt: "js_spread x [(''minimizeToTray'', Bool True)] = x"
    if "map_of x ''minimizeToTray'' = Some (Bool True)" for x
    using that by (intro spread_absorb) auto
  show "m (Obj (m p v)) v = m p v"
    by (simp add: m_def migrateAppSettings_def migrateDownloadFolder_def MEDIA_STORE_DEFAULT_VERSION_def
        Let_def object_or_empty_def [of "Obj _"] dl mt map_of_spread)
  show "distinct (map fst (m p v)) \<longrightarrow>
       obj_get (merge_settings (m p v) current) k =
         (if k \<in> fst ` set (m p v) then obj_get (m p v) k else obj_get current k)"
  proof
    assume d: "distinct (map fst (m p v))"
    have "k \<in> fst ` set (m p v) \<longleftrightarrow> map_of (m p v) k \<noteq> None" by (simp add: map_of_eq_None_iff)
    then show "obj_get (merge_settings (m p v) current) k =
         (if k \<in> fst ` set (m p v) then obj_get (m p v) k else obj_get current k)"
      by (auto simp: merge_settings_def obj_get_spread [OF d] obj_get_def [of "m p v"] split: option.split)
  qed
qed

theorem settings_migration_witness:
  "migrateAppSettings (Obj [(''minimizeToTray'', Bool False), (''relayMode'', Str ''custom'')]) 2 =
     [(''minimizeToTray'', Bool False), (''relayMode'', Str ''custom'')] \<and>
   obj_get (migrateAppSettings (Obj [(''minimizeToTray'', Bool False)]) 0) ''minimizeToTray'' = Bool True"
  using settings_migration [where p = "Obj [(''minimizeToTray'', Bool False), (''relayMode'', Str ''custom'')]" and v = 2]
    settings_migration [where p = "Obj [(''minimizeToTray'', Bool False)]" and v = 0 and k = "''minimizeToTray''"]
  by (simp add: object_or_empty_def)

text \<open>
  Autostart is enabled by the program at most once per installation: whatever the order of mounts,
  unmounts, hydration, answers of the operating system and relaunches, there is at most one attempt,
  and once there was one the flag on disk is set. On another platform than a desktop there is none.
\<close>

theorem autostart_once:
  "attempts (run_ops (autostart_step IS_DESKTOP) fresh_install es) \<le> 1 \<and>
   (attempts (run_ops (autostart_step IS_DESKTOP) fresh_install es) = 0 \<or>
    stored (run_ops (autostart_step IS_DESKTOP) fresh_install es)) \<and>
   attempts (run_ops (autostart_step False) fresh_install es) = 0"
proof -
  have "autostart_inv (run_ops (autostart_step IS_DESKTOP) fresh_install es)"
    by (rule autostart_machine.reachable_inv)
  moreover have "mounted (run_ops (autostart_step False) fresh_install es) = None \<and>
      attempts (run_ops (autostart_step False) fresh_install es) = 0"
  proof (induction es rule: rev_induct)
    case (snoc e es)
    then show ?case by (cases e) (auto simp: Let_def)
  qed (simp add: fresh_install_def)
  ultimately show ?thesis by (auto simp: autostart_inv_def le_Suc_eq)
qed

text \<open>
  The theme that a migration leaves is one the program has: it is one of the themes, or it is not
  set at all. Removed and unknown themes, and values that are not even strings, become \<open>auto\<close>, and so
  does the old default of the browser below version 4; every theme the program has is kept otherwise.
  Each theme has a label and a colour mode, and only \<open>auto\<close> follows the system.
\<close>

theorem theme_migration:
  defines "t \<equiv> \<lambda>p v. js_opt_get (migrate_theme p v) ''activeTheme''"
  shows "\<not> (js_truthy (t p v) \<and> t p v \<notin> Str ` set APP_THEMES) \<and>
    (v < 4 \<longrightarrow> t p v \<noteq> Str ''light'') \<and>
    (x \<in> set APP_THEMES \<and> \<not> (v < 4 \<and> x = ''light'') \<longrightarrow> t (Obj [(''activeTheme'', Str x)]) v = Str x) \<and>
    (x \<in> set APP_THEMES \<longrightarrow> map_of THEME_LABELS x \<noteq> None \<and>
       (isNamedTheme x \<longleftrightarrow> x \<notin> {''auto'', ''light'', ''dark''}) \<and>
       (x \<noteq> ''auto'' \<longrightarrow> resolveColorMode x True = resolveColorMode x False))"
proof (intro conjI)
  have gone: "set APP_THEMES \<inter> {''ocean'', ''forest'', ''high-contrast''} = {}"
    by (simp add: APP_THEMES_def)
  have auto: "''auto'' \<in> set APP_THEMES" by (simp add: APP_THEMES_def)
  show "\<not> (js_truthy (t p v) \<and> t p v \<notin> Str ` set APP_THEMES)"
    using auto by (auto simp: t_def migrate_theme_def Let_def js_opt_get_def [of "Obj _"])
  show "v < 4 \<longrightarrow> t p v \<noteq> Str ''light''"
    by (auto simp: t_def migrate_theme_def Let_def js_opt_get_def [of "Obj _"])
  show "x \<in> set APP_THEMES \<and> \<not> (v < 4 \<and> x = ''light'') \<longrightarrow> t (Obj [(''activeTheme'', Str x)]) v = Str x"
    using gone by (auto simp: t_def migrate_theme_def Let_def js_opt_get_def)
  show "x \<in> set APP_THEMES \<longrightarrow> map_of THEME_LABELS x \<noteq> None \<and>
       (isNamedTheme x \<longleftrightarrow> x \<notin> {''auto'', ''light'', ''dark''}) \<and>
       (x \<noteq> ''auto'' \<longrightarrow> resolveColorMode x True = resolveColorMode x False)"
    by (auto simp: APP_THEMES_def THEME_LABELS_def isNamedTheme_def NAMED_THEMES_def resolveColorMode_def)
qed

theorem theme_migration_witness:
  "js_opt_get (migrate_theme (Obj [(''activeTheme'', Str ''nord'')]) 1) ''activeTheme'' = Str ''nord''"
  using theme_migration [where x = "''nord''" and v = 1] by (simp add: APP_THEMES_def)

end
