(* ===== verification/Updater.thy ===== *)
theory Updater
  imports JS_Prelude
begin

text \<open>
  The updater: \<open>store/updater-store.ts\<close> and \<open>hooks/use-updater.ts\<close>.

  The file holds a core, the life cycle of an update as plain variables, and a store around it that
  shows a snapshot of the core to the components and throttles what it publishes. The hook runs the
  install: it is an asynchronous function, so the model splits it at its awaits. A call of \<open>install\<close>
  that got past \<open>startDownload\<close> is an element of \<open>installs\<close>, and the events of the model are the clicks,
  the results of a check, and what the updater plugin reports to such a call.

  Byte counts are natural numbers and the ratio is an exact rational.
\<close>

datatype UpdaterPhase = UIdle | UAvailable | UDownloading | UInstalling | UReady | URestarting

record updater_core =
  phase :: UpdaterPhase
  version :: "string option"
  downloadUrl :: "string option"
  downloadedBytes :: nat
  contentLength :: "nat option"
  dismissedVersion :: "string option"

section \<open>The core\<close>

definition createUpdaterStore :: "string option \<Rightarrow> updater_core" where
  "createUpdaterStore dismissed =
     \<lparr>phase = UIdle, version = None, downloadUrl = None, downloadedBytes = 0, contentLength = None,
      dismissedVersion = dismissed\<rparr>"

definition clearProgress :: "updater_core \<Rightarrow> updater_core" where
  "clearProgress c = c\<lparr>downloadedBytes := 0, contentLength := None\<rparr>"

definition updateFound :: "string \<Rightarrow> string option \<Rightarrow> updater_core \<Rightarrow> updater_core" where
  "updateFound found url c =
     (if phase c \<noteq> UIdle \<and> phase c \<noteq> UAvailable then c
      else c\<lparr>version := Some found, downloadUrl := url, phase := UAvailable\<rparr>)"

definition noUpdate :: "updater_core \<Rightarrow> updater_core" where
  "noUpdate c =
     (if phase c \<noteq> UIdle \<and> phase c \<noteq> UAvailable then c
      else clearProgress (c\<lparr>version := None, downloadUrl := None, phase := UIdle\<rparr>))"

definition startDownload :: "updater_core \<Rightarrow> updater_core \<times> bool" where
  "startDownload c =
     (if phase c \<noteq> UAvailable then (c, False)
      else (clearProgress (c\<lparr>phase := UDownloading\<rparr>), True))"

text \<open>A version that is \<open>null\<close> or the empty string is falsy.\<close>

definition truthy_string :: "string option \<Rightarrow> bool" where
  "truthy_string v = (case v of None \<Rightarrow> False | Some s \<Rightarrow> s \<noteq> [])"

definition fail :: "updater_core \<Rightarrow> updater_core" where
  "fail c = clearProgress (c\<lparr>phase := (if truthy_string (version c) then UAvailable else UIdle)\<rparr>)"

definition progressRatio :: "updater_core \<Rightarrow> rat option" where
  "progressRatio c =
     (case contentLength c of
        None \<Rightarrow> None
      | Some n \<Rightarrow> if n = 0 then None else Some (min 1 (of_nat (downloadedBytes c) / of_nat n)))"

definition bannerVisible :: "updater_core \<Rightarrow> bool" where
  "bannerVisible c \<longleftrightarrow>
     phase c \<noteq> UIdle \<and> (phase c \<noteq> UAvailable \<or> dismissedVersion c \<noteq> version c)"

definition dismiss :: "updater_core \<Rightarrow> updater_core" where
  "dismiss c = c\<lparr>dismissedVersion := version c\<rparr>"

definition setContentLength :: "nat \<Rightarrow> updater_core \<Rightarrow> updater_core" where
  "setContentLength bytes c = c\<lparr>contentLength := Some bytes\<rparr>"

definition addProgress :: "nat \<Rightarrow> updater_core \<Rightarrow> updater_core" where
  "addProgress bytes c = c\<lparr>downloadedBytes := downloadedBytes c + bytes\<rparr>"

definition downloadFinished :: "updater_core \<Rightarrow> updater_core" where
  "downloadFinished c = c\<lparr>phase := UInstalling\<rparr>"

definition installFinished :: "updater_core \<Rightarrow> updater_core" where
  "installFinished c = c\<lparr>phase := UReady\<rparr>"

definition restarting :: "updater_core \<Rightarrow> updater_core" where
  "restarting c = c\<lparr>phase := URestarting\<rparr>"

datatype core_op =
    UpdateFound string "string option"
  | NoUpdate
  | Dismiss
  | StartDownload
  | SetContentLength nat
  | AddProgress nat
  | DownloadFinished
  | InstallFinished
  | Restarting
  | Fail

fun core_step :: "updater_core \<Rightarrow> core_op \<Rightarrow> updater_core" where
  "core_step c (UpdateFound v u) = updateFound v u c"
| "core_step c NoUpdate = noUpdate c"
| "core_step c Dismiss = dismiss c"
| "core_step c StartDownload = fst (startDownload c)"
| "core_step c (SetContentLength n) = setContentLength n c"
| "core_step c (AddProgress n) = addProgress n c"
| "core_step c DownloadFinished = downloadFinished c"
| "core_step c InstallFinished = installFinished c"
| "core_step c Restarting = restarting c"
| "core_step c Fail = fail c"

section \<open>The store\<close>

record snapshot =
  sn_phase :: UpdaterPhase
  sn_version :: "string option"
  sn_downloadUrl :: "string option"
  sn_downloadedBytes :: nat
  sn_contentLength :: "nat option"
  sn_dismissedVersion :: "string option"
  sn_progressRatio :: "rat option"
  sn_bannerVisible :: bool

definition snapshot_of :: "updater_core \<Rightarrow> snapshot" where
  "snapshot_of c =
     \<lparr>sn_phase = phase c, sn_version = version c, sn_downloadUrl = downloadUrl c,
      sn_downloadedBytes = downloadedBytes c, sn_contentLength = contentLength c,
      sn_dismissedVersion = dismissedVersion c, sn_progressRatio = progressRatio c,
      sn_bannerVisible = bannerVisible c\<rparr>"

record updater_store =
  core :: updater_core
  shown :: snapshot                       \<comment> \<open>the state components read\<close>
  publishedRatio :: "rat option"
  dismissed_storage :: "string option"    \<comment> \<open>the entry of \<open>localStorage\<close>\<close>

definition publish :: "updater_store \<Rightarrow> updater_store" where
  "publish st = st\<lparr>shown := snapshot_of (core st)\<rparr>"

definition useUpdaterStore :: "string option \<Rightarrow> updater_store" where
  "useUpdaterStore readDismissedVersion =
     \<lparr>core = createUpdaterStore readDismissedVersion,
      shown = snapshot_of (createUpdaterStore readDismissedVersion),
      publishedRatio = None, dismissed_storage = readDismissedVersion\<rparr>"

definition on_core :: "(updater_core \<Rightarrow> updater_core) \<Rightarrow> updater_store \<Rightarrow> updater_store" where
  "on_core f st = st\<lparr>core := f (core st)\<rparr>"

fun store_step :: "updater_store \<Rightarrow> core_op \<Rightarrow> updater_store" where
  "store_step st (UpdateFound v u) = publish (on_core (updateFound v u) st)"
| "store_step st NoUpdate = publish (on_core noUpdate st)"
| "store_step st Dismiss =
     (let st1 = on_core dismiss st in
      publish (st1\<lparr>dismissed_storage := dismissedVersion (core st1)\<rparr>))"
| "store_step st StartDownload =
     (let (c, started) = startDownload (core st) in
      if started then publish (st\<lparr>core := c, publishedRatio := None\<rparr>) else st\<lparr>core := c\<rparr>)"
| "store_step st (SetContentLength n) = publish (on_core (setContentLength n) st)"
| "store_step st (AddProgress n) =
     (let st1 = on_core (addProgress n) st in
      case progressRatio (core st1) of
        None \<Rightarrow> st1
      | Some ratio \<Rightarrow>
          if (case publishedRatio st1 of None \<Rightarrow> False | Some q \<Rightarrow> ratio - q < 5 / 1000 \<and> ratio < 1)
          then st1
          else publish (st1\<lparr>publishedRatio := Some ratio\<rparr>))"
| "store_step st DownloadFinished = publish (on_core downloadFinished st)"
| "store_step st InstallFinished = publish (on_core installFinished st)"
| "store_step st Restarting = publish (on_core restarting st)"
| "store_step st Fail = publish (on_core fail st\<lparr>publishedRatio := None\<rparr>)"

definition store_startDownload :: "updater_store \<Rightarrow> updater_store \<times> bool" where
  "store_startDownload st = (store_step st StartDownload, snd (startDownload (core st)))"

section \<open>The check\<close>

record update_info =
  ui_version :: string
  ui_handle :: bool                \<comment> \<open>the plugin's \<open>Update\<close> is there\<close>
  ui_url :: "string option"

text \<open>
  The flags of the platform, and what the Android command, the portable test and the plugin answer.
\<close>

definition checkForUpdate ::
    "bool \<Rightarrow> bool \<Rightarrow> bool \<Rightarrow> bool \<Rightarrow> (string \<times> string) option result \<Rightarrow> bool result \<Rightarrow> string option result \<Rightarrow>
     update_info option result" where
  "checkForUpdate IS_MOBILE IS_ANDROID_UPDATE_CHECK_ENABLED IS_WEB IS_FLATPAK android portable plugin =
     (if IS_MOBILE then
        (if \<not> IS_ANDROID_UPDATE_CHECK_ENABLED then Inr None
         else try_bind android (\<lambda>u. Inr (map_option
           (\<lambda>(v, url). \<lparr>ui_version = v, ui_handle = False, ui_url = Some url\<rparr>) u)))
      else if IS_WEB \<or> IS_FLATPAK then Inr None
      else try_bind portable (\<lambda>p.
        if p then Inr None
        else try_bind plugin (\<lambda>u. Inr (map_option
           (\<lambda>v. \<lparr>ui_version = v, ui_handle = True, ui_url = None\<rparr>) u))))"

section \<open>The hook\<close>

text \<open>An \<open>install\<close> call past \<open>startDownload\<close>: waiting for its handle, or downloading.\<close>

datatype install_call = AwaitHandle | Running bool   \<comment> \<open>the download has reported \<open>Started\<close>\<close>

record updater_app =
  store :: updater_store
  installs :: "install_call list"
  opened_urls :: "string list"
  error_toasts :: nat

datatype updater_event =
    CheckResult "update_info option"      \<comment> \<open>the periodic check succeeded\<close>
  | CheckFailed bool                      \<comment> \<open>a check failed; manual ones report it\<close>
  | DismissClick
  | InstallClick
  | HandleReady nat "update_info option result"   \<comment> \<open>\<open>cached ?? await checkForUpdate()\<close> of a call\<close>
  | Started nat "nat option"              \<comment> \<open>\<open>event: 'Started'\<close> of a call\<close>
  | Progress nat nat
  | Finished nat
  | Installed nat                         \<comment> \<open>\<open>downloadAndInstall\<close> resolved\<close>
  | InstallError nat
  | RestartClick
  | RestartError
  | ManualCheckResult "update_info option"   \<comment> \<open>a check the user asked for succeeded\<close>

definition drop_call :: "nat \<Rightarrow> 'a list \<Rightarrow> 'a list" where
  "drop_call i xs = take i xs @ drop (Suc i) xs"

definition on_store :: "core_op \<Rightarrow> updater_app \<Rightarrow> updater_app" where
  "on_store op a = a\<lparr>store := store_step (store a) op\<rparr>"

definition check_result :: "update_info option \<Rightarrow> updater_app \<Rightarrow> updater_app" where
  "check_result u a =
     (case u of
        Some i \<Rightarrow>
          if ui_version i \<noteq> [] then on_store (UpdateFound (ui_version i) (ui_url i)) a else on_store NoUpdate a
      | None \<Rightarrow> on_store NoUpdate a)"

definition manual_check_result :: "update_info option \<Rightarrow> updater_app \<Rightarrow> updater_app" where
  "manual_check_result u a =
     (case u of Some i \<Rightarrow> on_store (UpdateFound (ui_version i) (ui_url i)) a | None \<Rightarrow> on_store NoUpdate a)"

definition install_click :: "updater_app \<Rightarrow> updater_app" where
  "install_click a =
     (let url = sn_downloadUrl (shown (store a)) in
      if truthy_string url then a\<lparr>opened_urls := opened_urls a @ [the url]\<rparr>
      else
        (let (st, started) = store_startDownload (store a) in
         if \<not> started then a\<lparr>store := st\<rparr>
         else a\<lparr>store := st, installs := installs a @ [AwaitHandle]\<rparr>))"

definition install_failed :: "nat \<Rightarrow> bool \<Rightarrow> updater_app \<Rightarrow> updater_app" where
  "install_failed i toast a =
     (let a1 = on_store Fail a in
      a1\<lparr>installs := drop_call i (installs a1),
         error_toasts := (if toast then Suc (error_toasts a1) else error_toasts a1)\<rparr>)"

text \<open>
  What the plugin reports only reaches a call that is running, and it reports \<open>Started\<close> once; an event
  for which there is no such call does not occur and changes nothing.
\<close>

fun updater_step :: "updater_app \<Rightarrow> updater_event \<Rightarrow> updater_app" where
  "updater_step a (CheckResult u) = check_result u a"
| "updater_step a (CheckFailed manual) =
     (if manual then a\<lparr>error_toasts := Suc (error_toasts a)\<rparr> else a)"
| "updater_step a DismissClick = on_store Dismiss a"
| "updater_step a InstallClick = install_click a"
| "updater_step a (HandleReady i r) =
     (if i < length (installs a) \<and> installs a ! i = AwaitHandle then
        (case r of
           Inl _ \<Rightarrow> install_failed i True a
         | Inr u \<Rightarrow>
             if (case u of None \<Rightarrow> False | Some x \<Rightarrow> ui_handle x)
             then a\<lparr>installs := (installs a)[i := Running False]\<rparr>
             else install_failed i False a)
      else a)"
| "updater_step a (Started i len) =
     (if i < length (installs a) \<and> installs a ! i = Running False then
        (let a1 = a\<lparr>installs := (installs a)[i := Running True]\<rparr> in
         case len of
           None \<Rightarrow> a1
         | Some n \<Rightarrow> if n = 0 then a1 else on_store (SetContentLength n) a1)
      else a)"
| "updater_step a (Progress i n) =
     (if i < length (installs a) \<and> installs a ! i \<noteq> AwaitHandle then on_store (AddProgress n) a else a)"
| "updater_step a (Finished i) =
     (if i < length (installs a) \<and> installs a ! i \<noteq> AwaitHandle then on_store DownloadFinished a else a)"
| "updater_step a (Installed i) =
     (if i < length (installs a) \<and> installs a ! i \<noteq> AwaitHandle
      then (on_store InstallFinished a)\<lparr>installs := drop_call i (installs a)\<rparr> else a)"
| "updater_step a (InstallError i) =
     (if i < length (installs a) \<and> installs a ! i \<noteq> AwaitHandle then install_failed i True a else a)"
| "updater_step a RestartClick = on_store Restarting a"
| "updater_step a RestartError =
     (on_store InstallFinished a)\<lparr>error_toasts := Suc (error_toasts a)\<rparr>"
| "updater_step a (ManualCheckResult u) = manual_check_result u a"

definition updater_start :: "string option \<Rightarrow> updater_app" where
  "updater_start dismissed =
     \<lparr>store = useUpdaterStore dismissed, installs = [], opened_urls = [], error_toasts = 0\<rparr>"

section \<open>The store refines the core\<close>

interpretation store_refines: refinement "useUpdaterStore d" store_step "\<lambda>_. True" core core_step
proof
  fix st :: updater_store and op
  show "core (store_step st op) = core_step (core st) op"
    by (cases op) (auto simp: publish_def on_core_def Let_def split: prod.split option.split)
qed simp_all

section \<open>What the components see\<close>

text \<open>The published ratio trails the true one by less than half a percent.\<close>

definition close_below :: "rat \<Rightarrow> rat \<Rightarrow> bool" where
  "close_below q r \<longleftrightarrow> q \<le> r \<and> r - q < 5 / 1000"

definition ratio_ok :: "updater_core \<Rightarrow> rat option \<Rightarrow> bool" where
  "ratio_ok c q =
     (case progressRatio c of
        None \<Rightarrow> q = None
      | Some r \<Rightarrow> (case q of None \<Rightarrow> True | Some q' \<Rightarrow> close_below q' r))"

definition shown_ratio_ok :: "updater_store \<Rightarrow> bool" where
  "shown_ratio_ok st =
     (case progressRatio (core st) of
        None \<Rightarrow> sn_progressRatio (shown st) = None
      | Some r \<Rightarrow>
          (case sn_progressRatio (shown st) of
             None \<Rightarrow> False
           | Some p \<Rightarrow>
               close_below p r \<and> (r = 1 \<longrightarrow> p = 1) \<and>
               (case publishedRatio st of None \<Rightarrow> p = r | Some q \<Rightarrow> q \<le> p)))"

definition fields_shown :: "updater_store \<Rightarrow> bool" where
  "fields_shown st \<longleftrightarrow>
     sn_phase (shown st) = phase (core st) \<and> sn_version (shown st) = version (core st) \<and>
     sn_downloadUrl (shown st) = downloadUrl (core st) \<and>
     sn_contentLength (shown st) = contentLength (core st) \<and>
     sn_dismissedVersion (shown st) = dismissedVersion (core st) \<and>
     sn_bannerVisible (shown st) = bannerVisible (core st)"

definition store_inv :: "updater_store \<Rightarrow> bool" where
  "store_inv st \<longleftrightarrow> fields_shown st \<and> ratio_ok (core st) (publishedRatio st) \<and> shown_ratio_ok st"

definition app_inv :: "updater_app \<Rightarrow> bool" where
  "app_inv a \<longleftrightarrow>
     length (installs a) \<le> 1 \<and> store_inv (store a) \<and>
     (phase (core (store a)) \<in> {UIdle, UAvailable} \<longrightarrow> installs a = [] \<and> publishedRatio (store a) = None) \<and>
     (installs a \<in> {[AwaitHandle], [Running False]} \<longrightarrow>
        publishedRatio (store a) = None \<and> contentLength (core (store a)) = None)"

lemma publish_inv: "ratio_ok (core st) (publishedRatio st) \<Longrightarrow> store_inv (publish st)"
  by (auto simp: store_inv_def publish_def fields_shown_def snapshot_of_def ratio_ok_def shown_ratio_ok_def
      close_below_def split: option.splits)

lemma publish_simps [simp]:
  "core (publish st) = core st" "publishedRatio (publish st) = publishedRatio st"
  "dismissed_storage (publish st) = dismissed_storage st"
  by (simp_all add: publish_def)

lemma on_core_simps [simp]:
  "core (on_core f st) = f (core st)" "publishedRatio (on_core f st) = publishedRatio st"
  "shown (on_core f st) = shown st"
  by (simp_all add: on_core_def)

lemma ratio_ok_None: "ratio_ok c None"
  by (simp add: ratio_ok_def split: option.split)

lemma ratio_ok_same: "contentLength c' = contentLength c \<Longrightarrow> downloadedBytes c' = downloadedBytes c \<Longrightarrow> ratio_ok c' q = ratio_ok c q"
proof -
  assume "contentLength c' = contentLength c" "downloadedBytes c' = downloadedBytes c"
  then have "progressRatio c' = progressRatio c"
    by (cases "contentLength c") (simp_all add: progressRatio_def)
  then show ?thesis by (simp add: ratio_ok_def)
qed

lemmas core_defs = updateFound_def noUpdate_def dismiss_def clearProgress_def startDownload_def fail_def
  setContentLength_def addProgress_def downloadFinished_def installFinished_def restarting_def

lemma add_progress_mono:
  "progressRatio c = Some r \<Longrightarrow> \<exists>r'. progressRatio (addProgress n c) = Some r' \<and> r \<le> r'"
  by (auto simp: progressRatio_def addProgress_def divide_right_mono min.coboundedI2
      intro!: min.mono split: option.splits if_splits)

lemma ratio_bounds: "progressRatio c = Some r \<Longrightarrow> 0 \<le> r \<and> r \<le> 1"
  by (auto simp: progressRatio_def split: option.splits if_splits)

lemma add_progress_store_inv:
  assumes "store_inv st"
  shows "store_inv (store_step st (AddProgress n))"
proof (cases "progressRatio (core st)")
  case None
  then have "progressRatio (addProgress n (core st)) = None"
    by (auto simp: progressRatio_def addProgress_def split: option.splits if_splits)
  then show ?thesis
    using assms None
    by (auto simp: store_inv_def fields_shown_def ratio_ok_def shown_ratio_ok_def bannerVisible_def
        addProgress_def Let_def split: option.splits)
next
  case (Some r)
  obtain r' where r': "progressRatio (addProgress n (core st)) = Some r'" "r \<le> r'"
    using add_progress_mono [OF Some] by blast
  show ?thesis
  proof (cases "\<exists>q. publishedRatio st = Some q \<and> r' - q < 5 / 1000 \<and> r' < 1")
    case True
    then obtain q where q: "publishedRatio st = Some q" "r' - q < 5 / 1000" "r' < 1" by blast
    then have step: "store_step st (AddProgress n) = on_core (addProgress n) st"
      by (simp add: Let_def r')
    have "fields_shown (on_core (addProgress n) st)"
      using assms by (simp add: store_inv_def fields_shown_def addProgress_def bannerVisible_def)
    then show ?thesis
      unfolding step store_inv_def using assms Some r' q
      by (auto simp: store_inv_def ratio_ok_def shown_ratio_ok_def close_below_def split: option.splits)
  next
    case False
    then have "store_step st (AddProgress n) = publish ((on_core (addProgress n) st)\<lparr>publishedRatio := Some r'\<rparr>)"
      by (auto simp: Let_def r' split: option.split)
    then show ?thesis
      by (simp add: publish_inv ratio_ok_def r' close_below_def)
  qed
qed

lemma store_step_inv:
  assumes "store_inv st" and "\<And>n. op = SetContentLength n \<Longrightarrow> publishedRatio st = None"
    and "op = NoUpdate \<Longrightarrow> phase (core st) \<in> {UIdle, UAvailable} \<Longrightarrow> publishedRatio st = None"
  shows "store_inv (store_step st op)"
proof -
  have r: "ratio_ok (core st) (publishedRatio st)" using assms(1) by (simp add: store_inv_def)
  show ?thesis
  proof (cases op)
    case NoUpdate
    have "ratio_ok (noUpdate (core st)) (publishedRatio st)"
      using r assms(3) NoUpdate by (cases "phase (core st) \<in> {UIdle, UAvailable}") (auto simp: noUpdate_def ratio_ok_None)
    then show ?thesis using NoUpdate by (simp add: publish_inv)
  next
    case StartDownload
    then show ?thesis
      using assms(1) by (auto simp: startDownload_def publish_inv ratio_ok_None)
  next
    case (AddProgress n)
    then show ?thesis using add_progress_store_inv [OF assms(1)] by simp
  next
    case (SetContentLength n)
    then show ?thesis using assms(2) by (simp add: publish_inv ratio_ok_None)
  next
    case (UpdateFound v u)
    have "ratio_ok (updateFound v u (core st)) (publishedRatio st)"
      using r ratio_ok_same [of "updateFound v u (core st)" "core st"] by (simp add: updateFound_def)
    then show ?thesis using UpdateFound by (simp add: publish_inv)
  next
    case Dismiss
    have "ratio_ok (dismiss (core st)) (publishedRatio st)"
      using r ratio_ok_same [of "dismiss (core st)" "core st"] by (simp add: dismiss_def)
    then show ?thesis using Dismiss by (simp add: publish_inv Let_def)
  next
    case DownloadFinished
    have "ratio_ok (downloadFinished (core st)) (publishedRatio st)"
      using r ratio_ok_same [of "downloadFinished (core st)" "core st"] by (simp add: downloadFinished_def)
    then show ?thesis using DownloadFinished by (simp add: publish_inv)
  next
    case InstallFinished
    have "ratio_ok (installFinished (core st)) (publishedRatio st)"
      using r ratio_ok_same [of "installFinished (core st)" "core st"] by (simp add: installFinished_def)
    then show ?thesis using InstallFinished by (simp add: publish_inv)
  next
    case Restarting
    have "ratio_ok (restarting (core st)) (publishedRatio st)"
      using r ratio_ok_same [of "restarting (core st)" "core st"] by (simp add: restarting_def)
    then show ?thesis using Restarting by (simp add: publish_inv)
  next
    case Fail
    then show ?thesis by (simp add: publish_inv ratio_ok_None)
  qed
qed

lemma publishedRatio_step:
  "publishedRatio (store_step st op) = publishedRatio st \<or> publishedRatio (store_step st op) = None \<or>
   (\<exists>n. op = AddProgress n \<and> progressRatio (addProgress n (core st)) \<noteq> None)"
  by (cases op) (auto simp: Let_def split: prod.splits option.splits)

lemma core_of_step [simp]: "core (store_step st op) = core_step (core st) op"
  by (rule store_refines.abs_step) simp

text \<open>Which operations the hook can perform while its calls are as they are.\<close>

lemma app_inv_store:
  assumes "app_inv a"
    and "op \<in> {NoUpdate, Dismiss, Restarting, InstallFinished, DownloadFinished} \<or> (\<exists>v u. op = UpdateFound v u)"
  shows "app_inv (on_store op a)"
proof -
  have pr: "publishedRatio (store_step (store a) op) = publishedRatio (store a) \<or>
      publishedRatio (store_step (store a) op) = None"
    using publishedRatio_step [of "store a" op] assms(2) by auto
  have si: "store_inv (store_step (store a) op)"
    using assms by (intro store_step_inv) (auto simp: app_inv_def)
  have "phase (core_step (core (store a)) op) \<in> {UIdle, UAvailable} \<Longrightarrow> phase (core (store a)) \<in> {UIdle, UAvailable}"
    using assms(2) by (auto simp: core_defs split: if_splits)
  moreover have "contentLength (core_step (core (store a)) op) = contentLength (core (store a)) \<or>
      contentLength (core_step (core (store a)) op) = None"
    using assms(2) by (auto simp: core_defs split: if_splits)
  ultimately show ?thesis
    using assms(1) pr si by (auto simp: app_inv_def on_store_def)
qed

lemma install_click_inv: "app_inv a \<Longrightarrow> app_inv (install_click a)"
proof -
  assume inv: "app_inv a"
  show ?thesis
  proof (cases "truthy_string (sn_downloadUrl (shown (store a))) \<or> phase (core (store a)) \<noteq> UAvailable")
    case True
    then show ?thesis
      using inv by (auto simp: app_inv_def install_click_def store_startDownload_def startDownload_def Let_def)
  next
    case False
    then have "installs a = []" using inv by (simp add: app_inv_def)
    moreover have "store_inv (store_step (store a) StartDownload)"
      using inv by (intro store_step_inv) (auto simp: app_inv_def)
    ultimately show ?thesis
      using False by (auto simp: app_inv_def install_click_def store_startDownload_def startDownload_def
          clearProgress_def Let_def)
  qed
qed

lemma install_failed_inv:
  assumes "app_inv a" "i < length (installs a)"
  shows "app_inv (install_failed i t a)"
proof -
  have "drop_call i (installs a) = []"
    using assms by (auto simp: app_inv_def drop_call_def)
  moreover have "store_inv (store_step (store a) Fail)"
    using assms by (intro store_step_inv) (auto simp: app_inv_def)
  ultimately show ?thesis
    by (auto simp: app_inv_def install_failed_def on_store_def Let_def)
qed

lemma running_inv:
  assumes "app_inv a" "i < length (installs a)"
  shows "phase (core (store a)) \<notin> {UIdle, UAvailable}" "i = 0" "installs a = [installs a ! 0]"
proof -
  show "phase (core (store a)) \<notin> {UIdle, UAvailable}" using assms by (auto simp: app_inv_def)
  have "length (installs a) = 1" "i = 0" using assms by (auto simp: app_inv_def)
  then show "i = 0" "installs a = [installs a ! 0]" by (auto simp: length_Suc_conv)
qed

lemma handle_ready_inv:
  assumes inv: "app_inv a"
  shows "app_inv (updater_step a (HandleReady i r))"
proof (cases "i < length (installs a) \<and> installs a ! i = AwaitHandle")
  case True
  then have ins: "installs a = [AwaitHandle]" "i = 0" using running_inv [OF inv, of i] by auto
  then have "app_inv (a\<lparr>installs := [Running False]\<rparr>)" using inv by (auto simp: app_inv_def)
  then show ?thesis
    using ins install_failed_inv [OF inv, of 0] by (auto split: sum.split option.split)
qed (use inv in auto)

lemma started_inv:
  assumes inv: "app_inv a"
  shows "app_inv (updater_step a (Started i len))"
proof (cases "i < length (installs a) \<and> installs a ! i = Running False")
  case True
  then have ins: "installs a = [Running False]" "i = 0" using running_inv [OF inv, of i] by auto
  have pr: "publishedRatio (store a) = None" using inv ins by (auto simp: app_inv_def)
  have "app_inv (a\<lparr>installs := [Running True]\<rparr>)" using inv ins by (auto simp: app_inv_def)
  moreover have "store_inv (store_step (store a) (SetContentLength n))" for n
    using inv pr by (intro store_step_inv) (auto simp: app_inv_def)
  then have "app_inv (on_store (SetContentLength n) (a\<lparr>installs := [Running True]\<rparr>))" for n
    using inv ins by (auto simp: app_inv_def on_store_def core_defs simp del: store_step.simps)
  ultimately show ?thesis
    using ins by (auto simp: Let_def split: option.split)
qed (use inv in auto)

lemma progress_inv:
  assumes inv: "app_inv a"
  shows "app_inv (updater_step a (Progress i n))"
proof (cases "i < length (installs a) \<and> installs a ! i \<noteq> AwaitHandle")
  case True
  note run = running_inv [OF inv conjunct1 [OF True]]
  have "store_inv (store_step (store a) (AddProgress n))"
    using inv by (intro store_step_inv) (auto simp: app_inv_def)
  moreover have "installs a = [Running False] \<Longrightarrow>
      publishedRatio (store_step (store a) (AddProgress n)) = None"
    using inv publishedRatio_step [of "store a" "AddProgress n"]
    by (auto simp: app_inv_def progressRatio_def addProgress_def)
  ultimately have "app_inv (on_store (AddProgress n) a)"
    using inv run True
    by (auto simp: app_inv_def on_store_def core_defs simp del: store_step.simps)
  then show ?thesis using True by simp
qed (use inv in auto)

lemma installed_inv:
  assumes inv: "app_inv a"
  shows "app_inv (updater_step a (Installed i))"
proof (cases "i < length (installs a) \<and> installs a ! i \<noteq> AwaitHandle")
  case True
  then have "drop_call i (installs a) = []"
    using running_inv [OF inv, of i] by (metis drop_call_def append.left_neutral drop_Suc_Cons drop_Nil take0)
  moreover have "app_inv (on_store InstallFinished a)" using inv by (simp add: app_inv_store)
  ultimately show ?thesis using True by (auto simp: app_inv_def)
qed (use inv in auto)

interpretation updater_machine: state_machine "updater_start d" updater_step app_inv
proof
  show "app_inv (updater_start d)"
    by (simp add: app_inv_def updater_start_def useUpdaterStore_def store_inv_def fields_shown_def
        snapshot_of_def ratio_ok_def shown_ratio_ok_def createUpdaterStore_def progressRatio_def bannerVisible_def)
next
  fix a e
  assume inv: "app_inv a"
  have restart_error: "app_inv (updater_step a RestartError)"
    using app_inv_store [OF inv, of InstallFinished] by (auto simp: app_inv_def)
  show "app_inv (updater_step a e)"
  proof (cases e)
    case (CheckResult u)
    then show ?thesis using inv by (auto simp: check_result_def app_inv_store split: option.split)
  next
    case (ManualCheckResult u)
    then show ?thesis using inv by (auto simp: manual_check_result_def app_inv_store split: option.split)
  next
    case (CheckFailed m)
    then show ?thesis using inv by (auto simp: app_inv_def)
  next
    case (InstallError i)
    then show ?thesis using inv install_failed_inv [OF inv, of i] by auto
  qed (use inv restart_error in \<open>auto simp: app_inv_store install_click_inv handle_ready_inv started_inv
      progress_inv installed_inv simp del: updater_step.simps(5-7,9,12)\<close>)
qed

section \<open>Properties\<close>

text \<open>
  C8. An update is never downloaded twice at the same time. Whatever the three update surfaces click,
  whatever the periodic and manual checks find, and however downloads, installs and restarts end, at
  most one install is under way; no check result changes the version or the phase while there is one;
  and a click when nothing is available starts nothing.
\<close>

theorem one_install_at_a_time:
  defines "run \<equiv> \<lambda>d es. run_ops updater_step (updater_start d) es"
  shows "length (installs (run d es)) \<le> 1 \<and>
    (installs (run d es) = [] \<or>
      core (store (updater_step (run d es) (CheckResult u))) = core (store (run d es)) \<and>
      core (store (updater_step (run d es) (ManualCheckResult u))) = core (store (run d es)) \<and>
      installs (updater_step (run d es) InstallClick) = installs (run d es)) \<and>
    (phase (core (store (run d es))) = UAvailable \<or>
      installs (updater_step (run d es) InstallClick) = installs (run d es))"
proof -
  have inv: "app_inv (run d es)" unfolding run_def by (rule updater_machine.reachable_inv)
  have click: "installs (updater_step (run d es) InstallClick) = installs (run d es)"
    if "phase (core (store (run d es))) \<noteq> UAvailable"
    using that by (simp add: install_click_def store_startDownload_def startDownload_def Let_def)
  moreover have "installs (run d es) = [] \<or> phase (core (store (run d es))) \<notin> {UIdle, UAvailable}"
    using inv by (auto simp: app_inv_def)
  moreover have "core (store (updater_step (run d es) (CheckResult u))) = core (store (run d es))"
      "core (store (updater_step (run d es) (ManualCheckResult u))) = core (store (run d es))"
    if "phase (core (store (run d es))) \<notin> {UIdle, UAvailable}"
    using that by (auto simp: check_result_def manual_check_result_def on_store_def core_defs simp del: store_step.simps split: option.split)
  ultimately show ?thesis using inv by (auto simp: app_inv_def)
qed

text \<open>
  C20. What the components show is true. At any moment the phase, version, release page, banner and
  dismissal they read are those of the core; the ratio they read is one exactly when the true one
  is, lies between 0 and 1, and trails the true one by less than half a percent, although most progress
  reports are not published. And the core behind the store is at every step the core on its own.
\<close>

theorem shown_update_state:
  defines "st \<equiv> \<lambda>d es. store (run_ops updater_step (updater_start d) es)"
  shows "sn_phase (shown (st d es)) = phase (core (st d es)) \<and>
    sn_version (shown (st d es)) = version (core (st d es)) \<and>
    sn_downloadUrl (shown (st d es)) = downloadUrl (core (st d es)) \<and>
    sn_bannerVisible (shown (st d es)) = bannerVisible (core (st d es)) \<and>
    sn_dismissedVersion (shown (st d es)) = dismissedVersion (core (st d es)) \<and>
    (case progressRatio (core (st d es)) of
       None \<Rightarrow> sn_progressRatio (shown (st d es)) = None
     | Some r \<Rightarrow>
         0 \<le> r \<and> r \<le> 1 \<and>
         (\<exists>p. sn_progressRatio (shown (st d es)) = Some p \<and> p \<le> r \<and> r - p < 5 / 1000 \<and> (p = 1 \<longleftrightarrow> r = 1))) \<and>
    core (run_ops store_step (useUpdaterStore d) ops) = run_ops core_step (createUpdaterStore d) ops"
proof -
  have "app_inv (run_ops updater_step (updater_start d) es)" by (rule updater_machine.reachable_inv)
  then have inv: "fields_shown (st d es)" "shown_ratio_ok (st d es)"
    by (simp_all add: app_inv_def store_inv_def st_def)
  have "core (run_ops store_step (useUpdaterStore d) ops) = run_ops core_step (createUpdaterStore d) ops"
    using store_refines.abs_reachable [of d ops] by (simp add: useUpdaterStore_def)
  moreover have "case progressRatio (core (st d es)) of
       None \<Rightarrow> sn_progressRatio (shown (st d es)) = None
     | Some r \<Rightarrow> 0 \<le> r \<and> r \<le> 1 \<and>
         (\<exists>p. sn_progressRatio (shown (st d es)) = Some p \<and> p \<le> r \<and> r - p < 5 / 1000 \<and> (p = 1 \<longleftrightarrow> r = 1))"
    using inv(2) ratio_bounds [of "core (st d es)"]
    by (fastforce simp: shown_ratio_ok_def close_below_def split: option.splits)
  ultimately show ?thesis using inv(1) by (simp add: fields_shown_def)
qed

end
