(* ===== verification/Fingerprint.thy ===== *)
theory Fingerprint
  imports JS_Prelude
begin

text \<open>
  The short fingerprint two people compare on their screens, \<open>lib/fingerprint.ts\<close>. The source works on
  a string of binary digits, \<open>bitBuffer\<close>; the model keeps it as a list of bits, most significant first.
\<close>

definition BASE32_ALPHABET :: string where
  "BASE32_ALPHABET = ''ABCDEFGHIJKLMNOPQRSTUVWXYZ234567''"

definition hex_value :: "char \<Rightarrow> nat option" where
  "hex_value c =
     (let n = char_code c in
      if 48 \<le> n \<and> n \<le> 57 then Some (n - 48)
      else if 97 \<le> n \<and> n \<le> 102 then Some (n - 87)
      else None)"

text \<open>\<open>/^[0-9a-f]{64}$/\<close>\<close>

definition is_endpoint_hex :: "string \<Rightarrow> bool" where
  "is_endpoint_hex s \<longleftrightarrow> length s = 64 \<and> list_all (\<lambda>c. hex_value c \<noteq> None) s"

text \<open>\<open>n.toString(2).padStart(width, '0')\<close> and \<open>Number.parseInt(bits, 2)\<close>.\<close>

fun to_bits :: "nat \<Rightarrow> nat \<Rightarrow> bool list" where
  "to_bits 0 n = []"
| "to_bits (Suc w) n = to_bits w (n div 2) @ [odd n]"

definition of_bits :: "bool list \<Rightarrow> nat" where
  "of_bits bs = foldl (\<lambda>acc b. 2 * acc + (if b then 1 else 0)) 0 bs"

definition hex_bytes :: "string \<Rightarrow> nat list" where
  "hex_bytes s =
     map (\<lambda>i. 16 * the (hex_value (s ! (i * 2))) + the (hex_value (s ! (i * 2 + 1)))) [0..<32]"

text \<open>The inner loop.\<close>

function fp_while :: "bool list \<Rightarrow> string \<Rightarrow> bool list \<times> string" where
  "fp_while bitBuffer chars =
     (if length bitBuffer \<ge> 5 \<and> length chars < 12
      then fp_while (drop 5 bitBuffer) (chars @ [BASE32_ALPHABET ! of_bits (take 5 bitBuffer)])
      else (bitBuffer, chars))"
  by pat_completeness auto
termination by (relation "measure (\<lambda>(b, c). length b)") auto

declare fp_while.simps [simp del]

fun fp_bytes :: "nat list \<Rightarrow> bool list \<Rightarrow> string \<Rightarrow> string" where
  "fp_bytes [] bitBuffer chars = chars"
| "fp_bytes (byte # bytes) bitBuffer chars =
     (let (bitBuffer', chars') = fp_while (bitBuffer @ to_bits 8 byte) chars in
      if length chars' \<ge> 12 then chars' else fp_bytes bytes bitBuffer' chars')"

text \<open>\<open>chars.match(/.{1,4}/g)\<close>\<close>

fun groups4 :: "string \<Rightarrow> string list" where
  "groups4 [] = []"
| "groups4 (c # cs) = take 4 (c # cs) # groups4 (drop 3 cs)"

definition shortFingerprint :: "string \<Rightarrow> string option" where
  "shortFingerprint endpointIdHex =
     (let trimmed = js_lower (js_trim endpointIdHex) in
      if \<not> is_endpoint_hex trimmed then None
      else Some (js_join ''-'' (groups4 (fp_bytes (hex_bytes trimmed) [] []))))"

section \<open>Bits\<close>

lemma length_to_bits [simp]: "length (to_bits w n) = w"
  by (induction w arbitrary: n) auto

lemma of_bits_snoc: "of_bits (bs @ [b]) = 2 * of_bits bs + (if b then 1 else 0)"
  by (simp add: of_bits_def)

lemma of_bits_less: "of_bits bs < 2 ^ length bs"
  by (induction bs rule: rev_induct) (auto simp: of_bits_def)

lemma of_bits_inj: "length as = length bs \<Longrightarrow> of_bits as = of_bits bs \<Longrightarrow> as = bs"
proof (induction as arbitrary: bs rule: rev_induct)
  case (snoc a as)
  obtain b bs' where bs: "bs = bs' @ [b]" using snoc.prems(1) by (cases bs rule: rev_cases) auto
  have e: "2 * of_bits as + (if a then 1 else 0) = 2 * of_bits bs' + (if b then 1 else (0 :: nat))"
    using snoc.prems(2) by (simp add: bs of_bits_snoc)
  then have "a = b" "of_bits as = of_bits bs'" by (cases a; cases b; presburger)+
  with snoc show ?case by (simp add: bs)
qed simp

lemma to_bits_inj: "m < 2 ^ w \<Longrightarrow> n < 2 ^ w \<Longrightarrow> to_bits w m = to_bits w n \<Longrightarrow> m = n"
proof (induction w arbitrary: m n)
  case (Suc w)
  from Suc.prems have "m div 2 = n div 2" "odd m = odd n"
    by (auto intro!: Suc.IH)
  then show ?case by presburger
qed simp

lemma to_bits_append: "to_bits (v + w) n = to_bits v (n div 2 ^ w) @ to_bits w n"
proof (induction w arbitrary: n)
  case (Suc w)
  have "n div 2 div 2 ^ w = n div 2 ^ Suc w" by (simp add: div_mult2_eq)
  with Suc [of "n div 2"] show ?case by simp
qed simp

lemma alphabet_distinct: "distinct BASE32_ALPHABET" "length BASE32_ALPHABET = 32"
  by (simp_all add: BASE32_ALPHABET_def)

lemma of_bits_5: "length bs = 5 \<Longrightarrow> of_bits bs < 32"
  using of_bits_less [of bs] by simp

section \<open>The loop takes the first sixty bits\<close>

definition chunk5 :: "bool list \<Rightarrow> nat \<Rightarrow> bool list" where
  "chunk5 bs i = take 5 (drop (5 * i) bs)"

definition enc5 :: "nat \<Rightarrow> bool list \<Rightarrow> string" where
  "enc5 k bs = map (\<lambda>i. BASE32_ALPHABET ! of_bits (chunk5 bs i)) [0..<k]"

lemma length_enc5 [simp]: "length (enc5 k bs) = k"
  by (simp add: enc5_def)

lemma fp_while_enc:
  "k \<le> 12 \<Longrightarrow> 5 * k \<le> length bs \<Longrightarrow>
   fp_while (drop (5 * k) bs) (enc5 k bs) =
     (drop (5 * max k (min 12 (length bs div 5))) bs, enc5 (max k (min 12 (length bs div 5))) bs)"
proof (induction "12 - k" arbitrary: k)
  case 0
  then show ?case by (subst fp_while.simps) (simp add: max_def)
next
  case (Suc n)
  show ?case
  proof (cases "length bs \<ge> 5 * Suc k")
    case True
    then have "Suc k \<le> length bs div 5" by simp
    then have m: "max (Suc k) (min 12 (length bs div 5)) = max k (min 12 (length bs div 5))"
      using Suc.hyps(2) by (simp add: max_def min_def)
    have c: "length (drop (5 * k) bs) \<ge> 5 \<and> length (enc5 k bs) < 12" using True Suc.hyps(2) by (simp, arith)
    have "enc5 k bs @ [BASE32_ALPHABET ! of_bits (take 5 (drop (5 * k) bs))] = enc5 (Suc k) bs"
      by (simp add: enc5_def chunk5_def)
    then have "fp_while (drop (5 * k) bs) (enc5 k bs) = fp_while (drop (5 * Suc k) bs) (enc5 (Suc k) bs)"
      using fp_while.simps [of "drop (5 * k) bs" "enc5 k bs"] unfolding if_P [OF c] by (simp add: add.commute)
    also have "\<dots> = (drop (5 * max (Suc k) (min 12 (length bs div 5))) bs, enc5 (max (Suc k) (min 12 (length bs div 5))) bs)"
      using Suc.hyps(2) True by (intro Suc.hyps(1)) linarith+
    finally show ?thesis unfolding m .
  next
    case False
    then have "length bs div 5 = k" using Suc.prems by (intro div_nat_eqI) auto
    then have "max k (min 12 (length bs div 5)) = k" using Suc.prems by (simp add: max_def min_def)
    moreover have "\<not> 5 \<le> length (drop (5 * k) bs)" using False by simp
    ultimately show ?thesis by (subst fp_while.simps) simp
  qed
qed

lemma chunk5_append: "5 * Suc i \<le> length as \<Longrightarrow> chunk5 (as @ bs) i = chunk5 as i"
  by (simp add: chunk5_def)

lemma enc5_append: "5 * k \<le> length as \<Longrightarrow> enc5 k (as @ bs) = enc5 k as"
  by (auto simp: enc5_def intro!: chunk5_append arg_cong [where f = "\<lambda>x. BASE32_ALPHABET ! of_bits x"])

lemma fp_bytes_enc:
  assumes "k < 12" "k = length bs div 5" "60 \<le> length bs + 8 * length bytes"
  shows "fp_bytes bytes (drop (5 * k) bs) (enc5 k bs) = enc5 12 (bs @ concat (map (to_bits 8) bytes))"
  using assms
proof (induction bytes arbitrary: bs k)
  case Nil
  then show ?case by simp
next
  case (Cons byte bytes)
  define bs' where "bs' = bs @ to_bits 8 byte"
  define k' where "k' = min 12 (length bs' div 5)"
  have le: "5 * k \<le> length bs" using Cons.prems(2) by simp
  have "max k (min 12 (length bs' div 5)) = k'"
    using Cons.prems(1,2) by (auto simp: k'_def bs'_def max_def min_def intro: div_le_mono)
  moreover have "drop (5 * k) bs @ to_bits 8 byte = drop (5 * k) bs'" "enc5 k bs = enc5 k bs'"
    using le by (simp_all add: bs'_def enc5_append)
  ultimately have w: "fp_while (drop (5 * k) bs @ to_bits 8 byte) (enc5 k bs) = (drop (5 * k') bs', enc5 k' bs')"
    using fp_while_enc [of k bs'] Cons.prems(1) le by (simp add: bs'_def)
  show ?case
  proof (cases "length bs' div 5 \<ge> 12")
    case True
    then have "k' = 12" "60 \<le> length bs'" by (simp_all add: k'_def)
    then show ?thesis using w enc5_append [of 12 bs'] by (simp add: bs'_def)
  next
    case False
    then have "k' < 12" "k' = length bs' div 5" by (simp_all add: k'_def)
    with Cons.IH [of k' bs'] Cons.prems(3) w show ?thesis by (simp add: bs'_def)
  qed
qed

lemma take_chunks: "5 * k \<le> length bs \<Longrightarrow> take (5 * k) bs = concat (map (chunk5 bs) [0..<k])"
proof (induction k)
  case (Suc k)
  have "take (5 * Suc k) bs = take (5 * k) bs @ chunk5 bs k"
    using take_add [of "5 * k" 5 bs] by (simp add: chunk5_def add.commute)
  with Suc show ?case by simp
qed simp

lemma enc5_eq_iff:
  assumes "60 \<le> length as" "60 \<le> length bs"
  shows "enc5 12 as = enc5 12 bs \<longleftrightarrow> take 60 as = take 60 bs"
proof
  have len: "length (chunk5 xs i) = 5" if "60 \<le> length xs" "i < 12" for xs i
    using that by (simp add: chunk5_def)
  assume "enc5 12 as = enc5 12 bs"
  then have "chunk5 as i = chunk5 bs i" if "i < 12" for i
  proof -
    have "BASE32_ALPHABET ! of_bits (chunk5 as i) = BASE32_ALPHABET ! of_bits (chunk5 bs i)"
      using \<open>enc5 12 as = enc5 12 bs\<close> that by (simp add: enc5_def)
    moreover have "of_bits (chunk5 as i) < 32" "of_bits (chunk5 bs i) < 32"
      using that assms len of_bits_5 by auto
    ultimately have "of_bits (chunk5 as i) = of_bits (chunk5 bs i)"
      using alphabet_distinct by (metis nth_eq_iff_index_eq)
    then show ?thesis using len [OF assms(1) that] len [OF assms(2) that] of_bits_inj by metis
  qed
  then have "concat (map (chunk5 as) [0..<12]) = concat (map (chunk5 bs) [0..<12])"
    by (metis (mono_tags, lifting) atLeastLessThan_iff map_eq_conv set_upt)
  then show "take 60 as = take 60 bs" using take_chunks [of 12 as] take_chunks [of 12 bs] assms by simp
next
  assume t: "take 60 as = take 60 bs"
  have "enc5 12 xs = enc5 12 (take 60 xs)" if "60 \<le> length xs" for xs
    using enc5_append [of 12 "take 60 xs" "drop 60 xs"] that by simp
  then show "enc5 12 as = enc5 12 bs" using t assms by metis
qed

section \<open>Hexadecimal digits and bits\<close>

definition hex_bits :: "char \<Rightarrow> bool list" where
  "hex_bits c = to_bits 4 (the (hex_value c))"

lemma length_hex_bits [simp]: "length (hex_bits c) = 4"
  by (simp add: hex_bits_def)

lemma hex_value_less: "hex_value c = Some v \<Longrightarrow> v < 16"
  by (auto simp: hex_value_def Let_def split: if_splits)

lemma hex_bits_inj:
  assumes "hex_value a \<noteq> None" "hex_value b \<noteq> None" "hex_bits a = hex_bits b"
  shows "a = b"
proof -
  obtain x y where xy: "hex_value a = Some x" "hex_value b = Some y" using assms by blast
  then have "x = y"
    using to_bits_inj [of x 4 y] hex_value_less assms(3) by (fastforce simp: hex_bits_def)
  then have "char_code a = char_code b"
    using xy by (auto simp: hex_value_def Let_def split: if_splits)
  then show ?thesis by (simp add: char_code_def)
qed

lemma to_bits_mod: "to_bits w (n mod 2 ^ w) = to_bits w n"
proof (induction w arbitrary: n)
  case (Suc w)
  have "n mod 2 ^ Suc w div 2 = n div 2 mod 2 ^ w" by (simp add: mod_mult2_eq)
  moreover have "odd (n mod 2 ^ Suc w) = odd n" by (simp add: dvd_mod_iff)
  ultimately show ?case using Suc [of "n div 2"] by (simp del: power_Suc)
qed simp

lemma byte_bits: "b < 16 \<Longrightarrow> to_bits 8 (16 * a + b) = to_bits 4 a @ to_bits 4 b"
  using to_bits_append [of 4 4 "16 * a + b"] to_bits_mod [of 4 "16 * a + b"] by simp

lemma pairs_concat:
  "length s = 2 * n \<Longrightarrow> concat (map (\<lambda>i. g (s ! (i * 2)) @ g (s ! (i * 2 + 1))) [0..<n]) = concat (map g s)"
proof (induction n arbitrary: s)
  case (Suc n)
  then have d: "length (take (2 * n) s) = 2 * n" by simp
  have "s = take (2 * n) s @ [s ! (n * 2), s ! (n * 2 + 1)]"
    using Suc.prems by (intro nth_equalityI) (auto simp: nth_append mult.commute less_Suc_eq)
  from arg_cong [OF this, of "\<lambda>x. concat (map g x)"]
  have "concat (map g s) = concat (map g (take (2 * n) s)) @ g (s ! (n * 2)) @ g (s ! (n * 2 + 1))"
    by simp
  moreover have "concat (map (\<lambda>i. g (s ! (i * 2)) @ g (s ! (i * 2 + 1))) [0..<n]) = concat (map g (take (2 * n) s))"
  proof -
    have "take (2 * n) s ! (i * 2) = s ! (i * 2)" "take (2 * n) s ! (i * 2 + 1) = s ! (i * 2 + 1)" if "i < n" for i
      using that by simp_all
    then have eq: "map (\<lambda>i. g (s ! (i * 2)) @ g (s ! (i * 2 + 1))) [0..<n] =
        map (\<lambda>i. g (take (2 * n) s ! (i * 2)) @ g (take (2 * n) s ! (i * 2 + 1))) [0..<n]"
      by (intro map_cong) simp_all
    show ?thesis unfolding eq by (rule Suc.IH [OF d])
  qed
  ultimately show ?case by simp
qed simp

lemma endpoint_bits:
  assumes "is_endpoint_hex s"
  shows "concat (map (to_bits 8) (hex_bytes s)) = concat (map hex_bits s)"
proof -
  have "to_bits 8 (16 * the (hex_value (s ! (i * 2))) + the (hex_value (s ! (i * 2 + 1)))) =
      hex_bits (s ! (i * 2)) @ hex_bits (s ! (i * 2 + 1))" if "i < 32" for i
  proof -
    have "s ! (i * 2 + 1) \<in> set s" using assms that by (simp add: is_endpoint_hex_def)
    then obtain v where "hex_value (s ! (i * 2 + 1)) = Some v"
      using assms by (auto simp: is_endpoint_hex_def list_all_iff)
    then show ?thesis using hex_value_less by (simp add: byte_bits hex_bits_def)
  qed
  then have "map (to_bits 8) (hex_bytes s) = map (\<lambda>i. hex_bits (s ! (i * 2)) @ hex_bits (s ! (i * 2 + 1))) [0..<32]"
    by (simp add: hex_bytes_def)
  then show ?thesis using pairs_concat [of s 32 hex_bits] assms by (simp add: is_endpoint_hex_def)
qed

lemma take_hex_bits: "take (4 * k) (concat (map hex_bits s)) = concat (map hex_bits (take k s))"
proof (induction s arbitrary: k)
  case (Cons c s)
  then show ?case by (cases k) auto
qed simp

lemma hex_bits_concat_inj:
  "length as = length bs \<Longrightarrow> list_all (\<lambda>c. hex_value c \<noteq> None) as \<Longrightarrow> list_all (\<lambda>c. hex_value c \<noteq> None) bs \<Longrightarrow>
   concat (map hex_bits as) = concat (map hex_bits bs) \<Longrightarrow> as = bs"
proof (induction as bs rule: list_induct2)
  case (Cons a as b bs)
  then have "hex_bits a = hex_bits b" "concat (map hex_bits as) = concat (map hex_bits bs)" by simp_all
  moreover have "hex_value a \<noteq> None" "hex_value b \<noteq> None" using Cons.prems by auto
  ultimately show ?case using Cons hex_bits_inj by simp
qed simp

lemma length_hex_concat: "length (concat (map hex_bits s)) = 4 * length s"
  by (induction s) auto

lemma shown_chars:
  assumes "is_endpoint_hex s"
  shows "fp_bytes (hex_bytes s) [] [] = enc5 12 (concat (map hex_bits s))"
  using fp_bytes_enc [of 0 "[]" "hex_bytes s"] endpoint_bits [OF assms]
  by (simp add: enc5_def [of 0] hex_bytes_def)

lemma groups_of_12:
  "length cs = 12 \<Longrightarrow> groups4 cs = [take 4 cs, take 4 (drop 4 cs), drop 8 cs]"
  by (auto simp: numeral_eq_Suc length_Suc_conv)

lemma dashed_inj:
  assumes "length as = 12" "length bs = 12" "js_join ''-'' (groups4 as) = js_join ''-'' (groups4 bs)"
  shows "as = bs"
  using assms by (auto simp: numeral_eq_Suc length_Suc_conv)

section \<open>Properties\<close>

text \<open>
  C39. The fingerprint is a faithful short form of the identity. It exists for exactly the ids of 64
  hexadecimal digits, in either case and with blanks around them; it is twelve characters of the
  base-32 alphabet in three groups of four; and two ids have the same fingerprint exactly when their
  first fifteen digits, sixty bits, agree. The loop that builds it always ends.
\<close>

theorem fingerprint_sixty_bits:
  defines "nrm \<equiv> \<lambda>x. js_lower (js_trim x)"
  shows "(shortFingerprint a = None \<longleftrightarrow> \<not> is_endpoint_hex (nrm a)) \<and>
    (case shortFingerprint a of
       None \<Rightarrow> True
     | Some f \<Rightarrow> length f = 14 \<and> (\<forall>i<14. if i = 4 \<or> i = 9 then f ! i = CHR ''-'' else f ! i \<in> set BASE32_ALPHABET)) \<and>
    (is_endpoint_hex (nrm a) \<and> is_endpoint_hex (nrm b) \<longrightarrow>
       (shortFingerprint a = shortFingerprint b \<longleftrightarrow> take 15 (nrm a) = take 15 (nrm b)))"
proof -
  have sf: "shortFingerprint x =
      (if is_endpoint_hex (nrm x) then Some (js_join ''-'' (groups4 (enc5 12 (concat (map hex_bits (nrm x)))))) else None)" for x
    by (simp add: shortFingerprint_def nrm_def Let_def shown_chars)
  have len: "60 \<le> length (concat (map hex_bits s))" if "is_endpoint_hex s" for s
    using that length_hex_concat [of s] by (simp add: is_endpoint_hex_def)
  have shape: "length f = 14 \<and> (\<forall>i<14. if i = 4 \<or> i = 9 then f ! i = CHR ''-'' else f ! i \<in> set BASE32_ALPHABET)"
    if f: "f = js_join ''-'' (groups4 cs)" and cs: "length cs = 12" "set cs \<subseteq> set BASE32_ALPHABET" for f cs
    using cs unfolding f by (auto simp: numeral_eq_Suc length_Suc_conv less_Suc_eq)
  have alpha: "set (enc5 12 (concat (map hex_bits s))) \<subseteq> set BASE32_ALPHABET" if "is_endpoint_hex s" for s
  proof -
    have "of_bits (chunk5 (concat (map hex_bits s)) i) < 32" if "i < 12" for i
      using that len [OF \<open>is_endpoint_hex s\<close>] by (intro of_bits_5) (simp add: chunk5_def)
    then show ?thesis using alphabet_distinct by (auto simp: enc5_def intro!: nth_mem)
  qed
  have same: "shortFingerprint a = shortFingerprint b \<longleftrightarrow> take 15 (nrm a) = take 15 (nrm b)"
    if h: "is_endpoint_hex (nrm a)" "is_endpoint_hex (nrm b)"
  proof -
    have "shortFingerprint a = shortFingerprint b \<longleftrightarrow>
        enc5 12 (concat (map hex_bits (nrm a))) = enc5 12 (concat (map hex_bits (nrm b)))"
      using h dashed_inj by (auto simp: sf)
    also have "\<dots> \<longleftrightarrow> concat (map hex_bits (take 15 (nrm a))) = concat (map hex_bits (take 15 (nrm b)))"
      using enc5_eq_iff [OF len len] h take_hex_bits [of 15] by simp
    also have "\<dots> \<longleftrightarrow> take 15 (nrm a) = take 15 (nrm b)"
      using h hex_bits_concat_inj [of "take 15 (nrm a)" "take 15 (nrm b)"]
      by (auto simp: is_endpoint_hex_def list_all_iff dest: in_set_takeD)
    finally show ?thesis .
  qed
  show ?thesis
    using same shape [OF refl length_enc5 alpha, of "nrm a"] by (auto simp: sf)
qed

theorem fingerprint_sixty_bits_witness:
  "shortFingerprint (replicate 15 CHR ''a'' @ replicate 49 CHR ''0'') =
   shortFingerprint (replicate 15 CHR ''A'' @ replicate 49 CHR ''f'')"
proof -
  have n: "js_lower (js_trim (replicate 15 CHR ''a'' @ replicate 49 CHR ''0'')) = replicate 15 CHR ''a'' @ replicate 49 CHR ''0''"
    "js_lower (js_trim (replicate 15 CHR ''A'' @ replicate 49 CHR ''f'')) = replicate 15 CHR ''a'' @ replicate 49 CHR ''f''"
    by code_simp+
  then show ?thesis
    using fingerprint_sixty_bits [of "replicate 15 CHR ''a'' @ replicate 49 CHR ''0''"
        "replicate 15 CHR ''A'' @ replicate 49 CHR ''f''"]
    unfolding n by (simp add: is_endpoint_hex_def list_all_iff hex_value_def char_code_def)
qed

end
