(* ===== verification/Nearby.thy ===== *)
theory Nearby
  imports JS_Json
begin

text \<open>
  Devices found on the local network, \<open>store/nearby-store.ts\<close>: the reducer \<open>createNearbyStore\<close>, the
  store around it, and the discovery listeners. A discovery event carries only an id; the listener
  asks for the whole list and takes the row from the answer, so the answer arrives as an event of its
  own, \<open>NRefreshed\<close>. \<open>localeCompare\<close> is the parameter \<open>lc\<close>.
\<close>

record NearbyDevice =
  endpointId :: string
  fingerprint :: string
  displayName :: "string option"
  deviceType :: "string option"
  nd_os :: "string option"
  identified :: bool

definition nd_name :: "NearbyDevice \<Rightarrow> string" where
  "nd_name d = (case displayName d of None \<Rightarrow> [] | Some n \<Rightarrow> n)"

definition compareNearbyDevices :: "(string \<Rightarrow> string \<Rightarrow> int) \<Rightarrow> NearbyDevice \<Rightarrow> NearbyDevice \<Rightarrow> int" where
  "compareNearbyDevices lc a b =
     (if identified a \<noteq> identified b then (if identified a then -1 else 1)
      else if identified a \<and> lc (nd_name a) (nd_name b) \<noteq> 0 then lc (nd_name a) (nd_name b)
      else lc (endpointId a) (endpointId b))"

text \<open>The reducer. The reason is a dynamic value; \<open>Null\<close> when discovery works.\<close>

record nearby_core =
  devices :: "NearbyDevice list"
  unavailableReason :: jsval

definition createNearbyStore :: nearby_core where
  "createNearbyStore = \<lparr>devices = [], unavailableReason = Null\<rparr>"

definition upsert :: "(string \<Rightarrow> string \<Rightarrow> int) \<Rightarrow> NearbyDevice \<Rightarrow> nearby_core \<Rightarrow> nearby_core" where
  "upsert lc device s =
     (let next = filter (\<lambda>d. endpointId d \<noteq> endpointId device) (devices s) in
      s\<lparr>devices := js_sort (compareNearbyDevices lc) (next @ [device])\<rparr>)"

definition nearby_remove :: "string \<Rightarrow> nearby_core \<Rightarrow> nearby_core" where
  "nearby_remove i s = s\<lparr>devices := filter (\<lambda>d. endpointId d \<noteq> i) (devices s)\<rparr>"

definition setUnavailable :: "jsval \<Rightarrow> nearby_core \<Rightarrow> nearby_core" where
  "setUnavailable reason s = s\<lparr>unavailableReason := reason\<rparr>"

text \<open>\<open>hydrate\<close>, with the answers of \<open>list_nearby\<close> and \<open>nearby_status\<close>.\<close>

definition nearby_hydrate ::
    "bool \<Rightarrow> (string \<Rightarrow> string \<Rightarrow> int) \<Rightarrow> NearbyDevice list \<Rightarrow> jsval \<Rightarrow> nearby_core \<Rightarrow> nearby_core" where
  "nearby_hydrate capable lc list reason s =
     (if \<not> capable then s
      else \<lparr>devices = js_sort (compareNearbyDevices lc) list, unavailableReason = reason\<rparr>)"

text \<open>The store shows a copy of the core, and the listeners ask for rows.\<close>

record nearby_store =
  nb_core :: nearby_core
  shown_devices :: "NearbyDevice list"
  shown_reason :: jsval
  refreshes :: "string list"              \<comment> \<open>calls of \<open>refreshOne\<close> that ask for the list\<close>

definition useNearbyStore :: nearby_store where
  "useNearbyStore = \<lparr>nb_core = createNearbyStore, shown_devices = [], shown_reason = Null, refreshes = []\<rparr>"

definition show_devices :: "nearby_core \<Rightarrow> nearby_store \<Rightarrow> nearby_store" where
  "show_devices c s = s\<lparr>nb_core := c, shown_devices := devices c\<rparr>"

definition show_reason :: "nearby_core \<Rightarrow> nearby_store \<Rightarrow> nearby_store" where
  "show_reason c s = s\<lparr>nb_core := c, shown_reason := unavailableReason c\<rparr>"

definition refreshOne :: "bool \<Rightarrow> string \<Rightarrow> nearby_store \<Rightarrow> nearby_store" where
  "refreshOne capable i s = (if \<not> capable then s else s\<lparr>refreshes := refreshes s @ [i]\<rparr>)"

text \<open>What \<open>refreshOne\<close> does with the answer.\<close>

definition refreshed :: "(string \<Rightarrow> string \<Rightarrow> int) \<Rightarrow> string \<Rightarrow> NearbyDevice list result \<Rightarrow> nearby_store \<Rightarrow> nearby_store" where
  "refreshed lc i r s =
     (case r of
        Inl _ \<Rightarrow> s
      | Inr list \<Rightarrow>
          (case find (\<lambda>d. endpointId d = i) list of
             None \<Rightarrow> s
           | Some d \<Rightarrow> show_devices (upsert lc d (nb_core s)) s))"

definition parseNearbyPayload :: "string \<Rightarrow> jsval" where
  "parseNearbyPayload payload = (case JSON_parse payload of None \<Rightarrow> Null | Some v \<Rightarrow> v)"

text \<open>The id of a payload, where it is a non-empty string; other truthy ids match no device.\<close>

definition payload_id :: "string \<Rightarrow> string option" where
  "payload_id payload =
     (case js_opt_get (parseNearbyPayload payload) ''endpointId'' of
        Str i \<Rightarrow> if i = [] then None else Some i
      | _ \<Rightarrow> None)"

definition nullish :: "jsval \<Rightarrow> jsval" where
  "nullish v = (case v of Undefined \<Rightarrow> Null | _ \<Rightarrow> v)"

datatype nearby_event =
    NFound string
  | NIdentified string
  | NLost string
  | NUnavailable string
  | NRefreshed string "NearbyDevice list result"
  | NHydrated "(NearbyDevice list \<times> jsval) result"

fun nearby_step :: "bool \<Rightarrow> (string \<Rightarrow> string \<Rightarrow> int) \<Rightarrow> nearby_store \<Rightarrow> nearby_event \<Rightarrow> nearby_store" where
  "nearby_step capable lc s (NFound payload) =
     (if js_truthy (js_opt_get (parseNearbyPayload payload) ''endpointId'') then
        (let s1 = show_reason (setUnavailable Null (nb_core s)) s in
         case payload_id payload of None \<Rightarrow> s1 | Some i \<Rightarrow> refreshOne capable i s1)
      else s)"
| "nearby_step capable lc s (NIdentified payload) =
     (case payload_id payload of None \<Rightarrow> s | Some i \<Rightarrow> refreshOne capable i s)"
| "nearby_step capable lc s (NLost payload) =
     (case payload_id payload of None \<Rightarrow> s | Some i \<Rightarrow> show_devices (nearby_remove i (nb_core s)) s)"
| "nearby_step capable lc s (NUnavailable payload) =
     show_reason (setUnavailable (nullish (js_opt_get (parseNearbyPayload payload) ''reason'')) (nb_core s)) s"
| "nearby_step capable lc s (NRefreshed i r) = (if capable then refreshed lc i r s else s)"
| "nearby_step capable lc s (NHydrated r) =
     (case r of
        Inl _ \<Rightarrow> s
      | Inr (list, reason) \<Rightarrow>
          (let c = nearby_hydrate capable lc list reason (nb_core s) in
           s\<lparr>nb_core := c, shown_devices := devices c, shown_reason := unavailableReason c\<rparr>))"

section \<open>Lemmas\<close>

definition id_key :: "NearbyDevice \<Rightarrow> int" where
  "id_key d = (if identified d then 0 else 1)"

lemma consistent_refl: "consistent lc \<Longrightarrow> lc x x = 0"
proof -
  assume "consistent lc"
  then have "sgn (lc x x) = - sgn (lc x x)" unfolding consistent_def by blast
  then show ?thesis by (simp add: sgn_if split: if_splits)
qed

lemma compare_nearby_eq:
  assumes "consistent lc"
  shows "compareNearbyDevices lc =
    cmp_then (\<lambda>a b. id_key a - id_key b)
      (cmp_then (\<lambda>a b. lc (if identified a then nd_name a else []) (if identified b then nd_name b else []))
        (\<lambda>a b. lc (endpointId a) (endpointId b)))"
  using consistent_refl [OF assms]
  by (auto simp: fun_eq_iff compareNearbyDevices_def cmp_then_def id_key_def)

lemma consistent_nearby: "consistent lc \<Longrightarrow> consistent (compareNearbyDevices lc)"
proof -
  assume c: "consistent lc"
  have "consistent (\<lambda>a b. lc (if identified a then nd_name a else []) (if identified b then nd_name b else []))"
    using consistent_on [OF c, of "\<lambda>d. if identified d then nd_name d else []"] .
  moreover have "consistent (\<lambda>a b. lc (endpointId a) (endpointId b))" using consistent_on [OF c] .
  ultimately show ?thesis
    unfolding compare_nearby_eq [OF c] by (intro consistent_then consistent_key [of id_key])
qed

definition nearby_inv :: "(string \<Rightarrow> string \<Rightarrow> int) \<Rightarrow> nearby_store \<Rightarrow> bool" where
  "nearby_inv lc s \<longleftrightarrow>
     shown_devices s = devices (nb_core s) \<and> shown_reason s = unavailableReason (nb_core s) \<and>
     (consistent lc \<longrightarrow> sorted_wrt (\<lambda>a b. compareNearbyDevices lc a b \<le> 0) (devices (nb_core s)))"

lemma sorted_nearby: "consistent lc \<Longrightarrow> sorted_wrt (\<lambda>a b. compareNearbyDevices lc a b \<le> 0) (js_sort (compareNearbyDevices lc) ds)"
  by (rule consistent_sorted [OF consistent_nearby])

interpretation nearby_machine: state_machine useNearbyStore "nearby_step capable lc" "nearby_inv lc"
proof
  show "nearby_inv lc useNearbyStore"
    by (simp add: nearby_inv_def useNearbyStore_def createNearbyStore_def)
next
  fix s e
  assume "nearby_inv lc s"
  then show "nearby_inv lc (nearby_step capable lc s e)"
    by (cases e) (auto simp: nearby_inv_def Let_def show_devices_def show_reason_def setUnavailable_def
        refreshOne_def refreshed_def upsert_def nearby_remove_def nearby_hydrate_def sorted_nearby
        intro: sorted_wrt_filter split: option.split sum.split prod.split)
qed

lemma upsert_distinct:
  "distinct (map endpointId (devices s)) \<Longrightarrow> distinct (map endpointId (devices (upsert lc d s)))"
  by (auto simp: upsert_def Let_def distinct_map_filter)

lemma nearby_distinct_step:
  assumes "distinct (map endpointId (devices (nb_core s)))"
    and "\<forall>l r. e = NHydrated (Inr (l, r)) \<longrightarrow> distinct (map endpointId l)"
  shows "distinct (map endpointId (devices (nb_core (nearby_step capable lc s e))))"
  using assms
  by (cases e) (auto simp: Let_def show_devices_def show_reason_def setUnavailable_def refreshOne_def
      refreshed_def upsert_distinct nearby_remove_def nearby_hydrate_def distinct_map_filter
      split: option.split sum.split prod.split)

lemma nearby_distinct_run:
  assumes "\<forall>l r. NHydrated (Inr (l, r)) \<in> set es \<longrightarrow> distinct (map endpointId l)"
    and "distinct (map endpointId (devices (nb_core s)))"
  shows "distinct (map endpointId (devices (nb_core (run_ops (nearby_step capable lc) s es))))"
  using assms
proof (induction es arbitrary: s)
  case (Cons e es)
  have "distinct (map endpointId (devices (nb_core (nearby_step capable lc s e))))"
    using Cons.prems by (intro nearby_distinct_step) auto
  then have "distinct (map endpointId (devices (nb_core (run_ops (nearby_step capable lc) (nearby_step capable lc s e) es))))"
    using Cons.prems(1) by (intro Cons.IH) auto
  then show ?case by simp
qed simp

section \<open>Properties\<close>

text \<open>
  The nearby list is always in order and never shows a device twice. After any sequence of
  discovery events and answers, what is shown is what the store holds; identified devices come before
  the others, and within each group the list follows the comparison of names and ids; and as long as
  the native list itself has no device twice, neither has the store, whatever arrives in between.
\<close>

theorem nearby_list_ordered_unique:
  fixes capable :: bool
  assumes "consistent lc"
    and "\<forall>l r. NHydrated (Inr (l, r)) \<in> set es \<longrightarrow> distinct (map endpointId l)"
  defines "s \<equiv> run_ops (nearby_step capable lc) useNearbyStore es"
  shows "shown_devices s = devices (nb_core s) \<and> shown_reason s = unavailableReason (nb_core s) \<and>
    distinct (map endpointId (shown_devices s)) \<and>
    sorted_wrt (\<lambda>a b. compareNearbyDevices lc a b \<le> 0) (shown_devices s) \<and>
    sorted_wrt (\<lambda>a b. identified b \<longrightarrow> identified a) (shown_devices s)"
proof -
  have inv: "nearby_inv lc s" unfolding s_def by (rule nearby_machine.reachable_inv)
  have "distinct (map endpointId (devices (nb_core s)))"
    unfolding s_def by (rule nearby_distinct_run [OF assms(2)]) (simp add: useNearbyStore_def createNearbyStore_def)
  moreover have sorted: "sorted_wrt (\<lambda>a b. compareNearbyDevices lc a b \<le> 0) (devices (nb_core s))"
    using inv assms(1) by (simp add: nearby_inv_def)
  moreover have "sorted_wrt (\<lambda>a b. identified b \<longrightarrow> identified a) (devices (nb_core s))"
    by (rule sorted_wrt_mono_rel [OF _ sorted]) (auto simp: compareNearbyDevices_def split: if_splits)
  ultimately show ?thesis using inv by (simp add: nearby_inv_def)
qed

definition demo_nearby :: "string \<Rightarrow> bool \<Rightarrow> NearbyDevice" where
  "demo_nearby i known = \<lparr>endpointId = i, fingerprint = [], displayName = None, deviceType = None,
     nd_os = None, identified = known\<rparr>"

theorem nearby_list_ordered_unique_witness:
  "distinct (map endpointId (shown_devices (run_ops (nearby_step True (\<lambda>a b. int (length a) - int (length b))) useNearbyStore
     [NHydrated (Inr ([demo_nearby ''a'' False, demo_nearby ''bb'' True], Null)),
      NRefreshed ''a'' (Inr [demo_nearby ''a'' True])])))"
  using nearby_list_ordered_unique [OF consistent_key [of "\<lambda>x. int (length x)"],
    where es = "[NHydrated (Inr ([demo_nearby ''a'' False, demo_nearby ''bb'' True], Null)),
      NRefreshed ''a'' (Inr [demo_nearby ''a'' True])]" and capable = True]
  by (auto simp: demo_nearby_def)

text \<open>
  An answer that was on its way when the device was lost puts the device back: the list it was taken
  from is older than the loss, but the store cannot tell, and no later event removes the row.
\<close>

lemma late_refresh_restores_lost_device:
  assumes "payload_id payload = Some (endpointId d)"
  shows "d \<in> set (shown_devices (run_ops (nearby_step True lc) s [NLost payload, NRefreshed (endpointId d) (Inr [d])]))"
  using assms by (simp add: refreshed_def show_devices_def upsert_def Let_def)

end
