(* ===== verification/Pairing_Api.thy ===== *)
theory Pairing_Api
  imports JS_Json
begin

text \<open>
  Paired devices: \<open>lib/pairing-api.ts\<close>, \<open>lib/device-icon.ts\<close> and \<open>lib/paired-send-counts.ts\<close>.

  The functions that call the native side are guarded by the platform. The model gives, for a request
  of the front end, what is done with it: answered on the spot, refused, or passed on as a native
  command with its arguments. The rest of the file ranks, sorts, searches and patches the list of
  devices. \<open>localeCompare\<close> is the parameter \<open>lc\<close>; \<open>localStorage\<close> is the stored text.
\<close>

datatype PairingStatus = PActive | PUnpairedRemotely | PStaleLocalIdentity

record DeviceInfo =
  di_endpoint_id :: string
  di_display_name :: string
  di_device_type :: string
  di_os :: string

record PairedDevice =
  endpoint_id :: string
  display_name :: string
  device_type :: string
  os :: string
  paired_at :: int
  last_seen_at :: int
  pairing_status :: "PairingStatus option"   \<comment> \<open>missing in records of older versions\<close>
  online :: bool
  trusted :: bool

record DevicePresencePayload =
  dp_endpoint_id :: string
  dp_online :: bool
  dp_last_seen_at :: int

record PairedInvitePayload =
  blob_ticket :: string
  file_count :: nat
  total_size :: nat
  sender_name :: string
  remote_endpoint_id :: string

datatype NodeStatusKind = NReady | NStarting | NUnavailable

record NodeStatus =
  ns_status :: NodeStatusKind
  ns_reason :: "string option"
  network_ready :: "bool option"

section \<open>Native calls\<close>

datatype native_call =
    Answer jsval                                   \<comment> \<open>resolved without the native side\<close>
  | Throw js_error
  | Native string "(string \<times> jsval) list"          \<comment> \<open>\<open>invoke(cmd, args)\<close>\<close>

datatype pairing_request =
    GetNodeStatus
  | ReconfigureNodeRelay jsval jsval
  | GetDeviceInfo
  | SetDeviceDisplayName string
  | GetPairingTicket
  | StartPairingHost "nat option"
  | StopPairingHost
  | JoinPairing string
  | ListPairedDevices
  | ForgetPairedDevice string
  | RenamePairedDevice string string
  | TrustPairedDevice string bool
  | InvitePairedDevice string string nat nat
  | RespondPairedInvite string bool
  | GetDiscoverability
  | SetDiscoverability string
  | GetNearbyStatus
  | InviteNearbyDevice string string nat nat
  | RequestNearbyPair string
  | RespondNearbyInvite string bool bool

definition js_count :: "nat \<Rightarrow> jsval" where
  "js_count n = Num (Fin (of_nat n))"

definition not_available :: js_error where
  "not_available = Error ''Device pairing is not available on this platform''"

definition invite_args :: "string \<Rightarrow> string \<Rightarrow> nat \<Rightarrow> nat \<Rightarrow> (string \<times> jsval) list" where
  "invite_args endpointId blobTicket fileCount totalSize =
     [(''endpointId'', Str endpointId), (''blobTicket'', Str blobTicket),
      (''fileCount'', js_count fileCount), (''totalSize'', js_count totalSize)]"

fun pairing_call :: "bool \<Rightarrow> pairing_request \<Rightarrow> native_call" where
  "pairing_call capable GetNodeStatus =
     (if \<not> capable
      then Answer (Obj [(''status'', Str ''unavailable''), (''reason'', Str ''desktop_only''), (''network_ready'', Bool False)])
      else Native ''get_node_status'' [])"
| "pairing_call capable (ReconfigureNodeRelay relay discovery) =
     (if \<not> capable then Answer Undefined
      else Native ''reconfigure_node_relay'' [(''relay'', relay), (''discovery'', discovery)])"
| "pairing_call capable GetDeviceInfo = (if \<not> capable then Answer Null else Native ''get_device_info'' [])"
| "pairing_call capable (SetDeviceDisplayName displayName) =
     (if \<not> capable then Answer Null
      else Native ''set_device_display_name'' [(''displayName'', Str displayName)])"
| "pairing_call capable GetPairingTicket = (if \<not> capable then Answer Null else Native ''get_pairing_ticket'' [])"
| "pairing_call capable (StartPairingHost ttlSecs) =
     (if \<not> capable then Throw not_available
      else Native ''start_pairing_host''
             [(''ttlSecs'', case ttlSecs of None \<Rightarrow> Null | Some n \<Rightarrow> js_count n)])"
| "pairing_call capable StopPairingHost = (if \<not> capable then Answer Undefined else Native ''stop_pairing_host'' [])"
| "pairing_call capable (JoinPairing ticket) =
     (if \<not> capable then Throw not_available else Native ''join_pairing'' [(''ticket'', Str ticket)])"
| "pairing_call capable ListPairedDevices = (if \<not> capable then Answer (Arr []) else Native ''list_paired_devices'' [])"
| "pairing_call capable (ForgetPairedDevice endpointId) =
     (if \<not> capable then Answer Undefined
      else Native ''forget_paired_device'' [(''endpointId'', Str endpointId)])"
| "pairing_call capable (RenamePairedDevice endpointId displayName) =
     (if \<not> capable then Answer Null
      else Native ''rename_paired_device''
             [(''endpointId'', Str endpointId), (''displayName'', Str displayName)])"
| "pairing_call capable (TrustPairedDevice endpointId trust) =
     (if \<not> capable then Answer Null
      else Native ''trust_paired_device'' [(''endpointId'', Str endpointId), (''trust'', Bool trust)])"
| "pairing_call capable (InvitePairedDevice endpointId blobTicket fileCount totalSize) =
     (if \<not> capable then Answer (Bool False)
      else Native ''invite_paired_device'' (invite_args endpointId blobTicket fileCount totalSize))"
| "pairing_call capable (RespondPairedInvite endpointId accepted) =
     (if \<not> capable then Answer Undefined
      else Native ''respond_paired_invite'' [(''endpointId'', Str endpointId), (''accepted'', Bool accepted)])"
| "pairing_call capable GetDiscoverability =
     (if \<not> capable then Answer (Str ''off'') else Native ''get_discoverability'' [])"
| "pairing_call capable (SetDiscoverability value) =
     (if \<not> capable then Answer Undefined else Native ''set_discoverability'' [(''setting'', Str value)])"
| "pairing_call capable GetNearbyStatus =
     (if \<not> capable then Answer (Obj [(''reason'', Null)]) else Native ''nearby_status'' [])"
| "pairing_call capable (InviteNearbyDevice endpointId blobTicket fileCount totalSize) =
     (if \<not> capable then Answer (Bool False)
      else Native ''invite_nearby_device'' (invite_args endpointId blobTicket fileCount totalSize))"
| "pairing_call capable (RequestNearbyPair endpointId) =
     (if \<not> capable then Answer (Bool False)
      else Native ''request_nearby_pair'' [(''endpointId'', Str endpointId)])"
| "pairing_call capable (RespondNearbyInvite endpointId accept block) =
     (if \<not> capable then Answer Undefined
      else Native ''respond_nearby_invite''
             [(''endpointId'', Str endpointId), (''accept'', Bool accept), (''block'', Bool block)])"

section \<open>Labels\<close>

text \<open>An argument that may be \<open>null\<close> or \<open>undefined\<close> is an option.\<close>

definition opt_string :: "string option \<Rightarrow> string" where
  "opt_string x = (case x of None \<Rightarrow> [] | Some s \<Rightarrow> s)"

definition formatOsLabel :: "string option \<Rightarrow> string" where
  "formatOsLabel v =
     (let k = js_lower (opt_string v) in
      if k = ''macos'' then ''macOS''
      else if k = ''windows'' then ''Windows''
      else if k = ''linux'' then ''Linux''
      else if k = ''ios'' then ''iOS''
      else if k = ''android'' then ''Android''
      else js_trim (opt_string v))"

definition formatDeviceTypeLabel :: "string option \<Rightarrow> string" where
  "formatDeviceTypeLabel v =
     (let k = js_lower (opt_string v) in
      if k = ''laptop'' then ''Laptop''
      else if k = ''desktop'' then ''Desktop''
      else if k = ''phone'' then ''Phone''
      else if k = ''tablet'' then ''Tablet''
      else js_or (js_trim (opt_string v)) ''Device'')"

definition deviceSubtitle :: "string option \<Rightarrow> string option \<Rightarrow> string" where
  "deviceSubtitle deviceType v =
     (let typeLabel = formatDeviceTypeLabel deviceType; osLabel = formatOsLabel v in
      if osLabel \<noteq> [] then typeLabel @ '' '' @ osLabel else typeLabel)"

datatype device_icon = Laptop | Monitor | Tablet | Smartphone

definition deviceTypeIcon :: "string option \<Rightarrow> device_icon" where
  "deviceTypeIcon deviceType =
     (let k = js_lower (opt_string deviceType) in
      if k = ''laptop'' then Laptop
      else if k = ''desktop'' then Monitor
      else if k = ''tablet'' then Tablet
      else if k = ''phone'' then Smartphone
      else Monitor)"

section \<open>The list of devices\<close>

definition isPairedDeviceActive :: "PairedDevice \<Rightarrow> bool" where
  "isPairedDeviceActive d \<longleftrightarrow>
     (case pairing_status d of None \<Rightarrow> PActive | Some p \<Rightarrow> p) = PActive"

definition isTrustedDevice :: "PairedDevice \<Rightarrow> bool" where
  "isTrustedDevice d \<longleftrightarrow> trusted d = True"

definition matchesPairedDeviceSearch :: "PairedDevice \<Rightarrow> string \<Rightarrow> bool" where
  "matchesPairedDeviceSearch d query =
     (let normalizedQuery = js_lower (js_trim query) in
      if normalizedQuery = [] then True
      else
        js_includes
          (js_lower (js_join '' ''
             [display_name d, device_type d, os d,
              formatDeviceTypeLabel (Some (device_type d)), formatOsLabel (Some (os d)),
              deviceSubtitle (Some (device_type d)) (Some (os d)),
              (if online d then ''online'' else ''offline''),
              (if isPairedDeviceActive d then ''active'' else ''unpaired'')]))
          normalizedQuery)"

definition isKnownPairedEndpoint :: "string list \<Rightarrow> string \<Rightarrow> bool" where
  "isKnownPairedEndpoint ids endpointId =
     list_ex (\<lambda>i. js_lower i = js_lower endpointId) ids"

definition pairedDeviceListRank :: "PairedDevice \<Rightarrow> int" where
  "pairedDeviceListRank d = (if \<not> isPairedDeviceActive d then 2 else if \<not> online d then 1 else 0)"

type_synonym send_counts = "(string \<times> nat) list"

definition count_of :: "send_counts \<Rightarrow> string \<Rightarrow> int" where
  "count_of counts endpointId =
     (case map_of counts (js_lower endpointId) of None \<Rightarrow> 0 | Some n \<Rightarrow> int n)"

definition comparePairedDevicesForList ::
    "(string \<Rightarrow> string \<Rightarrow> int) \<Rightarrow> send_counts \<Rightarrow> PairedDevice \<Rightarrow> PairedDevice \<Rightarrow> int" where
  "comparePairedDevicesForList lc counts a b =
     (let rankA = pairedDeviceListRank a; rankB = pairedDeviceListRank b in
      if rankA \<noteq> rankB then rankA - rankB
      else if rankA = 0 then
        (let countA = count_of counts (endpoint_id a); countB = count_of counts (endpoint_id b) in
         if countA \<noteq> countB then countB - countA else lc (display_name a) (display_name b))
      else
        (let seenDiff = last_seen_at b - last_seen_at a in
         if seenDiff \<noteq> 0 then seenDiff else lc (display_name a) (display_name b)))"

definition sortPairedDevicesForList ::
    "(string \<Rightarrow> string \<Rightarrow> int) \<Rightarrow> PairedDevice list \<Rightarrow> send_counts \<Rightarrow> PairedDevice list" where
  "sortPairedDevicesForList lc devices counts = js_sort (comparePairedDevicesForList lc counts) devices"

definition compare_for_settings ::
    "(string \<Rightarrow> string \<Rightarrow> int) \<Rightarrow> send_counts \<Rightarrow> PairedDevice \<Rightarrow> PairedDevice \<Rightarrow> int" where
  "compare_for_settings lc counts a b =
     (let countA = count_of counts (endpoint_id a); countB = count_of counts (endpoint_id b) in
      if countA \<noteq> countB then countB - countA else lc (display_name a) (display_name b))"

definition sortPairedDevicesForSettings ::
    "(string \<Rightarrow> string \<Rightarrow> int) \<Rightarrow> PairedDevice list \<Rightarrow> send_counts \<Rightarrow> PairedDevice list" where
  "sortPairedDevicesForSettings lc devices counts = js_sort (compare_for_settings lc counts) devices"

definition patchDevicePresence :: "PairedDevice list \<Rightarrow> DevicePresencePayload \<Rightarrow> PairedDevice list" where
  "patchDevicePresence devices payload =
     map (\<lambda>d. if js_lower (endpoint_id d) = js_lower (dp_endpoint_id payload)
              then d\<lparr>online := dp_online payload, last_seen_at := dp_last_seen_at payload\<rparr>
              else d) devices"

section \<open>Send counts\<close>

definition normalizeId :: "string \<Rightarrow> string" where
  "normalizeId endpointId = js_lower endpointId"

text \<open>\<open>Object.entries\<close> of an object or an array.\<close>

definition object_entries :: "jsval \<Rightarrow> (string \<times> jsval) list" where
  "object_entries v =
     (case v of
        Obj kvs \<Rightarrow> kvs
      | Arr xs \<Rightarrow> map2 (\<lambda>i x. (show_nat i, x)) [0..<length xs] xs
      | _ \<Rightarrow> [])"

text \<open>A finite number above zero, rounded down.\<close>

definition positive_count :: "jsval \<Rightarrow> nat option" where
  "positive_count v = (case v of Num (Fin q) \<Rightarrow> if q > 0 then Some (nat (floor q)) else None | _ \<Rightarrow> None)"

definition counts_of_entries :: "(string \<times> jsval) list \<Rightarrow> send_counts" where
  "counts_of_entries kvs =
     foldl (\<lambda>counts (k, v). case positive_count v of
        None \<Rightarrow> counts | Some n \<Rightarrow> assoc_put (normalizeId k) n counts) [] kvs"

definition getPairedSendCounts :: "string option \<Rightarrow> send_counts" where
  "getPairedSendCounts raw =
     (case raw of
        None \<Rightarrow> []
      | Some text \<Rightarrow>
          if text = [] then []
          else case JSON_parse text of
            None \<Rightarrow> []
          | Some parsed \<Rightarrow> counts_of_entries (object_entries parsed))"

definition getPairedSendCount :: "string option \<Rightarrow> string \<Rightarrow> nat" where
  "getPairedSendCount raw endpointId =
     (case map_of (getPairedSendCounts raw) (normalizeId endpointId) of None \<Rightarrow> 0 | Some n \<Rightarrow> n)"

text \<open>The stored text afterwards, and the new count. \<open>writable\<close> tells whether storing succeeds.\<close>

definition incrementPairedSendCount :: "bool \<Rightarrow> string \<Rightarrow> string option \<Rightarrow> string option \<times> nat" where
  "incrementPairedSendCount writable endpointId raw =
     (let i = normalizeId endpointId;
          counts = getPairedSendCounts raw;
          n = (case map_of counts i of None \<Rightarrow> 0 | Some n \<Rightarrow> n) + 1;
          counts' = assoc_put i n counts in
      (if writable then Some (JSON_stringify (JObj (map (\<lambda>(k, n). (k, JNat n)) counts'))) else raw, n))"

section \<open>Lemmas\<close>

text \<open>What decides the place of a device before its name does.\<close>

definition list_key :: "send_counts \<Rightarrow> PairedDevice \<Rightarrow> int" where
  "list_key counts d =
     (if pairedDeviceListRank d = 0 then - count_of counts (endpoint_id d) else - last_seen_at d)"

definition list_order :: "send_counts \<Rightarrow> PairedDevice \<Rightarrow> PairedDevice \<Rightarrow> int" where
  "list_order counts =
     cmp_then (\<lambda>a b. pairedDeviceListRank a - pairedDeviceListRank b)
              (\<lambda>a b. list_key counts a - list_key counts b)"

lemma consistent_list_order: "consistent (list_order counts)"
  unfolding list_order_def by (intro consistent_then consistent_key)

interpretation device_order: comparator "list_order counts"
  by (rule consistent_comparator) (rule consistent_list_order)

lemma compare_list_eq:
  "comparePairedDevicesForList lc counts =
     cmp_then (list_order counts) (\<lambda>a b. lc (display_name a) (display_name b))"
  by (auto simp: fun_eq_iff comparePairedDevicesForList_def list_order_def cmp_then_def list_key_def Let_def)

lemma compare_settings_eq:
  "compare_for_settings lc counts =
     cmp_then (\<lambda>a b. (- count_of counts (endpoint_id a)) - (- count_of counts (endpoint_id b)))
              (\<lambda>a b. lc (display_name a) (display_name b))"
  by (auto simp: fun_eq_iff compare_for_settings_def cmp_then_def Let_def)

lemma consistent_compare_list: "consistent lc \<Longrightarrow> consistent (comparePairedDevicesForList lc counts)"
  unfolding compare_list_eq by (rule consistent_then [OF consistent_list_order consistent_on])

lemma consistent_compare_settings: "consistent lc \<Longrightarrow> consistent (compare_for_settings lc counts)"
  unfolding compare_settings_eq by (rule consistent_then [OF consistent_key consistent_on])

lemma compare_list_le:
  assumes "comparePairedDevicesForList lc counts a b \<le> 0"
  shows "pairedDeviceListRank a \<le> pairedDeviceListRank b"
    "pairedDeviceListRank a = pairedDeviceListRank b \<Longrightarrow> list_key counts a \<le> list_key counts b"
  using assms by (auto simp: compare_list_eq list_order_def cmp_then_def split: if_splits)

lemma counts_step_distinct:
  "distinct (map fst (counts_of_entries kvs))"
proof -
  have "distinct (map fst acc) \<Longrightarrow> distinct (map fst (foldl (\<lambda>counts (k, v). case positive_count v of
        None \<Rightarrow> counts | Some n \<Rightarrow> assoc_put (normalizeId k) n counts) acc kvs))" for acc
    by (induction kvs arbitrary: acc) (auto simp: distinct_assoc_put split: option.split)
  then show ?thesis by (simp add: counts_of_entries_def)
qed

lemma counts_lower: "(k, n) \<in> set (counts_of_entries kvs) \<Longrightarrow> js_lower k = k"
proof -
  have put: "(k, n) \<in> set (assoc_put i m acc) \<Longrightarrow> k = i \<or> (k, n) \<in> set acc" for i m k n and acc :: send_counts
    by (induction acc) (auto split: if_splits)
  have "\<forall>(k, n) \<in> set acc. js_lower k = k \<Longrightarrow>
      (k, n) \<in> set (foldl (\<lambda>counts (k, v). case positive_count v of
        None \<Rightarrow> counts | Some n \<Rightarrow> assoc_put (normalizeId k) n counts) acc kvs) \<Longrightarrow> js_lower k = k" for acc
  proof (induction kvs arbitrary: acc)
    case (Cons kv kvs)
    obtain k0 v0 where kv: "kv = (k0, v0)" by fastforce
    have "\<forall>(k, n) \<in> set (case positive_count v0 of None \<Rightarrow> acc | Some n \<Rightarrow> assoc_put (normalizeId k0) n acc). js_lower k = k"
      using Cons.prems(1) by (auto simp: normalizeId_def split: option.split dest!: put)
    with Cons kv show ?case by simp
  qed auto
  from this [of "[]"] show "(k, n) \<in> set (counts_of_entries kvs) \<Longrightarrow> js_lower k = k"
    by (simp add: counts_of_entries_def)
qed

lemma assoc_put_fresh: "k \<notin> fst ` set xs \<Longrightarrow> assoc_put k v xs = xs @ [(k, v)]"
  by (induction xs) auto

lemma counts_of_stored:
  assumes "distinct (map fst cs)" "\<forall>(k, n) \<in> set cs. js_lower k = k"
  shows "counts_of_entries (map (\<lambda>(k, n). (k, Num (Fin (of_nat n)))) cs) = filter (\<lambda>(k, n). n > 0) cs"
proof -
  have "foldl (\<lambda>counts (k, v). case positive_count v of
        None \<Rightarrow> counts | Some n \<Rightarrow> assoc_put (normalizeId k) n counts) acc
        (map (\<lambda>(k, n). (k, Num (Fin (of_nat n)))) cs) = acc @ filter (\<lambda>(k, n). n > 0) cs"
    if "distinct (map fst cs)" "\<forall>(k, n) \<in> set cs. js_lower k = k" "fst ` set acc \<inter> fst ` set cs = {}"
    for acc and cs :: send_counts
    using that
  proof (induction cs arbitrary: acc)
    case (Cons kn cs)
    obtain k n where kn: "kn = (k, n)" by fastforce
    show ?case
    proof (cases "n > 0")
      case True
      have "foldl (\<lambda>counts (k, v). case positive_count v of
          None \<Rightarrow> counts | Some n \<Rightarrow> assoc_put (normalizeId k) n counts) (acc @ [(k, n)])
          (map (\<lambda>(k, n). (k, Num (Fin (of_nat n)))) cs) = (acc @ [(k, n)]) @ filter (\<lambda>(k, n). n > 0) cs"
        using Cons.prems kn by (intro Cons.IH) auto
      moreover have "assoc_put k n acc = acc @ [(k, n)]"
        using Cons.prems kn by (intro assoc_put_fresh) auto
      ultimately show ?thesis
        using Cons.prems kn True by (simp add: positive_count_def normalizeId_def)
    next
      case False
      then show ?thesis using Cons kn by (simp add: positive_count_def)
    qed
  qed simp
  from this [OF assms, of "[]"] show ?thesis by (simp add: counts_of_entries_def)
qed

lemma map_of_filter_positive:
  "distinct (map fst cs) \<Longrightarrow> (case map_of (filter (\<lambda>(k, n). n > 0) cs) k of None \<Rightarrow> 0 | Some n \<Rightarrow> n) =
   (case map_of cs k of None \<Rightarrow> 0 | Some n \<Rightarrow> (n :: nat))"
proof (induction cs)
  case (Cons kn cs)
  have "k \<notin> fst ` set cs \<Longrightarrow> map_of (filter (\<lambda>(k, n). n > 0) cs) k = None"
    by (force simp: map_of_eq_None_iff)
  then show ?case using Cons by (cases kn) (auto split: option.splits)
qed simp

lemma stored_counts:
  assumes "distinct (map fst cs)" "\<forall>(k, n) \<in> set cs. js_lower k = k"
  shows "getPairedSendCount (Some (JSON_stringify (JObj (map (\<lambda>(k, n). (k, JNat n)) cs)))) e =
    (case map_of cs (js_lower e) of None \<Rightarrow> 0 | Some n \<Rightarrow> n)"
proof -
  let ?j = "JObj (map (\<lambda>(k, n). (k, JNat n)) cs)"
  have wf: "json_wf ?j" using assms(1) by (auto simp: list_all_iff comp_def case_prod_unfold)
  have "JSON_stringify ?j \<noteq> []" by simp
  moreover have "object_entries (json_embed ?j) = map (\<lambda>(k, n). (k, Num (Fin (of_nat n)))) cs"
    by (auto simp: object_entries_def)
  ultimately have "getPairedSendCounts (Some (JSON_stringify ?j)) = filter (\<lambda>(k, n). n > 0) cs"
    using parse_stringify [OF wf] counts_of_stored [OF assms] by (simp add: getPairedSendCounts_def del: JSON_stringify.simps json_embed.simps)
  then show ?thesis
    using map_of_filter_positive [OF assms(1)] by (simp add: getPairedSendCount_def normalizeId_def del: JSON_stringify.simps)
qed

section \<open>Properties\<close>

text \<open>
  The list of devices on the send page is a rearrangement of the paired devices in which those that
  can receive now come first, then those that are paired but offline, then those that were unpaired.
  Among the first, the ones sent to more often come first; among the others, the ones seen more
  recently. The settings list is a rearrangement with the ones sent to more often first.
\<close>

theorem paired_list_order:
  assumes "consistent lc"
  shows "mset (sortPairedDevicesForList lc ds counts) = mset ds \<and>
    sorted_wrt (\<lambda>a b. pairedDeviceListRank a \<le> pairedDeviceListRank b) (sortPairedDevicesForList lc ds counts) \<and>
    sorted_wrt (\<lambda>a b. pairedDeviceListRank a = pairedDeviceListRank b \<longrightarrow>
        (if pairedDeviceListRank a = 0
         then count_of counts (endpoint_id b) \<le> count_of counts (endpoint_id a)
         else last_seen_at b \<le> last_seen_at a)) (sortPairedDevicesForList lc ds counts) \<and>
    mset (sortPairedDevicesForSettings lc ds counts) = mset ds \<and>
    sorted_wrt (\<lambda>a b. count_of counts (endpoint_id b) \<le> count_of counts (endpoint_id a))
      (sortPairedDevicesForSettings lc ds counts)"
proof -
  have s: "sorted_wrt (\<lambda>a b. comparePairedDevicesForList lc counts a b \<le> 0) (sortPairedDevicesForList lc ds counts)"
    unfolding sortPairedDevicesForList_def by (rule consistent_sorted [OF consistent_compare_list [OF assms]])
  have t: "sorted_wrt (\<lambda>a b. compare_for_settings lc counts a b \<le> 0) (sortPairedDevicesForSettings lc ds counts)"
    unfolding sortPairedDevicesForSettings_def by (rule consistent_sorted [OF consistent_compare_settings [OF assms]])
  show ?thesis
  proof (intro conjI)
    show "sorted_wrt (\<lambda>a b. pairedDeviceListRank a \<le> pairedDeviceListRank b) (sortPairedDevicesForList lc ds counts)"
      by (rule sorted_wrt_mono_rel [OF _ s]) (rule compare_list_le(1))
    show "sorted_wrt (\<lambda>a b. pairedDeviceListRank a = pairedDeviceListRank b \<longrightarrow>
        (if pairedDeviceListRank a = 0
         then count_of counts (endpoint_id b) \<le> count_of counts (endpoint_id a)
         else last_seen_at b \<le> last_seen_at a)) (sortPairedDevicesForList lc ds counts)"
      by (rule sorted_wrt_mono_rel [OF _ s]) (use compare_list_le(2) in \<open>fastforce simp: list_key_def\<close>)
    show "sorted_wrt (\<lambda>a b. count_of counts (endpoint_id b) \<le> count_of counts (endpoint_id a))
        (sortPairedDevicesForSettings lc ds counts)"
      by (rule sorted_wrt_mono_rel [OF _ t]) (auto simp: compare_for_settings_def Let_def split: if_splits)
  qed (simp_all add: sortPairedDevicesForList_def sortPairedDevicesForSettings_def)
qed

definition demo_device :: "string \<Rightarrow> bool \<Rightarrow> PairedDevice" where
  "demo_device i on = \<lparr>endpoint_id = i, display_name = i, device_type = ''laptop'', os = ''linux'',
     paired_at = 0, last_seen_at = 0, pairing_status = None, online = on, trusted = False\<rparr>"

theorem paired_list_order_witness:
  "sortPairedDevicesForList (\<lambda>a b. int (length a) - int (length b)) [demo_device ''a'' False, demo_device ''bb'' True] [] =
     [demo_device ''bb'' True, demo_device ''a'' False] \<and>
   sorted_wrt (\<lambda>a b. pairedDeviceListRank a \<le> pairedDeviceListRank b)
     (sortPairedDevicesForList (\<lambda>a b. int (length a) - int (length b)) [demo_device ''a'' False, demo_device ''bb'' True] [])"
proof -
  have c: "consistent (\<lambda>a b. int (length a) - int (length b))" by (rule consistent_key)
  have "sortPairedDevicesForList (\<lambda>a b. int (length a) - int (length b)) [demo_device ''a'' False, demo_device ''bb'' True] [] =
     [demo_device ''bb'' True, demo_device ''a'' False]"
    by (simp add: sortPairedDevicesForList_def js_sort_def comparePairedDevicesForList_def pairedDeviceListRank_def
        isPairedDeviceActive_def demo_device_def)
  with paired_list_order [OF c, of "[demo_device ''a'' False, demo_device ''bb'' True]" "[]"] show ?thesis
    by blast
qed

text \<open>
  The native pairing commands are only ever called where pairing exists: on every other platform
  each of the twenty requests is answered or refused without a native call, and only starting and
  joining a pairing is refused. Where pairing exists every request is passed on.
\<close>

theorem pairing_calls_guarded:
  "(case pairing_call False req of
      Native _ _ \<Rightarrow> False
    | Throw e \<Rightarrow> e = not_available \<and> ((\<exists>t. req = StartPairingHost t) \<or> (\<exists>t. req = JoinPairing t))
    | Answer _ \<Rightarrow> True) \<and>
   (\<exists>cmd args. pairing_call True req = Native cmd args)"
  by (cases req) simp_all

text \<open>
  Counting a send adds exactly one to that device, in whatever letter case its id is given, and
  changes no other device, whatever text the storage held before, readable or not: the count read back
  from the new text is the returned one. When the storage refuses, the text stays as it was.
\<close>

theorem send_count_increment:
  "getPairedSendCount (fst (incrementPairedSendCount True e raw)) e' =
     getPairedSendCount raw e' + (if js_lower e' = js_lower e then 1 else 0) \<and>
   snd (incrementPairedSendCount w e raw) = getPairedSendCount raw e + 1 \<and>
   fst (incrementPairedSendCount False e raw) = raw"
proof -
  define cs where "cs = getPairedSendCounts raw"
  define n where "n = getPairedSendCount raw e + 1"
  have d: "distinct (map fst cs)" "\<forall>(k, n) \<in> set cs. js_lower k = k"
    unfolding cs_def getPairedSendCounts_def
    using counts_step_distinct counts_lower by (auto split: option.splits)
  have g: "getPairedSendCount raw x = (case map_of cs (js_lower x) of None \<Rightarrow> 0 | Some n \<Rightarrow> n)" for x
    by (simp add: getPairedSendCount_def cs_def normalizeId_def)
  have low: "js_lower k = k" if "k \<in> fst ` set (assoc_put (js_lower e) n cs)" for k
    using that d(2) unfolding fst_assoc_put by auto
  have d': "\<forall>(k, m) \<in> set (assoc_put (js_lower e) n cs). js_lower k = k"
  proof clarify
    fix k m
    assume "(k, m) \<in> set (assoc_put (js_lower e) n cs)"
    then have "k \<in> fst ` set (assoc_put (js_lower e) n cs)" by (metis fst_conv image_eqI)
    then show "js_lower k = k" by (rule low)
  qed
  have "fst (incrementPairedSendCount True e raw) =
      Some (JSON_stringify (JObj (map (\<lambda>(k, n). (k, JNat n)) (assoc_put (js_lower e) n cs))))"
    using g [of e] by (simp add: incrementPairedSendCount_def Let_def normalizeId_def n_def cs_def del: JSON_stringify.simps)
  then show ?thesis
    using stored_counts [OF distinct_assoc_put [OF d(1)] d', of e'] g [of e] g [of e']
    by (auto simp: incrementPairedSendCount_def Let_def normalizeId_def n_def cs_def simp del: JSON_stringify.simps)
qed

text \<open>
  A presence report changes the reported device and nothing else: the devices stay the same and in
  the same order with the same names, trust and pairing status; the device with that id, in whatever
  letter case, gets the reported state and time; every other one is unchanged; and a later report for
  the same device replaces an earlier one.
\<close>

theorem presence_patch_exact:
  "length (patchDevicePresence ds p) = length ds \<and>
   list_all2 (\<lambda>d d'.
      (if js_lower (endpoint_id d) = js_lower (dp_endpoint_id p)
       then online d' = dp_online p \<and> last_seen_at d' = dp_last_seen_at p
       else d' = d) \<and>
      endpoint_id d' = endpoint_id d \<and> display_name d' = display_name d \<and> trusted d' = trusted d \<and>
      pairing_status d' = pairing_status d \<and> paired_at d' = paired_at d) ds (patchDevicePresence ds p) \<and>
   patchDevicePresence (patchDevicePresence ds (p\<lparr>dp_online := on, dp_last_seen_at := t\<rparr>)) p = patchDevicePresence ds p"
  by (auto simp: patchDevicePresence_def list_all2_map2 list.rel_refl)

end
