(* ===== verification/Pairing_Node.thy ===== *)
theory Pairing_Node
  imports Pairing_Api
begin

text \<open>
  The state of the pairing node and the data that depends on it: \<open>store/node-capability-store.ts\<close>,
  \<open>hooks/useNodeCapability.ts\<close> and \<open>store/pairing-data-store.ts\<close>.

  A refresh asks the native side for the status and is split at that await: \<open>NcRefresh\<close> starts it,
  \<open>NcAnswer\<close> brings the status, with the time of the clock in milliseconds. The calls that are under way
  are counted, so that sharing one call between callers is a property and not an assumption.
\<close>

section \<open>Node capability\<close>

record node_state =
  nodeStatus :: NodeStatus
  hasResolved :: bool
  isNetworkReady :: bool
  refreshInFlight :: bool
  lifecycleListenersStarted :: bool
  fallbackTimer :: bool
  waitStartedAt :: "int option"
  status_calls :: nat                 \<comment> \<open>calls of \<open>getNodeStatus\<close> that have not settled\<close>

definition FALLBACK_RECHECK_MS :: int where
  "FALLBACK_RECHECK_MS = 1000"

definition WAIT_MAX_MS :: int where
  "WAIT_MAX_MS = 30000"

definition desktop_only :: NodeStatus where
  "desktop_only = \<lparr>ns_status = NUnavailable, ns_reason = Some ''desktop_only'', network_ready = None\<rparr>"

definition useNodeCapabilityStore :: "bool \<Rightarrow> node_state" where
  "useNodeCapabilityStore capable =
     \<lparr>nodeStatus = (if capable then \<lparr>ns_status = NStarting, ns_reason = None, network_ready = None\<rparr> else desktop_only),
      hasResolved = (\<not> capable), isNetworkReady = (\<not> capable), refreshInFlight = False,
      lifecycleListenersStarted = False, fallbackTimer = False, waitStartedAt = None, status_calls = 0\<rparr>"

definition clearFallback :: "node_state \<Rightarrow> node_state" where
  "clearFallback s = s\<lparr>fallbackTimer := False, waitStartedAt := None\<rparr>"

definition isNodeStatusSettled :: "NodeStatus \<Rightarrow> bool" where
  "isNodeStatusSettled n =
     (if ns_status n = NReady then True
      else if ns_status n = NStarting then False
      else (case ns_reason n of None \<Rightarrow> False | Some r \<Rightarrow> r \<noteq> []))"

definition node_refresh :: "bool \<Rightarrow> node_state \<Rightarrow> node_state" where
  "node_refresh capable s =
     (if \<not> capable then s\<lparr>nodeStatus := desktop_only, hasResolved := True, isNetworkReady := True\<rparr>
      else if refreshInFlight s then s
      else s\<lparr>refreshInFlight := True, status_calls := Suc (status_calls s)\<rparr>)"

text \<open>The body of the refresh after \<open>getNodeStatus\<close>, including its \<open>finally\<close>.\<close>

definition node_answer :: "int \<Rightarrow> NodeStatus result \<Rightarrow> node_state \<Rightarrow> node_state" where
  "node_answer now r s =
     (let s0 = s\<lparr>refreshInFlight := False, status_calls := status_calls s - 1\<rparr> in
      case r of
        Inl e \<Rightarrow>
          (clearFallback s0)
            \<lparr>nodeStatus := \<lparr>ns_status = NUnavailable,
                            ns_reason = Some (case e of Error m \<Rightarrow> ''Error: '' @ m | WebPreviewError m \<Rightarrow> ''WebPreviewError: '' @ m
                                              | TypeError m \<Rightarrow> ''TypeError: '' @ m | Rejected m \<Rightarrow> m),
                            network_ready = None\<rparr>,
             hasResolved := True, isNetworkReady := False\<rparr>
      | Inr n \<Rightarrow>
          if isNodeStatusSettled n then
            (clearFallback s0)
              \<lparr>nodeStatus := n, hasResolved := True,
               isNetworkReady := (if ns_status n = NReady then network_ready n = Some True else False)\<rparr>
          else
            (let s1 = s0\<lparr>nodeStatus := \<lparr>ns_status = NStarting, ns_reason = ns_reason n, network_ready = None\<rparr>,
                         hasResolved := False, isNetworkReady := False\<rparr>;
                 started = (case waitStartedAt s1 of None \<Rightarrow> now | Some t \<Rightarrow> t);
                 s2 = s1\<lparr>waitStartedAt := Some started\<rparr> in
             if now - started \<ge> WAIT_MAX_MS then
               (clearFallback s2)
                 \<lparr>nodeStatus := \<lparr>ns_status = NUnavailable,
                                 ns_reason = Some (case ns_reason n of
                                   None \<Rightarrow> ''Device node failed to start in time.'' | Some m \<Rightarrow> m),
                                 network_ready = None\<rparr>,
                  hasResolved := True, isNetworkReady := False\<rparr>
             else s2\<lparr>fallbackTimer := True\<rparr>))"

text \<open>The payload of \<open>device-node-failed\<close>, \<^const>\<open>None\<close> when it is not a string.\<close>

definition node_failed :: "string option \<Rightarrow> node_state \<Rightarrow> node_state" where
  "node_failed payload s =
     (clearFallback s)
       \<lparr>nodeStatus := \<lparr>ns_status = NUnavailable,
                       ns_reason = Some (case payload of
                         Some p \<Rightarrow> if js_trim p \<noteq> [] then p else ''Failed to initialize device node''
                       | None \<Rightarrow> ''Failed to initialize device node''),
                       network_ready = None\<rparr>,
        hasResolved := True, isNetworkReady := False\<rparr>"

datatype node_event =
    NcStart                         \<comment> \<open>the effect of \<open>useNodeCapability\<close>\<close>
  | NcRefresh
  | NcAnswer int "NodeStatus result"
  | NcTimer
  | NcReady                         \<comment> \<open>\<open>device-node-ready\<close>\<close>
  | NcNetworkReady
  | NcNetworkWarming
  | NcFailed "string option"
  | NcPaired                        \<comment> \<open>\<open>device-paired\<close>\<close>

definition ensureNodeCapabilityLifecycle :: "bool \<Rightarrow> node_state \<Rightarrow> node_state" where
  "ensureNodeCapabilityLifecycle capable s =
     (if \<not> capable \<or> lifecycleListenersStarted s then s else s\<lparr>lifecycleListenersStarted := True\<rparr>)"

text \<open>Native events only reach the store once its listeners are registered.\<close>

fun node_step :: "bool \<Rightarrow> node_state \<Rightarrow> node_event \<Rightarrow> node_state" where
  "node_step capable s NcStart = node_refresh capable (ensureNodeCapabilityLifecycle capable s)"
| "node_step capable s NcRefresh = node_refresh capable s"
| "node_step capable s (NcAnswer now r) = (if refreshInFlight s then node_answer now r s else s)"
| "node_step capable s NcTimer =
     (if fallbackTimer s then node_refresh capable (s\<lparr>fallbackTimer := False\<rparr>) else s)"
| "node_step capable s NcReady =
     (if lifecycleListenersStarted s then node_refresh capable (clearFallback s) else s)"
| "node_step capable s NcNetworkReady =
     (if lifecycleListenersStarted s then node_refresh capable (s\<lparr>isNetworkReady := True\<rparr>) else s)"
| "node_step capable s NcNetworkWarming =
     (if lifecycleListenersStarted s then s\<lparr>isNetworkReady := False\<rparr> else s)"
| "node_step capable s (NcFailed payload) =
     (if lifecycleListenersStarted s then node_failed payload s else s)"
| "node_step capable s NcPaired =
     (if lifecycleListenersStarted s then node_refresh capable s else s)"

text \<open>What \<open>useNodeCapability\<close> returns.\<close>

definition isNodeReady :: "bool \<Rightarrow> node_state \<Rightarrow> bool" where
  "isNodeReady capable s \<longleftrightarrow> capable \<and> ns_status (nodeStatus s) = NReady"

definition isNodeStatusPending :: "bool \<Rightarrow> node_state \<Rightarrow> bool" where
  "isNodeStatusPending capable s \<longleftrightarrow> capable \<and> \<not> hasResolved s"

section \<open>Pairing data\<close>

text \<open>
  \<open>waiters\<close> are the promises of \<open>pairingDataHydrated\<close> that have not resolved, \<open>woken\<close> those that have, in
  order; a promise is a number.
\<close>

record pairing_data =
  pd_devices :: "PairedDevice list"
  thisDevice :: "DeviceInfo option"
  pairingCode :: "string option"
  hasHydrated :: bool
  waiters :: "nat list"
  woken :: "nat list"
  next_waiter :: nat

definition usePairingDataStore :: "bool \<Rightarrow> pairing_data" where
  "usePairingDataStore capable =
     \<lparr>pd_devices = [], thisDevice = None, pairingCode = None, hasHydrated = (\<not> capable),
      waiters = [], woken = [], next_waiter = 0\<rparr>"

text \<open>Every change of the store runs the subscribers; those that wait resolve when it is hydrated.\<close>

definition notify :: "pairing_data \<Rightarrow> pairing_data" where
  "notify s = (if hasHydrated s then s\<lparr>woken := woken s @ waiters s, waiters := []\<rparr> else s)"

definition setDevices :: "(PairedDevice list \<Rightarrow> PairedDevice list) \<Rightarrow> pairing_data \<Rightarrow> pairing_data" where
  "setDevices f s = notify (s\<lparr>pd_devices := f (pd_devices s)\<rparr>)"

definition setThisDevice :: "DeviceInfo option \<Rightarrow> pairing_data \<Rightarrow> pairing_data" where
  "setThisDevice d s = notify (s\<lparr>thisDevice := d\<rparr>)"

definition pairing_empty :: "pairing_data \<Rightarrow> pairing_data" where
  "pairing_empty s = notify (s\<lparr>pd_devices := [], thisDevice := None, pairingCode := None, hasHydrated := True\<rparr>)"

text \<open>Whether a \<open>hydrate\<close> goes on to ask the native side; if not, what it does.\<close>

definition hydrate_begin :: "bool \<Rightarrow> node_state \<Rightarrow> pairing_data \<Rightarrow> pairing_data \<times> bool" where
  "hydrate_begin capable node s =
     (if \<not> capable then (pairing_empty s, False)
      else if \<not> hasResolved node then (s, False)
      else if ns_status (nodeStatus node) = NStarting \<or> \<not> isNodeStatusSettled (nodeStatus node) then (s, False)
      else if ns_status (nodeStatus node) \<noteq> NReady then (pairing_empty s, False)
      else (s, True))"

text \<open>The answers of \<open>Promise.all\<close>; a ticket that cannot be loaded is \<open>null\<close>.\<close>

definition hydrate_answer ::
    "(PairedDevice list \<times> DeviceInfo option) result \<Rightarrow> string option result \<Rightarrow> pairing_data \<Rightarrow> pairing_data" where
  "hydrate_answer r ticket s =
     (case r of
        Inl _ \<Rightarrow> notify (s\<lparr>hasHydrated := True\<rparr>)
      | Inr (ds, info) \<Rightarrow>
          notify (s\<lparr>pd_devices := ds, thisDevice := info,
                    pairingCode := (case ticket of Inl _ \<Rightarrow> None | Inr t \<Rightarrow> t), hasHydrated := True\<rparr>))"

definition pairingDataHydrated :: "pairing_data \<Rightarrow> pairing_data" where
  "pairingDataHydrated s =
     (let w = next_waiter s; s1 = s\<lparr>next_waiter := Suc w\<rparr> in
      if hasHydrated s then s1\<lparr>woken := woken s1 @ [w]\<rparr> else s1\<lparr>waiters := waiters s1 @ [w]\<rparr>)"

text \<open>The timer of one waiter; \<open>finish\<close> does nothing the second time.\<close>

definition hydration_timeout :: "nat \<Rightarrow> pairing_data \<Rightarrow> pairing_data" where
  "hydration_timeout w s =
     (if w \<in> set (waiters s) then s\<lparr>waiters := remove1 w (waiters s), woken := woken s @ [w]\<rparr> else s)"

datatype data_event =
    PdSetDevices "PairedDevice list \<Rightarrow> PairedDevice list"
  | PdSetThisDevice "DeviceInfo option"
  | PdHydrate node_state
  | PdAnswer "(PairedDevice list \<times> DeviceInfo option) result" "string option result"
  | PdWait
  | PdTimeout nat

fun data_step :: "bool \<Rightarrow> pairing_data \<Rightarrow> data_event \<Rightarrow> pairing_data" where
  "data_step capable s (PdSetDevices f) = setDevices f s"
| "data_step capable s (PdSetThisDevice d) = setThisDevice d s"
| "data_step capable s (PdHydrate node) = fst (hydrate_begin capable node s)"
| "data_step capable s (PdAnswer r t) = hydrate_answer r t s"
| "data_step capable s PdWait = pairingDataHydrated s"
| "data_step capable s (PdTimeout w) = hydration_timeout w s"

section \<open>Invariants\<close>

definition node_inv :: "node_state \<Rightarrow> bool" where
  "node_inv s \<longleftrightarrow>
     status_calls s = (if refreshInFlight s then 1 else 0) \<and>
     (lifecycleListenersStarted s \<longrightarrow> hasResolved s \<or> refreshInFlight s \<or> fallbackTimer s) \<and>
     (ns_status (nodeStatus s) = NReady \<longrightarrow> hasResolved s) \<and>
     (hasResolved s \<longrightarrow> ns_status (nodeStatus s) \<noteq> NStarting)"

lemma refresh_inv: "node_inv s \<Longrightarrow> capable \<Longrightarrow> node_inv (node_refresh capable s)"
  by (auto simp: node_inv_def node_refresh_def)

lemma answer_inv: "node_inv s \<Longrightarrow> refreshInFlight s \<Longrightarrow> node_inv (node_answer now r s)"
  by (auto simp: node_inv_def node_answer_def clearFallback_def isNodeStatusSettled_def Let_def
      split: sum.split option.split)

lemma refresh_flags [simp]:
  "capable \<Longrightarrow> refreshInFlight (node_refresh capable s)"
  "lifecycleListenersStarted (node_refresh capable s) = lifecycleListenersStarted s"
  "capable \<Longrightarrow> hasResolved (node_refresh capable s) = hasResolved s"
  "capable \<Longrightarrow> nodeStatus (node_refresh capable s) = nodeStatus s"
  by (auto simp: node_refresh_def)

lemma refresh_calls:
  "status_calls s = (if refreshInFlight s then 1 else 0) \<Longrightarrow> capable \<Longrightarrow> status_calls (node_refresh capable s) = 1"
  by (auto simp: node_refresh_def)

interpretation node_machine: state_machine "useNodeCapabilityStore True" "node_step True" node_inv
proof
  show "node_inv (useNodeCapabilityStore True)"
    by (simp add: node_inv_def useNodeCapabilityStore_def)
next
  fix s e
  assume inv: "node_inv s"
  show "node_inv (node_step True s e)"
  proof (cases e)
    case (NcAnswer now r)
    then show ?thesis using inv answer_inv by simp
  next
    case (NcFailed p)
    then show ?thesis using inv by (auto simp: node_inv_def node_failed_def clearFallback_def)
  qed (use inv in \<open>auto simp: node_inv_def refresh_calls ensureNodeCapabilityLifecycle_def clearFallback_def\<close>)
qed

definition data_inv :: "pairing_data \<Rightarrow> bool" where
  "data_inv s \<longleftrightarrow>
     distinct (waiters s @ woken s) \<and> set (waiters s @ woken s) = {..<next_waiter s} \<and>
     (hasHydrated s \<longrightarrow> waiters s = [])"

lemma notify_inv:
  "distinct (waiters s @ woken s) \<Longrightarrow> set (waiters s @ woken s) = {..<next_waiter s} \<Longrightarrow> data_inv (notify s)"
  by (auto simp: data_inv_def notify_def)

interpretation data_machine: state_machine "usePairingDataStore capable" "data_step capable" data_inv
proof
  show "data_inv (usePairingDataStore capable)"
    by (simp add: data_inv_def usePairingDataStore_def)
next
  fix s e
  assume inv: "data_inv s"
  then have w: "distinct (waiters s @ woken s)" "set (waiters s @ woken s) = {..<next_waiter s}"
    by (simp_all add: data_inv_def)
  show "data_inv (data_step capable s e)"
  proof (cases e)
    case PdWait
    have u: "set (waiters s) \<union> set (woken s) = {..<next_waiter s}" using w(2) by simp
    then have "next_waiter s \<notin> set (waiters s)" "next_waiter s \<notin> set (woken s)" by auto
    then show ?thesis
      using PdWait inv w(1) u
      by (cases "hasHydrated s") (simp_all add: data_inv_def pairingDataHydrated_def Let_def lessThan_Suc)
  next
    case (PdTimeout i)
    show ?thesis
    proof (cases "i \<in> set (waiters s)")
      case True
      have r: "set (remove1 i (waiters s)) = set (waiters s) - {i}" using w(1) by simp
      have "i \<notin> set (woken s)" using w(1) True by auto
      then have d: "distinct (remove1 i (waiters s) @ woken s @ [i])"
        using w(1) r by (auto simp: distinct_remove1)
      have u: "set (remove1 i (waiters s) @ woken s @ [i]) = {..<next_waiter s}"
        unfolding w(2) [symmetric] set_append r using True by auto
      have "waiters s \<noteq> []" using True by auto
      then have "\<not> hasHydrated s" using inv unfolding data_inv_def by blast
      then show ?thesis
        unfolding data_inv_def using PdTimeout True d u
        by (simp add: hydration_timeout_def del: set_append distinct_append set_remove1_eq)
    qed (use PdTimeout inv in \<open>simp add: hydration_timeout_def\<close>)
  qed (use w inv in \<open>auto simp: setDevices_def setThisDevice_def hydrate_begin_def pairing_empty_def
      hydrate_answer_def notify_inv split: sum.split\<close>)
qed


section \<open>Properties\<close>

text \<open>The moment the wait began is kept until the status is decided or the node says it is ready.\<close>

lemma wait_clock_kept:
  assumes "waitStartedAt s = Some t" "e \<noteq> NcReady" "\<not> hasResolved (node_step True s e)"
  shows "waitStartedAt (node_step True s e) = Some t"
  using assms
  by (cases e) (auto simp: node_refresh_def ensureNodeCapabilityLifecycle_def node_answer_def node_failed_def clearFallback_def Let_def
      split: sum.splits if_splits)

lemma wait_clock_run:
  assumes "waitStartedAt s = Some t" "NcReady \<notin> set es"
    and "\<forall>k \<le> length es. \<not> hasResolved (run_ops (node_step True) s (take k es))"
  shows "waitStartedAt (run_ops (node_step True) s es) = Some t"
  using assms
proof (induction es arbitrary: s)
  case (Cons e es)
  have open_tail: "\<not> hasResolved (run_ops (node_step True) (node_step True s e) (take k es))" if "k \<le> length es" for k
    using Cons.prems(3) [rule_format, of "Suc k"] that by simp
  have "waitStartedAt (node_step True s e) = Some t"
    using Cons.prems(1,2) open_tail [of 0] by (intro wait_clock_kept) auto
  then show ?case using Cons.IH [of "node_step True s e"] Cons.prems(2) open_tail by simp
qed simp

text \<open>
  C37. Waiting for the pairing node never gets stuck. Once the listeners are registered, after any
  sequence of refreshes, native events, timers and answers, either the status has been decided, or a
  call for it is under way, or a timer is set that will make one; there is never more than one call
  under way, however many callers ask; and a node reported as ready is decided. The wait is bounded: when an answer at time
  \<open>t\<close> leaves the status open with no wait on yet, then whatever happens in between, unless the node says
  it is ready (which begins the wait anew) or the status is decided, the next answer thirty seconds after \<open>t\<close> or later decides it.
\<close>

theorem node_wait_never_stuck:
  defines "run \<equiv> \<lambda>es. run_ops (node_step True) (useNodeCapabilityStore True) es"
  shows "(\<not> lifecycleListenersStarted (run es) \<or>
      hasResolved (run es) \<or> status_calls (run es) = 1 \<or> fallbackTimer (run es)) \<and>
    status_calls (run es) \<le> 1 \<and>
    (isNodeReady True (run es) \<longrightarrow> \<not> isNodeStatusPending True (run es)) \<and>
    (let first = NcAnswer t r0 in
     status_calls (run es) = 1 \<and> waitStartedAt (run es) = None \<and> NcReady \<notin> set es' \<and>
     (\<forall>k \<le> length es'. \<not> hasResolved (run (es @ first # take k es'))) \<and>
     status_calls (run (es @ first # es')) = 1 \<and> t + 30000 \<le> now \<longrightarrow>
     hasResolved (run (es @ first # es' @ [NcAnswer now r])))"
proof -
  have inv: "node_inv (run xs)" for xs unfolding run_def by (rule node_machine.reachable_inv)
  have fly: "refreshInFlight (run xs)" if "status_calls (run xs) = 1" for xs
    using inv [of xs] that by (cases "refreshInFlight (run xs)") (simp_all add: node_inv_def)
  have "hasResolved (run (es @ NcAnswer t r0 # es' @ [NcAnswer now r]))"
    if "status_calls (run es) = 1" "waitStartedAt (run es) = None" "NcReady \<notin> set es'"
      "\<forall>k \<le> length es'. \<not> hasResolved (run (es @ NcAnswer t r0 # take k es'))"
      "status_calls (run (es @ NcAnswer t r0 # es')) = 1" "t + 30000 \<le> now"
  proof -
    define s1 where "s1 = node_step True (run es) (NcAnswer t r0)"
    have later: "run (es @ NcAnswer t r0 # xs) = run_ops (node_step True) s1 xs" for xs by (simp add: run_def s1_def)
    have open1: "\<forall>k \<le> length es'. \<not> hasResolved (run_ops (node_step True) s1 (take k es'))" using that(4) unfolding later .
    then have "\<not> hasResolved s1" using open1 [rule_format, of 0] by simp
    then have "waitStartedAt s1 = Some t"
      using that(2) fly [OF that(1)]
      by (auto simp: s1_def node_answer_def clearFallback_def Let_def split: sum.splits if_splits)
    then have w: "waitStartedAt (run (es @ NcAnswer t r0 # es')) = Some t"
      unfolding later by (rule wait_clock_run [OF _ that(3) open1])
    have "run (es @ NcAnswer t r0 # es' @ [NcAnswer now r]) = node_step True (run (es @ NcAnswer t r0 # es')) (NcAnswer now r)"
      by (simp add: run_def)
    then show ?thesis
      using w that(6) fly [OF that(5)]
      by (auto simp: node_answer_def clearFallback_def WAIT_MAX_MS_def Let_def split: sum.split)
  qed
  then show ?thesis
    using inv [of es] by (auto simp: node_inv_def isNodeReady_def isNodeStatusPending_def)
qed

theorem node_wait_never_stuck_witness:
  "let starting = Inr \<lparr>ns_status = NStarting, ns_reason = None, network_ready = None\<rparr> in
   hasResolved (run_ops (node_step True) (useNodeCapabilityStore True)
      ([NcStart] @ NcAnswer 0 starting # [NcTimer, NcAnswer 1000 starting, NcTimer] @ [NcAnswer 30000 starting]))"
proof -
  let ?r = "Inr \<lparr>ns_status = NStarting, ns_reason = None, network_ready = None\<rparr>"
  have "\<not> hasResolved (run_ops (node_step True) (useNodeCapabilityStore True)
      ([NcStart] @ NcAnswer 0 ?r # take k [NcTimer, NcAnswer 1000 ?r, NcTimer]))" if "k \<le> 3" for k
  proof -
    have "k \<in> {0, 1, 2, 3}" using that by auto
    then show ?thesis
      by (auto simp: useNodeCapabilityStore_def node_refresh_def ensureNodeCapabilityLifecycle_def node_answer_def
          isNodeStatusSettled_def WAIT_MAX_MS_def Let_def)
  qed
  moreover have "status_calls (run_ops (node_step True) (useNodeCapabilityStore True) [NcStart]) = 1"
    "waitStartedAt (run_ops (node_step True) (useNodeCapabilityStore True) [NcStart]) = None"
    "status_calls (run_ops (node_step True) (useNodeCapabilityStore True)
      ([NcStart] @ NcAnswer 0 ?r # [NcTimer, NcAnswer 1000 ?r, NcTimer])) = 1"
    by (simp_all add: useNodeCapabilityStore_def node_refresh_def ensureNodeCapabilityLifecycle_def node_answer_def
        isNodeStatusSettled_def WAIT_MAX_MS_def Let_def)
  ultimately show ?thesis
    using node_wait_never_stuck [where es = "[NcStart]" and t = 0 and ?r0.0 = ?r and es' = "[NcTimer, NcAnswer 1000 ?r, NcTimer]"
        and now = 30000 and r = ?r]
    unfolding Let_def by (simp del: run_ops_simps node_step.simps)
qed



end
