(* ===== verification/Pairing_Session.thy ===== *)
theory Pairing_Session
  imports Pairing_Node
begin

text \<open>
  The pairing screen: \<open>hooks/usePairing.ts\<close> and \<open>hooks/usePairedDeviceEvents.ts\<close>, with the way the
  hooks of the front end attach listeners.

  A hook attaches its listeners one after the other, each after an \<open>await\<close>, and may be unmounted in
  between. \<open>listeners\<close> is that protocol for any number of listeners. The pairing session is the hook's state on top of
  the pairing data of \<open>Pairing_Node\<close>; what a native call answers is the argument of its continuation.
\<close>

section \<open>Attaching listeners\<close>

text \<open>
  \<open>attached\<close> are the listeners the platform has, \<open>slots\<close> those whose \<open>unlisten\<close> the hook holds, \<open>resolved\<close> how many
  of the \<open>wanted\<close> calls of \<open>listen\<close> have answered.
\<close>

record listeners =
  wanted :: nat
  resolved :: nat
  disposed :: bool
  slots :: "nat list"
  attached :: "nat list"

definition mount_listeners :: "nat \<Rightarrow> listeners" where
  "mount_listeners n = \<lparr>wanted = n, resolved = 0, disposed = False, slots = [], attached = []\<rparr>"

datatype listener_event = LListenAnswer | LUnmount

definition listen_answer :: "listeners \<Rightarrow> listeners" where [step_defs]:
  "listen_answer s =
     (if wanted s \<le> resolved s then s
      else
        let k = resolved s; s1 = s\<lparr>resolved := Suc k, attached := attached s @ [k]\<rparr> in
        if disposed s1 then s1\<lparr>attached := removeAll k (attached s1)\<rparr>
        else s1\<lparr>slots := slots s1 @ [k]\<rparr>)"

definition unmount :: "listeners \<Rightarrow> listeners" where [step_defs]:
  "unmount s =
     (if disposed s then s
      else s\<lparr>disposed := True, attached := filter (\<lambda>k. k \<notin> set (slots s)) (attached s)\<rparr>)"

fun listener_step :: "listeners \<Rightarrow> listener_event \<Rightarrow> listeners" where
  "listener_step s LListenAnswer = listen_answer s"
| "listener_step s LUnmount = unmount s"

definition listener_inv :: "nat \<Rightarrow> listeners \<Rightarrow> bool" where
  "listener_inv n s \<longleftrightarrow>
     wanted s = n \<and> resolved s \<le> n \<and>
     attached s = (if disposed s then [] else [0..<resolved s]) \<and>
     (disposed s \<or> slots s = [0..<resolved s])"

interpretation listener_machine: state_machine "mount_listeners n" listener_step "listener_inv n"
proof
  show "listener_inv n (mount_listeners n)" by (simp add: listener_inv_def mount_listeners_def)
  show "listener_inv n s \<Longrightarrow> listener_inv n (listener_step s e)" for s e
    by (cases e) (auto simp: listener_inv_def step_defs Let_def)
qed

section \<open>Events of paired devices\<close>

text \<open>What a handler of \<open>usePairedDeviceEvents\<close> asks its owner to do.\<close>

datatype device_action = OnPresence DevicePresencePayload | OnUnpaired "string option" "string option" | OnRefresh

datatype device_event =
    DevPresence "DevicePresencePayload option"             \<comment> \<open>\<^const>\<open>None\<close>: the payload does not parse\<close>
  | DevUnpaired "(string option \<times> string option) option"   \<comment> \<open>reason and name\<close>
  | DevIdentityRotated

definition device_actions :: "device_event \<Rightarrow> device_action list" where
  "device_actions e =
     (case e of
        DevPresence None \<Rightarrow> []
      | DevPresence (Some p) \<Rightarrow> [OnPresence p]
      | DevUnpaired None \<Rightarrow> [OnRefresh]
      | DevUnpaired (Some (reason, name)) \<Rightarrow> [OnUnpaired reason name, OnRefresh]
      | DevIdentityRotated \<Rightarrow> [OnRefresh])"

definition applyPresencePatch :: "DevicePresencePayload \<Rightarrow> pairing_data \<Rightarrow> pairing_data" where
  "applyPresencePatch payload d = setDevices (\<lambda>prev. patchDevicePresence prev payload) d"

section \<open>The pairing session\<close>

definition PAIRING_HOST_TTL_SECS :: nat where
  "PAIRING_HOST_TTL_SECS = 180"

datatype pairing_effect =
    PeHydrate
  | PeStartHost nat
  | PeStopHost
  | PeJoin string
  | PeForget string
  | PeRename string string
  | PeRenameThis string
  | PeTrust string bool
  | PeToast string "string list"

record pairing_session =
  ps_data :: pairing_data
  pairingTicket :: "string option"
  hostExpiresIn :: "nat option"
  isJoining :: bool
  ps_isLoading :: bool
  hostPairedCount :: nat
  pairingTicketRef :: "string option"
  trust_calls :: "(string \<times> bool) list"
  effects :: "pairing_effect list"

definition usePairing :: "pairing_data \<Rightarrow> pairing_session" where
  "usePairing d =
     \<lparr>ps_data = d, pairingTicket = None, hostExpiresIn = None, isJoining = False, ps_isLoading = False,
      hostPairedCount = 0, pairingTicketRef = None, trust_calls = [], effects = []\<rparr>"

definition ps_do :: "pairing_effect \<Rightarrow> pairing_session \<Rightarrow> pairing_session" where [step_defs]:
  "ps_do e s = s\<lparr>effects := effects s @ [e]\<rparr>"

definition device_paired :: "pairing_session \<Rightarrow> pairing_session" where [step_defs]:
  "device_paired s =
     ps_do PeHydrate
       (if pairingTicketRef s \<noteq> None
        then s\<lparr>pairingTicket := None, hostExpiresIn := None, hostPairedCount := hostPairedCount s + 1\<rparr>
        else s)"

definition host_expired :: "pairing_session \<Rightarrow> pairing_session" where [step_defs]:
  "host_expired s =
     ps_do (PeToast ''common:settings.devices.hostClosedToast'' [])
       (s\<lparr>pairingTicket := None, hostExpiresIn := None\<rparr>)"

definition on_device_action :: "device_action \<Rightarrow> pairing_session \<Rightarrow> pairing_session" where [step_defs]:
  "on_device_action a s =
     (case a of
        OnPresence p \<Rightarrow> s\<lparr>ps_data := applyPresencePatch p (ps_data s)\<rparr>
      | OnUnpaired reason name \<Rightarrow>
          if reason = Some ''remote''
          then ps_do (PeToast ''common:settings.devices.deviceUnpairedToast''
                 [case name of None \<Rightarrow> ''common:sender.pairedDevices.unknownPeer'' | Some n \<Rightarrow> n]) s
          else s
      | OnRefresh \<Rightarrow> ps_do PeHydrate s)"

definition host_tick :: "pairing_session \<Rightarrow> pairing_session" where [step_defs]:
  "host_tick s =
     (case hostExpiresIn s of
        None \<Rightarrow> s
      | Some n \<Rightarrow> if n = 0 then s else s\<lparr>hostExpiresIn := (if n \<le> 1 then None else Some (n - 1))\<rparr>)"

definition openHostPairing :: "bool \<Rightarrow> pairing_session \<Rightarrow> pairing_session" where [step_defs]:
  "openHostPairing ready s = (if \<not> ready then s else ps_do (PeStartHost PAIRING_HOST_TTL_SECS) (s\<lparr>ps_isLoading := True\<rparr>))"

definition host_answer :: "string result \<Rightarrow> pairing_session \<Rightarrow> pairing_session" where [step_defs]:
  "host_answer r s =
     (case r of
        Inl _ \<Rightarrow> s\<lparr>ps_isLoading := False\<rparr>
      | Inr t \<Rightarrow>
          ps_do (PeToast ''common:settings.devices.hostOpenedToast'' [show_nat PAIRING_HOST_TTL_SECS])
            (s\<lparr>pairingTicket := Some t, hostExpiresIn := Some PAIRING_HOST_TTL_SECS, ps_isLoading := False\<rparr>))"

definition closeHostPairing :: "pairing_session \<Rightarrow> pairing_session" where [step_defs]:
  "closeHostPairing s = ps_do PeStopHost (s\<lparr>pairingTicket := None, hostExpiresIn := None\<rparr>)"

definition join_begin :: "bool \<Rightarrow> string \<Rightarrow> pairing_session \<Rightarrow> pairing_session" where [step_defs]:
  "join_begin ready t s =
     (if \<not> ready then s else ps_do (PeJoin (js_trim t)) (s\<lparr>isJoining := True\<rparr>))"

text \<open>The join settled; on success the pairing data is loaded again before the flag is cleared.\<close>

definition join_answer :: "unit result \<Rightarrow> pairing_session \<Rightarrow> pairing_session" where [step_defs]:
  "join_answer r s =
     (case r of Inl _ \<Rightarrow> s | Inr _ \<Rightarrow> ps_do PeHydrate s)\<lparr>isJoining := False\<rparr>"

definition forget_answer :: "unit result \<Rightarrow> pairing_session \<Rightarrow> pairing_session" where [step_defs]:
  "forget_answer r s = (case r of Inl _ \<Rightarrow> s | Inr _ \<Rightarrow> ps_do PeHydrate s)"

definition rename_this_answer :: "DeviceInfo option result \<Rightarrow> pairing_session \<Rightarrow> pairing_session" where [step_defs]:
  "rename_this_answer r s =
     (case r of Inr (Some d) \<Rightarrow> s\<lparr>ps_data := setThisDevice (Some d) (ps_data s)\<rparr> | _ \<Rightarrow> s)"

definition rename_answer :: "unit result \<Rightarrow> pairing_session \<Rightarrow> pairing_session" where [step_defs]:
  "rename_answer r s = (case r of Inl _ \<Rightarrow> s | Inr _ \<Rightarrow> ps_do PeHydrate s)"

definition apply_trust :: "string \<Rightarrow> bool \<Rightarrow> PairedDevice list \<Rightarrow> PairedDevice list" where
  "apply_trust e v ds = map (\<lambda>d. if endpoint_id d = e then d\<lparr>trusted := v\<rparr> else d) ds"

definition trustDevice :: "string \<Rightarrow> bool \<Rightarrow> pairing_session \<Rightarrow> pairing_session" where [step_defs]:
  "trustDevice e trust s =
     ps_do (PeTrust e trust)
       (s\<lparr>ps_data := setDevices (apply_trust e trust) (ps_data s), trust_calls := trust_calls s @ [(e, trust)]\<rparr>)"

definition trust_answer :: "nat \<Rightarrow> unit result \<Rightarrow> pairing_session \<Rightarrow> pairing_session" where [step_defs]:
  "trust_answer k r s =
     (if k < length (trust_calls s) then
        case trust_calls s ! k of (e, trust) \<Rightarrow>
          let s1 = s\<lparr>trust_calls := take k (trust_calls s) @ drop (Suc k) (trust_calls s)\<rparr> in
          (case r of Inr _ \<Rightarrow> s1 | Inl _ \<Rightarrow> s1\<lparr>ps_data := setDevices (apply_trust e (\<not> trust)) (ps_data s1)\<rparr>)
      else s)"

definition isPairingDataPending :: "bool \<Rightarrow> node_state \<Rightarrow> pairing_session \<Rightarrow> bool" where
  "isPairingDataPending capable node s \<longleftrightarrow>
     capable \<and> (\<not> hasResolved node \<or> (ns_status (nodeStatus node) = NReady \<and> \<not> hasHydrated (ps_data s)))"

datatype pairing_event =
    PsSync
  | PsPaired
  | PsExpired
  | PsDevice device_event
  | PsTick
  | PsOpen bool
  | PsOpened "string result"
  | PsClose
  | PsJoin bool string
  | PsJoined "unit result"
  | PsForgot "unit result"
  | PsRenamedThis "DeviceInfo option result"
  | PsRenamed "unit result"
  | PsTrust string bool
  | PsTrusted nat "unit result"

fun pairing_step :: "pairing_session \<Rightarrow> pairing_event \<Rightarrow> pairing_session" where
  "pairing_step s PsSync = s\<lparr>pairingTicketRef := pairingTicket s\<rparr>"
| "pairing_step s PsPaired = device_paired s"
| "pairing_step s PsExpired = host_expired s"
| "pairing_step s (PsDevice e) = foldl (\<lambda>s a. on_device_action a s) s (device_actions e)"
| "pairing_step s PsTick = host_tick s"
| "pairing_step s (PsOpen ready) = openHostPairing ready s"
| "pairing_step s (PsOpened r) = host_answer r s"
| "pairing_step s PsClose = closeHostPairing s"
| "pairing_step s (PsJoin ready t) = join_begin ready t s"
| "pairing_step s (PsJoined r) = join_answer r s"
| "pairing_step s (PsForgot r) = forget_answer r s"
| "pairing_step s (PsRenamedThis r) = rename_this_answer r s"
| "pairing_step s (PsRenamed r) = rename_answer r s"
| "pairing_step s (PsTrust e t) = trustDevice e t s"
| "pairing_step s (PsTrusted k r) = trust_answer k r s"

definition host_inv :: "pairing_session \<Rightarrow> bool" where
  "host_inv s \<longleftrightarrow>
     (case hostExpiresIn s of None \<Rightarrow> True | Some n \<Rightarrow> 1 \<le> n \<and> n \<le> PAIRING_HOST_TTL_SECS \<and> pairingTicket s \<noteq> None)"

lemma on_device_action_host:
  "hostExpiresIn (on_device_action a s) = hostExpiresIn s" "pairingTicket (on_device_action a s) = pairingTicket s"
  by (cases a; simp add: step_defs)+

lemma device_actions_host: "host_inv s \<Longrightarrow> host_inv (foldl (\<lambda>s a. on_device_action a s) s acts)"
proof (induction acts arbitrary: s)
  case (Cons a acts)
  have "host_inv (on_device_action a s)" using Cons(2) unfolding host_inv_def on_device_action_host .
  then show ?case using Cons(1) by simp
qed simp

interpretation pairing_machine: state_machine "usePairing d" pairing_step host_inv
proof
  show "host_inv (usePairing d)" by (simp add: host_inv_def usePairing_def)
next
  fix s e
  assume inv: "host_inv s"
  show "host_inv (pairing_step s e)"
  proof (cases e)
    case (PsDevice ev)
    then show ?thesis using device_actions_host [OF inv] by simp
  qed (use inv in \<open>auto simp: host_inv_def step_defs PAIRING_HOST_TTL_SECS_def Let_def
        split: option.splits sum.splits prod.splits\<close>)
qed

section \<open>Properties\<close>

text \<open>
  C14. No listener outlives its hook. Whatever the order of the answers of \<open>listen\<close> and the unmount, a mounted hook has exactly the
  listeners that were answered, in order and each once, and an unmounted one has none, also when further answers come after it.
\<close>

theorem no_listener_leaks:
  defines "run \<equiv> \<lambda>n es. run_ops listener_step (mount_listeners n) es"
  shows "attached (run n es) = (if LUnmount \<in> set es then [] else [0..<min n (length es)])"
proof -
  have inv: "listener_inv n (run n es)" unfolding run_def by (rule listener_machine.reachable_inv)
  have disp: "disposed (run n es) \<longleftrightarrow> LUnmount \<in> set es"
    unfolding run_def
  proof (induction es rule: rev_induct)
    case (snoc e es)
    then show ?case by (cases e) (auto simp: step_defs Let_def)
  qed (simp add: mount_listeners_def)
  have "resolved (run n es) = min n (length (filter (\<lambda>e. e = LListenAnswer) es)) \<and> wanted (run n es) = n"
    unfolding run_def
  proof (induction es rule: rev_induct)
    case (snoc e es)
    then show ?case by (cases e) (auto simp: step_defs Let_def)
  qed (simp add: mount_listeners_def)
  moreover have "filter (\<lambda>e. e = LListenAnswer) es = es" if "LUnmount \<notin> set es"
    using that by (intro filter_True) (metis listener_event.exhaust)
  ultimately show ?thesis using inv disp by (auto simp: listener_inv_def)
qed

text \<open>
  C27. The pairing window is bounded: in every run the countdown, while it is shown, lies between 1 and 180 seconds and belongs to a
  ticket; and without a new window the countdown is gone after at most as many ticks as it shows.
\<close>

theorem pairing_window_bounded:
  defines "run \<equiv> \<lambda>d es. run_ops pairing_step (usePairing d) es"
  shows "(case hostExpiresIn (run d es) of
      None \<Rightarrow> True
    | Some n \<Rightarrow>
        1 \<le> n \<and> n \<le> 180 \<and> (\<exists>t. pairingTicket (run d es) = Some t) \<and>
        hostExpiresIn (run_ops pairing_step (run d es) (replicate k PsTick)) = (if k < n then Some (n - k) else None))"
proof -
  have inv: "host_inv (run d es)" unfolding run_def by (rule pairing_machine.reachable_inv)
  have ticks: "hostExpiresIn (run_ops pairing_step s (replicate k PsTick)) = (if k < n then Some (n - k) else None)"
    if "hostExpiresIn s = Some n" "1 \<le> n" for n s
    using that
  proof (induction k arbitrary: s n)
    case (Suc k)
    have none: "hostExpiresIn s = None \<Longrightarrow> hostExpiresIn (run_ops pairing_step s (replicate k PsTick)) = None" for s
      by (induction k) (auto simp: host_tick_def)
    show ?case
      using Suc.prems Suc.IH [of "host_tick s" "n - 1"] none [of "host_tick s"]
      by (cases "n \<le> 1") (auto simp: host_tick_def)
  qed simp
  show ?thesis
    using inv ticks [of "run d es"] by (auto simp: host_inv_def PAIRING_HOST_TTL_SECS_def split: option.splits)
qed

text \<open>
  A refused change of trust leaves no trace. When a device is trusted or untrusted with the switch, so that it shows the opposite before, and the
  native side refuses, the devices are those before the click; when it agrees, exactly that device has the new value.
\<close>

theorem trust_change_rolls_back:
  assumes "list_all (\<lambda>d. endpoint_id d = e \<longrightarrow> trusted d = (\<not> v)) (pd_devices (ps_data s))" "trust_calls s = []"
  shows "pd_devices (ps_data (trust_answer 0 (Inl err) (trustDevice e v s))) = pd_devices (ps_data s) \<and>
    pd_devices (ps_data (trust_answer 0 (Inr ()) (trustDevice e v s))) =
      map (\<lambda>d. if endpoint_id d = e then d\<lparr>trusted := v\<rparr> else d) (pd_devices (ps_data s))"
proof -
  have "apply_trust e (\<not> v) (apply_trust e v ds) = ds"
    if "list_all (\<lambda>d. endpoint_id d = e \<longrightarrow> trusted d = (\<not> v)) ds" for ds
    using that by (induction ds) (auto simp: apply_trust_def)
  then show ?thesis
    using assms by (simp add: trustDevice_def trust_answer_def ps_do_def setDevices_def notify_def apply_trust_def Let_def)
qed

definition demo_device :: PairedDevice where
  "demo_device = \<lparr>endpoint_id = ''a1'', display_name = ''Phone'', device_type = ''mobile'', os = ''android'',
     paired_at = 1, last_seen_at = 2, pairing_status = None, online = True, trusted = False\<rparr>"

theorem trust_change_rolls_back_witness:
  "pd_devices (ps_data (trust_answer 0 (Inl (Rejected ''no''))
     (trustDevice ''a1'' True (usePairing (setDevices (\<lambda>_. [demo_device]) (usePairingDataStore True)))))) = [demo_device]"
  using trust_change_rolls_back [of "''a1''" True "usePairing (setDevices (\<lambda>_. [demo_device]) (usePairingDataStore True))"
      "Rejected ''no''"]
  by (simp add: usePairing_def setDevices_def notify_def usePairingDataStore_def demo_device_def)

end
