(* ===== verification/Auto_Accept.thy ===== *)
theory Auto_Accept
  imports Pairing_Node
begin

text \<open>
  Receiving without a click from trusted devices: \<open>lib/auto-accept.ts\<close>,
  \<open>store/auto-accept-queue-store.ts\<close>, \<open>store/receiver-actions-store.ts\<close>, \<open>store/paired-invite-store.ts\<close>,
  \<open>hooks/useAutoAcceptQueue.ts\<close> and the routing of invites in \<open>components/pairing/DeviceNodeSync.tsx\<close>.

  The drain of the queue is an asynchronous loop that is suspended while an accept is in flight. It is
  cut there: \<open>drain_loop\<close> runs up to the next \<open>await\<close> or to its end, and the settling of the accept, with
  either outcome, is the event that runs it again. \<open>render\<close> is a render of the hook, which runs the effect when
  one of its dependencies changed. The fields \<open>admitted\<close> and \<open>handled\<close> record what entered the queue
  and what was done with each invite that left it.
\<close>

section \<open>Trust and the queue\<close>

definition AUTO_ACCEPT_QUEUE_LIMIT :: nat where
  "AUTO_ACCEPT_QUEUE_LIMIT = 20"

definition findDevice :: "PairedDevice list \<Rightarrow> string \<Rightarrow> PairedDevice option" where
  "findDevice devices endpointId =
     (let i = js_lower (js_trim endpointId) in
      if i = [] then None else find (\<lambda>d. js_lower (endpoint_id d) = i) devices)"

definition shouldAutoAccept :: "PairedDevice list \<Rightarrow> string \<Rightarrow> bool" where
  "shouldAutoAccept devices endpointId =
     (case findDevice devices endpointId of
        None \<Rightarrow> False
      | Some d \<Rightarrow>
          if (case pairing_status d of None \<Rightarrow> PActive | Some p \<Rightarrow> p) \<noteq> PActive then False
          else trusted d)"

definition enqueueInvite ::
    "PairedInvitePayload list \<Rightarrow> PairedInvitePayload \<Rightarrow> PairedInvitePayload list" where
  "enqueueInvite queue invite =
     (if list_ex (\<lambda>q. blob_ticket q = blob_ticket invite) queue then queue
      else if AUTO_ACCEPT_QUEUE_LIMIT \<le> length queue then queue
      else queue @ [invite])"

definition subFolderFor :: "PairedDevice list \<Rightarrow> string \<Rightarrow> string \<Rightarrow> string" where
  "subFolderFor devices endpointId fallbackName =
     (case findDevice devices endpointId of
        None \<Rightarrow> js_trim fallbackName
      | Some d \<Rightarrow> js_or (js_trim (display_name d)) (js_trim fallbackName))"

text \<open>The operations of the store: \<open>enqueue\<close>, and \<open>shift\<close>, which is \<open>null\<close> on an empty queue.\<close>

definition queue_enqueue ::
    "PairedInvitePayload \<Rightarrow> PairedInvitePayload list \<Rightarrow> PairedInvitePayload list" where
  "queue_enqueue invite queue =
     (let next = enqueueInvite queue invite in if next = queue then queue else next)"

fun queue_shift ::
    "PairedInvitePayload list \<Rightarrow> (PairedInvitePayload \<times> PairedInvitePayload list) option" where
  "queue_shift [] = None"
| "queue_shift (head # rest) = Some (head, rest)"

section \<open>The drain\<close>

text \<open>
  \<open>aa_acceptPairedInvite\<close> is the identity of the registered handler, \<open>in_flight\<close> the invite whose
  accept has not settled, \<open>responses\<close> the endpoints that were answered \<open>accepted\<close>, and \<open>last_deps\<close> the
  dependencies of the last run of the effect.
\<close>

record accept_state =
  queue :: "PairedInvitePayload list"
  aa_acceptPairedInvite :: "nat option"
  aa_browseSaveFolder :: "nat option"
  aa_savePath :: string
  aa_isBusy :: bool
  aa_devices :: "PairedDevice list"
  dialog_invite :: "PairedInvitePayload option"
  draining :: bool
  in_flight :: "PairedInvitePayload option"
  responses :: "string list"
  last_deps :: "(nat \<times> bool \<times> nat option) option"
  admitted :: "PairedInvitePayload list"
  handled :: "(PairedInvitePayload \<times> PairedDevice list \<times> string option) list"

definition accept_start :: accept_state where
  "accept_start =
     \<lparr>queue = [], aa_acceptPairedInvite = None, aa_browseSaveFolder = None, aa_savePath = [],
      aa_isBusy = False, aa_devices = [], dialog_invite = None, draining = False, in_flight = None,
      responses = [], last_deps = None, admitted = [], handled = []\<rparr>"

definition enqueue_op :: "PairedInvitePayload \<Rightarrow> accept_state \<Rightarrow> accept_state" where [step_defs]:
  "enqueue_op invite s =
     (let q = queue_enqueue invite (queue s) in
      s\<lparr>queue := q, admitted := admitted s @ drop (length (queue s)) q\<rparr>)"

text \<open>
  The passes of the loop, up to the \<open>await\<close> of an accept or to the end. What is done with an invite is
  logged with the devices that were known then and the folder it was accepted into, if any.
\<close>

function drain_loop :: "accept_state \<Rightarrow> accept_state" where
  "drain_loop s =
     (if aa_isBusy s then s\<lparr>draining := False\<rparr>
      else if aa_acceptPairedInvite s = None then s\<lparr>draining := False\<rparr>
      else
        case queue_shift (queue s) of
          None \<Rightarrow> s\<lparr>draining := False\<rparr>
        | Some (invite, rest) \<Rightarrow>
            if \<not> shouldAutoAccept (aa_devices s) (remote_endpoint_id invite) then
              drain_loop (s\<lparr>queue := rest, handled := handled s @ [(invite, aa_devices s, None)]\<rparr>)
            else
              let subFolder = subFolderFor (aa_devices s) (remote_endpoint_id invite) (sender_name invite) in
              s\<lparr>queue := rest,
                handled := handled s @ [(invite, aa_devices s, Some subFolder)],
                responses := responses s @ [remote_endpoint_id invite],
                in_flight := Some invite\<rparr>)"
  by pat_completeness auto
termination
  by (relation "measure (\<lambda>s. length (queue s))") (auto elim: queue_shift.elims)

declare drain_loop.simps [simp del]

definition drain_deps :: "accept_state \<Rightarrow> nat \<times> bool \<times> nat option" where
  "drain_deps s = (length (queue s), aa_isBusy s, aa_acceptPairedInvite s)"

definition drain_effect :: "bool \<Rightarrow> nat \<times> bool \<times> nat option \<Rightarrow> accept_state \<Rightarrow> accept_state" where [step_defs]:
  "drain_effect capable deps s =
     (case deps of (queued, isBusy, accept) \<Rightarrow>
        if \<not> capable then s
        else if queued = 0 \<or> isBusy \<or> accept = None then s
        else if draining s then s
        else drain_loop (s\<lparr>draining := True\<rparr>))"

definition render :: "bool \<Rightarrow> accept_state \<Rightarrow> accept_state" where [step_defs]:
  "render capable s =
     (if last_deps s = Some (drain_deps s) then s
      else drain_effect capable (drain_deps s) (s\<lparr>last_deps := Some (drain_deps s)\<rparr>))"

text \<open>The accept settled; a rejection is caught, and the loop goes on either way.\<close>

definition accept_settled :: "unit result \<Rightarrow> accept_state \<Rightarrow> accept_state" where [step_defs]:
  "accept_settled r s =
     (case in_flight s of
        None \<Rightarrow> s
      | Some _ \<Rightarrow> drain_loop (s\<lparr>in_flight := None\<rparr>))"

text \<open>An invite that arrived, once the pairing data is there: a stranger's is left to the other dialog.\<close>

definition route_invite :: "PairedInvitePayload \<Rightarrow> accept_state \<Rightarrow> accept_state" where [step_defs]:
  "route_invite payload s =
     (if \<not> isKnownPairedEndpoint (map endpoint_id (aa_devices s)) (remote_endpoint_id payload) then s
      else if shouldAutoAccept (aa_devices s) (remote_endpoint_id payload) then enqueue_op payload s
      else s\<lparr>dialog_invite := Some payload\<rparr>)"

datatype accept_event =
    AaInvite PairedInvitePayload
  | AaDevices "PairedDevice list"
  | AaBusy bool
  | AaRegister "nat option"
  | AaRegisterBrowse "nat option"
  | AaSavePath string
  | AaCloseDialog
  | AaRender
  | AaStrictEffect                        \<comment> \<open>the second run of the effect under StrictMode\<close>
  | AaSettled "unit result"

fun accept_step :: "bool \<Rightarrow> accept_state \<Rightarrow> accept_event \<Rightarrow> accept_state" where
  "accept_step capable s (AaInvite p) = route_invite p s"
| "accept_step capable s (AaDevices ds) = s\<lparr>aa_devices := ds\<rparr>"
| "accept_step capable s (AaBusy b) = s\<lparr>aa_isBusy := b\<rparr>"
| "accept_step capable s (AaRegister h) = s\<lparr>aa_acceptPairedInvite := h\<rparr>"
| "accept_step capable s (AaRegisterBrowse h) = s\<lparr>aa_browseSaveFolder := h\<rparr>"
| "accept_step capable s (AaSavePath p) = s\<lparr>aa_savePath := p\<rparr>"
| "accept_step capable s AaCloseDialog = s\<lparr>dialog_invite := None\<rparr>"
| "accept_step capable s AaRender = render capable s"
| "accept_step capable s AaStrictEffect = drain_effect capable (drain_deps s) s"
| "accept_step capable s (AaSettled r) = accept_settled r s"

text \<open>
  One turn of the event loop: the event, then the renders it causes. A store update is rendered before the
  next task runs; the effect may change the queue, which causes one more render.
\<close>

definition accept_turn :: "bool \<Rightarrow> accept_state \<Rightarrow> accept_event \<Rightarrow> accept_state" where [step_defs]:
  "accept_turn capable s e = render capable (render capable (accept_step capable s e))"

section \<open>The queue as a bounded FIFO\<close>

locale bounded_fifo =
  fixes items :: "'q \<Rightarrow> 'a list"
    and enq :: "'a \<Rightarrow> 'q \<Rightarrow> 'q"
    and deq :: "'q \<Rightarrow> ('a \<times> 'q) option"
    and key :: "'a \<Rightarrow> 'k"
    and limit :: nat
  assumes enq_items: "items (enq x q) =
      (if key x \<in> key ` set (items q) \<or> limit \<le> length (items q) then items q else items q @ [x])"
    and deq_None: "deq q = None \<longleftrightarrow> items q = []"
    and deq_Some: "deq q = Some (x, q') \<Longrightarrow> items q = x # items q'"
begin

definition good :: "'q \<Rightarrow> bool" where
  "good q \<longleftrightarrow> length (items q) \<le> limit \<and> distinct (map key (items q))"

lemma good_enq: "good q \<Longrightarrow> good (enq x q)"
  by (auto simp: good_def enq_items)

lemma good_deq: "good q \<Longrightarrow> deq q = Some (x, q') \<Longrightarrow> good q'"
  using deq_Some [of q x q'] by (simp add: good_def)

lemma enq_appends: "items q @ drop (length (items q)) (items (enq x q)) = items (enq x q)"
  by (simp add: enq_items)

end

interpretation aq: bounded_fifo "\<lambda>q. q" queue_enqueue queue_shift blob_ticket AUTO_ACCEPT_QUEUE_LIMIT
proof
  show "queue_enqueue x q = (if blob_ticket x \<in> blob_ticket ` set q \<or> AUTO_ACCEPT_QUEUE_LIMIT \<le> length q
      then q else q @ [x])" for x q
    by (auto simp: queue_enqueue_def enqueueInvite_def list_ex_iff image_iff) metis
  show "queue_shift q = None \<longleftrightarrow> q = []" for q by (cases q) auto
  show "queue_shift q = Some (x, q') \<Longrightarrow> q = x # q'" for q x q' by (cases q) auto
qed

section \<open>Invariant of the drain\<close>

definition entry_ok :: "PairedInvitePayload \<times> PairedDevice list \<times> string option \<Rightarrow> bool" where
  "entry_ok e =
     (case e of (invite, ds, outcome) \<Rightarrow>
        (case outcome of
           None \<Rightarrow> \<not> shouldAutoAccept ds (remote_endpoint_id invite)
         | Some sub \<Rightarrow> shouldAutoAccept ds (remote_endpoint_id invite) \<and>
                       sub = subFolderFor ds (remote_endpoint_id invite) (sender_name invite)))"

definition accepted_invites :: "accept_state \<Rightarrow> PairedInvitePayload list" where
  "accepted_invites s = map fst (filter (\<lambda>(_, _, outcome). outcome \<noteq> None) (handled s))"

definition log_inv :: "accept_state \<Rightarrow> bool" where
  "log_inv s \<longleftrightarrow>
     aq.good (queue s) \<and> map fst (handled s) @ queue s = admitted s \<and>
     list_all entry_ok (handled s) \<and> responses s = map remote_endpoint_id (accepted_invites s)"

definition flight_inv :: "accept_state \<Rightarrow> bool" where
  "flight_inv s \<longleftrightarrow>
     (case in_flight s of
        None \<Rightarrow> \<not> draining s
      | Some i \<Rightarrow> draining s \<and> accepted_invites s \<noteq> [] \<and> last (accepted_invites s) = i)"

definition not_stranded :: "accept_state \<Rightarrow> bool" where
  "not_stranded s \<longleftrightarrow> draining s \<or> queue s = [] \<or> aa_isBusy s \<or> aa_acceptPairedInvite s = None"

text \<open>What a run of the loop leaves: the log extended, and a drain that is suspended or over.\<close>

lemma drain_loop_inv:
  assumes "log_inv s" "in_flight s = None" "draining s"
  shows "log_inv (drain_loop s) \<and> flight_inv (drain_loop s) \<and> not_stranded (drain_loop s) \<and>
    aa_isBusy (drain_loop s) = aa_isBusy s \<and>
    aa_acceptPairedInvite (drain_loop s) = aa_acceptPairedInvite s \<and>
    last_deps (drain_loop s) = last_deps s \<and> admitted (drain_loop s) = admitted s \<and>
    length (queue (drain_loop s)) \<le> length (queue s)"
  using assms
proof (induction s rule: drain_loop.induct)
  case (1 s)
  show ?case
  proof (cases "aa_isBusy s \<or> aa_acceptPairedInvite s = None \<or> queue s = []")
    case True
    then show ?thesis
      using 1(2,3) by (subst (1 2 3 4 5 6 7 8) drain_loop.simps)
        (auto simp: log_inv_def flight_inv_def not_stranded_def accepted_invites_def)
  next
    case False
    then obtain invite rest where q: "queue s = invite # rest" by (cases "queue s") auto
    then have "aq.good rest" using 1(2) by (simp add: log_inv_def aq.good_def)
    show ?thesis
    proof (cases "shouldAutoAccept (aa_devices s) (remote_endpoint_id invite)")
      case True
      then show ?thesis
        using False 1(2-4) q \<open>aq.good rest\<close>
        by (subst (1 2 3 4 5 6 7 8) drain_loop.simps)
          (auto simp: log_inv_def flight_inv_def not_stranded_def accepted_invites_def entry_ok_def Let_def)
    next
      case no: False
      define s' where "s' = s\<lparr>queue := rest, handled := handled s @ [(invite, aa_devices s, None)]\<rparr>"
      have "drain_loop s = drain_loop s'"
        using False no q by (subst drain_loop.simps) (auto simp: s'_def)
      moreover have "log_inv s'"
        using 1(2) q no \<open>aq.good rest\<close> by (simp add: s'_def log_inv_def accepted_invites_def entry_ok_def)
      moreover have "in_flight s' = None" "draining s'" using 1(3,4) by (simp_all add: s'_def)
      ultimately show ?thesis
        using 1(1) [of "(invite, rest)" invite rest] False no q by (auto simp: s'_def)
    qed
  qed
qed

lemmas drain_loop_facts = conjunct1 [OF drain_loop_inv] conjunct2 [OF drain_loop_inv]

definition accept_inv :: "accept_state \<Rightarrow> bool" where
  "accept_inv s \<longleftrightarrow> log_inv s \<and> flight_inv s"

lemma log_inv_upd [simp]:
  "log_inv (s\<lparr>draining := b\<rparr>) = log_inv s" "log_inv (s\<lparr>last_deps := d\<rparr>) = log_inv s"
  "log_inv (s\<lparr>in_flight := f\<rparr>) = log_inv s" "log_inv (s\<lparr>aa_devices := ds\<rparr>) = log_inv s"
  "log_inv (s\<lparr>aa_isBusy := b\<rparr>) = log_inv s" "log_inv (s\<lparr>aa_acceptPairedInvite := h\<rparr>) = log_inv s"
  "log_inv (s\<lparr>aa_browseSaveFolder := h\<rparr>) = log_inv s" "log_inv (s\<lparr>aa_savePath := p\<rparr>) = log_inv s"
  "log_inv (s\<lparr>dialog_invite := i\<rparr>) = log_inv s"
  by (simp_all add: log_inv_def accepted_invites_def)

lemma flight_inv_upd [simp]:
  "flight_inv (s\<lparr>last_deps := d\<rparr>) = flight_inv s" "flight_inv (s\<lparr>aa_devices := ds\<rparr>) = flight_inv s"
  "flight_inv (s\<lparr>aa_isBusy := b\<rparr>) = flight_inv s" "flight_inv (s\<lparr>aa_acceptPairedInvite := h\<rparr>) = flight_inv s"
  "flight_inv (s\<lparr>aa_browseSaveFolder := h\<rparr>) = flight_inv s" "flight_inv (s\<lparr>aa_savePath := p\<rparr>) = flight_inv s"
  "flight_inv (s\<lparr>dialog_invite := i\<rparr>) = flight_inv s" "flight_inv (s\<lparr>queue := q, admitted := a\<rparr>) = flight_inv s"
  by (simp_all add: flight_inv_def accepted_invites_def split: option.split)

lemma effect_inv: "accept_inv s \<Longrightarrow> accept_inv (drain_effect capable deps s)"
  using drain_loop_inv [of "s\<lparr>draining := True\<rparr>"]
  by (auto simp: accept_inv_def drain_effect_def flight_inv_def split: prod.split option.splits)

lemma enqueue_inv:
  assumes "accept_inv s"
  shows "accept_inv (enqueue_op p s)"
proof -
  define q where "q = queue_enqueue p (queue s)"
  have "map fst (handled s) @ q = admitted s @ drop (length (queue s)) q"
    using assms aq.enq_appends [of "queue s" p]
    by (auto simp: accept_inv_def log_inv_def q_def simp flip: append_assoc) (metis append_assoc)
  moreover have "aq.good q" using assms by (simp add: accept_inv_def log_inv_def q_def aq.good_enq)
  ultimately show ?thesis
    using assms by (simp add: accept_inv_def enqueue_op_def Let_def log_inv_def accepted_invites_def flip: q_def)
qed

interpretation accept_machine: state_machine accept_start "accept_step capable" accept_inv
proof
  show "accept_inv accept_start"
    by (simp add: accept_inv_def accept_start_def log_inv_def flight_inv_def aq.good_def accepted_invites_def)
next
  fix s e
  assume inv: "accept_inv s"
  show "accept_inv (accept_step capable s e)"
  proof (cases e)
    case AaRender
    then show ?thesis using inv effect_inv [of "s\<lparr>last_deps := Some (drain_deps s)\<rparr>"]
      by (auto simp: render_def accept_inv_def)
  next
    case (AaSettled r)
    then show ?thesis
      using inv drain_loop_inv [of "s\<lparr>in_flight := None\<rparr>"]
      by (auto simp: accept_settled_def accept_inv_def flight_inv_def split: option.splits)
  qed (use inv effect_inv enqueue_inv in \<open>auto simp: route_invite_def accept_inv_def\<close>)
qed

lemma find_split:
  "find P xs = Some x \<longleftrightarrow> (\<exists>pre post. xs = pre @ x # post \<and> P x \<and> list_all (\<lambda>y. \<not> P y) pre)"
proof
  show "find P xs = Some x \<Longrightarrow> \<exists>pre post. xs = pre @ x # post \<and> P x \<and> list_all (\<lambda>y. \<not> P y) pre"
  proof (induction xs)
    case (Cons a xs)
    show ?case
    proof (cases "P a")
      case True
      then show ?thesis using Cons(2) by (intro exI [of _ "[]"] exI [of _ xs]) auto
    next
      case False
      then obtain pre post where "xs = pre @ x # post \<and> P x \<and> list_all (\<lambda>y. \<not> P y) pre" using Cons by auto
      then show ?thesis using False by (intro exI [of _ "a # pre"] exI [of _ post]) auto
    qed
  qed simp
  show "find P xs = Some x" if ex: "\<exists>pre post. xs = pre @ x # post \<and> P x \<and> list_all (\<lambda>y. \<not> P y) pre"
  proof -
    obtain pre post where "xs = pre @ x # post" "P x" "list_all (\<lambda>y. \<not> P y) pre" using ex by blast
    moreover have "list_all (\<lambda>y. \<not> P y) pre \<Longrightarrow> P x \<Longrightarrow> find P (pre @ x # post) = Some x" for pre
      by (induction pre) auto
    ultimately show ?thesis by blast
  qed
qed

lemma trusted_iff:
  "shouldAutoAccept ds e \<longleftrightarrow>
     (\<exists>pre d post. ds = pre @ d # post \<and> js_trim e \<noteq> [] \<and>
        js_lower (endpoint_id d) = js_lower (js_trim e) \<and>
        list_all (\<lambda>x. js_lower (endpoint_id x) \<noteq> js_lower (js_trim e)) pre \<and>
        (pairing_status d = None \<or> pairing_status d = Some PActive) \<and> trusted d)"
proof -
  have "shouldAutoAccept ds e \<longleftrightarrow>
      (\<exists>d. findDevice ds e = Some d \<and> (pairing_status d = None \<or> pairing_status d = Some PActive) \<and> trusted d)"
    by (cases "findDevice ds e") (auto simp: shouldAutoAccept_def split: option.splits)
  moreover have "findDevice ds e = Some d \<longleftrightarrow> js_trim e \<noteq> [] \<and>
      find (\<lambda>d. js_lower (endpoint_id d) = js_lower (js_trim e)) ds = Some d" for d
    by (simp add: findDevice_def Let_def)
  ultimately show ?thesis unfolding find_split by blast
qed

text \<open>
  C5. Unattended receiving is safe in every interleaving of invites, trust changes, receiver changes,
  renders and settled accepts. At most twenty invites wait, with distinct tickets. Every invite that
  entered the queue leaves it once and in order of arrival: what was handled, followed by what waits, is
  what was admitted. An invite is accepted exactly when its sender is trusted and actively paired at that moment,
  not when it arrived, and into the folder named after the device; each accept is answered to its sender, and no accept begins
  before the one before it settled.
\<close>

theorem auto_accept_safe:
  fixes capable :: bool
  defines "run \<equiv> \<lambda>es. run_ops (accept_step capable) accept_start es"
  shows "length (queue (run es)) \<le> 20 \<and> distinct (map blob_ticket (queue (run es))) \<and>
    map fst (handled (run es)) @ queue (run es) = admitted (run es) \<and>
    list_all (\<lambda>(invite, devices, outcome).
        outcome = (if shouldAutoAccept devices (remote_endpoint_id invite)
                   then Some (subFolderFor devices (remote_endpoint_id invite) (sender_name invite)) else None))
      (handled (run es)) \<and>
    responses (run es) = map remote_endpoint_id (accepted_invites (run es)) \<and>
    draining (run es) = (in_flight (run es) \<noteq> None) \<and>
    (case in_flight (run es) of None \<Rightarrow> True | Some i \<Rightarrow> last (accepted_invites (run es)) = i) \<and>
    (shouldAutoAccept ds e \<longleftrightarrow>
      (\<exists>pre d post. ds = pre @ d # post \<and> js_trim e \<noteq> [] \<and>
        js_lower (endpoint_id d) = js_lower (js_trim e) \<and>
        list_all (\<lambda>x. js_lower (endpoint_id x) \<noteq> js_lower (js_trim e)) pre \<and>
        (pairing_status d = None \<or> pairing_status d = Some PActive) \<and> trusted d))"
proof -
  have inv: "accept_inv (run es)" unfolding run_def by (rule accept_machine.reachable_inv)
  have "list_all (\<lambda>(invite, devices, outcome).
        outcome = (if shouldAutoAccept devices (remote_endpoint_id invite)
                   then Some (subFolderFor devices (remote_endpoint_id invite) (sender_name invite)) else None))
      (handled (run es))"
    using inv by (fastforce simp: accept_inv_def log_inv_def list_all_iff entry_ok_def split: option.splits)
  moreover have "length (queue (run es)) \<le> 20" "distinct (map blob_ticket (queue (run es)))"
    using inv aq.good_def [of "queue (run es)"] by (simp_all add: accept_inv_def log_inv_def AUTO_ACCEPT_QUEUE_LIMIT_def)
  ultimately show ?thesis
    using inv by (intro conjI trusted_iff)
      (auto simp: accept_inv_def log_inv_def flight_inv_def split: option.splits)
qed

text \<open>A state that rests between turns: the last render saw it, and no invite is stranded.\<close>

definition settled :: "accept_state \<Rightarrow> bool" where
  "settled s \<longleftrightarrow> accept_inv s \<and> not_stranded s \<and> last_deps s = Some (drain_deps s)"

lemma effect_idle: "not_stranded s \<Longrightarrow> drain_effect capable (drain_deps s) s = s"
  by (auto simp: drain_effect_def drain_deps_def not_stranded_def)

lemma render_not_stranded:
  assumes "accept_inv s" "last_deps s = Some (drain_deps s) \<Longrightarrow> not_stranded s"
  shows "accept_inv (render True s) \<and> not_stranded (render True s)"
proof (cases "last_deps s = Some (drain_deps s)")
  case False
  define t where "t = s\<lparr>last_deps := Some (drain_deps s)\<rparr>"
  have t: "accept_inv t" "drain_deps t = drain_deps s" using assms(1) by (simp_all add: t_def accept_inv_def drain_deps_def)
  have "render True s = drain_effect True (drain_deps t) t"
    unfolding t(2) using False by (simp add: render_def t_def)
  moreover have "not_stranded (drain_effect True (drain_deps t) t)"
  proof (cases "not_stranded t")
    case True
    then show ?thesis by (simp add: effect_idle)
  next
    case False
    then have "in_flight t = None" "\<not> draining t"
      using t(1) by (auto simp: accept_inv_def flight_inv_def not_stranded_def split: option.splits)
    then show ?thesis
      using False t(1) drain_loop_inv [of "t\<lparr>draining := True\<rparr>"]
      by (auto simp: drain_effect_def drain_deps_def not_stranded_def accept_inv_def)
  qed
  ultimately show ?thesis using effect_inv [OF t(1)] by simp
qed (use assms in \<open>simp add: render_def\<close>)

lemma settle_turn:
  assumes "accept_inv s" "last_deps s = Some (drain_deps s) \<Longrightarrow> not_stranded s"
  shows "settled (render True (render True s))"
proof -
  let ?r = "render True s"
  have r: "accept_inv ?r" "not_stranded ?r" using render_not_stranded [OF assms] by blast+
  then have "not_stranded (?r\<lparr>last_deps := Some (drain_deps ?r)\<rparr>)" by (simp add: not_stranded_def)
  then have "drain_effect True (drain_deps ?r) (?r\<lparr>last_deps := Some (drain_deps ?r)\<rparr>) =
      ?r\<lparr>last_deps := Some (drain_deps ?r)\<rparr>"
    using effect_idle [of "?r\<lparr>last_deps := Some (drain_deps ?r)\<rparr>" True] by (simp add: drain_deps_def)
  then show ?thesis
    using r by (auto simp: settled_def render_def [of True ?r] accept_inv_def not_stranded_def drain_deps_def)
qed

interpretation turn_machine: state_machine "accept_turn True accept_start AaRender" "accept_turn True" settled
proof
  show "settled (accept_turn True accept_start AaRender)"
    unfolding accept_turn_def
    using accept_machine.reachable_inv [of True "[AaRender]"] render_not_stranded [of accept_start]
      accept_machine.reachable_inv [of True "[]"]
    by (intro settle_turn) (simp_all add: accept_start_def not_stranded_def)
next
  fix s e
  assume s: "settled s"
  show "settled (accept_turn True s e)"
    unfolding accept_turn_def
  proof (rule settle_turn)
    show "accept_inv (accept_step True s e)"
      using s by (auto simp: settled_def intro: accept_machine.inv_step)
    show "not_stranded (accept_step True s e)"
      if "last_deps (accept_step True s e) = Some (drain_deps (accept_step True s e))"
    proof (cases e)
      case (AaSettled r)
      then show ?thesis
        using s drain_loop_inv [of "s\<lparr>in_flight := None\<rparr>"]
        by (auto simp: accept_settled_def settled_def accept_inv_def flight_inv_def split: option.splits)
    qed (use s that in \<open>auto simp: settled_def not_stranded_def drain_deps_def route_invite_def enqueue_op_def
          render_def effect_idle [unfolded drain_deps_def not_stranded_def] Let_def\<close>)
  qed
qed

text \<open>
  C15. No invite is stranded: after every turn of the event loop, an invite still waits only while a drain
  is suspended in an accept, a receive is running, or no receiver is mounted. And when an accept fails the
  drain goes on exactly as after a success.
\<close>

theorem auto_accept_not_stranded:
  defines "s \<equiv> \<lambda>es. run_ops (accept_turn True) (accept_turn True accept_start AaRender) es"
  shows "(queue (s es) = [] \<or> (\<exists>i. in_flight (s es) = Some i) \<or> aa_isBusy (s es) \<or> aa_acceptPairedInvite (s es) = None) \<and>
    accept_turn True (s es) (AaSettled (Inl err)) = accept_turn True (s es) (AaSettled (Inr ()))"
proof -
  have "settled (s es)" unfolding s_def by (rule turn_machine.reachable_inv)
  then show ?thesis
    by (auto simp: settled_def accept_inv_def flight_inv_def not_stranded_def accept_turn_def accept_settled_def
        split: option.splits)
qed

end
