(* ===== verification/Notifications.thy ===== *)
theory Notifications
  imports Auto_Accept
begin

text \<open>
  Notifications of the operating system: \<open>lib/invite-notification.ts\<close>, \<open>lib/notification-gate.ts\<close>,
  \<open>lib/systemNotification.ts\<close> and \<open>hooks/useInviteNotifications.ts\<close>.

  The translation function \<open>t\<close> and the size formatter are injected in the source and are arguments here. What the window,
  the permission service, the resource resolver and the native call answer is the record
  \<open>notifier_env\<close>. The ellipsis of a shortened name, code unit 2026, is written \<open>ELLIPSIS\<close>, a code unit of the model.
\<close>

section \<open>Numbers from anywhere\<close>

text \<open>\<open>Number(s)\<close> of a text: empty is 0; a decimal, a hexadecimal, octal or binary literal; else \<open>NaN\<close>.\<close>

definition digits_below :: "nat \<Rightarrow> string \<Rightarrow> jsnum" where
  "digits_below b ds =
     (if ds \<noteq> [] \<and> list_all (\<lambda>c. case hex_digit c of None \<Rightarrow> False | Some d \<Rightarrow> d < b) ds
      then Fin (of_nat (foldl (\<lambda>n c. b * n + (case hex_digit c of None \<Rightarrow> 0 | Some d \<Rightarrow> d)) 0 ds))
      else NaN)"

definition decimal_of_text :: "string \<Rightarrow> rat option" where
  "decimal_of_text s =
     (let neg = (s \<noteq> [] \<and> hd s = CHR ''-'');
          u = (if s \<noteq> [] \<and> (hd s = CHR ''-'' \<or> hd s = CHR ''+'') then tl s else s);
          whole = takeWhile js_digit u; r = dropWhile js_digit u;
          frac = (if r \<noteq> [] \<and> hd r = CHR ''.'' then takeWhile js_digit (tl r) else []);
          r1 = (if r \<noteq> [] \<and> hd r = CHR ''.'' then dropWhile js_digit (tl r) else r);
          e = (r1 \<noteq> [] \<and> (hd r1 = CHR ''e'' \<or> hd r1 = CHR ''E''));
          eu = (if e then tl r1 else []);
          eneg = (eu \<noteq> [] \<and> hd eu = CHR ''-'');
          ed = (if eu \<noteq> [] \<and> (hd eu = CHR ''-'' \<or> hd eu = CHR ''+'') then tl eu else eu);
          mant = rat_of_nat (digits_val whole) + rat_of_nat (digits_val frac) / 10 ^ length frac;
          ex = digits_val ed;
          v = (if \<not> e then mant else if eneg then mant / 10 ^ ex else mant * 10 ^ ex)
      in if whole = [] \<and> frac = [] then None
         else if e \<and> (ed = [] \<or> \<not> list_all js_digit ed) then None
         else if \<not> e \<and> r1 \<noteq> [] then None
         else Some (if neg then - v else v))"

definition number_of_text :: "string \<Rightarrow> jsnum" where
  "number_of_text text =
     (let s = js_trim text in
      if s = [] then Fin 0
      else if s = ''Infinity'' \<or> s = ''+Infinity'' then PosInf
      else if s = ''-Infinity'' then NegInf
      else if prefix ''0x'' s \<or> prefix ''0X'' s then digits_below 16 (drop 2 s)
      else if prefix ''0o'' s \<or> prefix ''0O'' s then digits_below 8 (drop 2 s)
      else if prefix ''0b'' s \<or> prefix ''0B'' s then digits_below 2 (drop 2 s)
      else case decimal_of_text s of None \<Rightarrow> NaN | Some q \<Rightarrow> Fin q)"

text \<open>\<open>Number(v)\<close>: an array counts as its text, which is a number only for at most one element.\<close>

fun js_number :: "jsval \<Rightarrow> jsnum" where
  "js_number Undefined = NaN"
| "js_number Null = Fin 0"
| "js_number (Bool b) = Fin (if b then 1 else 0)"
| "js_number (Num n) = n"
| "js_number (Str s) = number_of_text s"
| "js_number (Arr []) = Fin 0"
| "js_number (Arr [Undefined]) = Fin 0"
| "js_number (Arr [Bool b]) = NaN"
| "js_number (Arr [v]) = js_number v"
| "js_number (Arr (v # w # vs)) = NaN"
| "js_number (Obj kvs) = NaN"

text \<open>\<open>Number(v) || 0\<close> and \<open>n > 0\<close>.\<close>

definition number_or_zero :: "jsval \<Rightarrow> jsnum" where
  "number_or_zero v = (case js_number v of NaN \<Rightarrow> Fin 0 | n \<Rightarrow> n)"

definition num_positive :: "jsnum \<Rightarrow> bool" where
  "num_positive n = (case n of Fin q \<Rightarrow> q > 0 | PosInf \<Rightarrow> True | _ \<Rightarrow> False)"

section \<open>The text of a notification\<close>

datatype NotificationKind =
    PairRequest | InvitePaired | InviteNearby | InviteAutoAccepted | InviteDeclined | DevicePaired

record NotificationContent =
  nc_title :: string
  nc_body :: string

record NotificationDeps =
  nt :: "string \<Rightarrow> (string \<times> jsval) list \<Rightarrow> string"
  formatSize :: "jsnum \<Rightarrow> string"

definition UNKNOWN_PEER :: string where
  "UNKNOWN_PEER = ''common:sender.pairedDevices.unknownPeer''"

definition MAX_PEER_NAME_LENGTH :: nat where
  "MAX_PEER_NAME_LENGTH = 40"

definition ELLIPSIS :: char where
  "ELLIPSIS = CHR 0x85"

definition isRecord :: "jsval \<Rightarrow> bool" where
  "isRecord v = (case v of Obj _ \<Rightarrow> True | Arr _ \<Rightarrow> True | _ \<Rightarrow> False)"

definition peer_name :: "NotificationDeps \<Rightarrow> jsval \<Rightarrow> string" where
  "peer_name deps v =
     (case v of
        Str s \<Rightarrow>
          if js_trim s = [] then nt deps UNKNOWN_PEER []
          else if length (js_trim s) > MAX_PEER_NAME_LENGTH
          then take (MAX_PEER_NAME_LENGTH - 1) (js_trim s) @ [ELLIPSIS]
          else js_trim s
      | _ \<Rightarrow> nt deps UNKNOWN_PEER [])"

definition invite_body :: "NotificationDeps \<Rightarrow> string \<Rightarrow> string \<Rightarrow> jsval \<Rightarrow> string" where
  "invite_body deps withSize noSize payload =
     (let count = number_or_zero (js_opt_get payload ''file_count'');
          size = number_or_zero (js_opt_get payload ''total_size'')
      in if num_positive size
         then nt deps withSize [(''count'', Num count), (''size'', Str (formatSize deps size))]
         else nt deps noSize [(''count'', Num count)])"

definition buildInviteNotification ::
    "NotificationKind \<Rightarrow> jsval \<Rightarrow> NotificationDeps \<Rightarrow> NotificationContent option" where
  "buildInviteNotification kind payload deps =
     (if \<not> isRecord payload then None
      else
        let sender = [(''sender'', Str (peer_name deps (js_opt_get payload ''sender_name'')))];
            display = peer_name deps (js_opt_get payload ''display_name'')
        in Some (case kind of
             PairRequest \<Rightarrow>
               \<lparr>nc_title = nt deps ''common:notifications.pairRequestTitle'' sender,
                nc_body = nt deps ''common:notifications.pairRequestBody'' []\<rparr>
           | InvitePaired \<Rightarrow>
               \<lparr>nc_title = nt deps ''common:notifications.inviteTitle'' sender,
                nc_body = invite_body deps ''common:notifications.inviteBody''
                  ''common:notifications.inviteBodyNoSize'' payload\<rparr>
           | InviteNearby \<Rightarrow>
               \<lparr>nc_title = nt deps ''common:notifications.nearbyInviteTitle'' sender,
                nc_body = invite_body deps ''common:notifications.inviteBody''
                  ''common:notifications.inviteBodyNoSize'' payload\<rparr>
           | InviteAutoAccepted \<Rightarrow>
               \<lparr>nc_title = nt deps ''common:notifications.autoAcceptTitle'' sender,
                nc_body = invite_body deps ''common:notifications.autoAcceptBody''
                  ''common:notifications.autoAcceptBodyNoSize'' payload\<rparr>
           | InviteDeclined \<Rightarrow>
               \<lparr>nc_title = nt deps ''common:notifications.declinedTitle'' [(''sender'', Str display)],
                nc_body = nt deps ''common:notifications.declinedBody'' []\<rparr>
           | DevicePaired \<Rightarrow>
               \<lparr>nc_title = nt deps ''common:notifications.pairedTitle'' [],
                nc_body = nt deps ''common:notifications.pairedBody'' [(''name'', Str display)]\<rparr>))"

section \<open>Sending\<close>

definition shouldNotify :: "bool \<Rightarrow> bool \<Rightarrow> bool" where
  "shouldNotify enabled foreground \<longleftrightarrow> enabled \<and> \<not> foreground"

record notifier_env =
  n_TAURI :: bool
  n_WINDOWS :: bool
  n_ANDROID :: bool
  n_DESKTOP :: bool
  document_visible :: bool
  window_focused :: "bool result"
  window_visible :: "bool result"
  isPermissionGranted :: "bool result"
  requestPermission :: "string result"
  resolveResource :: "string result"
  native_show :: "unit result"

datatype shown_notification =
    ShowCommand string string "string option"      \<comment> \<open>title, body, icon\<close>
  | SendNotification string string "string option"

record notifier =
  cachedNotificationIconPath :: "string option option"
  permissionBootstrapped :: bool
  permission_requests :: nat
  shown_log :: "shown_notification list"

definition notifier_start :: notifier where
  "notifier_start = \<lparr>cachedNotificationIconPath = None, permissionBootstrapped = False,
     permission_requests = 0, shown_log = []\<rparr>"

definition getNotificationIconPath :: "notifier_env \<Rightarrow> notifier \<Rightarrow> notifier \<times> string option" where
  "getNotificationIconPath env s =
     (if \<not> n_TAURI env \<or> n_WINDOWS env then (s, None)
      else
        case cachedNotificationIconPath s of
          Some cached \<Rightarrow> (s, cached)
        | None \<Rightarrow>
            (case resolveResource env of
               Inr p \<Rightarrow> (s\<lparr>cachedNotificationIconPath := Some (Some p)\<rparr>, Some p)
             | Inl _ \<Rightarrow> (s\<lparr>cachedNotificationIconPath := Some None\<rparr>, None)))"

definition isAppInForeground :: "notifier_env \<Rightarrow> bool result" where
  "isAppInForeground env =
     (if n_ANDROID env then Inr (document_visible env)
      else
        case (window_focused env, window_visible env) of
          (Inr f, Inr v) \<Rightarrow> Inr (f \<and> v)
        | (Inl e, _) \<Rightarrow> Inl e
        | (_, Inl e) \<Rightarrow> Inl e)"

definition ask_permission :: "notifier_env \<Rightarrow> notifier \<Rightarrow> notifier \<times> bool result" where
  "ask_permission env s =
     (case isPermissionGranted env of
        Inl e \<Rightarrow> (s, Inl e)
      | Inr True \<Rightarrow> (s, Inr True)
      | Inr False \<Rightarrow>
          (s\<lparr>permission_requests := permission_requests s + 1\<rparr>,
           case requestPermission env of Inl e \<Rightarrow> Inl e | Inr p \<Rightarrow> Inr (p = ''granted'')))"

definition ensureNotificationPermission :: "notifier_env \<Rightarrow> notifier \<Rightarrow> notifier \<times> bool" where
  "ensureNotificationPermission env s =
     (if \<not> n_TAURI env \<or> permissionBootstrapped s then (s, False)
      else
        case ask_permission env (s\<lparr>permissionBootstrapped := True\<rparr>) of
          (s1, Inl _) \<Rightarrow> (s1, False)
        | (s1, Inr b) \<Rightarrow> (s1, b))"

definition sendSystemNotification ::
    "notifier_env \<Rightarrow> bool \<Rightarrow> NotificationContent \<Rightarrow> notifier \<Rightarrow> notifier \<times> bool" where
  "sendSystemNotification env enableNotifications options s =
     (if \<not> n_TAURI env then (s, False)
      else
        let foreground = (case isAppInForeground env of Inl _ \<Rightarrow> False | Inr b \<Rightarrow> b) in
        if \<not> shouldNotify enableNotifications foreground then (s, False)
        else
          case ask_permission env s of
            (s1, Inl _) \<Rightarrow> (s1, False)
          | (s1, Inr False) \<Rightarrow> (s1, False)
          | (s1, Inr True) \<Rightarrow>
              (case getNotificationIconPath env s1 of
                 (s2, icon) \<Rightarrow>
                   if n_DESKTOP env then
                     (case native_show env of
                        Inl _ \<Rightarrow> (s2, False)
                      | Inr _ \<Rightarrow>
                          (s2\<lparr>shown_log := shown_log s2 @ [ShowCommand (nc_title options) (nc_body options) icon]\<rparr>, True))
                   else
                     (s2\<lparr>shown_log := shown_log s2 @ [SendNotification (nc_title options) (nc_body options)
                        (if icon = Some [] then None else icon)]\<rparr>, True)))"

section \<open>Which event is announced how\<close>

text \<open>\<open>String(v ?? '')\<close> of the endpoint, which is a text in every payload of the engine.\<close>

definition endpoint_text :: "jsval \<Rightarrow> string" where
  "endpoint_text v = (case v of Str s \<Rightarrow> s | _ \<Rightarrow> [])"

definition parse_event :: "string \<Rightarrow> jsval option" where
  "parse_event raw =
     (case JSON_parse raw of None \<Rightarrow> None | Some v \<Rightarrow> if isRecord v then Some v else None)"

definition invite_kind :: "PairedDevice list \<Rightarrow> string \<Rightarrow> NotificationKind" where
  "invite_kind ds endpointId =
     (if \<not> isKnownPairedEndpoint (map endpoint_id ds) endpointId then InviteNearby
      else if shouldAutoAccept ds endpointId then InviteAutoAccepted
      else InvitePaired)"

definition notification_for :: "PairedDevice list \<Rightarrow> string \<Rightarrow> jsval \<Rightarrow> NotificationKind option" where
  "notification_for ds event payload =
     (if event = ''nearby-pair-request-received'' then Some PairRequest
      else if event = ''paired-invite-received''
      then Some (invite_kind ds (endpoint_text (js_opt_get payload ''remote_endpoint_id'')))
      else if event = ''paired-invite-response''
      then (if js_opt_get payload ''response'' = Str ''declined'' then Some InviteDeclined else None)
      else if event = ''device-paired'' then Some DevicePaired
      else None)"

definition announce ::
    "notifier_env \<Rightarrow> NotificationDeps \<Rightarrow> bool \<Rightarrow> PairedDevice list \<Rightarrow> string \<Rightarrow> string \<Rightarrow> notifier \<Rightarrow> notifier" where
  "announce env deps enabled ds event raw s =
     (case parse_event raw of
        None \<Rightarrow> s
      | Some payload \<Rightarrow>
          (case notification_for ds event payload of
             None \<Rightarrow> s
           | Some kind \<Rightarrow>
               (case buildInviteNotification kind payload deps of
                  None \<Rightarrow> s
                | Some content \<Rightarrow> fst (sendSystemNotification env enabled content s))))"

section \<open>Properties\<close>

lemma peer_name_length: "peer_name deps (Str s) = nt deps UNKNOWN_PEER [] \<or> length (peer_name deps (Str s)) \<le> MAX_PEER_NAME_LENGTH"
  by (simp add: peer_name_def MAX_PEER_NAME_LENGTH_def)

lemma ask_permission_result:
  "snd (ask_permission env s) = Inr True \<longleftrightarrow>
     isPermissionGranted env = Inr True \<or> isPermissionGranted env = Inr False \<and> requestPermission env = Inr ''granted''"
  "shown_log (fst (ask_permission env s)) = shown_log s"
  by (auto simp: ask_permission_def split: sum.splits bool.splits)

lemma icon_keeps_log: "shown_log (fst (getNotificationIconPath env s)) = shown_log s"
  by (auto simp: getNotificationIconPath_def split: option.splits sum.splits)

text \<open>
  A notification is shown exactly when it should be: in the native app, with notifications enabled, while the app is not
  known to be in the foreground (a window that cannot be read counts as in the background), with a permission that is there or
  granted on request, and, on a desktop, when the native command succeeds. The result tells whether it was shown, at most one is
  shown, and its text is the one given.
\<close>

theorem notification_shown_exactly:
  "snd (sendSystemNotification env enabled c s) =
     (n_TAURI env \<and> enabled \<and> isAppInForeground env \<noteq> Inr True \<and>
      (isPermissionGranted env = Inr True \<or> isPermissionGranted env = Inr False \<and> requestPermission env = Inr ''granted'') \<and>
      (if n_DESKTOP env then is_ok (native_show env) else True)) \<and>
   (if snd (sendSystemNotification env enabled c s)
    then (\<exists>icon. shown_log (fst (sendSystemNotification env enabled c s)) =
            shown_log s @ [if n_DESKTOP env then ShowCommand (nc_title c) (nc_body c) icon
                           else SendNotification (nc_title c) (nc_body c) icon])
    else shown_log (fst (sendSystemNotification env enabled c s)) = shown_log s)"
proof -
  obtain s1 r where a: "ask_permission env s = (s1, r)" by (cases "ask_permission env s")
  obtain s2 icon where i: "getNotificationIconPath env s1 = (s2, icon)" by (cases "getNotificationIconPath env s1")
  have "shown_log s1 = shown_log s" "shown_log s2 = shown_log s1"
    using ask_permission_result(2) [of env s] icon_keeps_log [of env s1] a i by simp_all
  moreover have "r = Inr True \<longleftrightarrow> isPermissionGranted env = Inr True \<or>
      isPermissionGranted env = Inr False \<and> requestPermission env = Inr ''granted''"
    using ask_permission_result(1) [of env s] a by simp
  moreover have "(case isAppInForeground env of Inl _ \<Rightarrow> False | Inr b \<Rightarrow> b) \<longleftrightarrow> isAppInForeground env = Inr True"
    by (cases "isAppInForeground env") auto
  ultimately show ?thesis
    by (auto simp: sendSystemNotification_def shouldNotify_def a i Let_def is_ok_def split: sum.splits bool.splits)
qed

text \<open>
  The banner agrees with what happens to the invite. With the same devices, the notification says that a transfer
  already runs exactly when the invite goes to the queue of trusted invites, asks exactly when the dialog opens, and
  says nearby exactly when the invite is left to the dialog for strangers and nothing changes here.
\<close>

theorem banner_agrees_with_routing:
  "case invite_kind (aa_devices s) (remote_endpoint_id p) of
     InviteAutoAccepted \<Rightarrow> route_invite p s = enqueue_op p s \<and> shouldAutoAccept (aa_devices s) (remote_endpoint_id p)
   | InvitePaired \<Rightarrow> route_invite p s = s\<lparr>dialog_invite := Some p\<rparr>
   | InviteNearby \<Rightarrow> route_invite p s = s
   | _ \<Rightarrow> False"
  by (auto simp: invite_kind_def route_invite_def)

text \<open>The banner does not know whether the queue took the invite: a full queue drops it, and it is announced all the same.\<close>

lemma dropped_invite_announced:
  assumes "isKnownPairedEndpoint (map endpoint_id (aa_devices s)) (remote_endpoint_id p)"
    "shouldAutoAccept (aa_devices s) (remote_endpoint_id p)" "20 \<le> length (queue s)"
  shows "invite_kind (aa_devices s) (remote_endpoint_id p) = InviteAutoAccepted \<and> queue (route_invite p s) = queue s"
  using assms by (simp add: invite_kind_def route_invite_def enqueue_op_def queue_enqueue_def enqueueInvite_def
      AUTO_ACCEPT_QUEUE_LIMIT_def Let_def)

end
