(* ===== verification/Network_Settings.thy ===== *)
theory Network_Settings
  imports Relay_Discovery
begin

text \<open>
  The network settings: the relay form of \<open>components/settings/relay/relay-settings.tsx\<close>, the discovery form of
  \<open>discovery-settings.tsx\<close>, the guard of \<open>relay-change-guard.tsx\<close> that asks before the user leaves the settings,
  and the first push of the configuration in \<open>components/pairing/DeviceNodeSync.tsx\<close>.

  Each form is a state machine: the fields of the settings store it edits, its own \<open>useState\<close> and \<open>useRef\<close> values, the commands it has
  sent and the toasts it has shown. A click, a keystroke or the answer of a command is an event; a handler that awaits is split there,
  and what its closure has captured waits in the state. After every event the form is rendered and its effects run. The URL
  parser is the parameter \<open>URL\<close>, as in \<open>Relay_Discovery\<close>.
\<close>

section \<open>Sanitizing what is typed\<close>

definition isDisallowedRelayUrlChar :: "char \<Rightarrow> bool" where
  "isDisallowedRelayUrlChar c =
     (let code = char_code c in
      if code \<le> 0x1f \<or> (0x7f \<le> code \<and> code \<le> 0x9f) then True else js_space c)"

definition isDisallowedUrlChar :: "char \<Rightarrow> bool" where
  "isDisallowedUrlChar c =
     (let code = char_code c in
      if code \<le> 0x1f \<or> (0x7f \<le> code \<and> code \<le> 0x9f) then True else js_space c)"

text \<open>The loop that the three sanitizers share: it stops as soon as the limit is reached.\<close>

fun sanitize_loop :: "(char \<Rightarrow> bool) \<Rightarrow> nat \<Rightarrow> string \<Rightarrow> string \<Rightarrow> string" where
  "sanitize_loop disallowed limit sanitized [] = sanitized"
| "sanitize_loop disallowed limit sanitized (c # cs) =
     (if disallowed c then sanitize_loop disallowed limit sanitized cs
      else
        let sanitized1 = sanitized @ [c] in
        if limit \<le> length sanitized1 then sanitized1 else sanitize_loop disallowed limit sanitized1 cs)"

definition sanitizeRelayUrlInput :: "string \<Rightarrow> string" where
  "sanitizeRelayUrlInput v = sanitize_loop isDisallowedRelayUrlChar MAX_RELAY_URL_LENGTH [] v"

definition sanitizeUrlInput :: "string \<Rightarrow> string" where
  "sanitizeUrlInput v = sanitize_loop isDisallowedUrlChar MAX_DISCOVERY_URL_LENGTH [] v"

definition sanitizeDnsOriginInput :: "string \<Rightarrow> string" where
  "sanitizeDnsOriginInput v = sanitize_loop isDisallowedUrlChar MAX_DNS_ORIGIN_LENGTH [] v"

lemma sanitize_loop_eq:
  "length acc < limit \<Longrightarrow>
   sanitize_loop disallowed limit acc s = acc @ take (limit - length acc) (filter (\<lambda>c. \<not> disallowed c) s)"
proof (induction s arbitrary: acc)
  case (Cons c cs)
  show ?case
  proof (cases "disallowed c \<or> length acc + 1 < limit")
    case True
    then show ?thesis using Cons by (auto simp: Let_def take_Cons' Suc_diff_Suc)
  next
    case False
    then have "limit - length acc = 1" "\<not> disallowed c" using Cons.prems by auto
    then show ?thesis using False by (simp add: Let_def)
  qed
qed simp

text \<open>Both character tests agree with the one that the validation of DNS origins uses.\<close>

lemma disallowed_same: "isDisallowedUrlChar c = isDisallowedRelayUrlChar c"
  by (simp add: isDisallowedUrlChar_def isDisallowedRelayUrlChar_def)

lemma disallowed_dns: "hasDisallowedDnsOriginChar s = list_ex isDisallowedUrlChar s"
  unfolding hasDisallowedDnsOriginChar_def by (intro list_ex_cong refl) (auto simp: isDisallowedUrlChar_def Let_def)

section \<open>Toasts\<close>

datatype toast_type = TSuccess | TInfo | TError

datatype toast_text =
    TextKey string
  | VerifySummary nat nat bool      \<comment> \<open>verified, tested, and whether the hint about the token follows\<close>
  | VerifiedUrl string nat          \<comment> \<open>address and latency\<close>
  | TextOf js_error

record toast =
  toast_title :: string
  toast_description :: toast_text
  toast_type :: toast_type

section \<open>The relay form\<close>

datatype verify_state = Checking | VerifyOk | VerifyFailed

text \<open>A test whose command has not answered: the captured addresses and token, or the default relays.\<close>

datatype relay_test = TestCustom "string list" "string option" | TestDefault

record relay_form =
  rf_settings :: RelayConfigInput
  rf_isTesting :: bool
  verifyResults :: "string \<rightharpoonup> verify_state"
  showAuthToken :: bool
  urlRowIds :: "nat list"
  next_uuid :: nat
  row_keys :: "nat option list"      \<comment> \<open>the keys of the rows in the last render\<close>
  rf_test :: "relay_test option"
  rf_calls :: "RelayConfigArg list"
  rf_toasts :: "toast list"

definition rf_toast :: "string \<Rightarrow> toast_text \<Rightarrow> toast_type \<Rightarrow> relay_form \<Rightarrow> relay_form" where [step_defs]:
  "rf_toast title description ty s =
     s\<lparr>rf_toasts := rf_toasts s @ [\<lparr>toast_title = title, toast_description = description, toast_type = ty\<rparr>]\<rparr>"

definition set_urls :: "string list \<Rightarrow> relay_form \<Rightarrow> relay_form" where [step_defs]:
  "set_urls us s = s\<lparr>rf_settings := (rf_settings s)\<lparr>relayUrls := us\<rparr>\<rparr>"

definition set_mode :: "RelayMode \<Rightarrow> relay_form \<Rightarrow> relay_form" where [step_defs]:
  "set_mode m s = s\<lparr>rf_settings := (rf_settings s)\<lparr>relayMode := m\<rparr>\<rparr>"

definition handleModeChange :: "bool \<Rightarrow> RelayMode \<Rightarrow> relay_form \<Rightarrow> relay_form" where [step_defs]:
  "handleModeChange IS_WEB m s =
     (if IS_WEB \<and> m = RDisabled then s
      else
        let s1 = set_mode m s in
        if m = RCustom \<and> length (relayUrls (rf_settings s)) = 0 then set_urls [''''] s1 else s1)"

definition handleFallbackChange :: "string \<Rightarrow> relay_form \<Rightarrow> relay_form" where [step_defs]:
  "handleFallbackChange v s = s\<lparr>rf_settings := (rf_settings s)\<lparr>relayFallback := relayFallbackFromRadioValue v\<rparr>\<rparr>"

text \<open>The handlers of a row exist for the rows of the render that also gave them \<open>relayUrls\<close>, so the index is in range.\<close>

definition updateUrl :: "nat \<Rightarrow> string \<Rightarrow> relay_form \<Rightarrow> relay_form" where [step_defs]:
  "updateUrl index v s =
     (let us = relayUrls (rf_settings s) in
      if index < length us then set_urls (us[index := sanitizeRelayUrlInput v]) s else s)"

definition addUrl :: "relay_form \<Rightarrow> relay_form" where [step_defs]:
  "addUrl s = set_urls (relayUrls (rf_settings s) @ ['''']) s"

definition removeUrl :: "nat \<Rightarrow> relay_form \<Rightarrow> relay_form" where [step_defs]:
  "removeUrl index s =
     (let us = relayUrls (rf_settings s) in
      if length us \<le> 1 then set_urls [''''] s else set_urls (take index us @ drop (Suc index) us) s)"

definition setRelayAuthToken :: "string \<Rightarrow> relay_form \<Rightarrow> relay_form" where [step_defs]:
  "setRelayAuthToken v s = s\<lparr>rf_settings := (rf_settings s)\<lparr>relayAuthToken := v\<rparr>\<rparr>"

definition set_results :: "(string \<times> verify_state) list \<Rightarrow> relay_form \<Rightarrow> relay_form" where [step_defs]:
  "set_results rs s = s\<lparr>verifyResults := foldl (\<lambda>m (u, v). m(u \<mapsto> v)) (verifyResults s) rs\<rparr>"

definition custom_call :: "relay_form \<Rightarrow> string option \<Rightarrow> string \<Rightarrow> RelayConfigArg" where
  "custom_call s authToken url =
     \<lparr>rc_mode = RCustom, rc_urls = [url], rc_auth_token = authToken, rc_fallback = relayFallback (rf_settings s)\<rparr>"

definition verifyCustomRelays :: "(string \<Rightarrow> url_parts option) \<Rightarrow> relay_form \<Rightarrow> relay_form" where [step_defs]:
  "verifyCustomRelays URL s =
     (let trimmedUrls = js_filter_boolean (map js_trim (relayUrls (rf_settings s)));
          authToken = relayAuthTokenForIpc (relayAuthToken (rf_settings s)) in
      if length trimmedUrls = 0 then
        rf_toast ''settings.network.relay.verifyFailed'' (TextKey ''settings.network.relay.urlRequired'') TError s
      else if list_ex (\<lambda>url. \<not> isValidRelayUrl URL url) trimmedUrls then
        rf_toast ''settings.network.relay.verifyFailed'' (TextKey RELAY_URL_INVALID_MESSAGE_KEY) TError s
      else if authToken \<noteq> None \<and> list_ex (\<lambda>url. map_option protocol (URL url) \<noteq> Some ''https:'') trimmedUrls then
        rf_toast ''settings.network.relay.verifyFailed'' (TextKey RELAY_URL_INVALID_MESSAGE_KEY) TError s
      else
        let uniqueUrls = foldl js_set_add [] trimmedUrls;
            s1 = set_results (map (\<lambda>url. (url, Checking)) uniqueUrls) (s\<lparr>rf_isTesting := True\<rparr>) in
        s1\<lparr>rf_calls := rf_calls s @ map (custom_call s authToken) uniqueUrls,
           rf_test := Some (TestCustom uniqueUrls authToken)\<rparr>)"

definition handleTestConnection :: "(string \<Rightarrow> url_parts option) \<Rightarrow> relay_form \<Rightarrow> relay_form" where [step_defs]:
  "handleTestConnection URL s =
     (if relayMode (rf_settings s) = RDisabled then
        rf_toast ''settings.network.relay.verifyFailed'' (TextKey ''settings.network.relay.disabledHint'') TInfo s
      else if relayMode (rf_settings s) = RCustom then verifyCustomRelays URL s
      else
        s\<lparr>rf_isTesting := True, rf_test := Some TestDefault,
          rf_calls := rf_calls s @
            [\<lparr>rc_mode = relayMode (rf_settings s), rc_urls = [], rc_auth_token = None,
              rc_fallback = relayFallback (rf_settings s)\<rparr>]\<rparr>)"

text \<open>The button is disabled while a test runs and when relays are disabled.\<close>

definition test_click :: "(string \<Rightarrow> url_parts option) \<Rightarrow> relay_form \<Rightarrow> relay_form" where [step_defs]:
  "test_click URL s =
     (if rf_isTesting s \<or> relayMode (rf_settings s) = RDisabled then s else handleTestConnection URL s)"

text \<open>All the commands of a test of custom relays have settled; \<open>ok\<close> says which of them succeeded.\<close>

definition custom_verified :: "string list \<Rightarrow> string option \<Rightarrow> (string \<Rightarrow> bool) \<Rightarrow> relay_form \<Rightarrow> relay_form" where [step_defs]:
  "custom_verified uniqueUrls authToken ok s =
     (let outcomes = map (\<lambda>url. (url, ok url)) uniqueUrls;
          s1 = (set_results (map (\<lambda>(url, b). (url, if b then VerifyOk else VerifyFailed)) outcomes) s)
                 \<lparr>rf_isTesting := False, rf_test := None\<rparr>;
          okCount = length (filter snd outcomes);
          allOk = (okCount = length uniqueUrls);
          showAuthHint = (\<not> allOk \<and> authToken \<noteq> None) in
      rf_toast (if allOk then ''settings.network.relay.verifySuccess'' else ''settings.network.relay.verifyFailed'')
        (VerifySummary okCount (length uniqueUrls) showAuthHint)
        (if allOk then TSuccess else if okCount > 0 then TInfo else TError) s1)"

definition default_verified :: "(string option \<times> nat) result \<Rightarrow> relay_form \<Rightarrow> relay_form" where [step_defs]:
  "default_verified r s =
     (case r of
        Inl e \<Rightarrow> rf_toast ''settings.network.relay.verifyFailed'' (TextOf e) TError s
      | Inr (url, latency) \<Rightarrow>
          rf_toast ''settings.network.relay.verifySuccess''
            (case url of
               None \<Rightarrow> TextKey ''settings.network.relay.verifySuccessDescGeneric''
             | Some u \<Rightarrow> if u = [] then TextKey ''settings.network.relay.verifySuccessDescGeneric'' else VerifiedUrl u latency)
            TSuccess s)\<lparr>rf_isTesting := False, rf_test := None\<rparr>"

definition test_answer :: "(string \<Rightarrow> bool) \<Rightarrow> (string option \<times> nat) result \<Rightarrow> relay_form \<Rightarrow> relay_form" where [step_defs]:
  "test_answer ok r s =
     (case rf_test s of
        None \<Rightarrow> s
      | Some (TestCustom us token) \<Rightarrow> custom_verified us token ok s
      | Some TestDefault \<Rightarrow> default_verified r s)"

text \<open>What a row of the form shows.\<close>

definition row_status :: "(string \<Rightarrow> url_parts option) \<Rightarrow> relay_form \<Rightarrow> string \<Rightarrow> verify_state option" where
  "row_status URL s url =
     (let trimmed = js_trim url; isValidFormat = (length trimmed > 0 \<and> isValidRelayUrl URL trimmed) in
      if isValidFormat then verifyResults s trimmed else None)"

definition row_invalid :: "(string \<Rightarrow> url_parts option) \<Rightarrow> string \<Rightarrow> bool" where
  "row_invalid URL url =
     (let trimmed = js_trim url; isValidFormat = (length trimmed > 0 \<and> isValidRelayUrl URL trimmed) in
      length trimmed > 0 \<and> \<not> isValidFormat)"

text \<open>A render gives every row the id at its index, if there is one yet; the effects follow the render.\<close>

definition form_render :: "relay_form \<Rightarrow> relay_form" where [step_defs]:
  "form_render s =
     s\<lparr>row_keys := map (\<lambda>i. if i < length (urlRowIds s) then Some (urlRowIds s ! i) else None)
                      [0..<length (relayUrls (rf_settings s))]\<rparr>"

definition row_ids_effect :: "relay_form \<Rightarrow> relay_form" where [step_defs]:
  "row_ids_effect s =
     (let n = length (relayUrls (rf_settings s)); k = n - length (urlRowIds s) in
      s\<lparr>urlRowIds := take n (urlRowIds s @ [next_uuid s..<next_uuid s + k]), next_uuid := next_uuid s + k\<rparr>)"

definition web_mode_effect :: "bool \<Rightarrow> relay_form \<Rightarrow> relay_form" where [step_defs]:
  "web_mode_effect IS_WEB s = (if IS_WEB \<and> relayMode (rf_settings s) = RDisabled then set_mode RDefault s else s)"

definition form_effects :: "bool \<Rightarrow> relay_form \<Rightarrow> relay_form" where
  "form_effects IS_WEB s = web_mode_effect IS_WEB (row_ids_effect (form_render s))"

definition RelaySettings :: "bool \<Rightarrow> RelayConfigInput \<Rightarrow> relay_form" where
  "RelaySettings IS_WEB settings =
     form_effects IS_WEB
       \<lparr>rf_settings = settings, rf_isTesting = False, verifyResults = Map.empty,
        showAuthToken = (length (js_trim (relayAuthToken settings)) > 0),
        urlRowIds = [0..<length (relayUrls settings)], next_uuid = length (relayUrls settings), row_keys = [],
        rf_test = None, rf_calls = [], rf_toasts = []\<rparr>"

datatype relay_event =
    RfMode RelayMode
  | RfFallback string
  | RfUpdate nat string
  | RfAdd
  | RfRemove nat
  | RfToken string
  | RfToggleToken
  | RfTest
  | RfAnswer "string \<Rightarrow> bool" "(string option \<times> nat) result"

fun relay_event_step :: "bool \<Rightarrow> (string \<Rightarrow> url_parts option) \<Rightarrow> relay_form \<Rightarrow> relay_event \<Rightarrow> relay_form" where
  "relay_event_step IS_WEB URL s (RfMode m) = handleModeChange IS_WEB m s"
| "relay_event_step IS_WEB URL s (RfFallback v) = handleFallbackChange v s"
| "relay_event_step IS_WEB URL s (RfUpdate i v) = updateUrl i v s"
| "relay_event_step IS_WEB URL s RfAdd = addUrl s"
| "relay_event_step IS_WEB URL s (RfRemove i) = removeUrl i s"
| "relay_event_step IS_WEB URL s (RfToken v) = setRelayAuthToken v s"
| "relay_event_step IS_WEB URL s RfToggleToken = s\<lparr>showAuthToken := \<not> showAuthToken s\<rparr>"
| "relay_event_step IS_WEB URL s RfTest = test_click URL s"
| "relay_event_step IS_WEB URL s (RfAnswer ok r) = test_answer ok r s"

definition relay_form_step :: "bool \<Rightarrow> (string \<Rightarrow> url_parts option) \<Rightarrow> relay_form \<Rightarrow> relay_event \<Rightarrow> relay_form" where
  "relay_form_step IS_WEB URL s e = form_effects IS_WEB (relay_event_step IS_WEB URL s e)"

subsection \<open>The invariant of the form\<close>

definition safe_call :: "(string \<Rightarrow> url_parts option) \<Rightarrow> RelayConfigArg \<Rightarrow> bool" where
  "safe_call URL c =
     (case rc_urls c of
        [] \<Rightarrow> rc_mode c = RDefault \<and> rc_auth_token c = None
      | [u] \<Rightarrow>
          rc_mode c = RCustom \<and> isValidRelayUrl URL u \<and>
          (case rc_auth_token c of None \<Rightarrow> True | Some _ \<Rightarrow> map_option protocol (URL u) = Some ''https:'')
      | _ \<Rightarrow> False)"

definition tested_urls :: "relay_form \<Rightarrow> string set" where
  "tested_urls s = (case rf_test s of Some (TestCustom us _) \<Rightarrow> set us | _ \<Rightarrow> {})"

definition rows_inv :: "relay_form \<Rightarrow> bool" where
  "rows_inv s \<longleftrightarrow>
     length (urlRowIds s) = length (relayUrls (rf_settings s)) \<and> distinct (urlRowIds s) \<and>
     (\<forall>i\<in>set (urlRowIds s). i < next_uuid s)"

definition test_inv :: "(string \<Rightarrow> url_parts option) \<Rightarrow> relay_form \<Rightarrow> bool" where
  "test_inv URL s \<longleftrightarrow>
     rf_isTesting s = (rf_test s \<noteq> None) \<and> {u. verifyResults s u = Some Checking} = tested_urls s \<and>
     list_all (safe_call URL) (rf_calls s)"

definition pre_rows :: "relay_form \<Rightarrow> bool" where
  "pre_rows s \<longleftrightarrow> distinct (urlRowIds s) \<and> (\<forall>i\<in>set (urlRowIds s). i < next_uuid s)"

lemma row_ids_effect_inv: "pre_rows s \<Longrightarrow> rows_inv (row_ids_effect s)"
  by (auto simp: pre_rows_def rows_inv_def row_ids_effect_def Let_def dest!: in_set_takeD)

lemma effects_rows: "pre_rows s \<Longrightarrow> rows_inv (form_effects IS_WEB s)"
  using row_ids_effect_inv [of "form_render s"]
  by (auto simp: form_effects_def rows_inv_def pre_rows_def form_render_def web_mode_effect_def set_mode_def)

lemma event_keeps_ids:
  "urlRowIds (relay_event_step IS_WEB URL s e) = urlRowIds s" "next_uuid (relay_event_step IS_WEB URL s e) = next_uuid s"
  by (cases e; simp add: step_defs Let_def split: option.splits relay_test.splits sum.splits prod.splits)+

lemma effects_test [simp]: "test_inv URL (form_effects IS_WEB s) = test_inv URL s"
  by (simp add: test_inv_def tested_urls_def form_effects_def step_defs Let_def)

lemma effects_mode: "IS_WEB \<Longrightarrow> relayMode (rf_settings (form_effects IS_WEB s)) \<noteq> RDisabled"
  by (simp add: form_effects_def step_defs Let_def)

lemma results_fold:
  "foldl (\<lambda>m (u, v). m(u \<mapsto> v)) m (map (\<lambda>u. (u, f u)) us) = (\<lambda>x. if x \<in> set us then Some (f x) else m x)"
  by (induction us arbitrary: m) (auto simp: fun_eq_iff)

lemma verify_test_inv:
  assumes "test_inv URL s" "rf_test s = None"
  shows "test_inv URL (verifyCustomRelays URL s)"
proof -
  define trimmed where "trimmed = js_filter_boolean (map js_trim (relayUrls (rf_settings s)))"
  define token where "token = relayAuthTokenForIpc (relayAuthToken (rf_settings s))"
  have calls: "list_all (safe_call URL) (map (custom_call s token) (foldl js_set_add [] trimmed))"
    if "list_all (isValidRelayUrl URL) trimmed"
      "token = None \<or> list_all (\<lambda>u. map_option protocol (URL u) = Some ''https:'') trimmed"
    using that by (auto simp: list_all_iff safe_call_def custom_call_def split: option.splits)
  show ?thesis
    using assms calls
    by (auto simp: verifyCustomRelays_def test_inv_def tested_urls_def rf_toast_def set_results_def results_fold
        list_ex_iff list_all_iff Let_def simp flip: trimmed_def token_def)
qed

lemma click_test_inv: "test_inv URL s \<Longrightarrow> test_inv URL (test_click URL s)"
  using verify_test_inv [of URL s]
  by (cases "relayMode (rf_settings s)")
    (auto simp: test_click_def handleTestConnection_def test_inv_def tested_urls_def safe_call_def)

lemma answer_test_inv: "test_inv URL s \<Longrightarrow> test_inv URL (test_answer ok r s)"
  by (cases "rf_test s"; cases "the (rf_test s)")
    (auto simp: test_answer_def custom_verified_def default_verified_def test_inv_def tested_urls_def rf_toast_def
      set_results_def results_fold comp_def case_prod_beta Let_def split: sum.splits if_splits)

lemma event_test_inv: "test_inv URL s \<Longrightarrow> test_inv URL (relay_event_step IS_WEB URL s e)"
proof (cases e)
  case RfTest
  then show "test_inv URL s \<Longrightarrow> ?thesis" by (simp add: click_test_inv)
next
  case (RfAnswer ok r)
  then show "test_inv URL s \<Longrightarrow> ?thesis" by (simp add: answer_test_inv)
qed (simp_all add: test_inv_def tested_urls_def handleModeChange_def handleFallbackChange_def updateUrl_def addUrl_def
    removeUrl_def setRelayAuthToken_def set_urls_def set_mode_def Let_def)

definition form_inv :: "bool \<Rightarrow> (string \<Rightarrow> url_parts option) \<Rightarrow> relay_form \<Rightarrow> bool" where
  "form_inv IS_WEB URL s \<longleftrightarrow>
     rows_inv s \<and> test_inv URL s \<and> (if IS_WEB then relayMode (rf_settings s) \<noteq> RDisabled else True)"

interpretation relay_form_machine: state_machine "RelaySettings IS_WEB st" "relay_form_step IS_WEB URL" "form_inv IS_WEB URL"
proof
  have "pre_rows s \<Longrightarrow> test_inv URL s \<Longrightarrow> form_inv IS_WEB URL (form_effects IS_WEB s)" for s
    by (simp add: form_inv_def effects_rows effects_mode)
  note effects = this
  show "form_inv IS_WEB URL (RelaySettings IS_WEB st)"
    unfolding RelaySettings_def by (rule effects) (simp_all add: pre_rows_def test_inv_def tested_urls_def)
  show "form_inv IS_WEB URL s \<Longrightarrow> form_inv IS_WEB URL (relay_form_step IS_WEB URL s e)" for s e
    unfolding relay_form_step_def
    by (rule effects) (simp_all add: form_inv_def rows_inv_def pre_rows_def event_keeps_ids event_test_inv)
qed

section \<open>The discovery form\<close>

text \<open>The form exists on native platforms only: in the browser it renders nothing.\<close>

datatype mark = MarkIdle | MarkOk | MarkFailed

record discovery_form =
  df_mode :: DiscoveryMode
  df_url :: string
  df_origin :: string
  df_isTesting :: bool
  verifyStatus :: mark
  df_calls :: "DiscoveryConfigArg list"
  df_toasts :: "toast list"

definition DiscoverySettings :: "DiscoveryMode \<Rightarrow> string \<Rightarrow> string \<Rightarrow> discovery_form" where
  "DiscoverySettings m url origin =
     \<lparr>df_mode = m, df_url = url, df_origin = origin, df_isTesting = False, verifyStatus = MarkIdle, df_calls = [], df_toasts = []\<rparr>"

definition df_toast :: "string \<Rightarrow> toast_text \<Rightarrow> toast_type \<Rightarrow> discovery_form \<Rightarrow> discovery_form" where [step_defs]:
  "df_toast title description ty s =
     s\<lparr>df_toasts := df_toasts s @ [\<lparr>toast_title = title, toast_description = description, toast_type = ty\<rparr>]\<rparr>"

definition df_valid :: "(string \<Rightarrow> url_parts option) \<Rightarrow> discovery_form \<Rightarrow> bool" where
  "df_valid URL s \<longleftrightarrow> length (js_trim (df_url s)) > 0 \<and> isValidDiscoveryUrl URL (js_trim (df_url s))"

definition isOriginInvalid :: "discovery_form \<Rightarrow> bool" where
  "isOriginInvalid s \<longleftrightarrow> length (js_trim (df_origin s)) > 0 \<and> \<not> isValidDnsOrigin (js_trim (df_origin s))"

definition discovery_mode_change :: "DiscoveryMode \<Rightarrow> discovery_form \<Rightarrow> discovery_form" where [step_defs]:
  "discovery_mode_change m s = s\<lparr>df_mode := m, verifyStatus := MarkIdle\<rparr>"

definition discovery_update_url :: "string \<Rightarrow> discovery_form \<Rightarrow> discovery_form" where [step_defs]:
  "discovery_update_url v s = s\<lparr>df_url := sanitizeUrlInput v, verifyStatus := MarkIdle\<rparr>"

definition updateDnsOrigin :: "string \<Rightarrow> discovery_form \<Rightarrow> discovery_form" where [step_defs]:
  "updateDnsOrigin v s = s\<lparr>df_origin := sanitizeDnsOriginInput v, verifyStatus := MarkIdle\<rparr>"

definition discovery_test :: "(string \<Rightarrow> url_parts option) \<Rightarrow> discovery_form \<Rightarrow> discovery_form" where [step_defs]:
  "discovery_test URL s =
     (if \<not> df_valid URL s \<or> isOriginInvalid s then
        df_toast ''settings.network.discovery.verifyFailed''
          (TextKey (if isOriginInvalid s then DNS_ORIGIN_INVALID_MESSAGE_KEY else DISCOVERY_URL_INVALID_MESSAGE_KEY)) TError s
      else
        let trimmed = js_trim (df_url s); trimmedOrigin = js_trim (df_origin s) in
        s\<lparr>df_isTesting := True, verifyStatus := MarkIdle,
          df_calls := df_calls s @
            [\<lparr>dc_mode = DCustom, pkarr_relay_url = Some trimmed,
              dns_origin = (if length trimmedOrigin > 0 then Some trimmedOrigin else None)\<rparr>]\<rparr>)"

definition discovery_click :: "(string \<Rightarrow> url_parts option) \<Rightarrow> discovery_form \<Rightarrow> discovery_form" where [step_defs]:
  "discovery_click URL s =
     (if df_isTesting s \<or> df_mode s \<noteq> DCustom \<or> isOriginInvalid s then s else discovery_test URL s)"

definition discovery_answer :: "(string option \<times> nat) result \<Rightarrow> discovery_form \<Rightarrow> discovery_form" where [step_defs]:
  "discovery_answer r s =
     (if \<not> df_isTesting s then s
      else
        (case r of
           Inl e \<Rightarrow> df_toast ''settings.network.discovery.verifyFailed'' (TextOf e) TError (s\<lparr>verifyStatus := MarkFailed\<rparr>)
         | Inr (url, latency) \<Rightarrow>
             df_toast ''settings.network.discovery.verifySuccess''
               (case url of
                  None \<Rightarrow> TextKey ''settings.network.discovery.verifySuccessDescGeneric''
                | Some u \<Rightarrow>
                    if u = [] then TextKey ''settings.network.discovery.verifySuccessDescGeneric'' else VerifiedUrl u latency)
               TSuccess (s\<lparr>verifyStatus := MarkOk\<rparr>))\<lparr>df_isTesting := False\<rparr>)"

datatype discovery_event =
    DfMode DiscoveryMode | DfUrl string | DfOrigin string | DfTest | DfAnswer "(string option \<times> nat) result"

fun discovery_step :: "(string \<Rightarrow> url_parts option) \<Rightarrow> discovery_form \<Rightarrow> discovery_event \<Rightarrow> discovery_form" where
  "discovery_step URL s (DfMode m) = discovery_mode_change m s"
| "discovery_step URL s (DfUrl v) = discovery_update_url v s"
| "discovery_step URL s (DfOrigin v) = updateDnsOrigin v s"
| "discovery_step URL s DfTest = discovery_click URL s"
| "discovery_step URL s (DfAnswer r) = discovery_answer r s"

definition safe_discovery_call :: "(string \<Rightarrow> url_parts option) \<Rightarrow> DiscoveryConfigArg \<Rightarrow> bool" where
  "safe_discovery_call URL c \<longleftrightarrow>
     dc_mode c = DCustom \<and>
     (case pkarr_relay_url c of None \<Rightarrow> False | Some u \<Rightarrow> isValidDiscoveryUrl URL u) \<and>
     (case dns_origin c of None \<Rightarrow> True | Some d \<Rightarrow> d \<noteq> [] \<and> isValidDnsOrigin d)"

definition discovery_inv :: "(string \<Rightarrow> url_parts option) \<Rightarrow> discovery_form \<Rightarrow> bool" where
  "discovery_inv URL s \<longleftrightarrow>
     list_all (safe_discovery_call URL) (df_calls s) \<and> (df_isTesting s \<longrightarrow> df_calls s \<noteq> [])"

interpretation discovery_machine: state_machine "DiscoverySettings m url origin" "discovery_step URL" "discovery_inv URL"
proof
  show "discovery_inv URL (DiscoverySettings m url origin)" by (simp add: discovery_inv_def DiscoverySettings_def)
  show "discovery_inv URL s \<Longrightarrow> discovery_inv URL (discovery_step URL s e)" for s e
  proof (cases e)
    case DfTest
    then show "discovery_inv URL s \<Longrightarrow> ?thesis"
      by (auto simp: discovery_inv_def step_defs safe_discovery_call_def df_valid_def isOriginInvalid_def Let_def)
  qed (auto simp: discovery_inv_def step_defs split: sum.splits)
qed

section \<open>Leaving the settings\<close>

text \<open>
  The guard is a child of the settings layout, so it exists exactly while the router shows that layout: \<open>layout p\<close> says for which paths
  it does. The guard's refs are taken when it is mounted. A navigation first asks the blocker; an allowed one changes the
  location and what is mounted in one render, and the effect of the guard runs only if the guard is still mounted.
\<close>

record guard =
  location :: string
  mounted :: bool
  g_relay :: RelayConfigInput
  g_discovery :: DiscoveryConfigInput
  initial_relay :: RelayConfigInput
  initial_discovery :: DiscoveryConfigInput
  wasInSettingsRef :: bool
  didSyncOnLeaveRef :: bool
  blocked :: "string option"
  g_nodeReady :: bool
  g_calls :: "(RelayConfigArg \<times> DiscoveryConfigArg) list"

definition sameStringList :: "string list \<Rightarrow> string list \<Rightarrow> bool" where
  "sameStringList a b = (if length a \<noteq> length b then False else list_all (\<lambda>i. a ! i = b ! i) [0..<length a])"

definition relayWarningType :: "guard \<Rightarrow> RelayMode option" where
  "relayWarningType s =
     getRelayChangeWarningType (relayMode (initial_relay s)) (relayFallback (initial_relay s))
       (relayMode (g_relay s)) (relayFallback (g_relay s))"

definition discoveryWarning :: "guard \<Rightarrow> bool" where
  "discoveryWarning s = shouldWarnDiscoveryChange (discoveryMode (initial_discovery s)) (discoveryMode (g_discovery s))"

definition shouldWarnLeave :: "guard \<Rightarrow> bool" where
  "shouldWarnLeave s \<longleftrightarrow> relayWarningType s \<noteq> None \<or> discoveryWarning s"

definition origin_of :: "DiscoveryConfigInput \<Rightarrow> string" where
  "origin_of d = (case dnsOrigin d of None \<Rightarrow> [] | Some s \<Rightarrow> s)"

definition networkSettingsChanged :: "guard \<Rightarrow> bool" where
  "networkSettingsChanged s \<longleftrightarrow>
     relayMode (g_relay s) \<noteq> relayMode (initial_relay s) \<or>
     relayFallback (g_relay s) \<noteq> relayFallback (initial_relay s) \<or>
     \<not> sameStringList (relayUrls (g_relay s)) (relayUrls (initial_relay s)) \<or>
     relayAuthToken (g_relay s) \<noteq> relayAuthToken (initial_relay s) \<or>
     discoveryMode (g_discovery s) \<noteq> discoveryMode (initial_discovery s) \<or>
     js_trim (pkarrRelayUrl (g_discovery s)) \<noteq> js_trim (pkarrRelayUrl (initial_discovery s)) \<or>
     js_trim (origin_of (g_discovery s)) \<noteq> js_trim (origin_of (initial_discovery s))"

definition shouldSyncNode :: "bool \<Rightarrow> guard \<Rightarrow> bool" where
  "shouldSyncNode capable s \<longleftrightarrow> capable \<and> g_nodeReady s \<and> networkSettingsChanged s"

text \<open>\<open>reconfigureNodeRelay\<close> calls the command on platforms that can pair.\<close>

definition syncNodeNetworkSettings :: "bool \<Rightarrow> guard \<Rightarrow> guard" where [step_defs]:
  "syncNodeNetworkSettings capable s =
     (if \<not> capable then s
      else s\<lparr>g_calls := g_calls s @ [(buildRelayConfigArg False (g_relay s), getDiscoveryConfigArg False (g_discovery s))]\<rparr>)"

definition in_settings :: "string \<Rightarrow> bool" where
  "in_settings p = js_starts_with p ''/settings''"

definition blocks :: "guard \<Rightarrow> string \<Rightarrow> bool" where
  "blocks s next \<longleftrightarrow> shouldWarnLeave s \<and> location s \<noteq> next \<and> \<not> in_settings next"

definition leave_effect :: "bool \<Rightarrow> guard \<Rightarrow> guard" where [step_defs]:
  "leave_effect capable s =
     (let inSettings = in_settings (location s); leftSettings = (wasInSettingsRef s \<and> \<not> inSettings);
          s1 = s\<lparr>wasInSettingsRef := inSettings\<rparr> in
      if \<not> leftSettings then s1
      else if didSyncOnLeaveRef s1 then s1\<lparr>didSyncOnLeaveRef := False\<rparr>
      else if \<not> shouldSyncNode capable s1 then s1
      else syncNodeNetworkSettings capable s1)"

definition mount_guard :: "guard \<Rightarrow> guard" where [step_defs]:
  "mount_guard s =
     s\<lparr>mounted := True, initial_relay := g_relay s, initial_discovery := g_discovery s,
       wasInSettingsRef := in_settings (location s), didSyncOnLeaveRef := False\<rparr>"

text \<open>The router shows a location: the guard stays, is mounted, or is gone.\<close>

definition show_location :: "(string \<Rightarrow> bool) \<Rightarrow> bool \<Rightarrow> string \<Rightarrow> guard \<Rightarrow> guard" where [step_defs]:
  "show_location layout capable p s =
     (let s1 = s\<lparr>location := p, blocked := None\<rparr> in
      if \<not> layout p then s1\<lparr>mounted := False\<rparr>
      else if mounted s1 then leave_effect capable s1
      else leave_effect capable (mount_guard s1))"

definition navigate :: "(string \<Rightarrow> bool) \<Rightarrow> bool \<Rightarrow> string \<Rightarrow> guard \<Rightarrow> guard" where [step_defs]:
  "navigate layout capable p s =
     (if mounted s \<and> blocks s p then s\<lparr>blocked := Some p\<rparr> else show_location layout capable p s)"

definition cancelLeave :: "guard \<Rightarrow> guard" where [step_defs]:
  "cancelLeave s = (if blocked s \<noteq> None then s\<lparr>blocked := None\<rparr> else s)"

definition confirmLeave :: "(string \<Rightarrow> bool) \<Rightarrow> bool \<Rightarrow> guard \<Rightarrow> guard" where [step_defs]:
  "confirmLeave layout capable s =
     (case blocked s of
        None \<Rightarrow> s
      | Some p \<Rightarrow>
          show_location layout capable p
            (let s1 = s\<lparr>didSyncOnLeaveRef := True\<rparr> in
             if capable \<and> g_nodeReady s1 then syncNodeNetworkSettings capable s1 else s1))"

datatype guard_event =
    GNavigate string | GCancel | GConfirm | GRelay RelayConfigInput | GDiscovery DiscoveryConfigInput | GNode bool

fun guard_step :: "(string \<Rightarrow> bool) \<Rightarrow> bool \<Rightarrow> guard \<Rightarrow> guard_event \<Rightarrow> guard" where
  "guard_step layout capable s (GNavigate p) = navigate layout capable p s"
| "guard_step layout capable s GCancel = cancelLeave s"
| "guard_step layout capable s GConfirm = confirmLeave layout capable s"
| "guard_step layout capable s (GRelay r) = (if mounted s then leave_effect capable (s\<lparr>g_relay := r\<rparr>) else s)"
| "guard_step layout capable s (GDiscovery d) = (if mounted s then leave_effect capable (s\<lparr>g_discovery := d\<rparr>) else s)"
| "guard_step layout capable s (GNode b) =
     (let s1 = s\<lparr>g_nodeReady := b\<rparr> in if mounted s then leave_effect capable s1 else s1)"

definition guard_start :: "string \<Rightarrow> RelayConfigInput \<Rightarrow> DiscoveryConfigInput \<Rightarrow> guard" where
  "guard_start p r d =
     \<lparr>location = p, mounted = False, g_relay = r, g_discovery = d, initial_relay = r, initial_discovery = d,
      wasInSettingsRef = False, didSyncOnLeaveRef = False, blocked = None, g_nodeReady = False, g_calls = []\<rparr>"

text \<open>What the dialog says, as translation keys.\<close>

definition dialogTitle :: "guard \<Rightarrow> string" where
  "dialogTitle s =
     (if relayWarningType s = Some RDisabled then ''settings.network.relay.confirmDisableTitle''
      else if relayWarningType s = Some RCustom then ''settings.network.relay.confirmCustomTitle''
      else ''settings.network.discovery.confirmCustomTitle'')"

definition dialogDescription :: "guard \<Rightarrow> string list" where
  "dialogDescription s =
     (if relayWarningType s = Some RDisabled then [''settings.network.relay.confirmDisableDescription'']
      else if relayWarningType s = Some RCustom then [''settings.network.relay.confirmCustomDescriptionWithPolicy'']
      else []) @
     (if discoveryWarning s then [''settings.network.discovery.confirmCustomDescription''] else [])"

lemma dialog_says_why: "dialogDescription s \<noteq> [] \<longleftrightarrow> shouldWarnLeave s"
  by (auto simp: dialogDescription_def shouldWarnLeave_def relayWarningType_def getRelayChangeWarningType_def)

section \<open>The first push of the configuration\<close>

text \<open>
  \<open>DeviceNodeSync\<close> pushes relay, discovery and discoverability settings when the node becomes ready; the effect depends on the
  readiness only, so a report that does not change it runs nothing.
\<close>

record node_sync =
  sync_ready :: bool
  didSyncRelay :: bool
  relay_pushes :: nat
  discoverability_pushes :: nat
  sync_in_flight :: nat

definition node_sync_start :: node_sync where
  "node_sync_start = \<lparr>sync_ready = False, didSyncRelay = False, relay_pushes = 0, discoverability_pushes = 0, sync_in_flight = 0\<rparr>"

definition sync_effect :: "bool \<Rightarrow> node_sync \<Rightarrow> node_sync" where [step_defs]:
  "sync_effect capable s =
     (if \<not> capable \<or> \<not> sync_ready s \<or> didSyncRelay s then s
      else s\<lparr>didSyncRelay := True, relay_pushes := Suc (relay_pushes s), sync_in_flight := Suc (sync_in_flight s),
             discoverability_pushes := Suc (discoverability_pushes s)\<rparr>)"

datatype sync_event = SyncReady bool | SyncAnswer bool

fun sync_step :: "bool \<Rightarrow> node_sync \<Rightarrow> sync_event \<Rightarrow> node_sync" where
  "sync_step capable s (SyncReady b) = (if b = sync_ready s then s else sync_effect capable (s\<lparr>sync_ready := b\<rparr>))"
| "sync_step capable s (SyncAnswer ok) =
     (if sync_in_flight s = 0 then s
      else s\<lparr>sync_in_flight := sync_in_flight s - 1, didSyncRelay := (if ok then didSyncRelay s else False)\<rparr>)"

definition sync_inv :: "node_sync \<Rightarrow> bool" where
  "sync_inv s \<longleftrightarrow>
     sync_in_flight s \<le> 1 \<and> (sync_in_flight s = 1 \<longrightarrow> didSyncRelay s) \<and> discoverability_pushes s = relay_pushes s"

interpretation sync_machine: state_machine node_sync_start "sync_step capable" sync_inv
proof
  show "sync_inv node_sync_start" by (simp add: sync_inv_def node_sync_start_def)
  show "sync_inv s \<Longrightarrow> sync_inv (sync_step capable s e)" for s e
    by (cases e) (auto simp: sync_inv_def step_defs)
qed

text \<open>
  One push is in flight at a time, and once one has succeeded the settings are not pushed again by this component, whatever
  the node reports.
\<close>

theorem startup_push_once:
  fixes capable es
  defines "s \<equiv> run_ops (sync_step capable) node_sync_start es"
  shows "sync_in_flight s \<le> 1 \<and>
    relay_pushes (run_ops (sync_step capable) (sync_step capable s (SyncAnswer True)) (map SyncReady bs)) =
      (if sync_in_flight s = 1 then relay_pushes s
       else relay_pushes (run_ops (sync_step capable) s (map SyncReady bs)))"
proof -
  have inv: "sync_inv s" unfolding s_def by (rule sync_machine.reachable_inv)
  have "relay_pushes (run_ops (sync_step capable) u (map SyncReady bs)) = relay_pushes u" if "didSyncRelay u" for u
    using that by (induction bs arbitrary: u) (simp_all add: step_defs)
  then show ?thesis using inv by (auto simp: sync_inv_def)
qed

section \<open>Properties\<close>

text \<open>
  C11. Testing relays is safe. Whatever is typed, clicked and answered, in any order, every command that tests a relay is either the test of the
  default relays, without an address and without a token, or names one valid address, and if it carries the access token that address is
  reached over https. A test is running exactly while the button shows it, an address is marked as being
  checked exactly while it is part of the running test, every address has a row of its own with its own id, and in the browser relays are never disabled.
\<close>

theorem relay_form_safe:
  fixes IS_WEB URL st es
  defines "s \<equiv> run_ops (relay_form_step IS_WEB URL) (RelaySettings IS_WEB st) es"
  shows "list_all (\<lambda>c. case rc_urls c of
        [] \<Rightarrow> rc_mode c = RDefault \<and> rc_auth_token c = None
      | [u] \<Rightarrow>
          rc_mode c = RCustom \<and> isValidRelayUrl URL u \<and>
          (case rc_auth_token c of None \<Rightarrow> True | Some _ \<Rightarrow> map_option protocol (URL u) = Some ''https:'')
      | _ \<Rightarrow> False) (rf_calls s) \<and>
    rf_isTesting s = (rf_test s \<noteq> None) \<and>
    {u. verifyResults s u = Some Checking} = (case rf_test s of Some (TestCustom us _) \<Rightarrow> set us | _ \<Rightarrow> {}) \<and>
    length (urlRowIds s) = length (relayUrls (rf_settings s)) \<and> distinct (urlRowIds s) \<and>
    (if IS_WEB then relayMode (rf_settings s) \<noteq> RDisabled else True)"
proof -
  have inv: "form_inv IS_WEB URL s" unfolding s_def by (rule relay_form_machine.reachable_inv)
  then have "list_all (safe_call URL) (rf_calls s)" by (simp add: form_inv_def test_inv_def)
  then show ?thesis
    using inv unfolding safe_call_def by (simp add: form_inv_def test_inv_def rows_inv_def tested_urls_def)
qed

text \<open>
  What is typed is kept but for the characters that are not allowed and what exceeds the limit; sanitizing again changes nothing.
\<close>

theorem sanitized_input:
  "sanitizeRelayUrlInput v = take 2048 (filter (\<lambda>c. \<not> isDisallowedRelayUrlChar c) v) \<and>
   sanitizeUrlInput v = take 2048 (filter (\<lambda>c. \<not> isDisallowedRelayUrlChar c) v) \<and>
   sanitizeDnsOriginInput v = take 253 (filter (\<lambda>c. \<not> isDisallowedRelayUrlChar c) v) \<and>
   sanitizeRelayUrlInput (sanitizeRelayUrlInput v) = sanitizeRelayUrlInput v \<and>
   hasDisallowedDnsOriginChar (sanitizeDnsOriginInput v) = False"
proof -
  have clean: "filter (\<lambda>c. \<not> P c) (take n (filter (\<lambda>c. \<not> P c) v)) = take n (filter (\<lambda>c. \<not> P c) v)" for P :: "char \<Rightarrow> bool" and n
    by (auto simp: filter_id_conv dest: in_set_takeD)
  have same: "(\<lambda>c. \<not> isDisallowedUrlChar c) = (\<lambda>c. \<not> isDisallowedRelayUrlChar c)" by (simp add: disallowed_same)
  have "\<not> list_ex isDisallowedUrlChar (take n (filter (\<lambda>c. \<not> isDisallowedUrlChar c) v))" for n
    by (auto simp: list_ex_iff dest: in_set_takeD)
  then show ?thesis
    by (simp add: sanitizeRelayUrlInput_def sanitizeUrlInput_def sanitizeDnsOriginInput_def sanitize_loop_eq same
        disallowed_dns clean MAX_RELAY_URL_LENGTH_def MAX_DISCOVERY_URL_LENGTH_def MAX_DNS_ORIGIN_LENGTH_def)
qed

text \<open>
  A test of custom relays covers every address once and reports what was found: each distinct address of the list is tested by one command with the
  token and the fallback of the form, and once they have settled every tested address is marked with its outcome, no other mark has changed, the
  button is free again, and the toast says success if all were reached, failure if none was, and a partial result otherwise.
\<close>

theorem relay_test_reports:
  assumes "relayMode (rf_settings s) = RCustom" "\<not> rf_isTesting s"
    and "js_filter_boolean (map js_trim (relayUrls (rf_settings s))) \<noteq> []"
    and "\<forall>u\<in>set (js_filter_boolean (map js_trim (relayUrls (rf_settings s)))). isValidRelayUrl URL u \<and>
      (relayAuthToken (rf_settings s) = [] \<or> map_option protocol (URL u) = Some ''https:'')"
  shows "let tested = foldl js_set_add [] (js_filter_boolean (map js_trim (relayUrls (rf_settings s))));
             s1 = test_click URL s; s2 = test_answer ok r s1 in
    rf_calls s1 = rf_calls s @
      map (\<lambda>u. \<lparr>rc_mode = RCustom, rc_urls = [u],
                rc_auth_token = (if relayAuthToken (rf_settings s) = [] then None else Some (relayAuthToken (rf_settings s))),
                rc_fallback = relayFallback (rf_settings s)\<rparr>) tested \<and>
    distinct tested \<and> set tested = {js_trim u |u. u \<in> set (relayUrls (rf_settings s)) \<and> js_trim u \<noteq> []} \<and>
    verifyResults s2 = (\<lambda>u. if u \<in> set tested then Some (if ok u then VerifyOk else VerifyFailed) else verifyResults s u) \<and>
    rf_isTesting s2 = False \<and>
    toast_type (last (rf_toasts s2)) = (if \<forall>u\<in>set tested. ok u then TSuccess else if \<exists>u\<in>set tested. ok u then TInfo else TError)"
proof -
  define us where "us = js_filter_boolean (map js_trim (relayUrls (rf_settings s)))"
  define tested where "tested = foldl js_set_add [] us"
  define token where "token = relayAuthTokenForIpc (relayAuthToken (rf_settings s))"
  define s1 where "s1 = test_click URL s"
  have token_eq: "token = (if relayAuthToken (rf_settings s) = [] then None else Some (relayAuthToken (rf_settings s)))"
    by (simp add: token_def relayAuthTokenForIpc_def)
  have valid: "\<not> list_ex (\<lambda>u. \<not> isValidRelayUrl URL u) us"
      "\<not> (token \<noteq> None \<and> list_ex (\<lambda>u. map_option protocol (URL u) \<noteq> Some ''https:'') us)"
    using assms(4) by (auto simp: list_ex_iff token_eq simp flip: us_def)
  have s1: "s1 = (set_results (map (\<lambda>u. (u, Checking)) tested) (s\<lparr>rf_isTesting := True\<rparr>))
      \<lparr>rf_calls := rf_calls s @ map (custom_call s token) tested, rf_test := Some (TestCustom tested token)\<rparr>"
    using assms(1-3) valid
    by (auto simp: s1_def test_click_def handleTestConnection_def verifyCustomRelays_def Let_def
        simp flip: us_def token_def tested_def)
  have s2: "test_answer ok r s1 = custom_verified tested token ok s1" by (simp add: test_answer_def s1)
  have count: "length (filter snd (map (\<lambda>u. (u, ok u)) tested)) = length (filter ok tested)"
    by (simp add: filter_map comp_def)
  have all: "length (filter ok tested) = length tested \<longleftrightarrow> (\<forall>u\<in>set tested. ok u)"
    by (metis filter_id_conv filter_True length_filter_less less_irrefl)
  have some: "0 < length (filter ok tested) \<longleftrightarrow> (\<exists>u\<in>set tested. ok u)"
    by (simp add: filter_empty_conv)
  have res: "verifyResults (test_answer ok r s1) =
      (\<lambda>u. if u \<in> set tested then Some (if ok u then VerifyOk else VerifyFailed) else verifyResults s u)"
    unfolding s2 by (simp add: custom_verified_def s1 set_results_def results_fold rf_toast_def comp_def Let_def fun_eq_iff)
  have ty: "toast_type (last (rf_toasts (test_answer ok r s1))) =
      (if \<forall>u\<in>set tested. ok u then TSuccess else if \<exists>u\<in>set tested. ok u then TInfo else TError)"
    unfolding s2 custom_verified_def count all some Let_def by (simp add: rf_toast_def all some)
  have "set tested = {js_trim u |u. u \<in> set (relayUrls (rf_settings s)) \<and> js_trim u \<noteq> []}"
    by (auto simp: tested_def us_def js_filter_boolean_def)
  moreover have "rf_calls s1 = rf_calls s @ map (custom_call s token) tested" by (simp add: s1)
  moreover have "rf_isTesting (test_answer ok r s1) = False" by (simp add: s2 custom_verified_def rf_toast_def Let_def)
  moreover have "distinct tested" by (simp add: tested_def)
  ultimately show ?thesis
    using res ty by (simp add: custom_call_def token_eq Let_def flip: us_def tested_def s1_def)
qed

definition demo_url :: "string \<Rightarrow> url_parts option" where
  "demo_url u = Some \<lparr>protocol = ''https:'', hostname = ''h'', username = [], password = []\<rparr>"

definition demo_relay :: RelayConfigInput where
  "demo_relay = \<lparr>relayMode = RCustom, relayUrls = [''a'', ''b'', ''a''], relayAuthToken = ''t'', relayFallback = FStrict\<rparr>"

theorem relay_test_reports_witness:
  "rf_calls (test_click demo_url (RelaySettings False demo_relay)) =
     [\<lparr>rc_mode = RCustom, rc_urls = [''a''], rc_auth_token = Some ''t'', rc_fallback = FStrict\<rparr>,
      \<lparr>rc_mode = RCustom, rc_urls = [''b''], rc_auth_token = Some ''t'', rc_fallback = FStrict\<rparr>]"
proof -
  have n: "js_trim ''a'' = ''a''" "js_trim ''b'' = ''b''" by (simp_all add: js_trim_def js_space_def char_code_def)
  have st: "rf_settings (RelaySettings False demo_relay) = demo_relay" "\<not> rf_isTesting (RelaySettings False demo_relay)"
    "rf_calls (RelaySettings False demo_relay) = []"
    by (simp_all add: RelaySettings_def form_effects_def step_defs Let_def)
  have v: "isValidRelayUrl demo_url [c]" "\<exists>z. demo_url [c] = Some z \<and> protocol z = ''https:''" for c
    by (simp_all add: isValidRelayUrl_def demo_url_def MAX_RELAY_URL_LENGTH_def)
  have us: "js_filter_boolean (map js_trim (relayUrls demo_relay)) = [''a'', ''b'', ''a'']"
      "foldl js_set_add [] [''a'', ''b'', ''a''] = [''a'', ''b'']"
    by (simp_all add: demo_relay_def n js_filter_boolean_def js_set_add_def)
  have d: "relayMode demo_relay = RCustom" "relayAuthToken demo_relay = ''t''" "relayFallback demo_relay = FStrict"
    by (simp_all add: demo_relay_def)
  show ?thesis
    using relay_test_reports [of "RelaySettings False demo_relay" demo_url "\<lambda>_. True" "Inr (None, 0)"]
    unfolding st us d Let_def by (simp add: v st(2) del: foldl_Cons)
qed

text \<open>
  A row that has just been added is drawn without a key, since its id is made by the effect after the render; the next change draws it with that
  id, so the row is a new element and the input loses the focus after the first character.
\<close>

theorem added_row_rekeyed:
  fixes IS_WEB URL st es v
  defines "s \<equiv> run_ops (relay_form_step IS_WEB URL) (RelaySettings IS_WEB st) es"
  defines "n \<equiv> length (relayUrls (rf_settings s))"
  shows "row_keys (relay_form_step IS_WEB URL s RfAdd) ! n = None \<and>
    row_keys (relay_form_step IS_WEB URL (relay_form_step IS_WEB URL s RfAdd) (RfUpdate n v)) ! n = Some (next_uuid s)"
proof -
  have "rows_inv s"
    unfolding s_def using relay_form_machine.reachable_inv [of IS_WEB URL st es] by (simp add: form_inv_def)
  then have "length (urlRowIds s) = n" by (simp add: rows_inv_def n_def)
  then show ?thesis
    by (simp add: relay_form_step_def form_effects_def step_defs Let_def nth_append flip: n_def)
qed

text \<open>
  The discovery form sends only valid addresses and origins, and tests one address at a time.
\<close>

theorem discovery_form_safe:
  "list_all (safe_discovery_call URL) (df_calls (run_ops (discovery_step URL) (DiscoverySettings m url origin) es))"
  using discovery_machine.reachable_inv [of URL m url origin es] by (simp add: discovery_inv_def)

text \<open>
  The mark of a running test is set on whatever the field holds when the answer comes: an address typed during the test is marked
  as verified, although only the former one was tested.
\<close>

theorem late_discovery_mark:
  assumes "df_isTesting s"
  shows "let s1 = discovery_step URL s (DfUrl v); s2 = discovery_step URL s1 (DfAnswer (Inr x)) in
    df_url s2 = sanitizeUrlInput v \<and> verifyStatus s2 = MarkOk \<and> df_calls s2 = df_calls s"
  using assms by (cases x) (simp add: step_defs Let_def)

definition guard_inv :: "guard \<Rightarrow> bool" where
  "guard_inv s \<longleftrightarrow>
     (mounted s \<longrightarrow> in_settings (location s)) \<and> (\<forall>p. blocked s = Some p \<longrightarrow> mounted s \<and> \<not> in_settings p)"

lemma leave_effect_inside:
  "in_settings (location s) \<Longrightarrow> leave_effect capable s = s\<lparr>wasInSettingsRef := True\<rparr>"
  by (simp add: leave_effect_def Let_def)

lemma show_location_eq:
  assumes "\<And>p. layout p \<Longrightarrow> in_settings p"
  shows "guard_inv (show_location layout capable p s)" "g_calls (show_location layout capable p s) = g_calls s"
    "location (show_location layout capable p s) = p"
  using assms by (auto simp: show_location_def guard_inv_def mount_guard_def leave_effect_inside Let_def)

lemma guard_step_inv:
  assumes "\<And>p. layout p \<Longrightarrow> in_settings p" "guard_inv s"
  shows "guard_inv (guard_step layout capable s e)"
    "e \<noteq> GConfirm \<Longrightarrow> g_calls (guard_step layout capable s e) = g_calls s"
proof -
  note show_eq = show_location_eq [OF assms(1)]
  have upd: "guard_inv (leave_effect capable (s\<lparr>g_relay := r\<rparr>)) \<and> g_calls (leave_effect capable (s\<lparr>g_relay := r\<rparr>)) = g_calls s"
    "guard_inv (leave_effect capable (s\<lparr>g_discovery := d\<rparr>)) \<and> g_calls (leave_effect capable (s\<lparr>g_discovery := d\<rparr>)) = g_calls s"
    "guard_inv (leave_effect capable (s\<lparr>g_nodeReady := b\<rparr>)) \<and> g_calls (leave_effect capable (s\<lparr>g_nodeReady := b\<rparr>)) = g_calls s"
    if "mounted s" for r d b
    using that assms(2) by (auto simp: guard_inv_def leave_effect_inside)
  show "guard_inv (guard_step layout capable s e)"
    using assms(2) upd show_eq
    by (cases e) (auto simp: navigate_def cancelLeave_def confirmLeave_def guard_inv_def blocks_def Let_def split: option.splits)
  show "e \<noteq> GConfirm \<Longrightarrow> g_calls (guard_step layout capable s e) = g_calls s"
    using assms(2) upd show_eq by (cases e) (auto simp: navigate_def cancelLeave_def Let_def)
qed

lemma guard_reachable:
  assumes "\<And>p. layout p \<Longrightarrow> in_settings p"
  shows "guard_inv (run_ops (guard_step layout capable) (guard_start p r d) es)"
proof -
  have machine: "state_machine (guard_start p r d) (guard_step layout capable) guard_inv"
    by unfold_locales (simp_all add: guard_step_inv [OF assms], simp add: guard_inv_def guard_start_def)
  show ?thesis by (rule state_machine.reachable_inv [OF machine])
qed

text \<open>What the user does inside the settings: edits, changes of the node, a cancelled dialog and moves between the pages.\<close>

definition inside_event :: "(string \<Rightarrow> bool) \<Rightarrow> guard_event \<Rightarrow> bool" where
  "inside_event layout e = (case e of GNavigate x \<Rightarrow> layout x | GConfirm \<Rightarrow> False | _ \<Rightarrow> True)"

definition inside_inv :: "RelayConfigInput \<Rightarrow> DiscoveryConfigInput \<Rightarrow> (RelayConfigArg \<times> DiscoveryConfigArg) list \<Rightarrow> guard \<Rightarrow> bool" where
  "inside_inv r d calls s \<longleftrightarrow>
     mounted s \<and> in_settings (location s) \<and> initial_relay s = r \<and> initial_discovery s = d \<and> g_calls s = calls"

lemma inside_step:
  assumes "\<And>p. layout p \<Longrightarrow> in_settings p" "inside_inv r d calls s" "inside_event layout e"
  shows "inside_inv r d calls (guard_step layout capable s e)"
  using assms(2,3) assms(1)
  by (cases e) (auto simp: inside_inv_def inside_event_def navigate_def blocks_def show_location_def cancelLeave_def
      leave_effect_inside Let_def)

lemma inside_run:
  assumes "\<And>p. layout p \<Longrightarrow> in_settings p" "inside_inv r d calls s" "list_all (inside_event layout) es"
  shows "inside_inv r d calls (run_ops (guard_step layout capable) s es)"
  using assms(2,3) by (induction es arbitrary: s) (auto intro: inside_step [OF assms(1)])

lemma enter_settings:
  assumes "\<And>p. layout p \<Longrightarrow> in_settings p" "layout q" "\<not> mounted s"
  shows "inside_inv (g_relay s) (g_discovery s) (g_calls s) (guard_step layout capable s (GNavigate q))"
  using assms(2,3) assms(1) [OF assms(2)]
  by (simp add: inside_inv_def navigate_def show_location_def mount_guard_def leave_effect_inside Let_def)


definition demo_layout :: "string \<Rightarrow> bool" where
  "demo_layout p \<longleftrightarrow> p \<in> {''/settings'', ''/settings/appearance'', ''/settings/network'', ''/settings/devices''}"

lemma demo_layout_settings: "demo_layout p \<Longrightarrow> in_settings p"
  by (auto simp: demo_layout_def in_settings_def js_starts_with_def)

definition demo_discovery :: DiscoveryConfigInput where
  "demo_discovery = \<lparr>discoveryMode = DDefault, pkarrRelayUrl = [], dnsOrigin = None\<rparr>"

definition network_visit :: "RelayConfigInput \<Rightarrow> guard_event list" where
  "network_visit r = [GNode True, GNavigate ''/settings/network'', GRelay r, GNavigate ''/'']"


text \<open>
  Edits that raise no warning are not pushed. The guard is part of the layout that disappears with the settings, so its effect for leaving
  them never runs outside: without a confirmed dialog the node is never told of a changed address or token, though the comment of the guard says it
  is when the settings are left.
\<close>

theorem silent_edits_not_pushed:
  assumes "\<And>p. layout p \<Longrightarrow> in_settings p" "GConfirm \<notin> set es"
  shows "g_calls (run_ops (guard_step layout capable) (guard_start p0 r d) es) = []"
  using assms(2)
proof (induction es rule: rev_induct)
  case (snoc e es)
  then show ?case
    using guard_step_inv(2) [OF assms(1) guard_reachable [OF assms(1)], where e = e and capable = capable] by auto
qed (simp add: guard_start_def)

theorem silent_edits_not_pushed_witness:
  "let s = run_ops (guard_step demo_layout True) (guard_start ''/'' demo_relay demo_discovery)
             (network_visit (demo_relay\<lparr>relayAuthToken := ''new''\<rparr>)) in
   location s = ''/'' \<and> networkSettingsChanged s \<and> g_nodeReady s \<and> g_calls s = []"
proof -
  define s where "s = run_ops (guard_step demo_layout True) (guard_start ''/'' demo_relay demo_discovery)
    (network_visit (demo_relay\<lparr>relayAuthToken := ''new''\<rparr>))"
  have "location s = ''/'' \<and> networkSettingsChanged s \<and> g_nodeReady s"
    unfolding s_def network_visit_def
    by (simp add: guard_start_def step_defs demo_layout_def in_settings_def js_starts_with_def shouldWarnLeave_def relayWarningType_def
        discoveryWarning_def shouldWarnDiscoveryChange_def blocks_def networkSettingsChanged_def
        getRelayChangeWarningType_def demo_relay_def demo_discovery_def Let_def)
  then show ?thesis
    using silent_edits_not_pushed [OF demo_layout_settings, where es = "network_visit (demo_relay\<lparr>relayAuthToken := ''new''\<rparr>)" and
        capable = True and ?p0.0 = "''/''" and r = demo_relay and d = demo_discovery]
    by (simp add: s_def network_visit_def Let_def)
qed

end
