(* ===== verification/Transfer_View.thy ===== *)
theory Transfer_View
  imports JS_Json
begin

text \<open>
  What the user sees of a transfer: \<open>lib/transfer-events.ts\<close>, \<open>lib/transfer-history.ts\<close>,
  \<open>lib/history-open-target.ts\<close>, \<open>lib/receive-link.ts\<close>, \<open>lib/receive-save-path.ts\<close>,
  \<open>utils/etaUtils.ts\<close> and \<open>formatFileSize\<close> of \<open>lib/utils.ts\<close>.

  Quotients are exact rationals, and \<open>toFixed\<close> rounds the exact value half up, as the language
  prescribes for it. \<open>new URL(..)\<close> is the parameter \<open>URL\<close>: the path of the address and its \<open>ticket\<close>
  parameter, or \<^const>\<open>None\<close> when it throws.
\<close>

section \<open>Numbers in text\<close>

text \<open>\<open>Number.parseInt(s, 10)\<close>, with \<^const>\<open>None\<close> for \<open>NaN\<close>: white space, a sign, and the digits that follow.\<close>

definition js_parse_int :: "string \<Rightarrow> int option" where
  "js_parse_int s =
     (let t = dropWhile js_space s;
          neg = (t \<noteq> [] \<and> hd t = CHR ''-'');
          u = (if t \<noteq> [] \<and> (hd t = CHR ''-'' \<or> hd t = CHR ''+'') then tl t else t);
          ds = takeWhile js_digit u
      in if ds = [] then None
         else Some (if neg then - int (digits_val ds) else int (digits_val ds)))"

text \<open>\<open>x.toFixed(f)\<close> of a number that is not negative.\<close>

definition js_pad_zeros :: "nat \<Rightarrow> string \<Rightarrow> string" where
  "js_pad_zeros w s = replicate (w - length s) CHR ''0'' @ s"

definition js_to_fixed :: "nat \<Rightarrow> rat \<Rightarrow> string" where
  "js_to_fixed f x =
     (let n = nat \<lfloor>x * 10 ^ f + 1 / 2\<rfloor> in
      if f = 0 then show_nat n
      else show_nat (n div 10 ^ f) @ ''.'' @ js_pad_zeros f (show_nat (n mod 10 ^ f)))"

section \<open>Telemetry of the engine\<close>

record TransferProgress =
  bytesTransferred :: int
  totalBytes :: int
  speedBps :: rat
  percentage :: rat
  etaSeconds :: "rat option"

record TransferCompletion =
  tc_durationMs :: rat
  tc_exportMs :: "rat option"
  tc_outputDir :: "string option"

definition parseProgressPayload :: "string \<Rightarrow> TransferProgress option" where
  "parseProgressPayload payload =
     (let parts = js_split CHR '':'' payload in
      if length parts \<noteq> 3 then None
      else
        case (js_parse_int (parts ! 0), js_parse_int (parts ! 1), js_parse_int (parts ! 2)) of
          (Some bytes, Some tot, Some speedInt) \<Rightarrow>
            let speed = max (rat_of_int speedInt / 1000) 0;
                pct = (if tot > 0 then min (rat_of_int bytes / rat_of_int tot * 100) 100 else 0);
                remaining = max (tot - bytes) 0;
                eta = (if speed > 0 \<and> remaining > 0 then Some (rat_of_int remaining / speed) else None)
            in Some \<lparr>bytesTransferred = bytes, totalBytes = tot, speedBps = speed, percentage = pct,
                     etaSeconds = eta\<rparr>
        | _ \<Rightarrow> None)"

definition finite_num :: "jsval \<Rightarrow> rat option" where
  "finite_num v = (case v of Num (Fin q) \<Rightarrow> Some q | _ \<Rightarrow> None)"

definition parseCompletionPayload :: "jsval \<Rightarrow> TransferCompletion option" where
  "parseCompletionPayload payload =
     (case payload of
        Str text \<Rightarrow>
          (case JSON_parse text of
             None \<Rightarrow> None
           | Some parsed \<Rightarrow>
               (case js_get parsed ''durationMs'' of
                  Inl _ \<Rightarrow> None
                | Inr d \<Rightarrow>
                    (case finite_num d of
                       None \<Rightarrow> None
                     | Some durationMs \<Rightarrow>
                         Some \<lparr>tc_durationMs = durationMs,
                               tc_exportMs = finite_num (js_opt_get parsed ''exportMs''),
                               tc_outputDir =
                                 (case js_opt_get parsed ''outputDir'' of
                                    Str dir \<Rightarrow> if dir \<noteq> [] then Some dir else None
                                  | _ \<Rightarrow> None)\<rparr>)))
      | _ \<Rightarrow> None)"

definition formatETA :: "jsnum \<Rightarrow> string" where
  "formatETA seconds =
     (case seconds of
        Fin q \<Rightarrow>
          if q < 0 then ''--''
          else
            let minutes = nat \<lfloor>q / 60\<rfloor>; remainingSeconds = nat \<lfloor>q - 60 * of_int \<lfloor>q / 60\<rfloor>\<rfloor> in
            if minutes > 0 then show_nat minutes @ '' min '' @ show_nat remainingSeconds @ '' sec''
            else show_nat remainingSeconds @ '' sec''
      | _ \<Rightarrow> ''--'')"

section \<open>History\<close>

datatype TransferHistoryDirection = HSend | HReceive

datatype TransferHistoryStatus = HInProgress | HCompleted | HFailed | HCancelled | HInterrupted

datatype TransferHistoryPathType = HFile | HDirectory

datatype TransferStatusFilter = FAll | FStatus TransferHistoryStatus

definition TRANSFER_STATUS_FILTERS :: "TransferStatusFilter list" where
  "TRANSFER_STATUS_FILTERS =
     [FAll, FStatus HCompleted, FStatus HFailed, FStatus HCancelled, FStatus HInterrupted]"

record TransferHistoryPeer =
  hp_endpointId :: string
  hp_displayName :: "string option"
  hp_deviceType :: "string option"

record TransferRecord =
  h_id :: string
  h_direction :: TransferHistoryDirection
  h_status :: TransferHistoryStatus
  h_startedAt :: nat
  h_endedAt :: "nat option"
  h_durationMs :: "nat option"
  h_exportMs :: "nat option"
  h_payloadBytes :: nat
  h_bytesTransferred :: nat
  h_avgSpeedBps :: "rat option"
  h_itemCount :: nat
  h_pathType :: "TransferHistoryPathType option"
  h_rootName :: string
  h_fileNames :: "string list"
  h_fileNamesTruncated :: bool
  h_blobHash :: "string option"
  h_peer :: "TransferHistoryPeer option"
  h_peerCount :: nat
  h_savePath :: "string option"
  h_saveUri :: "string option"
  h_conflictCount :: nat
  h_resumableStorePath :: "string option"
  h_error :: "string option"

record KnownDevice =
  kd_endpoint_id :: string
  kd_display_name :: string

definition filterTransferHistory :: "TransferRecord list \<Rightarrow> TransferStatusFilter \<Rightarrow> TransferRecord list" where
  "filterTransferHistory records status =
     filter (\<lambda>record. status = FAll \<or> status = FStatus (h_status record)) records"

definition resolvePeerLabel :: "TransferRecord \<Rightarrow> KnownDevice list \<Rightarrow> string option" where
  "resolvePeerLabel record pairedDevices =
     (case h_peer record of
        None \<Rightarrow> None
      | Some peer \<Rightarrow>
          (case find (\<lambda>d. js_lower (kd_endpoint_id d) = js_lower (hp_endpointId peer)) pairedDevices of
             Some current \<Rightarrow> Some (kd_display_name current)
           | None \<Rightarrow> hp_displayName peer))"

datatype TransferItemSummary = SNamed string | SCounted nat | SUnknown

definition summarizeTransferItems :: "TransferRecord \<Rightarrow> TransferItemSummary" where
  "summarizeTransferItems record =
     (if h_itemCount record = 1 \<and> h_rootName record \<noteq> [] then SNamed (h_rootName record)
      else if h_itemCount record > 1 then SCounted (h_itemCount record)
      else if h_rootName record \<noteq> [] then SNamed (h_rootName record) else SUnknown)"

definition formatTransferDuration :: "nat option \<Rightarrow> string option" where
  "formatTransferDuration duration =
     (case duration of
        None \<Rightarrow> None
      | Some ms \<Rightarrow>
          if ms = 0 then None
          else if ms < 1000 then Some (show_nat ms @ ''ms'')
          else if ms < 60000 then Some (js_to_fixed 1 (rat_of_nat ms / 1000) @ ''s'')
          else Some (show_nat (ms div 60000) @ ''m '' @ js_to_fixed 1 (rat_of_nat (ms mod 60000) / 1000) @ ''s''))"

definition formatTransferSpeed :: "rat option \<Rightarrow> string option" where
  "formatTransferSpeed bytesPerSecond =
     (case bytesPerSecond of
        None \<Rightarrow> None
      | Some b \<Rightarrow>
          if b \<le> 0 then None
          else
            let mbps = b / (1024 * 1024) in
            if mbps \<ge> 1 then Some (js_to_fixed 2 mbps @ '' MB/s'')
            else Some (js_to_fixed 2 (b / 1024) @ '' KB/s''))"

datatype HistoryOpenTarget = OpenFolder string | OpenDownloads string

text \<open>\<open>s.replace(/^\/+|\/+$/g, '')\<close>.\<close>

definition strip_slashes :: "string \<Rightarrow> string" where
  "strip_slashes s =
     (let front = dropWhile (\<lambda>c. c = CHR ''/'') s in
      rev (dropWhile (\<lambda>c. c = CHR ''/'') (rev front)))"

definition opt_trim :: "string option \<Rightarrow> string" where
  "opt_trim s = (case s of None \<Rightarrow> [] | Some t \<Rightarrow> js_trim t)"

definition resolveAndroidOpenTarget :: "string option \<Rightarrow> string option \<Rightarrow> HistoryOpenTarget option" where
  "resolveAndroidOpenTarget saveUri savePath =
     (if opt_trim saveUri \<noteq> [] then Some (OpenFolder (opt_trim saveUri))
      else
        let relativePath = strip_slashes (opt_trim savePath) in
        if relativePath \<noteq> [] then Some (OpenDownloads relativePath) else None)"

definition canOpenTransfer :: "string option \<Rightarrow> string option \<Rightarrow> bool" where
  "canOpenTransfer saveUri savePath \<longleftrightarrow> opt_trim saveUri \<noteq> [] \<or> opt_trim savePath \<noteq> []"

section \<open>Links and paths\<close>

type_synonym url_parser = "string \<Rightarrow> (string \<times> string option) option"

text \<open>\<open>/https?:\/\/[^\s]+/\<close> at the start of a text.\<close>

definition link_here :: "string \<Rightarrow> string option" where
  "link_here s =
     (let k = (if prefix ''https://'' s then 8 else if prefix ''http://'' s then 7 else 0);
          rest = takeWhile (\<lambda>c. \<not> js_space c) (drop k s)
      in if k = 0 \<or> rest = [] then None else Some (take k s @ rest))"

function link_matches :: "string \<Rightarrow> string list" where
  "link_matches [] = []"
| "link_matches (c # cs) =
     (case link_here (c # cs) of
        Some m \<Rightarrow> if m = [] then link_matches cs else m # link_matches (drop (length m) (c # cs))
      | None \<Rightarrow> link_matches cs)"
  by pat_completeness auto
termination
  by (relation "measure length") auto

definition formatReceiveShareMessage :: "string \<Rightarrow> string \<Rightarrow> string" where
  "formatReceiveShareMessage intro url = intro @ [CHR 0x0A, CHR 0x0A] @ url"

definition ticketFromReceiveUrl :: "url_parser \<Rightarrow> string \<Rightarrow> string option" where
  "ticketFromReceiveUrl URL v =
     (case URL v of
        None \<Rightarrow> None
      | Some (pathname, param) \<Rightarrow>
          if pathname \<noteq> ''/receive'' then None
          else (case param of
                  None \<Rightarrow> None
                | Some t \<Rightarrow> if js_trim t \<noteq> [] then Some (js_trim t) else None))"

fun first_ticket :: "url_parser \<Rightarrow> string list \<Rightarrow> string option" where
  "first_ticket URL [] = None"
| "first_ticket URL (u # us) =
     (case ticketFromReceiveUrl URL u of Some t \<Rightarrow> Some t | None \<Rightarrow> first_ticket URL us)"

definition ticketFromReceiveLink :: "url_parser \<Rightarrow> string \<Rightarrow> string option" where
  "ticketFromReceiveLink URL v =
     (let trimmed = js_trim v in
      case ticketFromReceiveUrl URL trimmed of
        Some direct \<Rightarrow> Some direct
      | None \<Rightarrow> first_ticket URL (link_matches trimmed))"

definition formatReceiveSavePath :: "bool \<Rightarrow> string option \<Rightarrow> string" where
  "formatReceiveSavePath IS_ANDROID path =
     (case path of
        None \<Rightarrow> []
      | Some p \<Rightarrow>
          if p = [] then []
          else if \<not> IS_ANDROID then p
          else
            let segments = js_filter_boolean (js_split CHR ''/'' (js_slashes p)) in
            if length segments \<le> 2 then js_join ''/'' segments
            else js_join ''/'' (drop (length segments - 2) segments))"

section \<open>File sizes\<close>

text \<open>\<open>Math.min(Math.floor(Math.log(bytes) / Math.log(1024)), 4)\<close> of a positive integer.\<close>

fun size_exponent :: "nat \<Rightarrow> nat \<Rightarrow> nat" where
  "size_exponent 0 bytes = 0"
| "size_exponent (Suc n) bytes = (if bytes < 1024 then 0 else Suc (size_exponent n (bytes div 1024)))"

definition size_units :: "string list" where
  "size_units = [''B'', ''KB'', ''MB'', ''GB'', ''TB'']"

definition formatFileSize :: "string \<Rightarrow> nat \<Rightarrow> nat \<Rightarrow> nat \<Rightarrow> string" where
  "formatFileSize zeroValue precision smallPrecision bytes =
     (if bytes = 0 then zeroValue
      else
        let exponent = size_exponent 4 bytes;
            size = rat_of_nat bytes / 1024 ^ exponent;
            decimals = (if size < 10 \<and> exponent > 0 then smallPrecision else precision)
        in js_to_fixed decimals size @ '' '' @ size_units ! exponent)"

section \<open>Properties\<close>

lemma js_digit_facts: "js_digit c \<Longrightarrow> \<not> js_space c \<and> c \<noteq> CHR ''-'' \<and> c \<noteq> CHR ''+'' \<and> c \<noteq> CHR '':''"
  by (auto simp: js_digit_def js_space_def Let_def char_code_def)

lemma show_nat_digits: "c \<in> set (show_nat n) \<Longrightarrow> js_digit c"
  using digits_show_nat [of n] by (simp add: list_all_iff)

lemma parse_int_show_nat [simp]: "js_parse_int (show_nat n) = Some (int n)"
proof -
  obtain c cs where s: "show_nat n = c # cs" by (cases "show_nat n") auto
  then have c: "\<not> js_space c" "c \<noteq> CHR ''-''" "c \<noteq> CHR ''+''"
    using js_digit_facts [OF show_nat_digits [of c n]] by auto
  have tw: "takeWhile js_digit cs = cs" using show_nat_digits [of _ n] s by (simp add: takeWhile_eq_all_conv)
  show ?thesis using c s digits_show_nat [of n] by (simp add: js_parse_int_def Let_def tw)
qed

lemma split_report:
  "js_split CHR '':'' (show_nat b @ CHR '':'' # show_nat n @ CHR '':'' # show_nat v) = [show_nat b, show_nat n, show_nat v]"
  using js_split_join [of "[show_nat b, show_nat n, show_nat v]" "CHR '':''"] js_digit_facts show_nat_digits
  by fastforce

lemma progress_bounds:
  "parseProgressPayload p = Some r \<Longrightarrow>
     percentage r \<le> 100 \<and> 0 \<le> speedBps r \<and>
     (case etaSeconds r of None \<Rightarrow> True
      | Some t \<Rightarrow> 0 < t \<and> t * speedBps r = of_int (totalBytes r - bytesTransferred r))"
  by (auto simp: parseProgressPayload_def Let_def max_def split: if_splits option.splits)

text \<open>
  A progress report of the engine, \<open>bytes:total:speed\<close> with the speed in thousandths, is shown as it was
  measured: the same byte counts, the speed, a percentage that never passes 100 and is 0 for an empty
  transfer, and a remaining time exactly when there is something left and it is moving. Any other
  text is either refused or gives a percentage of at most 100, a speed that is not negative and a
  remaining time that is positive and consistent with the speed.
\<close>

theorem progress_report:
  "parseProgressPayload (show_nat b @ '':'' @ show_nat n @ '':'' @ show_nat v) =
     Some \<lparr>bytesTransferred = int b, totalBytes = int n, speedBps = of_nat v / 1000,
           percentage = (if n = 0 then 0 else if n \<le> b then 100 else of_nat b / of_nat n * 100),
           etaSeconds = (if 0 < v \<and> b < n then Some (of_nat (n - b) * 1000 / of_nat v) else None)\<rparr> \<and>
   (case parseProgressPayload p of
      None \<Rightarrow> True
    | Some r \<Rightarrow>
        percentage r \<le> 100 \<and> 0 \<le> speedBps r \<and>
        (case etaSeconds r of None \<Rightarrow> True
         | Some t \<Rightarrow> 0 < t \<and> t * speedBps r = of_int (totalBytes r - bytesTransferred r)))"
proof -
  define pct where "pct = (if n = 0 then 0 else if n \<le> b then 100 else rat_of_nat b / of_nat n * 100)"
  have p: "(if 0 < int n then min (rat_of_int (int b) / rat_of_int (int n) * 100) 100 else 0) = pct"
    by (auto simp: min_def field_simps pct_def)
  have s: "max (rat_of_int (int v) / 1000) 0 = of_nat v / 1000" by simp
  have e: "(if 0 < rat_of_nat v / 1000 \<and> 0 < max (int n - int b) 0
        then Some (rat_of_int (max (int n - int b) 0) / (of_nat v / 1000)) else None) =
      (if 0 < v \<and> b < n then Some (of_nat (n - b) * 1000 / of_nat v) else None)"
    by (auto simp: max_def of_nat_diff)
  have "parseProgressPayload (show_nat b @ '':'' @ show_nat n @ '':'' @ show_nat v) =
     Some \<lparr>bytesTransferred = int b, totalBytes = int n, speedBps = of_nat v / 1000, percentage = pct,
           etaSeconds = (if 0 < v \<and> b < n then Some (of_nat (n - b) * 1000 / of_nat v) else None)\<rparr>"
    unfolding parseProgressPayload_def Let_def append_Cons append_Nil split_report
    using p s e by (simp del: max_less_iff_conj of_int_of_nat_eq add: numeral_2_eq_2) simp
  moreover have "case parseProgressPayload p of None \<Rightarrow> True
    | Some r \<Rightarrow>
        percentage r \<le> 100 \<and> 0 \<le> speedBps r \<and>
        (case etaSeconds r of None \<Rightarrow> True
         | Some t \<Rightarrow> 0 < t \<and> t * speedBps r = of_int (totalBytes r - bytesTransferred r))"
    using progress_bounds [of p] by (cases "parseProgressPayload p") simp_all
  ultimately show ?thesis unfolding pct_def by blast
qed

lemma strip_slashes_Nil: "strip_slashes s = [] \<longleftrightarrow> list_all (\<lambda>c. c = CHR ''/'') s"
proof -
  define front where "front = dropWhile (\<lambda>c. c = CHR ''/'') s"
  have "strip_slashes s = [] \<longleftrightarrow> (\<forall>c\<in>set front. c = CHR ''/'')"
    by (simp add: strip_slashes_def Let_def dropWhile_eq_Nil_conv flip: front_def)
  also have "\<dots> \<longleftrightarrow> front = []"
  proof (cases front)
    case (Cons a as)
    then have "a \<noteq> CHR ''/''" using hd_dropWhile [of "\<lambda>c. c = CHR ''/''" s] by (simp add: front_def)
    then show ?thesis using Cons by simp
  qed simp
  finally show ?thesis by (simp add: front_def dropWhile_eq_Nil_conv list_all_iff)
qed

text \<open>
  Where the history offers to open a received transfer on Android, there is a target, with one exception:
  a row without a folder grant whose path consists of slashes only offers the button and has nothing to open.
\<close>

theorem history_open_target:
  "canOpenTransfer saveUri savePath \<longleftrightarrow>
     (\<exists>target. resolveAndroidOpenTarget saveUri savePath = Some target) \<or>
     opt_trim saveUri = [] \<and> opt_trim savePath \<noteq> [] \<and> list_all (\<lambda>c. c = CHR ''/'') (opt_trim savePath)"
  using strip_slashes_Nil [of "opt_trim savePath"]
  by (auto simp: canOpenTransfer_def resolveAndroidOpenTarget_def Let_def)

text \<open>Rounding to a tenth can carry: the seconds of a duration can read 60.\<close>

lemma duration_reads_sixty:
  "formatTransferDuration (Some 59960) = Some ''60.0s''"
  "formatTransferDuration (Some 119960) = Some ''1m 60.0s''"
proof -
  have "\<lfloor>6001 / 10 :: rat\<rfloor> = 600" by (rule floor_unique) simp_all
  moreover have "show_nat 60 = ''60''" "show_nat 0 = ''0''" "show_nat (Suc 0) = ''1''" by code_simp+
  ultimately show "formatTransferDuration (Some 59960) = Some ''60.0s''"
    "formatTransferDuration (Some 119960) = Some ''1m 60.0s''"
    by (simp_all add: formatTransferDuration_def js_to_fixed_def js_pad_zeros_def Let_def)
qed

lemma size_exponent_bounds:
  "0 < bytes \<Longrightarrow> 1024 ^ size_exponent n bytes \<le> bytes \<and> (size_exponent n bytes = n \<or> bytes < 1024 ^ Suc (size_exponent n bytes)) \<and>
     size_exponent n bytes \<le> n"
proof (induction n arbitrary: bytes)
  case (Suc n)
  show ?case
  proof (cases "bytes < 1024")
    case False
    define e where "e = size_exponent n (bytes div 1024)"
    have "1024 ^ e \<le> bytes div 1024" "e = n \<or> bytes div 1024 < 1024 ^ Suc e" "e \<le> n"
      using Suc.IH [of "bytes div 1024"] False by (simp_all add: e_def div_greater_zero_iff)
    then have "1024 * 1024 ^ e \<le> bytes" "e = n \<or> bytes < 1024 * 1024 ^ Suc e" "e \<le> n"
      by (auto simp: less_mult_imp_div_less div_less_iff_less_mult mult.commute less_eq_div_iff_mult_less_eq)
    then show ?thesis using False by (simp flip: e_def)
  qed (use Suc.prems in simp)
qed simp

section \<open>Shared links\<close>

lemma prefix_before:
  assumes "prefix p (q @ x # rest)" "x \<notin> set p"
  shows "prefix p q"
proof (cases "length p \<le> length q")
  case True
  then show ?thesis using assms(1) by (metis prefix_length_prefix prefixI)
next
  case False
  obtain zs where "q @ x # rest = p @ zs" using assms(1) by (auto simp: prefix_def)
  then have "p ! length q = (q @ x # rest) ! length q" using False by (simp add: nth_append)
  then have "x \<in> set p" using False nth_mem [of "length q" p] by simp
  then show ?thesis using assms(2) by simp
qed

lemma link_here_None: "\<not> prefix ''http'' s \<Longrightarrow> link_here s = None"
proof -
  have "prefix ''http'' ''https://''" "prefix ''http'' ''http://''" by simp_all
  then have "prefix ''https://'' s \<or> prefix ''http://'' s \<Longrightarrow> prefix ''http'' s"
    using prefix_order.order_trans by blast
  then show "\<not> prefix ''http'' s \<Longrightarrow> link_here s = None" by (auto simp: link_here_def)
qed

lemma link_matches_skip:
  "\<not> js_includes q ''http'' \<Longrightarrow> link_matches (q @ CHR 0x0A # rest) = link_matches rest"
proof (induction q)
  case Nil
  show ?case by (simp add: link_here_def)
next
  case (Cons c q)
  have "\<not> prefix ''http'' (c # q @ CHR 0x0A # rest)"
    using prefix_before [of "''http''" "c # q" "CHR 0x0A" rest] Cons(2) by auto
  then have "link_here (c # q @ CHR 0x0A # rest) = None" by (rule link_here_None)
  then show ?case using Cons by simp
qed

lemma includes_suffix: "js_includes s p \<Longrightarrow> js_includes (t @ s) p"
  by (induction t) auto

lemma includes_dropWhile: "\<not> js_includes s p \<Longrightarrow> \<not> js_includes (dropWhile f s) p"
  by (metis includes_suffix takeWhile_dropWhile_id)

lemma link_alone:
  assumes "prefix ''https://'' url" "list_all (\<lambda>c. \<not> js_space c) url" "8 < length url"
  shows "link_matches url = [url]"
proof -
  obtain u where u: "url = ''https://'' @ u" using assms(1) by (auto simp: prefix_def)
  then have "u \<noteq> []" and tw: "takeWhile (\<lambda>c. \<not> js_space c) u = u"
    using assms(2,3) by (auto simp: takeWhile_eq_all_conv list_all_iff)
  then have "link_here url = Some url" by (simp add: link_here_def u Let_def tw)
  then show ?thesis using u by simp
qed

lemma trim_share_message:
  assumes "list_all (\<lambda>c. \<not> js_space c) url" "url \<noteq> []"
  shows "js_trim (formatReceiveShareMessage intro url) =
    (if js_trim intro = [] then url else dropWhile js_space intro @ [CHR 0x0A, CHR 0x0A] @ url)"
proof -
  have l: "\<not> js_space (last url)" and h: "\<not> js_space (hd url)" using assms by (auto simp: list_all_iff)
  have r: "rev (dropWhile js_space (rev (xs @ url))) = xs @ url" for xs
    using l assms(2) by (cases url rule: rev_cases) auto
  have nl: "js_space CHR 0x0A" by (simp add: js_space_def char_code_def)
  show ?thesis
  proof (cases "\<forall>c\<in>set intro. js_space c")
    case True
    then have "dropWhile js_space intro = []" by (simp add: dropWhile_eq_Nil_conv)
    then have "js_trim intro = []" unfolding js_trim_def by (simp only: rev.simps dropWhile.simps)
    moreover have "dropWhile js_space (intro @ CHR 0x0A # CHR 0x0A # url) = url"
      using True nl h assms(2) by (cases url) (simp_all add: dropWhile_append2)
    ultimately show ?thesis
      using r [of "[]"] by (simp add: js_trim_def formatReceiveShareMessage_def)
  next
    case False
    then obtain c where c: "c \<in> set intro" "\<not> js_space c" by blast
    then have d: "dropWhile js_space (intro @ ys) = dropWhile js_space intro @ ys" for ys
      by (rule dropWhile_append1)
    have "dropWhile js_space intro \<noteq> []" using c by (auto simp: dropWhile_eq_Nil_conv)
    then have "\<not> js_space (hd (dropWhile js_space intro))" "dropWhile js_space intro \<noteq> []"
      using hd_dropWhile by blast+
    then have "js_trim intro \<noteq> []"
      using hd_in_set [of "dropWhile js_space intro"] by (auto simp: js_trim_def dropWhile_eq_Nil_conv simp del: hd_in_set)
    then show ?thesis
      using r [of "dropWhile js_space intro @ [CHR 0x0A, CHR 0x0A]"] d
      by (simp add: js_trim_def formatReceiveShareMessage_def)
  qed
qed

text \<open>
  A shared link gives its ticket back. For an address that carries a ticket, pasting it alone or as the share
  message with an introduction above it yields that ticket, whatever the introduction says, as long as
  it does not itself contain a link and the message as a whole does not parse as a receive address.
\<close>

theorem receive_link_roundtrip:
  assumes "URL url = Some (''/receive'', Some ticket)" "js_trim ticket \<noteq> []"
    and "prefix ''https://'' url" "list_all (\<lambda>c. \<not> js_space c) url" "8 < length url"
    and "\<not> js_includes intro ''http''"
    and "case URL (js_trim (formatReceiveShareMessage intro url)) of
           None \<Rightarrow> True | Some (pathname, _) \<Rightarrow> js_trim intro = [] \<or> pathname \<noteq> ''/receive''"
  shows "ticketFromReceiveLink URL url = Some (js_trim ticket) \<and>
    ticketFromReceiveLink URL (formatReceiveShareMessage intro url) = Some (js_trim ticket)"
proof -
  have ne: "url \<noteq> []" using assms(5) by auto
  have alone: "ticketFromReceiveUrl URL url = Some (js_trim ticket)"
    using assms(1,2) by (simp add: ticketFromReceiveUrl_def)
  have url: "js_trim url = url"
    using trim_share_message [OF assms(4) ne, of "[]"] js_trim_idem [of "formatReceiveShareMessage [] url"] by simp
  let ?m = "js_trim (formatReceiveShareMessage intro url)"
  have m: "?m = (if js_trim intro = [] then url else dropWhile js_space intro @ [CHR 0x0A, CHR 0x0A] @ url)"
    by (rule trim_share_message [OF assms(4) ne])
  have "link_matches ?m = [url]" if "js_trim intro \<noteq> []"
    using that link_matches_skip [OF includes_dropWhile [OF assms(6)], of js_space "CHR 0x0A # url"]
      link_matches_skip [of "[]" url] link_alone [OF assms(3-5)] by (simp add: m)
  moreover have "ticketFromReceiveUrl URL ?m = None" if "js_trim intro \<noteq> []"
    using that assms(7) by (auto simp: ticketFromReceiveUrl_def split: option.splits)
  ultimately show ?thesis
    using alone url m by (cases "js_trim intro = []") (simp_all add: ticketFromReceiveLink_def Let_def)
qed

definition demo_URL :: url_parser where
  "demo_URL s = (if s = ''https://app.dashbeam.net/receive?ticket=ab'' then Some (''/receive'', Some ''ab'') else None)"

theorem receive_link_roundtrip_witness:
  "ticketFromReceiveLink demo_URL
     (formatReceiveShareMessage ''Get my files'' ''https://app.dashbeam.net/receive?ticket=ab'') = Some ''ab''"
proof -
  have sp: "js_space c \<longleftrightarrow> char_code c \<in> {9, 10, 11, 12, 13, 32, 160}" for c
    by (auto simp: js_space_def Let_def)
  have "js_trim ''ab'' = ''ab''" "js_trim ''Get my files'' \<noteq> []"
    by (simp_all add: js_trim_def sp char_code_def)
  then show ?thesis
    using receive_link_roundtrip [of demo_URL "''https://app.dashbeam.net/receive?ticket=ab''" "''ab''" "''Get my files''"]
    by (simp add: demo_URL_def formatReceiveShareMessage_def js_trim_def sp char_code_def)
qed

end
