(* ===== verification/Invite_Dialogs.thy ===== *)
theory Invite_Dialogs
  imports Auto_Accept Fingerprint Nearby Transfer_View
begin

text \<open>
  The dialogs that ask the user about other devices: \<open>components/pairing/PairedInviteDialog.tsx\<close>,
  \<open>NearbyInviteDialog.tsx\<close>, \<open>NearbyPairRequestDialog.tsx\<close> and \<open>NearbyVerificationDialog.tsx\<close> with
  \<open>store/nearby-verification-store.ts\<close>, and the pair buttons of \<open>NearbyDevices.tsx\<close>.

  The dialogs react to the same events as the queue of trusted invites, so the state holds that of \<open>Auto_Accept\<close>; its
  \<open>dialog_invite\<close> is what the dialog for paired devices shows. An invite is an event once the pairing data is there. React draws a state change before
  the next click, so a handler sees the current state. \<open>shown_paired\<close>, \<open>shown_nearby\<close> and \<open>shown_requests\<close> log the endpoints whose question was
  put to the user, and the \<open>replies\<close> what was answered to whom.
\<close>

section \<open>State\<close>

record NearbyPairRequestPayload =
  pr_remote_endpoint_id :: string
  pr_sender_name :: string
  pr_device_type :: string
  pr_os :: "string option"

text \<open>The label of a peer: its name, or its shortened id while the identity is not known.\<close>

datatype peer_label = PeerName string | TruncatedId string

definition truncatedEndpointId :: "string \<Rightarrow> peer_label" where
  "truncatedEndpointId endpoint = TruncatedId (take 8 endpoint)"

definition nearby_label :: "NearbyDevice \<Rightarrow> peer_label" where
  "nearby_label d =
     (if identified d \<and> (case displayName d of None \<Rightarrow> False | Some n \<Rightarrow> n \<noteq> [])
      then PeerName (the (displayName d)) else truncatedEndpointId (endpointId d))"

record dialogs =
  dl_core :: accept_state
  nearby_invite :: "PairedInvitePayload option"
  pair_request :: "NearbyPairRequestPayload option"
  verification_target :: "(string \<times> peer_label) option"
  dl_path :: string
  paired_replies :: "(string \<times> bool) list"
  nearby_replies :: "(string \<times> bool) list"
  request_replies :: "(string \<times> bool) list"
  paired_accepts :: "PairedInvitePayload list"
  nearby_accepts :: "PairedInvitePayload list"
  browse_calls :: nat
  hint_toasts :: nat
  shown_paired :: "string list"
  shown_nearby :: "string list"
  shown_requests :: "string list"

definition dialogs_start :: "string \<Rightarrow> dialogs" where
  "dialogs_start path =
     \<lparr>dl_core = accept_start, nearby_invite = None, pair_request = None, verification_target = None, dl_path = path,
      paired_replies = [], nearby_replies = [], request_replies = [], paired_accepts = [], nearby_accepts = [],
      browse_calls = 0, hint_toasts = 0, shown_paired = [], shown_nearby = [], shown_requests = []\<rparr>"

section \<open>Arrival\<close>

text \<open>The two listeners of \<open>paired-invite-received\<close>: \<open>DeviceNodeSync\<close> and the dialog for nearby devices.\<close>

definition node_sync_invite :: "PairedInvitePayload \<Rightarrow> dialogs \<Rightarrow> dialogs" where [step_defs]:
  "node_sync_invite p s =
     (let ds = aa_devices (dl_core s); e = remote_endpoint_id p;
          asked = (isKnownPairedEndpoint (map endpoint_id ds) e \<and> \<not> shouldAutoAccept ds e) in
      s\<lparr>dl_core := route_invite p (dl_core s), shown_paired := shown_paired s @ (if asked then [e] else [])\<rparr>)"

definition nearby_invite_received :: "PairedInvitePayload \<Rightarrow> dialogs \<Rightarrow> dialogs" where [step_defs]:
  "nearby_invite_received p s =
     (if isKnownPairedEndpoint (map endpoint_id (aa_devices (dl_core s))) (remote_endpoint_id p) then s
      else s\<lparr>nearby_invite := Some p, shown_nearby := shown_nearby s @ [remote_endpoint_id p]\<rparr>)"

definition invite_received :: "PairedInvitePayload \<Rightarrow> dialogs \<Rightarrow> dialogs" where [step_defs]:
  "invite_received p s = nearby_invite_received p (node_sync_invite p s)"

definition pair_request_received :: "NearbyPairRequestPayload \<Rightarrow> dialogs \<Rightarrow> dialogs" where [step_defs]:
  "pair_request_received p s =
     (if isKnownPairedEndpoint (map endpoint_id (aa_devices (dl_core s))) (pr_remote_endpoint_id p) then s
      else s\<lparr>pair_request := Some p, shown_requests := shown_requests s @ [pr_remote_endpoint_id p]\<rparr>)"

section \<open>Answers\<close>

definition go_home :: "dialogs \<Rightarrow> dialogs" where [step_defs]:
  "go_home s = (if dl_path s \<noteq> ''/'' then s\<lparr>dl_path := ''/''\<rparr> else s)"

definition paired_decline :: "dialogs \<Rightarrow> dialogs" where [step_defs]:
  "paired_decline s =
     (case dialog_invite (dl_core s) of
        None \<Rightarrow> s
      | Some p \<Rightarrow>
          s\<lparr>dl_core := (dl_core s)\<lparr>dialog_invite := None\<rparr>,
            paired_replies := paired_replies s @ [(remote_endpoint_id p, False)]\<rparr>)"

definition paired_accept :: "dialogs \<Rightarrow> dialogs" where [step_defs]:
  "paired_accept s =
     (case dialog_invite (dl_core s) of
        None \<Rightarrow> s
      | Some p \<Rightarrow>
          if aa_acceptPairedInvite (dl_core s) = None then s\<lparr>hint_toasts := Suc (hint_toasts s)\<rparr>
          else
            let s1 = go_home (s\<lparr>dl_core := (dl_core s)\<lparr>dialog_invite := None\<rparr>,
                  paired_replies := paired_replies s @ [(remote_endpoint_id p, True)]\<rparr>) in
            s1\<lparr>paired_accepts := paired_accepts s1 @ [p]\<rparr>)"

definition changeFolder :: "dialogs \<Rightarrow> dialogs" where [step_defs]:
  "changeFolder s =
     (if aa_browseSaveFolder (dl_core s) = None then s\<lparr>hint_toasts := Suc (hint_toasts s)\<rparr>
      else s\<lparr>browse_calls := Suc (browse_calls s)\<rparr>)"

definition nearby_decline :: "dialogs \<Rightarrow> dialogs" where [step_defs]:
  "nearby_decline s =
     (case nearby_invite s of
        None \<Rightarrow> s
      | Some p \<Rightarrow>
          s\<lparr>nearby_invite := None, nearby_replies := nearby_replies s @ [(remote_endpoint_id p, False)]\<rparr>)"

definition nearby_accept :: "dialogs \<Rightarrow> dialogs" where [step_defs]:
  "nearby_accept s =
     (case nearby_invite s of
        None \<Rightarrow> s
      | Some p \<Rightarrow>
          if shortFingerprint (remote_endpoint_id p) = None then s
          else if aa_acceptPairedInvite (dl_core s) = None then s\<lparr>hint_toasts := Suc (hint_toasts s)\<rparr>
          else
            let s1 = go_home (s\<lparr>nearby_invite := None,
                  nearby_replies := nearby_replies s @ [(remote_endpoint_id p, True)]\<rparr>) in
            s1\<lparr>nearby_accepts := nearby_accepts s1 @ [p]\<rparr>)"

definition request_decline :: "dialogs \<Rightarrow> dialogs" where [step_defs]:
  "request_decline s =
     (case pair_request s of
        None \<Rightarrow> s
      | Some p \<Rightarrow>
          s\<lparr>pair_request := None, request_replies := request_replies s @ [(pr_remote_endpoint_id p, False)]\<rparr>)"

definition request_accept :: "dialogs \<Rightarrow> dialogs" where [step_defs]:
  "request_accept s =
     (case pair_request s of
        None \<Rightarrow> s
      | Some p \<Rightarrow>
          s\<lparr>pair_request := None, request_replies := request_replies s @ [(pr_remote_endpoint_id p, True)]\<rparr>)"

text \<open>A click on the close button runs its own handler and the one for the change of the dialog.\<close>

definition close_click :: "(dialogs \<Rightarrow> dialogs) \<Rightarrow> dialogs \<Rightarrow> dialogs" where
  "close_click decline s = decline (decline s)"

section \<open>The verification code of the sender\<close>

definition show_verification :: "string \<Rightarrow> peer_label \<Rightarrow> dialogs \<Rightarrow> dialogs" where [step_defs]:
  "show_verification e name s = s\<lparr>verification_target := Some (e, name)\<rparr>"

definition clear_verification :: "dialogs \<Rightarrow> dialogs" where [step_defs]:
  "clear_verification s = s\<lparr>verification_target := None\<rparr>"

definition endpointMatches :: "string \<Rightarrow> jsval option \<Rightarrow> bool" where
  "endpointMatches target payload =
     (case payload of
        Some (Obj kvs) \<Rightarrow> (case map_of kvs ''endpoint_id'' of Some (Str i) \<Rightarrow> js_lower i = js_lower target | _ \<Rightarrow> False)
      | _ \<Rightarrow> False)"

definition verification_event :: "bool \<Rightarrow> jsval option \<Rightarrow> dialogs \<Rightarrow> dialogs" where [step_defs]:
  "verification_event paired payload s =
     (case verification_target s of
        None \<Rightarrow> s
      | Some (e, _) \<Rightarrow> if paired \<or> endpointMatches e payload then clear_verification s else s)"

definition own_code :: "string option \<Rightarrow> string option" where
  "own_code thisEndpointId = (case thisEndpointId of None \<Rightarrow> None | Some e \<Rightarrow> if e = [] then None else shortFingerprint e)"

section \<open>Events\<close>

datatype dialog_event =
    DlInvite PairedInvitePayload
  | DlRequest NearbyPairRequestPayload
  | DlDevices "PairedDevice list"
  | DlRegister "nat option" "nat option"
  | DlPath string
  | DlPairedAccept | DlPairedClose | DlPairedDismiss
  | DlChangeFolder
  | DlNearbyAccept | DlNearbyClose | DlNearbyDismiss
  | DlRequestAccept | DlRequestClose | DlRequestDismiss
  | DlVerify string peer_label
  | DlVerifyClose
  | DlVerifyEvent bool "jsval option"

fun dialog_step :: "dialogs \<Rightarrow> dialog_event \<Rightarrow> dialogs" where
  "dialog_step s (DlInvite p) = invite_received p s"
| "dialog_step s (DlRequest p) = pair_request_received p s"
| "dialog_step s (DlDevices ds) = s\<lparr>dl_core := (dl_core s)\<lparr>aa_devices := ds\<rparr>\<rparr>"
| "dialog_step s (DlRegister a b) = s\<lparr>dl_core := (dl_core s)\<lparr>aa_acceptPairedInvite := a, aa_browseSaveFolder := b\<rparr>\<rparr>"
| "dialog_step s (DlPath p) = s\<lparr>dl_path := p\<rparr>"
| "dialog_step s DlPairedAccept = paired_accept s"
| "dialog_step s DlPairedClose = close_click paired_decline s"
| "dialog_step s DlPairedDismiss = paired_decline s"
| "dialog_step s DlChangeFolder = changeFolder s"
| "dialog_step s DlNearbyAccept = nearby_accept s"
| "dialog_step s DlNearbyClose = close_click nearby_decline s"
| "dialog_step s DlNearbyDismiss = nearby_decline s"
| "dialog_step s DlRequestAccept = request_accept s"
| "dialog_step s DlRequestClose = close_click request_decline s"
| "dialog_step s DlRequestDismiss = request_decline s"
| "dialog_step s (DlVerify e n) = show_verification e n s"
| "dialog_step s DlVerifyClose = clear_verification s"
| "dialog_step s (DlVerifyEvent paired p) = verification_event paired p s"

text \<open>The second decline of a close click finds nothing to decline.\<close>

lemma close_click_once:
  "close_click paired_decline s = paired_decline s" "close_click nearby_decline s = nearby_decline s"
  "close_click request_decline s = request_decline s"
  by (auto simp: close_click_def paired_decline_def nearby_decline_def request_decline_def split: option.split)

section \<open>Questions and answers\<close>

text \<open>
  The contract of a dialog that asks about one peer at a time: a step leaves it alone, puts a question, possibly in
  place of the open one, or answers the open question.
\<close>

locale question =
  fixes init :: 's
    and step :: "'s \<Rightarrow> 'e \<Rightarrow> 's"
    and asking :: "'s \<Rightarrow> 'k option"
    and replies :: "'s \<Rightarrow> ('k \<times> bool) list"
    and shown :: "'s \<Rightarrow> 'k list"
  assumes fresh: "asking init = None" "replies init = []" "shown init = []"
    and moves: "(asking (step s e) = asking s \<and> replies (step s e) = replies s \<and> shown (step s e) = shown s) \<or>
      (\<exists>k. asking (step s e) = Some k \<and> replies (step s e) = replies s \<and> shown (step s e) = shown s @ [k]) \<or>
      (\<exists>k b. asking s = Some k \<and> asking (step s e) = None \<and> replies (step s e) = replies s @ [(k, b)] \<and> shown (step s e) = shown s)"
begin

lemma answers_in_order:
  "subseq (map fst (replies (run_ops step init es)) @ (case asking (run_ops step init es) of None \<Rightarrow> [] | Some k \<Rightarrow> [k]))
     (shown (run_ops step init es))"
proof (induction es rule: rev_induct)
  case (snoc e es)
  define s where "s = run_ops step init es"
  have IH: "subseq (map fst (replies s) @ (case asking s of None \<Rightarrow> [] | Some k \<Rightarrow> [k])) (shown s)"
    using snoc by (simp add: s_def)
  then have old: "subseq (map fst (replies s)) (shown s)"
    by (metis append_Nil2 list_emb_Nil list_emb_append_mono subseq_order.order_refl subseq_order.order_trans)
  show ?case
    using moves [of s e] IH old
    by (auto simp flip: s_def)
qed (simp add: fresh)

end


text \<open>The three dialogs keep the contract.\<close>

lemma route_dialog:
  "dialog_invite (route_invite p a) =
     (if isKnownPairedEndpoint (map endpoint_id (aa_devices a)) (remote_endpoint_id p) \<and>
         \<not> shouldAutoAccept (aa_devices a) (remote_endpoint_id p) then Some p else dialog_invite a)"
  by (simp add: route_invite_def enqueue_op_def Let_def)

lemma go_home_eq: "go_home s = s\<lparr>dl_path := ''/''\<rparr>"
  by (simp add: go_home_def)

lemmas dialog_defs = step_defs route_dialog go_home_eq close_click_once

interpretation paired_dialog: question "dialogs_start path" dialog_step
  "\<lambda>s. map_option remote_endpoint_id (dialog_invite (dl_core s))" paired_replies shown_paired
proof (unfold_locales, goal_cases)
  case (4 s e)
  show ?case
    by (cases e) (auto simp: dialog_defs Let_def split: option.splits)
qed (simp_all add: dialogs_start_def accept_start_def)

interpretation nearby_dialog: question "dialogs_start path" dialog_step
  "\<lambda>s. map_option remote_endpoint_id (nearby_invite s)" nearby_replies shown_nearby
proof (unfold_locales, goal_cases)
  case (4 s e)
  show ?case
    by (cases e) (auto simp: dialog_defs Let_def split: option.splits)
qed (simp_all add: dialogs_start_def)

interpretation request_dialog: question "dialogs_start path" dialog_step
  "\<lambda>s. map_option pr_remote_endpoint_id (pair_request s)" request_replies shown_requests
proof (unfold_locales, goal_cases)
  case (4 s e)
  show ?case
    by (cases e) (auto simp: dialog_defs Let_def split: option.splits)
qed (simp_all add: dialogs_start_def)

definition accepts_inv :: "dialogs \<Rightarrow> bool" where
  "accepts_inv s \<longleftrightarrow>
     map remote_endpoint_id (paired_accepts s) = map fst (filter snd (paired_replies s)) \<and>
     map remote_endpoint_id (nearby_accepts s) = map fst (filter snd (nearby_replies s)) \<and>
     list_all (\<lambda>p. shortFingerprint (remote_endpoint_id p) \<noteq> None) (nearby_accepts s)"

interpretation accepts_machine: state_machine "dialogs_start path" dialog_step accepts_inv
proof
  show "accepts_inv (dialogs_start path)" by (simp add: accepts_inv_def dialogs_start_def)
  show "accepts_inv s \<Longrightarrow> accepts_inv (dialog_step s e)" for s e
    by (cases e) (auto simp: accepts_inv_def dialog_defs Let_def split: option.splits)
qed

section \<open>The pair buttons\<close>

text \<open>
  A row of the nearby list: the state shown, the requests that have not been answered and the timers that will clear an outcome. A response of
  the peer clears the row at once.
\<close>

datatype PairState = Pairing | PairSent | PairFailed

record pair_rows =
  pairState :: "string \<rightharpoonup> PairState"
  pair_requests :: "NearbyDevice list"
  clear_timers :: "string list"
  pair_calls :: "string list"
  pair_toasts :: "(string \<times> peer_label option) list"
  codes_shown :: "(string \<times> peer_label) list"

definition NearbyDevices :: pair_rows where
  "NearbyDevices = \<lparr>pairState = Map.empty, pair_requests = [], clear_timers = [], pair_calls = [], pair_toasts = [], codes_shown = []\<rparr>"

text \<open>The button of a row is disabled while it shows the spinner.\<close>

definition handlePair :: "NearbyDevice \<Rightarrow> pair_rows \<Rightarrow> pair_rows" where [step_defs]:
  "handlePair d s =
     (if pairState s (endpointId d) = Some Pairing then s
      else s\<lparr>pairState := (pairState s)(endpointId d \<mapsto> Pairing), pair_requests := pair_requests s @ [d],
             pair_calls := pair_calls s @ [endpointId d]\<rparr>)"

definition pair_failed :: "NearbyDevice \<Rightarrow> pair_rows \<Rightarrow> pair_rows" where [step_defs]:
  "pair_failed d s =
     s\<lparr>pairState := (pairState s)(endpointId d \<mapsto> PairFailed),
       pair_toasts := pair_toasts s @ [(''common:settings.devices.nearby.inviteFailed'', None)]\<rparr>"

definition pair_answer :: "nat \<Rightarrow> bool result \<Rightarrow> pair_rows \<Rightarrow> pair_rows" where [step_defs]:
  "pair_answer k r s =
     (if k < length (pair_requests s) then
        let d = pair_requests s ! k;
            s1 = s\<lparr>pair_requests := take k (pair_requests s) @ drop (Suc k) (pair_requests s)\<rparr>;
            s2 = (case r of
                    Inl _ \<Rightarrow> pair_failed d s1
                  | Inr delivered \<Rightarrow>
                      if \<not> delivered then pair_failed d s1
                      else s1\<lparr>pairState := (pairState s1)(endpointId d \<mapsto> PairSent),
                              codes_shown := codes_shown s1 @ [(endpointId d, nearby_label d)]\<rparr>) in
        s2\<lparr>clear_timers := clear_timers s2 @ [endpointId d]\<rparr>
      else s)"

definition clear_timer :: "nat \<Rightarrow> pair_rows \<Rightarrow> pair_rows" where [step_defs]:
  "clear_timer k s =
     (if k < length (clear_timers s) then
        let e = clear_timers s ! k;
            s1 = s\<lparr>clear_timers := take k (clear_timers s) @ drop (Suc k) (clear_timers s)\<rparr> in
        if pairState s1 e \<noteq> Some PairFailed \<and> pairState s1 e \<noteq> Some PairSent then s1
        else s1\<lparr>pairState := (pairState s1)(e := None)\<rparr>
      else s)"

text \<open>A response names its endpoint, its answer and maybe the peer; without an endpoint it is ignored.\<close>

definition pair_response :: "string \<Rightarrow> string \<Rightarrow> string option \<Rightarrow> pair_rows \<Rightarrow> pair_rows" where [step_defs]:
  "pair_response e response name s =
     (if e = [] then s
      else
        let s1 = s\<lparr>pairState := (pairState s)(e := None)\<rparr> in
        if response = ''declined''
        then s1\<lparr>pair_toasts := pair_toasts s1 @
               [(''common:settings.devices.nearby.pairDeclined'',
                 Some (case name of None \<Rightarrow> truncatedEndpointId e | Some n \<Rightarrow> if n = [] then truncatedEndpointId e else PeerName n))]\<rparr>
        else s1)"

datatype pair_event = PrClick NearbyDevice | PrAnswer nat "bool result" | PrTimer nat | PrResponse string string "string option"

fun pair_step :: "pair_rows \<Rightarrow> pair_event \<Rightarrow> pair_rows" where
  "pair_step s (PrClick d) = handlePair d s"
| "pair_step s (PrAnswer k r) = pair_answer k r s"
| "pair_step s (PrTimer k) = clear_timer k s"
| "pair_step s (PrResponse e r n) = pair_response e r n s"

definition pair_inv :: "pair_rows \<Rightarrow> bool" where
  "pair_inv s \<longleftrightarrow>
     (\<forall>e. pairState s e = Some Pairing \<longrightarrow> e \<in> endpointId ` set (pair_requests s)) \<and>
     (\<forall>e. pairState s e \<in> {Some PairSent, Some PairFailed} \<longrightarrow> e \<in> set (clear_timers s))"

lemma in_set_without_nth:
  "k < length xs \<Longrightarrow> x \<in> set xs \<Longrightarrow> x = xs ! k \<or> x \<in> set (take k xs) \<or> x \<in> set (drop (Suc k) xs)"
  by (metis Un_iff id_take_nth_drop set_ConsD set_append)

lemma pair_answer_inv:
  assumes "pair_inv s"
  shows "pair_inv (pair_answer k r s)"
proof (cases "k < length (pair_requests s)")
  case True
  have keep: "e \<in> endpointId ` (set (take k (pair_requests s)) \<union> set (drop (Suc k) (pair_requests s)))"
    if "pairState s e = Some Pairing" "e \<noteq> endpointId (pair_requests s ! k)" for e
    using assms that by (auto simp: pair_inv_def dest: in_set_without_nth [OF True])
  show ?thesis
    using assms True keep by (cases r) (auto simp: pair_answer_def pair_failed_def pair_inv_def Let_def)
qed (use assms in \<open>simp add: pair_answer_def\<close>)

lemma clear_timer_inv:
  assumes "pair_inv s"
  shows "pair_inv (clear_timer k s)"
proof (cases "k < length (clear_timers s)")
  case True
  then show ?thesis
    using assms by (auto simp: clear_timer_def pair_inv_def Let_def dest: in_set_without_nth)
qed (use assms in \<open>simp add: clear_timer_def\<close>)

interpretation pair_machine: state_machine NearbyDevices pair_step pair_inv
proof
  show "pair_inv NearbyDevices" by (simp add: pair_inv_def NearbyDevices_def)
  show "pair_inv s \<Longrightarrow> pair_inv (pair_step s e)" for s e
  proof (cases e)
    case (PrClick d)
    then show "pair_inv s \<Longrightarrow> ?thesis" by (auto simp: pair_inv_def handlePair_def)
  next
    case (PrResponse e r n)
    then show "pair_inv s \<Longrightarrow> ?thesis" by (auto simp: pair_inv_def pair_response_def Let_def)
  qed (auto simp: pair_answer_inv clear_timer_inv)
qed

section \<open>Properties\<close>

text \<open>
  C12. Nobody is answered twice, and nobody who was not shown. In every run the answers of each of the three dialogs, with the open question, go to endpoints
  that were put to the user, in that order and each question at most once; what was accepted is received exactly once per
  positive answer; and an invite of an unpaired device is accepted only if its verification code could be shown.
\<close>

theorem invites_answered_once:
  fixes path es
  defines "s \<equiv> run_ops dialog_step (dialogs_start path) es"
  shows "subseq (map fst (paired_replies s) @ (case dialog_invite (dl_core s) of None \<Rightarrow> [] | Some p \<Rightarrow> [remote_endpoint_id p])) (shown_paired s) \<and>
    subseq (map fst (nearby_replies s) @ (case nearby_invite s of None \<Rightarrow> [] | Some p \<Rightarrow> [remote_endpoint_id p])) (shown_nearby s) \<and>
    subseq (map fst (request_replies s) @ (case pair_request s of None \<Rightarrow> [] | Some p \<Rightarrow> [pr_remote_endpoint_id p])) (shown_requests s) \<and>
    map remote_endpoint_id (paired_accepts s) = map fst (filter snd (paired_replies s)) \<and>
    map remote_endpoint_id (nearby_accepts s) = map fst (filter snd (nearby_replies s)) \<and>
    list_all (\<lambda>p. shortFingerprint (remote_endpoint_id p) \<noteq> None) (nearby_accepts s)"
proof -
  have eq: "(case map_option f x of None \<Rightarrow> [] | Some k \<Rightarrow> [k]) = (case x of None \<Rightarrow> [] | Some p \<Rightarrow> [f p])"
    for f :: "'x \<Rightarrow> string" and x
    by (simp split: option.split)
  have "accepts_inv s" unfolding s_def by (rule accepts_machine.reachable_inv)
  moreover note paired_dialog.answers_in_order [of path es, unfolded eq, folded s_def]
    nearby_dialog.answers_in_order [of path es, unfolded eq, folded s_def]
    request_dialog.answers_in_order [of path es, unfolded eq, folded s_def]
  ultimately show ?thesis by (simp add: accepts_inv_def)
qed

text \<open>
  An invite goes to exactly one place: the dialog for strangers, the one for paired devices, or the queue of the trusted.
\<close>

theorem invite_has_one_place:
  "let known = isKnownPairedEndpoint (map endpoint_id (aa_devices (dl_core s))) (remote_endpoint_id p);
       trusted = shouldAutoAccept (aa_devices (dl_core s)) (remote_endpoint_id p); s' = invite_received p s in
   (nearby_invite s' = (if known then nearby_invite s else Some p)) \<and>
   dialog_invite (dl_core s') = (if known \<and> \<not> trusted then Some p else dialog_invite (dl_core s)) \<and>
   queue (dl_core s') = (if known \<and> trusted then enqueueInvite (queue (dl_core s)) p else queue (dl_core s))"
  by (simp add: invite_received_def nearby_invite_received_def node_sync_invite_def route_invite_def enqueue_op_def
      queue_enqueue_def Let_def)

text \<open>
  A second invite takes the place of the one on the screen, and the first sender gets no answer.
\<close>

lemma replaced_invite_unanswered:
  assumes "nearby_invite s = Some p"
    "\<not> isKnownPairedEndpoint (map endpoint_id (aa_devices (dl_core s))) (remote_endpoint_id q)"
  shows "nearby_invite (invite_received q s) = Some q \<and> nearby_replies (invite_received q s) = nearby_replies s"
  using assms by (simp add: invite_received_def nearby_invite_received_def node_sync_invite_def route_invite_def Let_def)

text \<open>
  No row of the nearby list stays stuck. In every run a row shows the spinner only while a request to that device is unanswered, and an
  outcome only while the timer that clears it is running; so once the requests have been answered and the timers have run every
  row offers to pair again.
\<close>

theorem pair_rows_never_stuck:
  fixes es
  defines "s \<equiv> run_ops pair_step NearbyDevices es"
  shows "(case pairState s e of
      None \<Rightarrow> True
    | Some Pairing \<Rightarrow> e \<in> endpointId ` set (pair_requests s)
    | Some _ \<Rightarrow> e \<in> set (clear_timers s)) \<and>
    (if pair_requests s = [] \<and> clear_timers s = [] then pairState s = Map.empty else True)"
proof -
  have inv: "pair_inv s" unfolding s_def by (rule pair_machine.reachable_inv)
  have one: "case pairState s e of None \<Rightarrow> True | Some Pairing \<Rightarrow> e \<in> endpointId ` set (pair_requests s) | Some _ \<Rightarrow> e \<in> set (clear_timers s)" for e
    using inv by (auto simp: pair_inv_def split: option.split PairState.split)
  have "pairState s = Map.empty" if "pair_requests s = []" "clear_timers s = []"
    using one that by (fastforce split: option.splits PairState.splits)
  then show ?thesis using one [of e] by simp
qed

text \<open>A code is shown for requests that were delivered, and only for those.\<close>

lemma code_only_if_delivered:
  "k < length (pair_requests s) \<Longrightarrow>
   codes_shown (pair_answer k r s) =
     codes_shown s @ (if r = Inr True then [(endpointId (pair_requests s ! k), nearby_label (pair_requests s ! k))] else [])"
  by (cases r) (auto simp: pair_answer_def pair_failed_def Let_def)

end
