(* ===== verification/History_Page.thy ===== *)
theory History_Page
  imports Transfer_View Pairing_Api
begin

text \<open>
  The history page: \<open>routes/history.tsx\<close> over \<open>lib/transfer-history-api.ts\<close>, and what a row of it computes in
  \<open>components/history/TransferHistoryRow.tsx\<close>.

  Every command of the native side answers later, in any order. A refresh reads the list, shows it, and then asks for the partial data of the
  rows that may have some; it is kept in \<open>reads\<close> with whoever waits for it. A job is one of the destructive commands, kept in \<open>jobs\<close>
  from the click to the end of its handler.
\<close>

section \<open>State\<close>

record TransferTempData =
  td_exists :: bool
  td_sizeBytes :: nat

datatype history_job = JRemove string | JClearTemp string | JClearAll

text \<open>Who awaits a refresh: the first load, nobody but the log, or a job.\<close>

datatype reader = ReadByLoad | ReadByEvent | ReadByJob history_job

datatype read_stage = AwaitList | AwaitStats "string list"

datatype history_call =
    ListHistory | GetTempData string | DeleteRecord string | ClearTempData string | ClearHistory
  | OpenTargetOf string | OpenDownloadFolder string | OpenDownloadTarget string | Reveal string

record history_page =
  records :: "TransferRecord list"
  hp_pairedDevices :: "KnownDevice list"
  tempData :: "string \<rightharpoonup> TransferTempData"
  hp_status :: TransferStatusFilter
  hp_isLoading :: bool
  hp_isBusy :: bool
  confirmClearAll :: bool
  pendingRemove :: "TransferRecord option"
  missingTarget :: "TransferRecord option"
  reads :: "(reader \<times> read_stage) list"
  jobs :: "history_job list"
  hp_calls :: "history_call list"
  hp_toasts :: "string list"

definition HistoryPage :: history_page where
  "HistoryPage =
     \<lparr>records = [], hp_pairedDevices = [], tempData = Map.empty, hp_status = FAll, hp_isLoading = True, hp_isBusy = False,
      confirmClearAll = False, pendingRemove = None, missingTarget = None, reads = [], jobs = [], hp_calls = [], hp_toasts = []\<rparr>"

definition hp_call :: "history_call \<Rightarrow> history_page \<Rightarrow> history_page" where [step_defs]:
  "hp_call c s = s\<lparr>hp_calls := hp_calls s @ [c]\<rparr>"

definition hp_toast :: "string \<Rightarrow> history_page \<Rightarrow> history_page" where [step_defs]:
  "hp_toast m s = s\<lparr>hp_toasts := hp_toasts s @ [m]\<rparr>"

definition visible_rows :: "history_page \<Rightarrow> TransferRecord list" where
  "visible_rows s = filterTransferHistory (records s) (hp_status s)"

section \<open>Jobs\<close>

definition job_end :: "history_job \<Rightarrow> history_page \<Rightarrow> history_page" where [step_defs]:
  "job_end j s = s\<lparr>hp_isBusy := False, jobs := remove1 j (jobs s)\<rparr>"

definition job_done :: "history_job \<Rightarrow> history_page \<Rightarrow> history_page" where [step_defs]:
  "job_done j s =
     job_end j
       (case j of
          JRemove _ \<Rightarrow> s\<lparr>pendingRemove := None\<rparr>
        | JClearTemp _ \<Rightarrow> hp_toast ''common:history.temp.cleared'' s
        | JClearAll \<Rightarrow> hp_toast ''common:history.clearAllDone'' (s\<lparr>confirmClearAll := False\<rparr>))"

text \<open>A rejected native call is not an \<open>Error\<close> object; its text is not shown.\<close>

fun error_title :: "js_error \<Rightarrow> string \<Rightarrow> string" where
  "error_title (Error m) key = m"
| "error_title (WebPreviewError m) key = m"
| "error_title (TypeError m) key = m"
| "error_title (Rejected m) key = key"

definition job_failed :: "history_job \<Rightarrow> js_error \<Rightarrow> history_page \<Rightarrow> history_page" where [step_defs]:
  "job_failed j e s =
     job_end j
       (hp_toast
          (case j of
             JRemove _ \<Rightarrow> ''common:history.removeFailed''
           | JClearTemp _ \<Rightarrow> error_title e ''common:history.temp.clearFailed''
           | JClearAll \<Rightarrow> ''common:history.clearAllFailed'') s)"

definition job_call :: "history_job \<Rightarrow> history_call" where
  "job_call j = (case j of JRemove i \<Rightarrow> DeleteRecord i | JClearTemp i \<Rightarrow> ClearTempData i | JClearAll \<Rightarrow> ClearHistory)"

definition job_start :: "history_job \<Rightarrow> history_page \<Rightarrow> history_page" where [step_defs]:
  "job_start j s = hp_call (job_call j) (s\<lparr>hp_isBusy := True, jobs := jobs s @ [j]\<rparr>)"

text \<open>The buttons are disabled while the page is busy, and the remove button acts on the record of its dialog.\<close>

definition remove_click :: "history_page \<Rightarrow> history_page" where [step_defs]:
  "remove_click s =
     (if hp_isBusy s then s else case pendingRemove s of None \<Rightarrow> s | Some r \<Rightarrow> job_start (JRemove (h_id r)) s)"

definition clear_temp_click :: "string \<Rightarrow> history_page \<Rightarrow> history_page" where [step_defs]:
  "clear_temp_click i s =
     (if hp_isBusy s \<or> (case tempData s i of None \<Rightarrow> True | Some d \<Rightarrow> \<not> td_exists d) then s else job_start (JClearTemp i) s)"

definition clear_all_click :: "history_page \<Rightarrow> history_page" where [step_defs]:
  "clear_all_click s = (if hp_isBusy s \<or> \<not> confirmClearAll s then s else job_start JClearAll s)"

section \<open>Reading the history\<close>

definition refresh :: "reader \<Rightarrow> history_page \<Rightarrow> history_page" where [step_defs]:
  "refresh by s = hp_call ListHistory (s\<lparr>reads := reads s @ [(by, AwaitList)]\<rparr>)"

definition read_failed :: "reader \<Rightarrow> js_error \<Rightarrow> history_page \<Rightarrow> history_page" where [step_defs]:
  "read_failed by e s =
     (case by of ReadByLoad \<Rightarrow> s\<lparr>hp_isLoading := False\<rparr> | ReadByEvent \<Rightarrow> s | ReadByJob j \<Rightarrow> job_failed j e s)"

definition read_done :: "reader \<Rightarrow> history_page \<Rightarrow> history_page" where [step_defs]:
  "read_done by s =
     (case by of ReadByLoad \<Rightarrow> s\<lparr>hp_isLoading := False\<rparr> | ReadByEvent \<Rightarrow> s | ReadByJob j \<Rightarrow> job_done j s)"

definition without :: "nat \<Rightarrow> 'a list \<Rightarrow> 'a list" where
  "without k xs = take k xs @ drop (Suc k) xs"

text \<open>The list of read \<open>k\<close> is there, or the read failed.\<close>

definition list_answer :: "nat \<Rightarrow> TransferRecord list result \<Rightarrow> history_page \<Rightarrow> history_page" where [step_defs]:
  "list_answer k r s =
     (if k < length (reads s) \<and> snd (reads s ! k) = AwaitList then
        let by = fst (reads s ! k) in
        case r of
          Inl e \<Rightarrow> read_failed by e (s\<lparr>reads := without k (reads s)\<rparr>)
        | Inr rows \<Rightarrow>
            let reclaimable = filter (\<lambda>row. case h_resumableStorePath row of None \<Rightarrow> False | Some p \<Rightarrow> p \<noteq> []) rows in
            s\<lparr>records := rows, reads := (reads s)[k := (by, AwaitStats (map h_id reclaimable))],
              hp_calls := hp_calls s @ map (GetTempData \<circ> h_id) reclaimable\<rparr>
      else s)"

text \<open>All the partial data of read \<open>k\<close> has been asked for; \<open>stat\<close> is \<^const>\<open>None\<close> where that failed.\<close>

definition stats_answer :: "nat \<Rightarrow> (string \<Rightarrow> TransferTempData option) \<Rightarrow> history_page \<Rightarrow> history_page" where [step_defs]:
  "stats_answer k stat s =
     (if k < length (reads s) then
        case reads s ! k of
          (by, AwaitStats ids) \<Rightarrow>
            read_done by (s\<lparr>reads := without k (reads s), tempData := (\<lambda>i. if i \<in> set ids then stat i else None)\<rparr>)
        | (by, AwaitList) \<Rightarrow> s
      else s)"

definition job_answer :: "history_job \<Rightarrow> unit result \<Rightarrow> history_page \<Rightarrow> history_page" where [step_defs]:
  "job_answer j r s =
     (if j \<in> set (jobs s) \<and> ReadByJob j \<notin> fst ` set (reads s)
      then (case r of Inl e \<Rightarrow> job_failed j e s | Inr _ \<Rightarrow> refresh (ReadByJob j) s)
      else s)"

text \<open>The first load: the paired devices, empty where they cannot be read, and then the history.\<close>

definition load_devices :: "KnownDevice list \<Rightarrow> history_page \<Rightarrow> history_page" where [step_defs]:
  "load_devices ds s = refresh ReadByLoad (s\<lparr>hp_pairedDevices := ds\<rparr>)"

section \<open>Opening\<close>

text \<open>The button is there if the row names a destination, and disabled while the page is busy.\<close>

definition handleOpen :: "bool \<Rightarrow> TransferRecord \<Rightarrow> history_page \<Rightarrow> history_page" where [step_defs]:
  "handleOpen IS_ANDROID r s =
     (if hp_isBusy s \<or> \<not> canOpenTransfer (h_saveUri r) (h_savePath r) then s
      else if IS_ANDROID then
        (case resolveAndroidOpenTarget (h_saveUri r) (h_savePath r) of
           None \<Rightarrow> s\<lparr>missingTarget := Some r\<rparr>
         | Some (OpenFolder uri) \<Rightarrow> hp_call (OpenDownloadFolder uri) s
         | Some (OpenDownloads rel) \<Rightarrow> hp_call (OpenDownloadTarget rel) s)
      else hp_call (OpenTargetOf (h_id r)) s)"

definition open_failed :: "history_page \<Rightarrow> history_page" where [step_defs]:
  "open_failed s = hp_toast ''common:history.row.openFailed'' s"

definition target_answer :: "TransferRecord \<Rightarrow> string option result \<Rightarrow> history_page \<Rightarrow> history_page" where [step_defs]:
  "target_answer r path s =
     (case path of
        Inl _ \<Rightarrow> open_failed s
      | Inr None \<Rightarrow> s\<lparr>missingTarget := Some r\<rparr>
      | Inr (Some p) \<Rightarrow> if p = [] then s\<lparr>missingTarget := Some r\<rparr> else hp_call (Reveal p) s)"

section \<open>Events\<close>

datatype history_event =
    HpDevices "KnownDevice list"
  | HpUpdated
  | HpList nat "TransferRecord list result"
  | HpStats nat "string \<Rightarrow> TransferTempData option"
  | HpJob history_job "unit result"
  | HpAskRemove "TransferRecord option"
  | HpRemove
  | HpClearTemp string
  | HpAskClearAll bool
  | HpClearAll
  | HpFilter TransferStatusFilter
  | HpOpen TransferRecord
  | HpTarget TransferRecord "string option result"
  | HpOpenFailed
  | HpCloseMissing

fun history_step :: "bool \<Rightarrow> history_page \<Rightarrow> history_event \<Rightarrow> history_page" where
  "history_step android s (HpDevices ds) = load_devices ds s"
| "history_step android s HpUpdated = refresh ReadByEvent s"
| "history_step android s (HpList k r) = list_answer k r s"
| "history_step android s (HpStats k f) = stats_answer k f s"
| "history_step android s (HpJob j r) = job_answer j r s"
| "history_step android s (HpAskRemove r) =
     (case r of None \<Rightarrow> s\<lparr>pendingRemove := None\<rparr> | Some x \<Rightarrow> if hp_isBusy s then s else s\<lparr>pendingRemove := Some x\<rparr>)"
| "history_step android s HpRemove = remove_click s"
| "history_step android s (HpClearTemp i) = clear_temp_click i s"
| "history_step android s (HpAskClearAll b) = (if b \<and> (hp_isBusy s \<or> records s = []) then s else s\<lparr>confirmClearAll := b\<rparr>)"
| "history_step android s HpClearAll = clear_all_click s"
| "history_step android s (HpFilter f) = s\<lparr>hp_status := f\<rparr>"
| "history_step android s (HpOpen r) = handleOpen android r s"
| "history_step android s (HpTarget r p) = target_answer r p s"
| "history_step android s HpOpenFailed = open_failed s"
| "history_step android s HpCloseMissing = s\<lparr>missingTarget := None\<rparr>"

section \<open>The invariant of the page\<close>

fun job_reader :: "reader \<Rightarrow> bool" where
  "job_reader (ReadByJob j) = True"
| "job_reader _ = False"

definition job_readers :: "history_page \<Rightarrow> reader list" where
  "job_readers s = filter job_reader (map fst (reads s))"

definition page_inv :: "history_page \<Rightarrow> bool" where
  "page_inv s \<longleftrightarrow>
     hp_isBusy s = (jobs s \<noteq> []) \<and> length (jobs s) \<le> 1 \<and>
     (job_readers s = [] \<or> job_readers s = map ReadByJob (jobs s))"

lemma filter_without:
  assumes "k < length xs"
  shows "filter P (map f xs) = filter P (map f (take k xs)) @ (if P (f (xs ! k)) then [f (xs ! k)] else []) @ filter P (map f (drop (Suc k) xs))"
  by (subst id_take_nth_drop [OF assms]) simp

lemma append_Cons_single: "xs @ y # ys = [z] \<longleftrightarrow> xs = [] \<and> y = z \<and> ys = []"
  by (cases xs) auto

lemma read_removed:
  assumes "page_inv s" "k < length (reads s)"
  shows "filter job_reader (map fst (without k (reads s))) = (if job_reader (fst (reads s ! k)) then [] else job_readers s)"
    "job_reader (fst (reads s ! k)) \<Longrightarrow> \<exists>j. fst (reads s ! k) = ReadByJob j \<and> jobs s = [j]"
proof -
  have len: "length (job_readers s) \<le> 1" using assms(1) by (auto simp: page_inv_def)
  have mem: "job_reader (fst (reads s ! k)) \<Longrightarrow> fst (reads s ! k) \<in> set (job_readers s)"
    using assms(2) by (auto simp: job_readers_def)
  then have one: "job_reader (fst (reads s ! k)) \<Longrightarrow> job_readers s = [fst (reads s ! k)]"
    using len by (cases "job_readers s") auto
  show "filter job_reader (map fst (without k (reads s))) = (if job_reader (fst (reads s ! k)) then [] else job_readers s)"
    using filter_without [OF assms(2), of job_reader fst] one by (auto simp: job_readers_def without_def append_Cons_single)
  show "job_reader (fst (reads s ! k)) \<Longrightarrow> \<exists>j. fst (reads s ! k) = ReadByJob j \<and> jobs s = [j]"
    using one assms(1) by (auto simp: page_inv_def)
qed

lemma page_inv_updates [simp]:
  "page_inv (s\<lparr>hp_isLoading := b\<rparr>) = page_inv s" "page_inv (s\<lparr>tempData := d\<rparr>) = page_inv s"
  "page_inv (s\<lparr>hp_pairedDevices := ds\<rparr>) = page_inv s" "page_inv (s\<lparr>hp_status := f\<rparr>) = page_inv s"
  "page_inv (s\<lparr>confirmClearAll := b\<rparr>) = page_inv s" "page_inv (s\<lparr>pendingRemove := r\<rparr>) = page_inv s"
  "page_inv (s\<lparr>missingTarget := r\<rparr>) = page_inv s" "page_inv (s\<lparr>hp_calls := cs\<rparr>) = page_inv s"
  "page_inv (s\<lparr>hp_toasts := ts\<rparr>) = page_inv s"
  by (simp_all add: page_inv_def job_readers_def)

lemma job_end_inv:
  "jobs s = [j] \<Longrightarrow> filter job_reader (map fst (reads s)) = [] \<Longrightarrow> page_inv (job_end j s)"
  by (simp add: page_inv_def job_readers_def job_end_def)

lemma job_done_inv: "jobs s = [j] \<Longrightarrow> filter job_reader (map fst (reads s)) = [] \<Longrightarrow> page_inv (job_done j s)"
  unfolding job_done_def by (rule job_end_inv; cases j; simp add: hp_toast_def)

lemma job_failed_inv: "jobs s = [j] \<Longrightarrow> filter job_reader (map fst (reads s)) = [] \<Longrightarrow> page_inv (job_failed j e s)"
  unfolding job_failed_def by (rule job_end_inv; simp add: hp_toast_def)

lemma job_start_inv: "page_inv s \<Longrightarrow> \<not> hp_isBusy s \<Longrightarrow> page_inv (job_start j s)"
  by (auto simp: page_inv_def job_readers_def job_start_def hp_call_def)

lemma page_refresh_inv: "page_inv s \<Longrightarrow> \<not> job_reader by \<Longrightarrow> page_inv (refresh by s)"
  by (simp add: page_inv_def job_readers_def refresh_def hp_call_def)

lemma read_without_inv:
  "page_inv s \<Longrightarrow> k < length (reads s) \<Longrightarrow> \<not> job_reader (fst (reads s ! k)) \<Longrightarrow> page_inv (s\<lparr>reads := without k (reads s)\<rparr>)"
  using read_removed(1) [of s k] by (simp add: page_inv_def job_readers_def)

lemma list_answer_inv:
  assumes "page_inv s"
  shows "page_inv (list_answer k r s)"
proof (cases "k < length (reads s) \<and> snd (reads s ! k) = AwaitList")
  case True
  then have k: "k < length (reads s)" by simp
  have upd: "map fst ((reads s)[k := (fst (reads s ! k), x)]) = map fst (reads s)" for x
    by (metis fst_conv list_update_id map_update)
  show ?thesis
  proof (cases r)
    case (Inl e)
    show ?thesis
      using True Inl assms read_removed [OF assms k] read_without_inv [OF assms k] job_failed_inv [of "s\<lparr>reads := without k (reads s)\<rparr>"]
      by (cases "fst (reads s ! k)") (auto simp: list_answer_def read_failed_def)
  next
    case (Inr rows)
    then show ?thesis using True assms by (simp add: list_answer_def page_inv_def job_readers_def upd Let_def)
  qed
qed (use assms in \<open>simp only: list_answer_def if_False\<close>)

lemma stats_answer_inv:
  assumes "page_inv s"
  shows "page_inv (stats_answer k f s)"
proof (cases "k < length (reads s)")
  case True
  have "page_inv (read_done (fst (reads s ! k)) (s\<lparr>reads := without k (reads s), tempData := d\<rparr>))" for d
    using read_removed [OF assms True] read_without_inv [OF assms True]
      job_done_inv [of "s\<lparr>reads := without k (reads s), tempData := d\<rparr>"]
    by (cases "fst (reads s ! k)") (auto simp: read_done_def)
  then show ?thesis
    using assms True unfolding stats_answer_def by (auto split: prod.split read_stage.split)
qed (use assms in \<open>simp add: stats_answer_def\<close>)

lemma job_answer_inv:
  assumes "page_inv s"
  shows "page_inv (job_answer j r s)"
proof (cases "j \<in> set (jobs s) \<and> ReadByJob j \<notin> fst ` set (reads s)")
  case True
  then have jobs: "jobs s = [j]" using assms by (cases "jobs s") (auto simp: page_inv_def)
  have "job_readers s \<noteq> [ReadByJob j]"
  proof
    assume "job_readers s = [ReadByJob j]"
    then have "ReadByJob j \<in> set (job_readers s)" by simp
    then show False using True by (auto simp: job_readers_def)
  qed
  then have none: "filter job_reader (map fst (reads s)) = []" using assms jobs by (simp add: page_inv_def job_readers_def)
  show ?thesis
    using True assms jobs none job_failed_inv [OF jobs none]
    by (cases r) (simp_all add: job_answer_def page_inv_def job_readers_def refresh_def hp_call_def)
qed (use assms in \<open>simp only: job_answer_def if_False\<close>)

interpretation history_machine: state_machine HistoryPage "history_step android" page_inv
proof
  show "page_inv HistoryPage" by (simp add: page_inv_def job_readers_def HistoryPage_def)
  show "page_inv s \<Longrightarrow> page_inv (history_step android s e)" for s e
  proof (cases e)
    case HpRemove
    then show "page_inv s \<Longrightarrow> ?thesis" by (auto simp: remove_click_def job_start_inv split: option.split)
  next
    case (HpOpen r)
    then show "page_inv s \<Longrightarrow> ?thesis"
      by (auto simp: handleOpen_def hp_call_def split: option.split HistoryOpenTarget.split)
  next
    case (HpDevices ds)
    then show "page_inv s \<Longrightarrow> ?thesis"
      by (simp add: load_devices_def page_refresh_inv)
  qed (auto simp: list_answer_inv stats_answer_inv job_answer_inv clear_temp_click_def clear_all_click_def target_answer_def
      open_failed_def hp_toast_def hp_call_def job_start_inv page_refresh_inv split: option.split sum.split)
qed

section \<open>The row\<close>

text \<open>
  \<open>useRelativeTime\<close>: the unit and the signed number given to the formatter. \<open>Math.round\<close> rounds a half up.
\<close>

datatype time_unit = UYear | UMonth | UDay | UHour | UMinute | USecond

definition js_round :: "rat \<Rightarrow> int" where
  "js_round x = \<lfloor>x + 1 / 2\<rfloor>"

definition time_units :: "(time_unit \<times> nat) list" where
  "time_units = [(UYear, 31536000), (UMonth, 2592000), (UDay, 86400), (UHour, 3600), (UMinute, 60)]"

fun pick_unit :: "rat \<Rightarrow> (time_unit \<times> nat) list \<Rightarrow> int \<times> time_unit" where
  "pick_unit delta [] = (js_round delta, USecond)"
| "pick_unit delta ((u, secs) # us) =
     (if \<bar>delta\<bar> \<ge> of_nat secs then (js_round (delta / of_nat secs), u) else pick_unit delta us)"

definition useRelativeTime :: "nat \<Rightarrow> nat \<Rightarrow> int \<times> time_unit" where
  "useRelativeTime now timestamp = pick_unit ((of_nat timestamp - of_nat now) / 1000) time_units"

definition unit_seconds :: "time_unit \<Rightarrow> rat" where
  "unit_seconds u = (case u of UYear \<Rightarrow> 31536000 | UMonth \<Rightarrow> 2592000 | UDay \<Rightarrow> 86400 | UHour \<Rightarrow> 3600 | UMinute \<Rightarrow> 60 | USecond \<Rightarrow> 1)"

lemma js_round_close: "\<bar>of_int (js_round x) - x\<bar> \<le> 1 / 2"
  unfolding js_round_def by linarith

datatype row_text = RowName string | RowKey string | RowCount string nat

definition row_title :: "TransferRecord \<Rightarrow> row_text" where
  "row_title r =
     (case summarizeTransferItems r of
        SNamed n \<Rightarrow> RowName n
      | SCounted n \<Rightarrow> RowCount ''common:history.row.items'' n
      | SUnknown \<Rightarrow> RowKey ''common:history.row.unknownItem'')"

definition row_peer :: "TransferRecord \<Rightarrow> KnownDevice list \<Rightarrow> row_text" where
  "row_peer r devices =
     (if h_peerCount r > 1 then RowCount ''common:history.row.devices'' (h_peerCount r)
      else
        case resolvePeerLabel r devices of
          Some n \<Rightarrow> RowName n
        | None \<Rightarrow>
            (case h_peer r of
               Some p \<Rightarrow> RowName (take 8 (hp_endpointId p))
             | None \<Rightarrow> RowKey ''common:history.row.unknownDevice''))"

definition row_details :: "bool \<Rightarrow> TransferRecord \<Rightarrow> (string \<times> row_text) list" where
  "row_details android r =
     (case formatTransferDuration (h_durationMs r) of None \<Rightarrow> [] | Some d \<Rightarrow> [(''duration'', RowName d)]) @
     (case formatTransferSpeed (h_avgSpeedBps r) of None \<Rightarrow> [] | Some v \<Rightarrow> [(''speed'', RowName v)]) @
     (if formatReceiveSavePath android (h_savePath r) \<noteq> [] then [(''savedTo'', RowName (formatReceiveSavePath android (h_savePath r)))] else []) @
     (if h_conflictCount r > 0 then [(''conflicts'', RowCount ''common:history.row.conflicts'' (h_conflictCount r))] else []) @
     (case h_error r of None \<Rightarrow> [] | Some e \<Rightarrow> if e = [] then [] else [(''error'', RowName e)])"

text \<open>The keys of the details are distinct, as React wants them.\<close>

lemma row_details_keys: "distinct (map fst (row_details android r))"
  by (cases "formatTransferDuration (h_durationMs r)"; cases "formatTransferSpeed (h_avgSpeedBps r)"; cases "h_error r")
    (simp_all add: row_details_def)

section \<open>Properties\<close>

text \<open>What ends a job: the page is free, the rows are as they were, and one more toast tells a failure.\<close>

definition told_free :: "history_page \<Rightarrow> history_page \<Rightarrow> bool" where
  "told_free s s' \<longleftrightarrow>
     hp_isBusy s' = False \<and> jobs s' = [] \<and> records s' = records s \<and> length (hp_toasts s') = Suc (length (hp_toasts s))"

lemma job_failed_free: "jobs s = [j] \<Longrightarrow> told_free s (job_failed j e s)"
  by (simp add: told_free_def job_failed_def job_end_def hp_toast_def)

lemma busy_read:
  assumes "page_inv s" "jobs s = [j]" "k < length (reads s)" "fst (reads s ! k) = ReadByJob j"
  shows "case snd (reads s ! k) of
      AwaitList \<Rightarrow>
        told_free s (history_step android s (HpList k (Inl e))) \<and>
        (let s' = history_step android s (HpList k (Inr rows)) in
         records s' = rows \<and> jobs s' = [j] \<and>
         reads s' = (reads s)[k := (ReadByJob j, AwaitStats (map h_id (filter (\<lambda>r. opt_string (h_resumableStorePath r) \<noteq> []) rows)))])
    | AwaitStats ids \<Rightarrow>
        (let s' = history_step android s (HpStats k stat) in
         hp_isBusy s' = False \<and> jobs s' = [] \<and> records s' = records s \<and>
         tempData s' = (\<lambda>i. if i \<in> set ids then stat i else None) \<and>
         (case j of JRemove _ \<Rightarrow> pendingRemove s' = None | JClearAll \<Rightarrow> confirmClearAll s' = False | _ \<Rightarrow> True))"
proof (cases "snd (reads s ! k)")
  case AwaitList
  have sel: "(\<lambda>row. case h_resumableStorePath row of None \<Rightarrow> False | Some p \<Rightarrow> p \<noteq> []) = (\<lambda>r. opt_string (h_resumableStorePath r) \<noteq> [])"
    by (auto simp: opt_string_def fun_eq_iff split: option.split)
  show ?thesis
    using assms(2-) AwaitList job_failed_free [of "s\<lparr>reads := without k (reads s)\<rparr>" j e]
    by (simp add: list_answer_def read_failed_def sel Let_def told_free_def)
next
  case (AwaitStats ids)
  then have "reads s ! k = (ReadByJob j, AwaitStats ids)" using assms(4) by (cases "reads s ! k") simp
  then show ?thesis
    using assms(2,3) by (cases j) (simp_all add: stats_answer_def read_done_def job_done_def job_end_def hp_toast_def Let_def)
qed

text \<open>
  C30. The page does one destructive thing at a time and always comes back, however its answers and other events interleave. In every run at most one
  of the commands that delete or clear is being handled, exactly while the page is busy, and then what will end it is on its way: first the
  answer to the command, whose failure frees the page with one toast and untouched rows and whose success asks for the list again; then that list, whose
  failure frees the page in the same way and whose rows are shown; and at last the partial data of these rows, after which the page is free, shows
  them and has closed the dialog of the removal.
\<close>

theorem history_jobs:
  fixes android es
  defines "s \<equiv> run_ops (history_step android) HistoryPage es"
  defines "free \<equiv> \<lambda>s'. hp_isBusy s' = False \<and> jobs s' = []"
    and "told \<equiv> \<lambda>s'. records s' = records s \<and> length (hp_toasts s') = Suc (length (hp_toasts s))"
  shows "hp_isBusy s = (jobs s \<noteq> []) \<and> length (jobs s) \<le> 1 \<and>
    (\<forall>j \<in> set (jobs s).
      if ReadByJob j \<notin> fst ` set (reads s)
      then (let s1 = history_step android s (HpJob j (Inl e)) in free s1 \<and> told s1) \<and>
        (let s1 = history_step android s (HpJob j (Inr ())) in jobs s1 = [j] \<and> reads s1 = reads s @ [(ReadByJob j, AwaitList)])
      else \<exists>k < length (reads s). fst (reads s ! k) = ReadByJob j \<and>
        (case snd (reads s ! k) of
           AwaitList \<Rightarrow>
             (let s1 = history_step android s (HpList k (Inl e)) in free s1 \<and> told s1) \<and>
             (let s1 = history_step android s (HpList k (Inr rows)) in
              records s1 = rows \<and> jobs s1 = [j] \<and>
              reads s1 = (reads s)[k := (ReadByJob j, AwaitStats (map h_id (filter (\<lambda>r. opt_string (h_resumableStorePath r) \<noteq> []) rows)))])
         | AwaitStats ids \<Rightarrow>
             (let s1 = history_step android s (HpStats k stat) in
              free s1 \<and> records s1 = records s \<and> tempData s1 = (\<lambda>i. if i \<in> set ids then stat i else None) \<and>
              (case j of JRemove _ \<Rightarrow> pendingRemove s1 = None | JClearAll \<Rightarrow> confirmClearAll s1 = False | _ \<Rightarrow> True))))"
proof -
  have inv: "page_inv s" unfolding s_def by (rule history_machine.reachable_inv)
  have jobs: "jobs s = [j]" if "j \<in> set (jobs s)" for j
    using inv that by (cases "jobs s") (auto simp: page_inv_def)
  have unread: "told_free s (history_step android s (HpJob j (Inl e))) \<and>
      jobs (history_step android s (HpJob j (Inr ()))) = [j] \<and>
      reads (history_step android s (HpJob j (Inr ()))) = reads s @ [(ReadByJob j, AwaitList)]"
    if "j \<in> set (jobs s)" "ReadByJob j \<notin> fst ` set (reads s)" for j
    using that job_failed_free [of s j e] jobs [of j] by (simp add: job_answer_def refresh_def hp_call_def)
  have read: "\<exists>k < length (reads s). fst (reads s ! k) = ReadByJob j" if "ReadByJob j \<in> fst ` set (reads s)" for j
    using that by (metis imageE in_set_conv_nth)
  show ?thesis
  proof (intro conjI ballI)
    show "hp_isBusy s = (jobs s \<noteq> [])" "length (jobs s) \<le> 1" using inv by (simp_all add: page_inv_def)
    fix j assume j: "j \<in> set (jobs s)"
    show "if ReadByJob j \<notin> fst ` set (reads s)
      then (let s1 = history_step android s (HpJob j (Inl e)) in free s1 \<and> told s1) \<and>
        (let s1 = history_step android s (HpJob j (Inr ())) in jobs s1 = [j] \<and> reads s1 = reads s @ [(ReadByJob j, AwaitList)])
      else \<exists>k < length (reads s). fst (reads s ! k) = ReadByJob j \<and>
        (case snd (reads s ! k) of
           AwaitList \<Rightarrow>
             (let s1 = history_step android s (HpList k (Inl e)) in free s1 \<and> told s1) \<and>
             (let s1 = history_step android s (HpList k (Inr rows)) in
              records s1 = rows \<and> jobs s1 = [j] \<and>
              reads s1 = (reads s)[k := (ReadByJob j, AwaitStats (map h_id (filter (\<lambda>r. opt_string (h_resumableStorePath r) \<noteq> []) rows)))])
         | AwaitStats ids \<Rightarrow>
             (let s1 = history_step android s (HpStats k stat) in
              free s1 \<and> records s1 = records s \<and> tempData s1 = (\<lambda>i. if i \<in> set ids then stat i else None) \<and>
              (case j of JRemove _ \<Rightarrow> pendingRemove s1 = None | JClearAll \<Rightarrow> confirmClearAll s1 = False | _ \<Rightarrow> True)))"
    proof (cases "ReadByJob j \<in> fst ` set (reads s)")
      case True
      then obtain k where k: "k < length (reads s)" "fst (reads s ! k) = ReadByJob j" using read by blast
      have "(ReadByJob j \<notin> fst ` set (reads s)) = False" using True by simp
      note no_if = this if_False
      show ?thesis
        unfolding no_if
        using k busy_read [OF inv jobs [OF j] k, of android e rows stat]
        by (intro exI [of _ k]) (cases "snd (reads s ! k)"; simp add: free_def told_def told_free_def Let_def del: history_step.simps)
    qed (use unread [OF j] in \<open>simp add: free_def told_def told_free_def Let_def del: history_step.simps\<close>)
  qed
qed

definition demo_record :: TransferRecord where
  "demo_record =
     \<lparr>h_id = ''1'', h_direction = HReceive, h_status = HCompleted, h_startedAt = 0, h_endedAt = None, h_durationMs = None,
      h_exportMs = None, h_payloadBytes = 0, h_bytesTransferred = 0, h_avgSpeedBps = None, h_itemCount = 1, h_pathType = None,
      h_rootName = ''f'', h_fileNames = [], h_fileNamesTruncated = False, h_blobHash = None, h_peer = None, h_peerCount = 0,
      h_savePath = None, h_saveUri = None, h_conflictCount = 0, h_resumableStorePath = None, h_error = None\<rparr>"

theorem history_jobs_witness:
  "let s = run_ops (history_step False) HistoryPage [HpDevices [], HpList 0 (Inr [demo_record]), HpStats 0 (\<lambda>_. None),
     HpAskRemove (Some demo_record), HpRemove, HpJob (JRemove ''1'') (Inr ())] in
   hp_isBusy s \<and> hp_isBusy (history_step False s (HpList 0 (Inl (Rejected ''no'')))) = False"
proof -
  define es where "es = [HpDevices [], HpList 0 (Inr [demo_record]), HpStats 0 (\<lambda>_. None), HpAskRemove (Some demo_record), HpRemove,
    HpJob (JRemove ''1'') (Inr ())]"
  define s where "s = run_ops (history_step False) HistoryPage es"
  have "jobs s = [JRemove ''1'']" "reads s = [(ReadByJob (JRemove ''1''), AwaitList)]"
    by (simp_all add: s_def es_def HistoryPage_def step_defs without_def demo_record_def Let_def)
  then show ?thesis
    using history_jobs [of False es "Rejected ''no''" "[]" "\<lambda>_. None", folded s_def]
    by (simp add: s_def [symmetric] es_def [symmetric] Let_def del: history_step.simps)
qed

text \<open>
  The age of a transfer is shown to the nearest unit: the number differs from the exact age by at most half of its unit, it is zero only in seconds, and the unit is the
  largest that fits.
\<close>

theorem relative_time_accurate:
  "case useRelativeTime now timestamp of (n, u) \<Rightarrow>
     let delta = (of_nat timestamp - of_nat now :: rat) / 1000 in
     \<bar>of_int n * unit_seconds u - delta\<bar> \<le> unit_seconds u / 2 \<and>
     (if u = USecond then \<bar>delta\<bar> < 60 else unit_seconds u \<le> \<bar>delta\<bar> \<and> n \<noteq> 0) \<and>
     (\<forall>v. unit_seconds v \<le> unit_seconds u \<or> \<bar>delta\<bar> < unit_seconds v)"
proof -
  define delta where "delta = (of_nat timestamp - of_nat now :: rat) / 1000"
  have near: "\<bar>of_int (js_round (delta / c)) * c - delta\<bar> \<le> c / 2" if "0 < c" for c
    using js_round_close [of "delta / c"] that
    by (simp add: abs_le_iff field_simps)
  have nonzero: "js_round (delta / c) \<noteq> 0" if "0 < c" "c \<le> \<bar>delta\<bar>" for c
  proof
    assume "js_round (delta / c) = 0"
    then have "\<bar>delta\<bar> \<le> c / 2" using near [OF that(1)] by simp
    then show False using that by simp
  qed
  have sec: "\<bar>of_int (js_round delta) - delta\<bar> \<le> 1 / 2" by (rule js_round_close)
  show ?thesis
    unfolding useRelativeTime_def time_units_def Let_def delta_def [symmetric]
    using near nonzero sec by (auto simp: unit_seconds_def split: time_unit.split)
qed

text \<open>
  The nearest number may be the next unit in full: a transfer 59 minutes and 36 seconds old reads as sixty minutes, not as an hour.
\<close>

lemma age_reads_sixty_minutes: "useRelativeTime 3576000 0 = (- 60, UMinute)"
proof -
  have "\<lfloor>(- 3576 :: rat) / 60 + 1 / 2\<rfloor> = - 60" by (rule floor_unique) simp_all
  then show ?thesis by (simp add: useRelativeTime_def time_units_def js_round_def)
qed

text \<open>
  Reads are not ordered: a list that was asked for before a removal and is answered after it puts the removed row back, and the page is at rest.
\<close>

theorem stale_read_restores_row:
  "let s = run_ops (history_step android) HistoryPage
     [HpDevices [], HpList 0 (Inr [r]), HpStats 0 stat, HpUpdated, HpAskRemove (Some r), HpRemove, HpJob (JRemove (h_id r)) (Inr ()),
      HpList 1 (Inr []), HpStats 1 stat, HpList 0 (Inr [r]), HpStats 0 stat] in
   records s = [r] \<and> jobs s = [] \<and> reads s = [] \<and> hp_isBusy s = False \<and> hp_toasts s = []"
  by (simp add: HistoryPage_def step_defs without_def job_call_def Let_def)

text \<open>
  A removal that succeeded is told as failed when the list cannot be read afterwards, and the dialog still offers to remove the row.
\<close>

theorem removal_told_as_failed:
  "let s = run_ops (history_step android) HistoryPage
     [HpDevices [], HpList 0 (Inr [r]), HpStats 0 stat, HpAskRemove (Some r), HpRemove, HpJob (JRemove (h_id r)) (Inr ()), HpList 0 (Inl e)] in
   hp_toasts s = [''common:history.removeFailed''] \<and> records s = [r] \<and> pendingRemove s = Some r"
  by (simp add: HistoryPage_def step_defs without_def job_call_def Let_def)

end
