(* ===== verification/Devices_Screen.thy ===== *)
theory Devices_Screen
  imports Pairing_Session
begin

text \<open>
  The device settings: \<open>components/settings/devices/devices-settings.tsx\<close> on top of \<open>usePairing\<close> of \<open>Pairing_Session\<close>.

  The screen has four dialogs. Those that confirm a removal or a trust share the component \<open>ConfirmModal\<close>; React keeps its state \<open>saving\<close> with the mounted
  instance, so a dialog is the peer, the number of the instance and \<open>saving\<close>. A call that was confirmed remembers the instance of
  its handler. \<open>ScRemount\<close> is the unmount and the new mount of the open dialog, when its device or the node went away for a while.
\<close>

section \<open>Confirmation\<close>

record confirm_modal =
  cm_open :: "(string \<times> nat \<times> bool) option"     \<comment> \<open>peer, instance, saving\<close>
  cm_next :: nat
  cm_jobs :: "(string \<times> nat) list"               \<comment> \<open>confirmed and not settled\<close>

definition cm_start :: confirm_modal where
  "cm_start = \<lparr>cm_open = None, cm_next = 0, cm_jobs = []\<rparr>"

text \<open>Setting the peer mounts the dialog, or changes the peer of the one that is there.\<close>

definition cm_show :: "string \<Rightarrow> confirm_modal \<Rightarrow> confirm_modal" where [step_defs]:
  "cm_show p m =
     (case cm_open m of
        None \<Rightarrow> m\<lparr>cm_open := Some (p, cm_next m, False), cm_next := Suc (cm_next m)\<rparr>
      | Some (_, i, saving) \<Rightarrow> m\<lparr>cm_open := Some (p, i, saving)\<rparr>)"

definition cm_close :: "confirm_modal \<Rightarrow> confirm_modal" where [step_defs]:
  "cm_close m = m\<lparr>cm_open := None\<rparr>"

definition cm_remount :: "confirm_modal \<Rightarrow> confirm_modal" where [step_defs]:
  "cm_remount m =
     (case cm_open m of
        None \<Rightarrow> m
      | Some (p, _, _) \<Rightarrow> m\<lparr>cm_open := Some (p, cm_next m, False), cm_next := Suc (cm_next m)\<rparr>)"

text \<open>The confirm button is disabled while \<open>saving\<close>; \<^const>\<open>None\<close> when it does nothing.\<close>

definition cm_confirm :: "confirm_modal \<Rightarrow> (string \<times> confirm_modal) option" where
  "cm_confirm m =
     (case cm_open m of
        None \<Rightarrow> None
      | Some (p, i, saving) \<Rightarrow>
          if saving then None
          else Some (p, m\<lparr>cm_open := Some (p, i, True), cm_jobs := cm_jobs m @ [(p, i)]\<rparr>))"

text \<open>The call of a job settled: \<open>onClose\<close> if it succeeded, and \<open>saving\<close> of its own instance is reset.\<close>

definition cm_settle :: "string \<times> nat \<Rightarrow> bool \<Rightarrow> confirm_modal \<Rightarrow> confirm_modal" where [step_defs]:
  "cm_settle j ok m =
     (let m1 = m\<lparr>cm_jobs := remove1 j (cm_jobs m)\<rparr>; m2 = (if ok then cm_close m1 else m1) in
      case cm_open m2 of
        None \<Rightarrow> m2
      | Some (p, i, saving) \<Rightarrow> if i = snd j then m2\<lparr>cm_open := Some (p, i, False)\<rparr> else m2)"

section \<open>The screen\<close>

record devices_screen =
  sc_session :: pairing_session
  joinOpen :: bool
  join_code :: string
  joins :: nat                           \<comment> \<open>joins in flight\<close>
  renameThisOpen :: bool
  this_name :: string
  this_saving :: bool
  rename_modal :: confirm_modal
  rename_name :: string
  trust_modal :: confirm_modal
  forget_modal :: confirm_modal
  forgettingIds :: "string list"
  searchQuery :: string
  copied :: bool
  copied_texts :: "string list"
  host_opens :: "bool list"              \<comment> \<open>openings in flight: whether the ticket is to be copied\<close>
  sc_toasts :: "string list"

definition DevicesSettings :: "pairing_data \<Rightarrow> devices_screen" where
  "DevicesSettings d =
     \<lparr>sc_session = usePairing d, joinOpen = False, join_code = [], joins = 0, renameThisOpen = False,
      this_name = [], this_saving = False, rename_modal = cm_start, rename_name = [], trust_modal = cm_start, forget_modal = cm_start, forgettingIds = [],
      searchQuery = [], copied = False, copied_texts = [], host_opens = [], sc_toasts = []\<rparr>"

definition sc_toast :: "string \<Rightarrow> devices_screen \<Rightarrow> devices_screen" where [step_defs]:
  "sc_toast m s = s\<lparr>sc_toasts := sc_toasts s @ [m]\<rparr>"

definition on_session :: "(pairing_session \<Rightarrow> pairing_session) \<Rightarrow> devices_screen \<Rightarrow> devices_screen" where [step_defs]:
  "on_session f s = s\<lparr>sc_session := f (sc_session s)\<rparr>"

definition sortedDevices :: "(string \<Rightarrow> string \<Rightarrow> int) \<Rightarrow> send_counts \<Rightarrow> devices_screen \<Rightarrow> PairedDevice list" where
  "sortedDevices lc counts s = sortPairedDevicesForSettings lc (pd_devices (ps_data (sc_session s))) counts"

definition filteredDevices :: "(string \<Rightarrow> string \<Rightarrow> int) \<Rightarrow> send_counts \<Rightarrow> devices_screen \<Rightarrow> PairedDevice list" where
  "filteredDevices lc counts s = filter (\<lambda>d. matchesPairedDeviceSearch d (searchQuery s)) (sortedDevices lc counts s)"

definition displayPairingCode :: "devices_screen \<Rightarrow> string option" where
  "displayPairingCode s =
     (case pairingCode (ps_data (sc_session s)) of Some c \<Rightarrow> Some c | None \<Rightarrow> pairingTicket (sc_session s))"

definition hostWindowOpen :: "devices_screen \<Rightarrow> bool" where
  "hostWindowOpen s \<longleftrightarrow>
     (case hostExpiresIn (sc_session s) of None \<Rightarrow> False | Some n \<Rightarrow> n > 0) \<and>
     (case pairingTicket (sc_session s) of None \<Rightarrow> False | Some t \<Rightarrow> t \<noteq> [])"

subsection \<open>Removing and trusting\<close>

definition trash_click :: "string \<Rightarrow> devices_screen \<Rightarrow> devices_screen" where [step_defs]:
  "trash_click e s = (if e \<in> set (forgettingIds s) then s else s\<lparr>forget_modal := cm_show e (forget_modal s)\<rparr>)"

definition handleForget :: "devices_screen \<Rightarrow> devices_screen" where [step_defs]:
  "handleForget s =
     (case cm_confirm (forget_modal s) of
        None \<Rightarrow> s
      | Some (e, m) \<Rightarrow>
          on_session (ps_do (PeForget e)) (s\<lparr>forget_modal := m, forgettingIds := js_set_add (forgettingIds s) e\<rparr>))"

definition forget_settled :: "string \<times> nat \<Rightarrow> unit result \<Rightarrow> devices_screen \<Rightarrow> devices_screen" where [step_defs]:
  "forget_settled j r s =
     (if j \<notin> set (cm_jobs (forget_modal s)) then s
      else
        let s1 = (on_session (forget_answer r)
                   (sc_toast (if is_ok r then ''common:settings.devices.deviceRemoved'' else ''common:settings.devices.removeFailed'') s)) in
        s1\<lparr>forgettingIds := removeAll (fst j) (forgettingIds s1), forget_modal := cm_settle j (is_ok r) (forget_modal s1)\<rparr>)"

text \<open>Turning trust on is confirmed first; turning it off is not.\<close>

definition trust_switch :: "PairedDevice \<Rightarrow> bool \<Rightarrow> devices_screen \<Rightarrow> devices_screen" where [step_defs]:
  "trust_switch d trust s =
     (if \<not> isPairedDeviceActive d then s
      else if trust then s\<lparr>trust_modal := cm_show (endpoint_id d) (trust_modal s)\<rparr>
      else on_session (trustDevice (endpoint_id d) False) s)"

definition untrust_settled :: "nat \<Rightarrow> unit result \<Rightarrow> devices_screen \<Rightarrow> devices_screen" where [step_defs]:
  "untrust_settled k r s =
     on_session (trust_answer k r) (if is_ok r then s else sc_toast ''common:settings.devices.trustFailed'' s)"

definition trust_confirm :: "devices_screen \<Rightarrow> devices_screen" where [step_defs]:
  "trust_confirm s =
     (case cm_confirm (trust_modal s) of
        None \<Rightarrow> s
      | Some (e, m) \<Rightarrow> on_session (trustDevice e True) (s\<lparr>trust_modal := m\<rparr>))"

definition trust_settled :: "string \<times> nat \<Rightarrow> nat \<Rightarrow> unit result \<Rightarrow> devices_screen \<Rightarrow> devices_screen" where [step_defs]:
  "trust_settled j k r s =
     (if j \<notin> set (cm_jobs (trust_modal s)) then s
      else
        let s1 = on_session (trust_answer k r) (if is_ok r then s else sc_toast ''common:settings.devices.trustFailed'' s) in
        s1\<lparr>trust_modal := cm_settle j (is_ok r) (trust_modal s1)\<rparr>)"

subsection \<open>Joining, renaming, copying\<close>

definition handleJoin :: "bool \<Rightarrow> devices_screen \<Rightarrow> devices_screen" where [step_defs]:
  "handleJoin ready s =
     (if isJoining (sc_session s) \<or> js_trim (join_code s) = [] then s
      else on_session (join_begin ready (join_code s)) (s\<lparr>joins := Suc (joins s)\<rparr>))"

definition join_settled :: "unit result \<Rightarrow> devices_screen \<Rightarrow> devices_screen" where [step_defs]:
  "join_settled r s =
     (if joins s = 0 then s
      else
        let s1 = on_session (join_answer r) (s\<lparr>joins := joins s - 1\<rparr>) in
        if is_ok r then sc_toast ''common:settings.devices.devicePaired'' (s1\<lparr>join_code := [], joinOpen := False\<rparr>)
        else sc_toast ''common:settings.devices.pairFailed'' s1)"

text \<open>Closing through the dialog clears what was typed, the cancel button does not.\<close>

definition join_dismiss :: "devices_screen \<Rightarrow> devices_screen" where [step_defs]:
  "join_dismiss s = s\<lparr>join_code := [], joinOpen := False\<rparr>"

definition rename_this_click :: "devices_screen \<Rightarrow> devices_screen" where [step_defs]:
  "rename_this_click s =
     (case thisDevice (ps_data (sc_session s)) of
        None \<Rightarrow> s
      | Some d \<Rightarrow> s\<lparr>renameThisOpen := True, this_name := di_display_name d\<rparr>)"

definition this_save :: "devices_screen \<Rightarrow> devices_screen" where [step_defs]:
  "this_save s =
     (let trimmed = js_trim (this_name s) in
      if \<not> renameThisOpen s \<or> this_saving s \<or> trimmed = [] then s
      else on_session (ps_do (PeRenameThis trimmed)) (s\<lparr>this_saving := True\<rparr>))"

definition this_settled :: "DeviceInfo option result \<Rightarrow> devices_screen \<Rightarrow> devices_screen" where [step_defs]:
  "this_settled r s =
     (if \<not> this_saving s then s
      else
        let s1 = on_session (rename_this_answer r) s in
        (if is_ok r then sc_toast ''common:settings.devices.nameSaved'' (s1\<lparr>renameThisOpen := False\<rparr>)
         else sc_toast ''common:settings.devices.nameSaveFailed'' s1)\<lparr>this_saving := False\<rparr>)"

text \<open>Only an active device can be renamed; the dialog starts with its name.\<close>

definition rename_peer_click :: "PairedDevice \<Rightarrow> devices_screen \<Rightarrow> devices_screen" where [step_defs]:
  "rename_peer_click d s =
     (if isPairedDeviceActive d
      then s\<lparr>rename_modal := cm_show (endpoint_id d) (rename_modal s), rename_name := display_name d\<rparr> else s)"

definition handleSave :: "devices_screen \<Rightarrow> devices_screen" where [step_defs]:
  "handleSave s =
     (let trimmed = js_trim (rename_name s) in
      if trimmed = [] then s
      else
        case cm_confirm (rename_modal s) of
          None \<Rightarrow> s
        | Some (e, m) \<Rightarrow> on_session (ps_do (PeRename e trimmed)) (s\<lparr>rename_modal := m\<rparr>))"

definition rename_settled :: "string \<times> nat \<Rightarrow> unit result \<Rightarrow> devices_screen \<Rightarrow> devices_screen" where [step_defs]:
  "rename_settled j r s =
     (if j \<notin> set (cm_jobs (rename_modal s)) then s
      else
        let s1 = on_session (rename_answer r)
                   (sc_toast (if is_ok r then ''common:settings.devices.nameSaved'' else ''common:settings.devices.nameSaveFailed'') s) in
        s1\<lparr>rename_modal := cm_settle j (is_ok r) (rename_modal s1)\<rparr>)"

text \<open>
  A code that is shown is copied at once and the window is opened behind it; without one the window is opened first and its ticket copied.
  \<open>clip\<close> is the outcome of the clipboard. Nothing is opened while the node is not ready.
\<close>

definition open_host :: "bool \<Rightarrow> bool \<Rightarrow> devices_screen \<Rightarrow> devices_screen" where [step_defs]:
  "open_host ready to_copy s =
     (if \<not> ready then s else on_session (openHostPairing ready) (s\<lparr>host_opens := host_opens s @ [to_copy]\<rparr>))"

definition copy_code :: "bool \<Rightarrow> string \<Rightarrow> devices_screen \<Rightarrow> devices_screen" where [step_defs]:
  "copy_code clip c s =
     (if clip then s\<lparr>copied_texts := copied_texts s @ [c], copied := True\<rparr>
      else sc_toast ''common:settings.devices.pairFailed'' s)"

definition copyPairingCode :: "bool \<Rightarrow> bool \<Rightarrow> devices_screen \<Rightarrow> devices_screen" where [step_defs]:
  "copyPairingCode ready clip s =
     (if ps_isLoading (sc_session s) then s
      else
        let code = (case displayPairingCode s of None \<Rightarrow> [] | Some c \<Rightarrow> c) in
        if code = [] then open_host ready True s
        else if clip then open_host ready False (copy_code clip code s)
        else copy_code clip code s)"

definition host_opened :: "nat \<Rightarrow> string result \<Rightarrow> bool \<Rightarrow> devices_screen \<Rightarrow> devices_screen" where [step_defs]:
  "host_opened k r clip s =
     (if k < length (host_opens s) then
        let to_copy = host_opens s ! k;
            s1 = on_session (host_answer r) (s\<lparr>host_opens := take k (host_opens s) @ drop (Suc k) (host_opens s)\<rparr>) in
        case r of
          Inl _ \<Rightarrow> sc_toast ''common:settings.devices.pairFailed'' s1
        | Inr t \<Rightarrow> if to_copy \<and> t \<noteq> [] then copy_code clip t s1 else s1
      else s)"

text \<open>A peer that joined through the open window is confirmed with a toast, by an effect on the counter.\<close>

definition session_event :: "pairing_event \<Rightarrow> devices_screen \<Rightarrow> devices_screen" where [step_defs]:
  "session_event e s =
     (let s1 = on_session (\<lambda>p. pairing_step p e) s; n = hostPairedCount (sc_session s1) in
      if n = hostPairedCount (sc_session s) \<or> n = 0 then s1
      else sc_toast ''common:settings.devices.devicePaired'' s1)"

datatype screen_event =
    ScTrash string | ScForget | ScForgot "string \<times> nat" "unit result"
  | ScTrust PairedDevice bool | ScUntrusted nat "unit result" | ScTrustConfirm | ScTrusted "string \<times> nat" nat "unit result"
  | ScCloseForget | ScCloseTrust | ScRemount
  | ScJoinOpen | ScJoinCode string | ScJoin bool | ScJoined "unit result" | ScJoinCancel | ScJoinDismiss
  | ScRenameThis | ScThisText string | ScThisSave | ScThisSaved "DeviceInfo option result" | ScThisClose
  | ScRename PairedDevice | ScRenameText string | ScSave | ScSaved "string \<times> nat" "unit result" | ScRenameClose
  | ScSearch string | ScCopy bool bool | ScHostOpened nat "string result" bool | ScCopiedTimer
  | ScSession pairing_event

fun screen_step :: "devices_screen \<Rightarrow> screen_event \<Rightarrow> devices_screen" where
  "screen_step s (ScTrash e) = trash_click e s"
| "screen_step s ScForget = handleForget s"
| "screen_step s (ScForgot j r) = forget_settled j r s"
| "screen_step s (ScTrust d v) = trust_switch d v s"
| "screen_step s (ScUntrusted k r) = untrust_settled k r s"
| "screen_step s ScTrustConfirm = trust_confirm s"
| "screen_step s (ScTrusted j k r) = trust_settled j k r s"
| "screen_step s ScCloseForget = s\<lparr>forget_modal := cm_close (forget_modal s)\<rparr>"
| "screen_step s ScCloseTrust = s\<lparr>trust_modal := cm_close (trust_modal s)\<rparr>"
| "screen_step s ScRemount = s\<lparr>forget_modal := cm_remount (forget_modal s), trust_modal := cm_remount (trust_modal s),
     rename_modal := cm_remount (rename_modal s), this_saving := False\<rparr>"
| "screen_step s ScJoinOpen = s\<lparr>joinOpen := True\<rparr>"
| "screen_step s (ScJoinCode c) = s\<lparr>join_code := c\<rparr>"
| "screen_step s (ScJoin ready) = handleJoin ready s"
| "screen_step s (ScJoined r) = join_settled r s"
| "screen_step s ScJoinCancel = s\<lparr>joinOpen := False\<rparr>"
| "screen_step s ScJoinDismiss = join_dismiss s"
| "screen_step s ScRenameThis = rename_this_click s"
| "screen_step s (ScThisText n) = s\<lparr>this_name := n\<rparr>"
| "screen_step s ScThisSave = this_save s"
| "screen_step s (ScThisSaved r) = this_settled r s"
| "screen_step s ScThisClose = s\<lparr>renameThisOpen := False\<rparr>"
| "screen_step s (ScRename d) = rename_peer_click d s"
| "screen_step s (ScRenameText n) = s\<lparr>rename_name := n\<rparr>"
| "screen_step s ScSave = handleSave s"
| "screen_step s (ScSaved j r) = rename_settled j r s"
| "screen_step s ScRenameClose = s\<lparr>rename_modal := cm_close (rename_modal s)\<rparr>"
| "screen_step s (ScSearch q) = s\<lparr>searchQuery := q\<rparr>"
| "screen_step s (ScCopy ready clip) = copyPairingCode ready clip s"
| "screen_step s (ScHostOpened k r clip) = host_opened k r clip s"
| "screen_step s ScCopiedTimer = s\<lparr>copied := False\<rparr>"
| "screen_step s (ScSession e) = session_event e s"

section \<open>The invariant of a dialog\<close>

definition cm_inv :: "confirm_modal \<Rightarrow> bool" where
  "cm_inv m \<longleftrightarrow>
     distinct (map snd (cm_jobs m)) \<and> (\<forall>j\<in>set (cm_jobs m). snd j < cm_next m) \<and>
     (\<forall>p i sv. cm_open m = Some (p, i, sv) \<longrightarrow> i < cm_next m \<and> sv = (i \<in> snd ` set (cm_jobs m)))"

lemma cm_inv_simple: "cm_inv cm_start" "cm_inv m \<Longrightarrow> cm_inv (cm_close m)"
  by (simp_all add: cm_inv_def cm_start_def cm_close_def)

lemma cm_inv_show: "cm_inv m \<Longrightarrow> cm_inv (cm_show p m)"
  by (auto simp: cm_inv_def cm_show_def less_Suc_eq split: option.split)

lemma cm_inv_remount: "cm_inv m \<Longrightarrow> cm_inv (cm_remount m)"
  by (auto simp: cm_inv_def cm_remount_def less_Suc_eq split: option.split)

lemma cm_inv_confirm: "cm_inv m \<Longrightarrow> cm_confirm m = Some (p, m') \<Longrightarrow> cm_inv m'"
  by (fastforce simp: cm_inv_def cm_confirm_def split: option.splits if_splits)

lemma cm_inv_settle:
  assumes "cm_inv m" "j \<in> set (cm_jobs m)"
  shows "cm_inv (cm_settle j ok m)"
proof -
  have dist: "distinct (map snd (cm_jobs m))" using assms(1) by (simp add: cm_inv_def)
  then have "distinct (cm_jobs m)" by (simp add: distinct_map)
  then have jobs: "set (remove1 j (cm_jobs m)) = set (cm_jobs m) - {j}" by simp
  have snds: "snd ` (set (cm_jobs m) - {j}) = snd ` set (cm_jobs m) - {snd j}"
    using dist assms(2) by (auto simp: distinct_map inj_on_def)
  have rem: "distinct (map snd (remove1 j (cm_jobs m)))"
    using dist by (simp add: distinct_map \<open>distinct (cm_jobs m)\<close> inj_on_subset jobs)
  show ?thesis
    using assms(1) rem by (auto simp: cm_inv_def cm_settle_def cm_close_def jobs snds Let_def split: option.splits)
qed

lemma cm_jobs_other [simp]:
  "cm_jobs (cm_show p m) = cm_jobs m" "cm_jobs (cm_close m) = cm_jobs m" "cm_jobs (cm_remount m) = cm_jobs m"
  "cm_jobs (cm_settle j ok m) = remove1 j (cm_jobs m)"
  by (simp_all add: cm_show_def cm_close_def cm_remount_def cm_settle_def Let_def split: option.split prod.split)

section \<open>The invariant of the screen\<close>

definition modals_inv :: "devices_screen \<Rightarrow> bool" where
  "modals_inv s \<longleftrightarrow> cm_inv (forget_modal s) \<and> cm_inv (trust_modal s) \<and> cm_inv (rename_modal s)"

definition spinner_inv :: "devices_screen \<Rightarrow> bool" where
  "spinner_inv s \<longleftrightarrow> set (forgettingIds s) \<subseteq> fst ` set (cm_jobs (forget_modal s))"

lemmas modal_steps = cm_inv_simple cm_inv_show cm_inv_remount cm_inv_settle

lemma modals_step: "modals_inv s \<Longrightarrow> modals_inv (screen_step s e)"
  by (cases e) (auto simp: modals_inv_def step_defs modal_steps Let_def
      simp del: cm_show_def cm_close_def cm_remount_def cm_settle_def
      split: option.split sum.split dest: cm_inv_confirm)

lemma confirm_jobs:
  "cm_confirm m = Some (p, m') \<Longrightarrow> \<exists>i. cm_open m = Some (p, i, False) \<and> cm_jobs m' = cm_jobs m @ [(p, i)] \<and> cm_open m' = Some (p, i, True)"
  by (auto simp: cm_confirm_def split: option.splits if_splits)

lemma handleForget_cases:
  obtains "handleForget s = s" | p i where "cm_open (forget_modal s) = Some (p, i, False)"
    "cm_open (forget_modal (handleForget s)) = Some (p, i, True)"
    "cm_jobs (forget_modal (handleForget s)) = cm_jobs (forget_modal s) @ [(p, i)]"
    "set (forgettingIds (handleForget s)) = insert p (set (forgettingIds s))"
proof (cases "cm_confirm (forget_modal s)")
  case None
  then show ?thesis using that(1) by (simp add: handleForget_def)
next
  case (Some c)
  obtain p m where c: "c = (p, m)" by (cases c)
  show ?thesis
    using confirm_jobs [of "forget_modal s" p m] that(2) Some by (auto simp: handleForget_def on_session_def c)
qed

lemma fst_remaining: "x \<in> fst ` set js \<Longrightarrow> x \<noteq> fst j \<Longrightarrow> x \<in> fst ` set (remove1 j js)"
  by (induction js) auto

lemma forget_frame:
  assumes "e \<notin> {ScForget, ScRemount, ScCloseForget}" "\<And>x. e \<noteq> ScTrash x" "\<And>j r. e \<noteq> ScForgot j r"
  shows "forgettingIds (screen_step s e) = forgettingIds s" "forget_modal (screen_step s e) = forget_modal s"
  using assms by (cases e; simp add: step_defs Let_def split: option.split sum.split prod.split)+

lemma spinner_step: "spinner_inv s \<Longrightarrow> spinner_inv (screen_step s e)"
proof -
  assume inv: "spinner_inv s"
  consider "e \<in> {ScForget, ScRemount, ScCloseForget}" | x where "e = ScTrash x" | j r where "e = ScForgot j r" |
    "e \<notin> {ScForget, ScRemount, ScCloseForget}" "\<And>x. e \<noteq> ScTrash x" "\<And>j r. e \<noteq> ScForgot j r" by blast
  then show ?thesis
  proof cases
    case 1
    then show ?thesis using inv by (cases rule: handleForget_cases [of s]) (auto simp: spinner_inv_def)
  next
    case 2
    then show ?thesis using inv by (simp add: spinner_inv_def trash_click_def)
  next
    case (3 j r)
    then show ?thesis
      using inv by (auto simp: spinner_inv_def forget_settled_def on_session_def sc_toast_def Let_def intro!: fst_remaining)
  next
    case 4
    then show ?thesis using inv forget_frame [of e s] by (simp add: spinner_inv_def)
  qed
qed

interpretation screen_machine: state_machine "DevicesSettings d" screen_step "\<lambda>s. modals_inv s \<and> spinner_inv s"
  by unfold_locales (simp_all add: modals_step spinner_step, simp add: modals_inv_def spinner_inv_def DevicesSettings_def cm_inv_simple)

text \<open>As long as no dialog is mounted anew, a device has at most one removal in flight.\<close>

definition once_inv :: "devices_screen \<Rightarrow> bool" where
  "once_inv s \<longleftrightarrow>
     distinct (map fst (cm_jobs (forget_modal s))) \<and> set (forgettingIds s) = fst ` set (cm_jobs (forget_modal s)) \<and>
     (\<forall>p i sv. cm_open (forget_modal s) = Some (p, i, sv) \<longrightarrow> p \<in> set (forgettingIds s) \<longrightarrow> (p, i) \<in> set (cm_jobs (forget_modal s)))"

definition plain_step :: "devices_screen \<Rightarrow> screen_event \<Rightarrow> devices_screen" where
  "plain_step s e = (if e \<noteq> ScRemount then screen_step s e else s)"

lemma settle_open:
  "cm_open (cm_settle j ok m) = Some (p, i, sv) \<Longrightarrow> \<exists>sv. cm_open m = Some (p, i, sv)"
  by (auto simp: cm_settle_def cm_close_def Let_def split: option.splits if_splits)

lemma fst_removed:
  "distinct (map fst js) \<Longrightarrow> j \<in> set js \<Longrightarrow> fst ` set (remove1 j js) = fst ` set js - {fst j} \<and> distinct (map fst (remove1 j js))"
proof (induction js)
  case (Cons k js)
  then show ?case
    using set_remove1_subset [of j js] by (auto simp: image_iff)
qed simp

lemma free_not_forgetting:
  assumes "modals_inv s" "once_inv s" "cm_open (forget_modal s) = Some (p, i, False)"
  shows "p \<notin> set (forgettingIds s)"
proof
  assume "p \<in> set (forgettingIds s)"
  then have "(p, i) \<in> set (cm_jobs (forget_modal s))" using assms(2,3) unfolding once_inv_def by blast
  then have "i \<in> snd ` set (cm_jobs (forget_modal s))" by (rule image_eqI [rotated]) simp
  then show False using assms(1,3) unfolding modals_inv_def cm_inv_def by blast
qed

lemma once_settled:
  assumes "modals_inv s" "once_inv s"
  shows "once_inv (forget_settled j r s)"
proof (cases "j \<in> set (cm_jobs (forget_modal s))")
  case True
  have jobs: "fst ` set (remove1 j (cm_jobs (forget_modal s))) = fst ` set (cm_jobs (forget_modal s)) - {fst j}"
      "distinct (map fst (remove1 j (cm_jobs (forget_modal s))))"
    using fst_removed [of "cm_jobs (forget_modal s)" j] True assms(2) by (simp_all add: once_inv_def)
  have "(p, i) \<in> set (remove1 j (cm_jobs (forget_modal s)))"
    if "cm_open (cm_settle j (is_ok r) (forget_modal s)) = Some (p, i, sv)" "p \<in> set (forgettingIds s)" "p \<noteq> fst j" for p i sv
  proof -
    have "(p, i) \<in> set (cm_jobs (forget_modal s))" using settle_open [OF that(1)] that(2) assms(2) by (auto simp: once_inv_def)
    then show ?thesis using that(3) by (metis fst_conv in_set_remove1)
  qed
  then show ?thesis
    using True jobs assms(2) by (auto simp: once_inv_def forget_settled_def on_session_def sc_toast_def Let_def)
qed (use assms in \<open>simp add: forget_settled_def\<close>)

lemma once_step:
  assumes "modals_inv s" "once_inv s" "e \<noteq> ScRemount"
  shows "once_inv (screen_step s e)"
proof -
  consider "e = ScForget" | "e = ScCloseForget" | x where "e = ScTrash x" | j r where "e = ScForgot j r" |
    "e \<notin> {ScForget, ScRemount, ScCloseForget}" "\<And>x. e \<noteq> ScTrash x" "\<And>j r. e \<noteq> ScForgot j r" using assms(3) by blast
  then show ?thesis
  proof cases
    case 1
    then show ?thesis
      using assms(2) free_not_forgetting [OF assms(1,2)] by (cases rule: handleForget_cases [of s]) (auto simp: once_inv_def)
  next
    case 2
    then show ?thesis using assms(2) by (simp add: once_inv_def cm_close_def)
  next
    case (3 x)
    show ?thesis
    proof (cases "x \<in> set (forgettingIds s)")
      case False
      then have "cm_open (cm_show x (forget_modal s)) = Some (p, i, sv) \<Longrightarrow> p \<notin> set (forgettingIds s)" for p i sv
        by (auto simp: cm_show_def split: option.splits)
      then show ?thesis using 3 False assms(2) by (auto simp: once_inv_def trash_click_def simp del: split_paired_All)
    qed (use 3 assms(2) in \<open>simp add: trash_click_def\<close>)
  next
    case (4 j r)
    then show ?thesis by (simp add: once_settled [OF assms(1,2)])
  next
    case 5
    then show ?thesis using assms(2) forget_frame [of e s] by (simp add: once_inv_def)
  qed
qed

interpretation plain_machine: state_machine "DevicesSettings d" plain_step "\<lambda>s. modals_inv s \<and> once_inv s"
  by unfold_locales (simp_all add: plain_step_def modals_step once_step,
    simp add: modals_inv_def once_inv_def DevicesSettings_def cm_inv_simple cm_start_def, simp add: cm_inv_def)

section \<open>Properties\<close>


text \<open>
  As long as no dialog is mounted anew, no device has two removals in flight, and the spinners are exactly those of the removals that are unanswered.
\<close>

theorem one_removal_per_device:
  fixes d es
  defines "s \<equiv> run_ops screen_step (DevicesSettings d) (filter (\<lambda>e. e \<noteq> ScRemount) es)"
  shows "distinct (map fst (cm_jobs (forget_modal s))) \<and> set (forgettingIds s) = fst ` set (cm_jobs (forget_modal s))"
proof -
  have "s = run_ops plain_step (DevicesSettings d) es"
    unfolding s_def run_ops_filter [symmetric] by (simp add: plain_step_def [abs_def])
  then show ?thesis using plain_machine.reachable_inv [of d es] by (simp add: once_inv_def)
qed

text \<open>
  The answer of a removal closes whatever removal dialog is open: with the dialog of one device dismissed while its removal runs, that of another,
  opened meanwhile, disappears under the user.
\<close>

theorem finished_removal_closes_other_dialog:
  assumes "cm_open (forget_modal s) = Some (b, i, False)" "(a, k) \<in> set (cm_jobs (forget_modal s))"
  shows "cm_open (forget_modal (screen_step s (ScForgot (a, k) (Inr ())))) = None"
  using assms by (simp add: forget_settled_def on_session_def sc_toast_def cm_settle_def cm_close_def Let_def)

text \<open>What the copy button puts on the clipboard is the code on the screen, and a failed clipboard opens nothing.\<close>

lemma copied_is_displayed:
  assumes "displayPairingCode s = Some c" "c \<noteq> []" "\<not> ps_isLoading (sc_session s)"
  shows "copied_texts (copyPairingCode ready True s) = copied_texts s @ [c]"
    "host_opens (copyPairingCode ready False s) = host_opens s"
  using assms by (simp_all add: copyPairingCode_def open_host_def copy_code_def on_session_def sc_toast_def)

end
