(* ===== verification/General_Settings.thy ===== *)
theory General_Settings
  imports App_Settings Relay_Discovery Updater
begin

text \<open>
  The general settings: \<open>components/settings/discoverability/discoverability-setting.tsx\<close>,
  \<open>components/settings/system-tray/*.tsx\<close> with \<open>lib/autostart.ts\<close>,
  \<open>components/settings/transfer-history/transfer-history-settings.tsx\<close>,
  \<open>components/settings/debug-mode/debug-mode.tsx\<close> with \<open>hooks/use-debug-logging.ts\<close>, and
  \<open>components/settings/auto-update/auto-update.tsx\<close>.

  Most of these controls change something outside the front end (the node, the sign-in items of the
  system, the registry, the history on disk) and keep a copy in the settings store. Their handlers are
  asynchronous and belong to one visit of the page: React drops the local state when the page is left,
  while a command that was sent still answers. A visit is numbered, and a list holds what is in flight
  with the visit that sent it; an answer reaches the local state of its own visit only. The locale
  \<open>busy_page\<close> states what the pages share: the flag that disables the control is set exactly while a
  command of this visit is in flight.

  The answers of the commands are arguments of the events. The translation function is stable while a
  page is open, since the language is chosen on another page.
\<close>

section \<open>Visits and commands in flight\<close>

text \<open>The current visit, its busy flag, and the visits of the commands in flight.\<close>

inductive page_move :: "nat \<times> bool \<times> nat list \<Rightarrow> nat \<times> bool \<times> nat list \<Rightarrow> bool" where
  stay: "page_move p p"
| visit: "page_move (i, b, fs) (Suc i, False, fs)"
| start: "page_move (i, False, fs) (i, True, fs @ [i])"
| finish: "j < length fs \<Longrightarrow> page_move (i, b, fs) (i, (if fs ! j = i then False else b), drop_call j fs)"

definition page_inv :: "nat \<times> bool \<times> nat list \<Rightarrow> bool" where
  "page_inv p = (case p of (i, b, fs) \<Rightarrow> (\<forall>f\<in>set fs. f \<le> i) \<and> count_list fs i = (if b then 1 else 0))"

lemma count_drop_call:
  "j < length fs \<Longrightarrow> count_list (drop_call j fs) i = count_list fs i - (if fs ! j = i then 1 else 0)"
  by (subst (3) id_take_nth_drop) (auto simp: drop_call_def)

lemma set_drop_call: "set (drop_call j fs) \<subseteq> set fs"
  by (auto simp: drop_call_def dest: in_set_takeD in_set_dropD)

lemma map_drop_call: "map f (drop_call j xs) = drop_call j (map f xs)"
  by (simp add: drop_call_def take_map drop_map)

lemma page_move_inv: "page_move p q \<Longrightarrow> page_inv p \<Longrightarrow> page_inv q"
proof (induction rule: page_move.induct)
  case (visit i b fs)
  have "Suc i \<notin> set fs" using visit by (force simp: page_inv_def)
  then show ?case using visit by (auto simp: page_inv_def count_list_0_iff)
next
  case (finish j fs i b)
  have "fs ! j = i \<Longrightarrow> b"
    using finish by (auto simp: page_inv_def count_list_0_iff split: if_splits)
  then show ?case
    using finish set_drop_call [of j fs] by (auto simp: page_inv_def count_drop_call split: if_splits)
qed (auto simp: page_inv_def)

locale busy_page =
  fixes init :: 's
    and step :: "'s \<Rightarrow> 'e \<Rightarrow> 's"
    and visit_of :: "'s \<Rightarrow> nat"
    and busy :: "'s \<Rightarrow> bool"
    and flights :: "'s \<Rightarrow> nat list"
  assumes idle_init: "\<not> busy init" "flights init = []"
    and moves: "page_move (visit_of s, busy s, flights s)
                  (visit_of (step s e), busy (step s e), flights (step s e))"
begin

lemma page_inv_run:
  "page_inv (visit_of s, busy s, flights s) \<Longrightarrow>
   page_inv (visit_of (run_ops step s es), busy (run_ops step s es), flights (run_ops step s es))"
  by (induction es arbitrary: s) (auto intro: page_move_inv [OF moves])

lemma busy_exactly:
  fixes es
  defines "s \<equiv> run_ops step init es"
  shows "busy s = (visit_of s \<in> set (flights s))" "count_list (flights s) (visit_of s) \<le> 1"
proof -
  have "page_inv (visit_of s, busy s, flights s)"
    unfolding s_def by (rule page_inv_run) (simp add: page_inv_def idle_init)
  then show "busy s = (visit_of s \<in> set (flights s))" "count_list (flights s) (visit_of s) \<le> 1"
    using count_list_0_iff [of "flights s" "visit_of s"] by (auto simp: page_inv_def split: if_splits)
qed

end

section \<open>Discoverability\<close>

text \<open>
  A change is in flight with its visit, its value, and whether it was refused and the page now asks the
  node for the value in force. \<open>dp_accepted\<close> lists the values the node accepted.
\<close>

record discoverability_page =
  dp_visit :: nat
  dp_mounted :: bool
  dp_value :: string
  dp_loading :: bool
  dp_saving :: bool
  dp_reads :: "nat list"
  dp_changes :: "(nat \<times> string \<times> bool) list"
  dp_settings :: js_object
  dp_toasts :: "js_error list"
  dp_accepted :: "string list"

definition DISCOVERABILITY_OPTIONS :: "string list" where
  "DISCOVERABILITY_OPTIONS = [''everyone'', ''paired-only'', ''off'']"

definition discoverability_start :: "js_object \<Rightarrow> discoverability_page" where
  "discoverability_start settings =
     \<lparr>dp_visit = 0, dp_mounted = False, dp_value = ''everyone'', dp_loading = True, dp_saving = False,
      dp_reads = [], dp_changes = [], dp_settings = settings, dp_toasts = [], dp_accepted = []\<rparr>"

definition DiscoverabilitySetting :: "bool \<Rightarrow> discoverability_page \<Rightarrow> discoverability_page" where [step_defs]:
  "DiscoverabilitySetting IS_PAIRING_CAPABLE s =
     (let s1 = s\<lparr>dp_visit := Suc (dp_visit s), dp_mounted := True, dp_value := ''everyone'',
                 dp_loading := True, dp_saving := False\<rparr> in
      if \<not> IS_PAIRING_CAPABLE then s1 else s1\<lparr>dp_reads := dp_reads s @ [dp_visit s1]\<rparr>)"

definition discoverability_read :: "nat \<Rightarrow> string result \<Rightarrow> discoverability_page \<Rightarrow> discoverability_page" where [step_defs]:
  "discoverability_read j r s =
     (if \<not> j < length (dp_reads s) then s
      else
        (let s1 = s\<lparr>dp_reads := drop_call j (dp_reads s)\<rparr> in
         if \<not> dp_mounted s \<or> dp_reads s ! j \<noteq> dp_visit s then s1
         else (case r of
                 Inr current \<Rightarrow> s1\<lparr>dp_value := current\<rparr>
               | Inl e \<Rightarrow> s1\<lparr>dp_toasts := dp_toasts s @ [e]\<rparr>)\<lparr>dp_loading := False\<rparr>))"

text \<open>The options are on screen once the value is loaded, and disabled while a change is saved.\<close>

definition discoverability_change :: "bool \<Rightarrow> string \<Rightarrow> discoverability_page \<Rightarrow> discoverability_page" where [step_defs]:
  "discoverability_change IS_PAIRING_CAPABLE nextValue s =
     (if \<not> IS_PAIRING_CAPABLE \<or> \<not> dp_mounted s \<or> dp_loading s \<or> dp_saving s then s
      else if nextValue = dp_value s then s
      else s\<lparr>dp_value := nextValue, dp_saving := True,
             dp_changes := dp_changes s @ [(dp_visit s, nextValue, False)]\<rparr>)"

definition discoverability_done :: "nat \<Rightarrow> discoverability_page \<Rightarrow> discoverability_page" where [step_defs]:
  "discoverability_done j s =
     s\<lparr>dp_changes := drop_call j (dp_changes s),
       dp_saving := (if fst (dp_changes s ! j) = dp_visit s then False else dp_saving s)\<rparr>"

definition discoverability_answer :: "nat \<Rightarrow> unit result \<Rightarrow> discoverability_page \<Rightarrow> discoverability_page" where [step_defs]:
  "discoverability_answer j r s =
     (if \<not> j < length (dp_changes s) then s
      else (case dp_changes s ! j of (i, v, refused) \<Rightarrow>
        if refused then s
        else (case r of
                Inr _ \<Rightarrow> discoverability_done j
                  (s\<lparr>dp_settings := setting_step (dp_settings s) (SetDiscoverability v),
                     dp_accepted := dp_accepted s @ [v]\<rparr>)
              | Inl e \<Rightarrow> s\<lparr>dp_toasts := dp_toasts s @ [e], dp_changes := (dp_changes s)[j := (i, v, True)]\<rparr>)))"

definition discoverability_reread :: "nat \<Rightarrow> string result \<Rightarrow> discoverability_page \<Rightarrow> discoverability_page" where [step_defs]:
  "discoverability_reread j r s =
     (if \<not> j < length (dp_changes s) then s
      else (case dp_changes s ! j of (i, v, refused) \<Rightarrow>
        if \<not> refused then s
        else discoverability_done j
               (case r of
                  Inr current \<Rightarrow> if i = dp_visit s then s\<lparr>dp_value := current\<rparr> else s
                | Inl _ \<Rightarrow> s)))"

datatype discoverability_event =
    DpOpen
  | DpLeave
  | DpRead nat "string result"
  | DpChoose string
  | DpAnswer nat "unit result"
  | DpReread nat "string result"

fun discoverability_step :: "bool \<Rightarrow> discoverability_page \<Rightarrow> discoverability_event \<Rightarrow> discoverability_page" where
  "discoverability_step cap s DpOpen = DiscoverabilitySetting cap s"
| "discoverability_step cap s DpLeave = s\<lparr>dp_mounted := False\<rparr>"
| "discoverability_step cap s (DpRead j r) = discoverability_read j r s"
| "discoverability_step cap s (DpChoose v) = discoverability_change cap v s"
| "discoverability_step cap s (DpAnswer j r) = discoverability_answer j r s"
| "discoverability_step cap s (DpReread j r) = discoverability_reread j r s"

lemma page_finish:
  "j < length xs \<Longrightarrow>
   page_move (i, b, map fst xs) (i, (if fst (xs ! j) = i then False else b), map fst (drop_call j xs))"
  using page_move.finish [of j "map fst xs" i b] by (simp add: map_drop_call)

lemma map_fst_update: "j < length xs \<Longrightarrow> map fst (xs[j := (fst (xs ! j), y)]) = map fst xs"
  by (simp add: map_update list_update_same_conv)

interpretation discoverability: busy_page "discoverability_start settings" "discoverability_step cap"
  dp_visit dp_saving "\<lambda>s. map fst (dp_changes s)"
proof
  fix s :: discoverability_page and e
  note moves = page_move.intros(1-3) page_finish
  show "page_move (dp_visit s, dp_saving s, map fst (dp_changes s))
          (dp_visit (discoverability_step cap s e), dp_saving (discoverability_step cap s e),
           map fst (dp_changes (discoverability_step cap s e)))"
  proof (cases e)
    case (DpAnswer j r)
    show ?thesis
    proof (cases "j < length (dp_changes s)")
      case True
      obtain i v refused where c: "dp_changes s ! j = (i, v, refused)" by (metis prod_cases3)
      show ?thesis
        using True c page_finish [OF True, of "dp_visit s" "dp_saving s"] map_fst_update [OF True, of "(v, True)"]
        by (cases r) (auto simp: DpAnswer step_defs intro: moves)
    qed (simp add: DpAnswer step_defs moves)
  next
    case (DpReread j r)
    show ?thesis
    proof (cases "j < length (dp_changes s)")
      case True
      obtain i v refused where c: "dp_changes s ! j = (i, v, refused)" by (metis prod_cases3)
      show ?thesis
        using True c page_finish [OF True, of "dp_visit s" "dp_saving s"]
        by (cases r) (auto simp: DpReread step_defs intro: moves)
    qed (simp add: DpReread step_defs moves)
  next
    case (DpChoose v)
    show ?thesis using page_move.start by (auto simp: DpChoose step_defs intro: moves)
  qed (auto simp: step_defs Let_def intro: moves split: sum.splits)
qed (simp_all add: discoverability_start_def)

text \<open>What is stored for the next start, whatever the visits and answers.\<close>

definition discoverability_kept :: "js_object \<Rightarrow> discoverability_page \<Rightarrow> bool" where
  "discoverability_kept settings s \<longleftrightarrow>
     map_of (dp_settings s) =
       (if dp_accepted s = [] then map_of settings
        else (map_of settings)(''discoverability'' \<mapsto> Str (last (dp_accepted s))))"

interpretation discoverability_store: state_machine "discoverability_start settings"
  "discoverability_step cap" "discoverability_kept settings"
proof
  fix s :: discoverability_page and e
  assume "discoverability_kept settings s"
  then show "discoverability_kept settings (discoverability_step cap s e)"
    by (cases e) (auto simp: discoverability_kept_def step_defs setting_step_def Let_def
      split: sum.splits prod.splits)
qed (simp add: discoverability_kept_def discoverability_start_def)

section \<open>Start at sign-in\<close>

definition isAutostartEnabled :: "bool \<Rightarrow> bool option result \<Rightarrow> bool option result" where
  "isAutostartEnabled IS_DESKTOP autostart_is_enabled = (if \<not> IS_DESKTOP then Inr None else autostart_is_enabled)"

definition setAutostart :: "bool \<Rightarrow> bool result \<Rightarrow> bool result" where
  "setAutostart IS_DESKTOP autostart_set = (if \<not> IS_DESKTOP then Inr False else autostart_set)"

definition stored_flag :: "js_object \<Rightarrow> string \<Rightarrow> bool" where
  "stored_flag settings k = (map_of settings k = Some (Bool True))"

record startup_page =
  su_visit :: nat
  su_mounted :: bool
  su_value :: bool
  su_busy :: bool
  su_queries :: "nat list"
  su_sets :: "(nat \<times> bool) list"
  su_settings :: js_object
  su_warnings :: nat

definition startup_start :: "js_object \<Rightarrow> startup_page" where
  "startup_start settings =
     \<lparr>su_visit = 0, su_mounted = False, su_value = False, su_busy = False, su_queries = [], su_sets = [],
      su_settings = settings, su_warnings = 0\<rparr>"

definition StartOnStartup :: "startup_page \<Rightarrow> startup_page" where [step_defs]:
  "StartOnStartup s =
     s\<lparr>su_visit := Suc (su_visit s), su_mounted := True,
       su_value := stored_flag (su_settings s) ''startOnBoot'', su_busy := False,
       su_queries := su_queries s @ [Suc (su_visit s)]\<rparr>"

definition set_startup_cached :: "bool \<Rightarrow> startup_page \<Rightarrow> startup_page" where [step_defs]:
  "set_startup_cached b s = s\<lparr>su_settings := setting_step (su_settings s) (SetStartOnBoot b)\<rparr>"

definition startup_queried :: "bool \<Rightarrow> nat \<Rightarrow> bool option result \<Rightarrow> startup_page \<Rightarrow> startup_page" where [step_defs]:
  "startup_queried IS_DESKTOP j r s =
     (if \<not> j < length (su_queries s) then s
      else
        (let s1 = s\<lparr>su_queries := drop_call j (su_queries s)\<rparr> in
         case isAutostartEnabled IS_DESKTOP r of
           Inl _ \<Rightarrow> s1
         | Inr None \<Rightarrow> s1
         | Inr (Some enabled) \<Rightarrow>
             if \<not> su_mounted s \<or> su_queries s ! j \<noteq> su_visit s then s1
             else set_startup_cached enabled (s1\<lparr>su_value := enabled\<rparr>)))"

text \<open>The switch asks for the opposite of what it shows, and is disabled while busy.\<close>

definition startup_toggle :: "startup_page \<Rightarrow> startup_page" where [step_defs]:
  "startup_toggle s =
     (if \<not> su_mounted s \<or> su_busy s then s
      else s\<lparr>su_busy := True, su_sets := su_sets s @ [(su_visit s, \<not> su_value s)]\<rparr>)"

definition startup_settled :: "bool \<Rightarrow> nat \<Rightarrow> bool result \<Rightarrow> startup_page \<Rightarrow> startup_page" where [step_defs]:
  "startup_settled IS_DESKTOP j r s =
     (if \<not> j < length (su_sets s) then s
      else (case su_sets s ! j of (i, next) \<Rightarrow>
        let mine = (i = su_visit s);
            s1 = (case setAutostart IS_DESKTOP r of
                    Inr actual \<Rightarrow>
                      (set_startup_cached actual (s\<lparr>su_value := (if mine then actual else su_value s)\<rparr>))
                        \<lparr>su_warnings := (if actual \<noteq> next then Suc (su_warnings s) else su_warnings s)\<rparr>
                  | Inl _ \<Rightarrow>
                      s\<lparr>su_value := (if mine then \<not> next else su_value s), su_warnings := Suc (su_warnings s)\<rparr>) in
        s1\<lparr>su_busy := (if mine then False else su_busy s), su_sets := drop_call j (su_sets s)\<rparr>))"

datatype startup_event =
    SuOpen
  | SuLeave
  | SuQueried nat "bool option result"
  | SuToggle
  | SuSettled nat "bool result"

fun startup_step :: "bool \<Rightarrow> startup_page \<Rightarrow> startup_event \<Rightarrow> startup_page" where
  "startup_step desktop s SuOpen = StartOnStartup s"
| "startup_step desktop s SuLeave = s\<lparr>su_mounted := False\<rparr>"
| "startup_step desktop s (SuQueried j r) = startup_queried desktop j r s"
| "startup_step desktop s SuToggle = startup_toggle s"
| "startup_step desktop s (SuSettled j r) = startup_settled desktop j r s"

interpretation startup: busy_page "startup_start settings" "startup_step desktop"
  su_visit su_busy "\<lambda>s. map fst (su_sets s)"
proof
  fix s :: startup_page and e
  note moves = page_move.intros(1-3) page_finish
  show "page_move (su_visit s, su_busy s, map fst (su_sets s))
          (su_visit (startup_step desktop s e), su_busy (startup_step desktop s e),
           map fst (su_sets (startup_step desktop s e)))"
  proof (cases e)
    case (SuSettled j r)
    show ?thesis
    proof (cases "j < length (su_sets s)")
      case True
      then show ?thesis
        using page_finish [OF True, of "su_visit s" "su_busy s"]
        by (cases "su_sets s ! j") (auto simp: SuSettled step_defs Let_def split: sum.split)
    qed (simp add: SuSettled step_defs moves)
  next
    case SuToggle
    show ?thesis using page_move.start by (auto simp: SuToggle step_defs intro: moves)
  qed (auto simp: step_defs Let_def intro: moves split: sum.splits option.splits)
qed (simp_all add: startup_start_def)

text \<open>
  The local copy and the stored one agree on a page that nobody has toggled, and the page keeps the
  other settings.
\<close>

lemma stored_flag_set [simp]: "stored_flag (setting_step settings (SetStartOnBoot b)) ''startOnBoot'' = b"
  by (auto simp: stored_flag_def setting_step_def)

section \<open>Closing to the tray\<close>

text \<open>The setting, and the values sent to the close handler of the shell.\<close>

record tray_page =
  tr_settings :: js_object
  tr_sent :: "bool list"

definition minimize_toggle :: "bool \<Rightarrow> bool \<Rightarrow> tray_page \<Rightarrow> tray_page" where
  "minimize_toggle IS_DESKTOP next s =
     (let s1 = s\<lparr>tr_settings := setting_step (tr_settings s) (SetMinimizeToTray next)\<rparr> in
      if IS_DESKTOP then s1\<lparr>tr_sent := tr_sent s @ [next]\<rparr> else s1)"

datatype tray_control = TrayStartup | TrayMinimize | TrayContextMenu

definition SystemTray :: "bool \<Rightarrow> bool \<Rightarrow> tray_control list" where
  "SystemTray IS_MACOS IS_WINDOWS =
     [TrayStartup] @ (if \<not> IS_MACOS then [TrayMinimize] else []) @ (if IS_WINDOWS then [TrayContextMenu] else [])"

section \<open>The Explorer context menu\<close>

text \<open>
  \<open>cm_calls\<close> are the arguments of \<open>toggle_context_menu\<close>: the wanted state, and whether the shell may ask
  for elevation.
\<close>

record context_page =
  cm_visit :: nat
  cm_mounted :: bool
  cm_pending :: bool
  cm_error :: "js_error option"
  cm_sets :: "(nat \<times> bool) list"
  cm_settings :: js_object
  cm_calls :: "(bool \<times> bool) list"

definition context_start :: "js_object \<Rightarrow> context_page" where
  "context_start settings =
     \<lparr>cm_visit = 0, cm_mounted = False, cm_pending = False, cm_error = None, cm_sets = [],
      cm_settings = settings, cm_calls = []\<rparr>"

definition applyContextMenu :: "bool \<Rightarrow> bool \<Rightarrow> (bool \<times> bool) list \<Rightarrow> (bool \<times> bool) list" where [step_defs]:
  "applyContextMenu enable allowElevation calls = calls @ [(enable, allowElevation)]"

definition set_context_enabled :: "bool \<Rightarrow> context_page \<Rightarrow> context_page" where [step_defs]:
  "set_context_enabled b s = s\<lparr>cm_settings := setting_step (cm_settings s) (SetWindowsContextMenu b)\<rparr>"

definition ContextMenuToggle :: "context_page \<Rightarrow> context_page" where [step_defs]:
  "ContextMenuToggle s =
     s\<lparr>cm_visit := Suc (cm_visit s), cm_mounted := True, cm_pending := False, cm_error := None\<rparr>"

definition context_change :: "context_page \<Rightarrow> context_page" where [step_defs]:
  "context_change s =
     (if \<not> cm_mounted s \<or> cm_pending s then s
      else
        (let v = (\<not> stored_flag (cm_settings s) ''windowsContextMenu'');
             s1 = set_context_enabled v (s\<lparr>cm_pending := True, cm_error := None\<rparr>) in
         s1\<lparr>cm_sets := cm_sets s @ [(cm_visit s, v)], cm_calls := applyContextMenu v True (cm_calls s)\<rparr>))"

definition context_settled :: "nat \<Rightarrow> unit result \<Rightarrow> context_page \<Rightarrow> context_page" where [step_defs]:
  "context_settled j r s =
     (if \<not> j < length (cm_sets s) then s
      else (case cm_sets s ! j of (i, v) \<Rightarrow>
        let mine = (i = cm_visit s);
            s1 = (case r of
                    Inr _ \<Rightarrow> s
                  | Inl e \<Rightarrow> (set_context_enabled (\<not> v) s)\<lparr>cm_error := (if mine then Some e else cm_error s)\<rparr>) in
        s1\<lparr>cm_pending := (if mine then False else cm_pending s), cm_sets := drop_call j (cm_sets s)\<rparr>))"

datatype context_event = CmOpen | CmLeave | CmToggle | CmSettled nat "unit result"

fun context_step :: "context_page \<Rightarrow> context_event \<Rightarrow> context_page" where
  "context_step s CmOpen = ContextMenuToggle s"
| "context_step s CmLeave = s\<lparr>cm_mounted := False\<rparr>"
| "context_step s CmToggle = context_change s"
| "context_step s (CmSettled j r) = context_settled j r s"

interpretation context_menu: busy_page "context_start settings" context_step
  cm_visit cm_pending "\<lambda>s. map fst (cm_sets s)"
proof
  fix s :: context_page and e
  note moves = page_move.intros(1-3) page_finish
  show "page_move (cm_visit s, cm_pending s, map fst (cm_sets s))
          (cm_visit (context_step s e), cm_pending (context_step s e), map fst (cm_sets (context_step s e)))"
  proof (cases e)
    case (CmSettled j r)
    show ?thesis
    proof (cases "j < length (cm_sets s)")
      case True
      then show ?thesis
        using page_finish [OF True, of "cm_visit s" "cm_pending s"]
        by (cases "cm_sets s ! j") (auto simp: CmSettled step_defs Let_def split: sum.split)
    qed (simp add: CmSettled step_defs moves)
  next
    case CmToggle
    show ?thesis using page_move.start by (auto simp: CmToggle step_defs Let_def intro: moves)
  qed (auto simp: step_defs intro: moves)
qed (simp_all add: context_start_def)

text \<open>The synchronisation at launch: once the settings are read, without asking for elevation.\<close>

record menu_sync =
  ms_hydrated :: bool
  ms_waiting :: bool
  ms_settings :: js_object
  ms_calls :: "(bool \<times> bool) list"

definition menu_sync_start :: menu_sync where
  "menu_sync_start = \<lparr>ms_hydrated = False, ms_waiting = False, ms_settings = defaultAppSettings, ms_calls = []\<rparr>"

definition menu_sync_now :: "menu_sync \<Rightarrow> menu_sync" where [step_defs]:
  "menu_sync_now s =
     s\<lparr>ms_calls := applyContextMenu (stored_flag (ms_settings s) ''windowsContextMenu'') False (ms_calls s)\<rparr>"

datatype menu_sync_event = MsMount | MsUnmount | MsHydrated js_object

fun menu_sync_step :: "menu_sync \<Rightarrow> menu_sync_event \<Rightarrow> menu_sync" where
  "menu_sync_step s MsMount = (if ms_hydrated s then menu_sync_now s else s\<lparr>ms_waiting := True\<rparr>)"
| "menu_sync_step s MsUnmount = s\<lparr>ms_waiting := False\<rparr>"
| "menu_sync_step s (MsHydrated settings) =
     (let s1 = s\<lparr>ms_hydrated := True, ms_settings := settings\<rparr> in
      if ms_waiting s then menu_sync_now s1 else s1)"

section \<open>Transfer history\<close>

text \<open>
  One visit of the section: the dialog asks before the history is deleted. \<open>hs_clears\<close> counts the
  calls of \<open>clearTransferHistory\<close>.
\<close>

record history_settings =
  hs_visit :: nat
  hs_confirmClear :: bool
  hs_isClearing :: bool
  hs_clearing :: "nat list"
  hs_settings :: js_object
  hs_clears :: nat
  hs_toasts :: "string list"

definition history_settings_start :: "js_object \<Rightarrow> history_settings" where
  "history_settings_start settings =
     \<lparr>hs_visit = 0, hs_confirmClear = False, hs_isClearing = False, hs_clearing = [],
      hs_settings = settings, hs_clears = 0, hs_toasts = []\<rparr>"

definition TransferHistorySettings :: "history_settings \<Rightarrow> history_settings" where [step_defs]:
  "TransferHistorySettings s =
     s\<lparr>hs_visit := Suc (hs_visit s), hs_confirmClear := False, hs_isClearing := False\<rparr>"

definition history_clear :: "history_settings \<Rightarrow> history_settings" where [step_defs]:
  "history_clear s =
     (if \<not> hs_confirmClear s \<or> hs_isClearing s then s
      else s\<lparr>hs_isClearing := True, hs_clearing := hs_clearing s @ [hs_visit s], hs_clears := Suc (hs_clears s)\<rparr>)"

definition history_cleared :: "nat \<Rightarrow> unit result \<Rightarrow> history_settings \<Rightarrow> history_settings" where [step_defs]:
  "history_cleared j r s =
     (if \<not> j < length (hs_clearing s) then s
      else
        (let mine = (hs_clearing s ! j = hs_visit s);
             s1 = (case r of
                     Inr _ \<Rightarrow> s\<lparr>hs_confirmClear := (if mine then False else hs_confirmClear s),
                              hs_toasts := hs_toasts s @ [''common:history.clearAllDone'']\<rparr>
                   | Inl _ \<Rightarrow> s\<lparr>hs_toasts := hs_toasts s @ [''common:history.clearAllFailed'']\<rparr>) in
         s1\<lparr>hs_isClearing := (if mine then False else hs_isClearing s),
            hs_clearing := drop_call j (hs_clearing s)\<rparr>))"

datatype history_settings_event =
    HsOpen
  | HsRecord bool
  | HsAsk
  | HsOpenChange bool
  | HsCancel
  | HsClear
  | HsCleared nat "unit result"

fun history_settings_step :: "history_settings \<Rightarrow> history_settings_event \<Rightarrow> history_settings" where
  "history_settings_step s HsOpen = TransferHistorySettings s"
| "history_settings_step s (HsRecord b) = s\<lparr>hs_settings := setting_step (hs_settings s) (SetEnableTransferHistory b)\<rparr>"
| "history_settings_step s HsAsk = s\<lparr>hs_confirmClear := True\<rparr>"
| "history_settings_step s (HsOpenChange b) = s\<lparr>hs_confirmClear := b\<rparr>"
| "history_settings_step s HsCancel = (if hs_isClearing s then s else s\<lparr>hs_confirmClear := False\<rparr>)"
| "history_settings_step s HsClear = history_clear s"
| "history_settings_step s (HsCleared j r) = history_cleared j r s"

interpretation history_settings: busy_page "history_settings_start settings" history_settings_step
  hs_visit hs_isClearing hs_clearing
proof
  fix s :: history_settings and e
  show "page_move (hs_visit s, hs_isClearing s, hs_clearing s)
          (hs_visit (history_settings_step s e), hs_isClearing (history_settings_step s e),
           hs_clearing (history_settings_step s e))"
  proof (cases e)
    case HsClear
    show ?thesis using page_move.start by (auto simp: HsClear step_defs intro: page_move.intros)
  next
    case (HsCleared j r)
    show ?thesis
      using page_move.finish [of j "hs_clearing s" "hs_visit s" "hs_isClearing s"]
      by (auto simp: HsCleared step_defs Let_def intro: page_move.stay split: sum.split)
  qed (auto simp: step_defs intro: page_move.intros)
qed (simp_all add: history_settings_start_def)

section \<open>Diagnostics\<close>

record DebugLoggingState =
  dl_enabled :: bool
  dl_activeThisSession :: bool
  dl_logDir :: "string option"

definition DISABLED :: DebugLoggingState where
  "DISABLED = \<lparr>dl_enabled = False, dl_activeThisSession = False, dl_logDir = None\<rparr>"

definition DEBUG_LOGGING_SUPPORTED :: "bool \<Rightarrow> bool \<Rightarrow> bool \<Rightarrow> bool" where
  "DEBUG_LOGGING_SUPPORTED IS_TAURI IS_DESKTOP IS_ANDROID \<longleftrightarrow> IS_TAURI \<and> (IS_DESKTOP \<or> IS_ANDROID)"

definition useDebugLogging :: "bool \<Rightarrow> DebugLoggingState result \<Rightarrow> DebugLoggingState result" where
  "useDebugLogging supported get_debug_logging = (if \<not> supported then Inr DISABLED else get_debug_logging)"

text \<open>The commands and effects of the handlers, in order.\<close>

datatype debug_call =
    SetDebugLogging bool
  | ExportDebugBundle string RelayConfigArg
  | ClearDebugLogs
  | OpenDownloadTarget string
  | RevealItemInDir string
  | DebugToast string
  | CloseToastAfter nat

record debug_form =
  db_error :: "js_error option"
  db_calls :: "debug_call list"

definition TOAST_TIMEOUT_MS :: nat where
  "TOAST_TIMEOUT_MS = 5000"

definition showToast :: "string \<Rightarrow> debug_form \<Rightarrow> debug_form" where
  "showToast title s = s\<lparr>db_calls := db_calls s @ [DebugToast title, CloseToastAfter TOAST_TIMEOUT_MS]\<rparr>"

definition debug_call_with :: "debug_call \<Rightarrow> debug_form \<Rightarrow> debug_form" where
  "debug_call_with c s = s\<lparr>db_calls := db_calls s @ [c]\<rparr>"

text \<open>\<open>new Date().toISOString()\<close> is the argument.\<close>

definition defaultBundleName :: "string \<Rightarrow> string" where
  "defaultBundleName timestamp =
     ''dashbeam-diagnostics-'' @
     map (\<lambda>c. if c = CHR '':'' \<or> c = CHR ''T'' then CHR ''-'' else c) (take 19 timestamp) @ ''.txt''"

definition debug_toggle :: "bool \<Rightarrow> unit result \<Rightarrow> debug_form \<Rightarrow> debug_form" where
  "debug_toggle v r s =
     (let s1 = debug_call_with (SetDebugLogging v) (s\<lparr>db_error := None\<rparr>) in
      case r of
        Inr _ \<Rightarrow> showToast ''settings.general.debugMode.restartTitle'' s1
      | Inl e \<Rightarrow> s1\<lparr>db_error := Some e\<rparr>)"

definition debug_save :: "bool \<Rightarrow> bool \<Rightarrow> RelayConfigInput \<Rightarrow> string option result \<Rightarrow> unit result \<Rightarrow> debug_form \<Rightarrow> debug_form" where
  "debug_save IS_WEB IS_ANDROID relay dialog exported s =
     (let s1 = s\<lparr>db_error := None\<rparr> in
      case dialog of
        Inl e \<Rightarrow> s1\<lparr>db_error := Some e\<rparr>
      | Inr None \<Rightarrow> s1
      | Inr (Some destPath) \<Rightarrow>
          if destPath = [] then s1
          else
            (let s2 = debug_call_with (ExportDebugBundle destPath (buildRelayConfigArg IS_WEB relay)) s1 in
             case exported of
               Inl e \<Rightarrow> s2\<lparr>db_error := Some e\<rparr>
             | Inr _ \<Rightarrow>
                 debug_call_with (if IS_ANDROID then OpenDownloadTarget destPath else RevealItemInDir destPath)
                   (showToast ''settings.general.debugMode.savedTitle'' s2)))"

definition debug_clear :: "unit result \<Rightarrow> debug_form \<Rightarrow> debug_form" where
  "debug_clear r s =
     (let s1 = debug_call_with ClearDebugLogs (s\<lparr>db_error := None\<rparr>) in
      case r of
        Inr _ \<Rightarrow> showToast ''settings.general.debugMode.clearedTitle'' s1
      | Inl e \<Rightarrow> s1\<lparr>db_error := Some e\<rparr>)"

definition restartRequired :: "DebugLoggingState \<Rightarrow> bool" where
  "restartRequired state \<longleftrightarrow> dl_enabled state \<noteq> dl_activeThisSession state"

text \<open>What the section draws below the switch: the hint and the two buttons.\<close>

definition DebugMode :: "bool \<Rightarrow> DebugLoggingState option \<Rightarrow> (string option \<times> bool) option" where
  "DebugMode supported state =
     (case state of
        None \<Rightarrow> None
      | Some st \<Rightarrow>
          if \<not> supported then None
          else Some
            ((if restartRequired st
              then Some (if dl_enabled st then ''settings.general.debugMode.pendingOn''
                         else ''settings.general.debugMode.pendingOff'')
              else None),
             dl_activeThisSession st))"

section \<open>Updates\<close>

datatype update_control =
    UPortableNote
  | UAutoSwitch bool
  | UStatus UpdaterPhase "string option" bool
  | UProgressBar nat "nat option" "rat option"
  | UInstallButton bool
  | URestartButton
  | UCheckButton bool

definition AutoUpdate :: "bool \<Rightarrow> bool \<Rightarrow> bool \<Rightarrow> snapshot \<Rightarrow> update_control list" where
  "AutoUpdate isPortable autoUpdate checking s =
     (if isPortable then [UPortableNote]
      else
        [UAutoSwitch autoUpdate] @
        (if sn_phase s \<noteq> UIdle then
           [UStatus (sn_phase s) (sn_version s) (sn_phase s = UAvailable \<and> truthy_string (sn_downloadUrl s))] @
           (if sn_phase s = UDownloading \<or> sn_phase s = UInstalling
            then [UProgressBar (sn_downloadedBytes s)
                    (if sn_phase s = UDownloading then sn_contentLength s else None)
                    (if sn_phase s = UDownloading then sn_progressRatio s else None)]
            else []) @
           (if sn_phase s = UAvailable then [UInstallButton (truthy_string (sn_downloadUrl s))] else []) @
           (if sn_phase s = UReady then [URestartButton] else [])
         else []) @
        (if \<not> autoUpdate then [UCheckButton checking] else []))"

definition handleCheckForUpdates :: "update_info option result \<Rightarrow> updater_app \<Rightarrow> updater_app \<times> string list" where
  "handleCheckForUpdates r a =
     (case r of
        Inl _ \<Rightarrow> (updater_step a (CheckFailed True), [])
      | Inr u \<Rightarrow> (updater_step a (ManualCheckResult u), (if u = None then [''updater.noUpdatesTitle''] else [])))"

section \<open>Properties\<close>

lemma drop_call_last [simp]: "drop_call (length xs) (xs @ [x]) = xs"
  by (simp add: drop_call_def)

text \<open>
  C24. Whatever the visits, choices, answers and their order, the stored discoverability is the one the
  node accepted last, no other setting is touched, and the options are disabled exactly while a change
  of the open page is in flight, of which there is at most one.
\<close>

theorem discoverability_saved:
  fixes es :: "discoverability_event list" and cap :: bool and settings :: js_object
  defines "s \<equiv> run_ops (discoverability_step cap) (discoverability_start settings) es"
  shows "map_of (dp_settings s) =
      (if dp_accepted s = [] then map_of settings
       else (map_of settings)(''discoverability'' \<mapsto> Str (last (dp_accepted s)))) \<and>
    dp_saving s = (dp_visit s \<in> fst ` set (dp_changes s)) \<and>
    count_list (map fst (dp_changes s)) (dp_visit s) \<le> 1"
  using discoverability_store.reachable_inv [of settings cap es]
    discoverability.busy_exactly [of cap settings es]
  by (simp add: s_def discoverability_kept_def)

text \<open>
  A choice on an open page that is loaded and idle is shown at once and sent once. When the node
  accepts it, it is shown and stored; when the node refuses it, the error is reported, nothing is
  stored, and the page shows what the node answers to a second question, or the refused choice when
  that question fails too. In every case the options are enabled again and nothing is left in flight.
\<close>

theorem discoverability_choice:
  fixes s :: discoverability_page and v :: string and e :: js_error
  defines "j \<equiv> length (dp_changes s)"
    and "sent \<equiv> discoverability_step True s (DpChoose v)"
  assumes "dp_mounted s" "\<not> dp_loading s" "\<not> dp_saving s" "v \<noteq> dp_value s"
  defines "ok \<equiv> discoverability_step True sent (DpAnswer j (Inr ()))"
    and "refused \<equiv> \<lambda>r. discoverability_step True (discoverability_step True sent (DpAnswer j (Inl e))) (DpReread j r)"
  shows "dp_value sent = v \<and> dp_saving sent \<and> dp_changes sent = dp_changes s @ [(dp_visit s, v, False)] \<and>
    dp_value ok = v \<and> map_of (dp_settings ok) ''discoverability'' = Some (Str v) \<and>
    dp_saving ok = False \<and> dp_changes ok = dp_changes s \<and> dp_toasts ok = dp_toasts s \<and>
    dp_value (refused (Inr current)) = current \<and> dp_value (refused (Inl e')) = v \<and>
    dp_settings (refused r) = dp_settings s \<and> dp_saving (refused r) = False \<and>
    dp_changes (refused r) = dp_changes s \<and> dp_toasts (refused r) = dp_toasts s @ [e]"
  using assms by (cases r) (auto simp: step_defs setting_step_def nth_append)

theorem discoverability_choice_witness:
  "dp_value (discoverability_step True
     (run_ops (discoverability_step True) (discoverability_start defaultAppSettings)
        [DpOpen, DpRead 0 (Inr ''everyone'')]) (DpChoose ''off'')) = ''off''"
proof -
  let ?s = "run_ops (discoverability_step True) (discoverability_start defaultAppSettings)
              [DpOpen, DpRead 0 (Inr ''everyone'')]"
  have "dp_mounted ?s \<and> \<not> dp_loading ?s \<and> \<not> dp_saving ?s \<and> ''off'' \<noteq> dp_value ?s"
    by (simp add: step_defs discoverability_start_def drop_call_def)
  then show ?thesis using discoverability_choice [of ?s "''off''"] by blast
qed

text \<open>
  A toggle of the sign-in switch is sent once and settles: the switch and the stored copy end in the
  state the system reports, with a warning exactly when that is not the state asked for; after an
  exception the switch is back where it was, the stored copy is untouched, and there is a warning.
\<close>

theorem startup_toggle_settles:
  fixes s :: startup_page
  defines "j \<equiv> length (su_sets s)" and "sent \<equiv> startup_step True s SuToggle"
  assumes "su_mounted s" "\<not> su_busy s"
  defines "t \<equiv> \<lambda>r. startup_step True sent (SuSettled j r)"
  shows "su_busy sent \<and> su_sets sent = su_sets s @ [(su_visit s, \<not> su_value s)] \<and>
    startup_step True sent SuToggle = sent \<and>
    su_value (t (Inr actual)) = actual \<and> stored_flag (su_settings (t (Inr actual))) ''startOnBoot'' = actual \<and>
    su_warnings (t (Inr actual)) = su_warnings s + (if actual = su_value s then 1 else 0) \<and>
    su_value (t (Inl e)) = su_value s \<and> su_settings (t (Inl e)) = su_settings s \<and>
    su_warnings (t (Inl e)) = Suc (su_warnings s) \<and>
    su_busy (t r) = False \<and> su_sets (t r) = su_sets s"
  using assms by (cases r) (auto simp: step_defs setAutostart_def Let_def nth_append)

theorem startup_toggle_settles_witness:
  "su_busy (startup_step True (startup_step True (startup_start defaultAppSettings) SuOpen) SuToggle)"
proof -
  let ?s = "startup_step True (startup_start defaultAppSettings) SuOpen"
  have "su_mounted ?s \<and> \<not> su_busy ?s" by (simp add: step_defs startup_start_def)
  then show ?thesis using startup_toggle_settles [of ?s] by blast
qed

text \<open>
  The question asked when the page opens is not withdrawn by a toggle: an answer that arrives after the
  toggle has settled puts the switch and the stored copy back to the former state.
\<close>

theorem late_startup_answer:
  defines "s \<equiv> run_ops (startup_step True) (startup_start defaultAppSettings)
     [SuOpen, SuToggle, SuSettled 0 (Inr True), SuQueried 0 (Inr (Some False))]"
  shows "\<not> su_value s \<and> \<not> stored_flag (su_settings s) ''startOnBoot'' \<and> su_warnings s = 0"
  by (simp add: s_def step_defs startup_start_def stored_flag_def defaultAppSettings_def
    setAutostart_def isAutostartEnabled_def drop_call_def setting_step_def Let_def)

text \<open>
  A toggle of the context menu that fails leaves every setting as it was and shows the error; one that
  succeeds leaves the setting changed. The toggle may ask for elevation, the launch never does, and it
  applies the stored setting once per launch.
\<close>

theorem context_toggle_settles:
  fixes s :: context_page
  defines "j \<equiv> length (cm_sets s)" and "sent \<equiv> context_step s CmToggle"
    and "v \<equiv> \<not> stored_flag (cm_settings s) ''windowsContextMenu''"
  assumes "cm_mounted s" "\<not> cm_pending s" "map_of (cm_settings s) ''windowsContextMenu'' = Some (Bool b)"
  defines "t \<equiv> \<lambda>r. context_step sent (CmSettled j r)"
  shows "cm_calls sent = cm_calls s @ [(v, True)] \<and> context_step sent CmToggle = sent \<and>
    map_of (cm_settings (t (Inl e))) = map_of (cm_settings s) \<and> cm_error (t (Inl e)) = Some e \<and>
    map_of (cm_settings (t (Inr ()))) = (map_of (cm_settings s))(''windowsContextMenu'' \<mapsto> Bool v) \<and>
    cm_error (t (Inr ())) = None \<and> cm_pending (t r) = False \<and> cm_sets (t r) = cm_sets s"
  using assms
  by (cases r) (auto simp: step_defs stored_flag_def setting_step_def Let_def nth_append fun_eq_iff)

theorem menu_sync_quiet: "set (ms_calls (run_ops menu_sync_step menu_sync_start es)) \<subseteq> UNIV \<times> {False}"
proof -
  have "set (ms_calls s) \<subseteq> UNIV \<times> {False} \<Longrightarrow>
      set (ms_calls (run_ops menu_sync_step s es)) \<subseteq> UNIV \<times> {False}" for s
  proof (induction es arbitrary: s)
    case (Cons e es)
    have "set (ms_calls (menu_sync_step s e)) \<subseteq> UNIV \<times> {False}"
      using Cons.prems by (cases e) (auto simp: step_defs Let_def)
    then show ?case using Cons.IH by simp
  qed simp
  then show ?thesis by (simp add: menu_sync_start_def)
qed

theorem menu_sync_once:
  "ms_calls (run_ops menu_sync_step menu_sync_start [MsMount, MsHydrated settings]) =
     [(stored_flag settings ''windowsContextMenu'', False)] \<and>
   ms_calls (run_ops menu_sync_step menu_sync_start [MsHydrated settings, MsMount]) =
     [(stored_flag settings ''windowsContextMenu'', False)] \<and>
   ms_calls (run_ops menu_sync_step menu_sync_start [MsMount, MsUnmount, MsHydrated settings]) = []"
  by (simp add: menu_sync_start_def step_defs)

text \<open>
  The history is deleted only after a confirmation: between two deletions, and before the first, the
  dialog was opened. Turning the recording on or off never deletes. The buttons are disabled exactly while a deletion of this
  visit runs.
\<close>

definition history_asks :: "history_settings_event \<Rightarrow> bool" where
  "history_asks e \<longleftrightarrow> e = HsAsk \<or> e = HsOpenChange True"

lemma history_clears_asked:
  "\<not> hs_confirmClear s \<Longrightarrow> \<not> list_ex history_asks es \<Longrightarrow>
   hs_clears (run_ops history_settings_step s es) = hs_clears s"
proof (induction es arbitrary: s)
  case (Cons e es)
  have "\<not> hs_confirmClear (history_settings_step s e) \<and> hs_clears (history_settings_step s e) = hs_clears s"
    using Cons.prems by (cases e) (auto simp: step_defs Let_def history_asks_def split: sum.split)
  then show ?case using Cons by simp
qed simp

theorem history_deleted_when_confirmed:
  fixes es :: "history_settings_event list" and settings :: js_object
  defines "s \<equiv> run_ops history_settings_step (history_settings_start settings) es"
  shows "hs_isClearing s = (hs_visit s \<in> set (hs_clearing s)) \<and>
    (if list_ex history_asks es then True else hs_clears s = 0) \<and>
    hs_clears (history_settings_step s (HsRecord b)) = hs_clears s \<and>
    (hs_clears (history_settings_step s e) \<noteq> hs_clears s) =
      (e = HsClear \<and> hs_confirmClear s \<and> hs_visit s \<notin> set (hs_clearing s))"
proof -
  have busy: "hs_isClearing s = (hs_visit s \<in> set (hs_clearing s))"
    unfolding s_def by (rule history_settings.busy_exactly)
  have "hs_clears s = 0" if "\<not> list_ex history_asks es"
    using history_clears_asked [of "history_settings_start settings" es] that
    by (simp add: s_def history_settings_start_def)
  moreover have "(hs_clears (history_settings_step s e) \<noteq> hs_clears s) =
      (e = HsClear \<and> hs_confirmClear s \<and> \<not> hs_isClearing s)"
    by (cases e) (auto simp: step_defs Let_def split: sum.split)
  ultimately show ?thesis using busy by simp
qed

text \<open>
  Saving the diagnostics: nothing happens when the dialog is dismissed; the bundle names the relay
  configuration of the settings; the section shows an error exactly when the dialog or the export
  failed, so failing to show a saved bundle is not reported; the file name has no colon.
\<close>

theorem debug_save_reports:
  "db_error (debug_save web android relay dialog exported s) =
     (case dialog of
        Inl e \<Rightarrow> Some e
      | Inr d \<Rightarrow> (if truthy_string d then (case exported of Inl e \<Rightarrow> Some e | Inr _ \<Rightarrow> None) else None)) \<and>
   (if \<exists>p. dialog = Inr (Some p) \<and> p \<noteq> []
    then ExportDebugBundle (case dialog of Inr d \<Rightarrow> the d) (buildRelayConfigArg web relay)
           \<in> set (db_calls (debug_save web android relay dialog exported s))
    else db_calls (debug_save web android relay dialog exported s) = db_calls s) \<and>
   CHR '':'' \<notin> set (defaultBundleName timestamp)"
  by (auto simp: debug_save_def Let_def truthy_string_def debug_call_with_def showToast_def
    defaultBundleName_def split: sum.split option.split)

text \<open>
  The buttons of the update section do what they say in every reachable state: an install button is
  shown exactly when a click starts the one download or opens the download page, a progress bar only
  while an install runs, and never an install and a restart button together.
\<close>

theorem update_buttons_effective:
  fixes es :: "updater_event list" and d :: "string option" and autoUpdate isPending :: bool
  defines "a \<equiv> run_ops updater_step (updater_start d) es"
  defines "view \<equiv> AutoUpdate False autoUpdate isPending (shown (store a))"
  shows "(UInstallButton False \<in> set view) =
      (phase (core (store a)) = UAvailable \<and> installs (updater_step a InstallClick) = [AwaitHandle]) \<and>
    (UInstallButton True \<in> set view) =
      (phase (core (store a)) = UAvailable \<and> opened_urls (updater_step a InstallClick) \<noteq> opened_urls a) \<and>
    (URestartButton \<in> set view) = (phase (core (store a)) = UReady) \<and>
    ((\<exists>n len ratio. UProgressBar n len ratio \<in> set view) =
      (phase (core (store a)) \<in> {UDownloading, UInstalling}))"
proof -
  have inv: "app_inv a" unfolding a_def by (rule updater_machine.reachable_inv)
  then have shown: "sn_phase (shown (store a)) = phase (core (store a))"
      "sn_downloadUrl (shown (store a)) = downloadUrl (core (store a))"
    by (auto simp: app_inv_def store_inv_def fields_shown_def)
  have "phase (core (store a)) = UAvailable \<Longrightarrow> installs a = []" using inv by (auto simp: app_inv_def)
  then show ?thesis
    using shown
    by (auto simp: view_def AutoUpdate_def install_click_def store_startDownload_def startDownload_def Let_def)
qed

end
