(* ===== verification/Release_Version.thy ===== *)
theory Release_Version
  imports JS_Json
begin

text \<open>
  The version scripts: \<open>scripts/release.js\<close>, \<open>scripts/sync-version.js\<close> and \<open>scripts/validate-version.js\<close>.

  The version of the root \<open>package.json\<close> is the source; \<open>sync-version\<close> copies it to the Tauri
  configuration, to \<open>Cargo.toml\<close> and to the README, \<open>validate-version\<close> compares the four, and \<open>release\<close>
  bumps the version and runs both. The two JSON files are represented by their \<open>version\<close> property, the
  others by their text. The regular expressions are matchers: a function from the text at a position to
  the captured version and the rest of the text. Their class \<open>[\d.]+\<close> is followed by a character outside
  the class, or by nothing, so the greedy choice is the only one and no backtracking occurs. The
  replacement strings contain a version; a version has no dollar sign, which \<open>replace\<close> would interpret.
\<close>

section \<open>Matchers\<close>

type_synonym matcher = "string \<Rightarrow> (string \<times> string) option"

definition version_char :: "char \<Rightarrow> bool" where
  "version_char c \<longleftrightarrow> js_digit c \<or> c = CHR ''.''"

text \<open>\<open>[\d.]+\<close> followed by a literal.\<close>

definition match_version :: "string \<Rightarrow> matcher" where
  "match_version post s =
     (let v = takeWhile version_char s; r = dropWhile version_char s in
      if v \<noteq> [] \<and> prefix post r then Some (v, drop (length post) r) else None)"

definition match_literal :: "string \<Rightarrow> string \<Rightarrow> string option" where
  "match_literal p s = (if prefix p s then Some (drop (length p) s) else None)"

definition match_between :: "string \<Rightarrow> string \<Rightarrow> matcher" where
  "match_between pre post s = Option.bind (match_literal pre s) (match_version post)"

definition match_badge :: matcher where
  "match_badge s =
     Option.bind (match_literal ''[badge-version]:'' s)
       (\<lambda>r. match_between ''https://img.shields.io/badge/version-'' ''-blue'' (dropWhile js_space r))"

lemma match_literal_Some: "(match_literal p s = Some r) = (s = p @ r)"
  by (auto simp: match_literal_def prefix_def)

text \<open>
  A match that ends in a literal is determined by the matched text alone: whatever follows it, the
  same text matches and the rest is left over.
\<close>

definition delimited :: "matcher \<Rightarrow> string \<Rightarrow> string \<Rightarrow> bool" where
  "delimited m w v \<longleftrightarrow> (\<forall>r. m (w @ r) = Some (v, r))"

lemma version_run:
  assumes "\<forall>c\<in>set v. version_char c" "post \<noteq> []" "\<not> version_char (hd post)"
  shows "takeWhile version_char (v @ post @ r) = v" "dropWhile version_char (v @ post @ r) = post @ r"
proof -
  have "takeWhile version_char (post @ r) = [] \<and> dropWhile version_char (post @ r) = post @ r"
    using assms by (cases post) simp_all
  then show "takeWhile version_char (v @ post @ r) = v" "dropWhile version_char (v @ post @ r) = post @ r"
    using assms by (simp_all add: takeWhile_append2 dropWhile_append2)
qed

lemma match_version_run:
  assumes "v \<noteq> []" "\<forall>c\<in>set v. version_char c" "post \<noteq> []" "\<not> version_char (hd post)"
  shows "delimited (match_version post) (v @ post) v"
  using assms version_run [OF assms(2-4)] by (simp add: delimited_def match_version_def)

lemma match_version_Some:
  assumes "match_version post s = Some (v, r)"
  shows "s = v @ post @ r" "v \<noteq> []" "\<forall>c\<in>set v. version_char c"
proof -
  have v: "v = takeWhile version_char s" "v \<noteq> []" "prefix post (dropWhile version_char s)"
      "r = drop (length post) (dropWhile version_char s)"
    using assms by (auto simp: match_version_def Let_def split: if_splits)
  then have "dropWhile version_char s = post @ r" by (auto simp: prefix_def)
  then show "s = v @ post @ r" using v(1) by (metis takeWhile_dropWhile_id)
  show "v \<noteq> []" by (rule v(2))
  show "\<forall>c\<in>set v. version_char c" using v(1) by (auto dest: set_takeWhileD)
qed

lemma match_between_Some:
  assumes "match_between pre post s = Some (v, r)" "post \<noteq> []" "\<not> version_char (hd post)"
  shows "s = (pre @ v @ post) @ r" "delimited (match_between pre post) (pre @ v @ post) v"
    "v \<noteq> []" "\<forall>c\<in>set v. version_char c"
proof -
  obtain t where t: "s = pre @ t" "match_version post t = Some (v, r)"
    using assms(1) by (auto simp: match_between_def match_literal_Some bind_eq_Some_conv)
  note v = match_version_Some [OF t(2)]
  show "s = (pre @ v @ post) @ r" using t v by simp
  show "delimited (match_between pre post) (pre @ v @ post) v"
    using match_version_run [OF v(2,3) assms(2,3)]
    by (simp add: delimited_def match_between_def match_literal_def)
  show "v \<noteq> []" "\<forall>c\<in>set v. version_char c" by (rule v)+
qed

section \<open>Searching and replacing\<close>

text \<open>\<open>s.match(m)\<close> and \<open>s.replace(m, repl)\<close> with the flag \<open>g\<close>.\<close>

fun find_first :: "matcher \<Rightarrow> string \<Rightarrow> string option" where
  "find_first m [] = map_option fst (m [])"
| "find_first m (c # cs) = (case m (c # cs) of Some (v, r) \<Rightarrow> Some v | None \<Rightarrow> find_first m cs)"

text \<open>The matches are not empty, so dropping the consumed characters makes progress.\<close>

function replace_all :: "matcher \<Rightarrow> string \<Rightarrow> string \<Rightarrow> string" where
  "replace_all m repl [] = []"
| "replace_all m repl (c # cs) =
     (case m (c # cs) of
        Some (v, r) \<Rightarrow> repl @ replace_all m repl (if length r \<le> length cs then r else cs)
      | None \<Rightarrow> c # replace_all m repl cs)"
  by pat_completeness auto

termination
  by (relation "measure (\<lambda>(m, repl, s). length s)") (auto split: if_splits)

text \<open>The same with the flag \<open>m\<close> and a pattern that begins with \<open>^\<close>, first match only.\<close>

definition line_end :: "char \<Rightarrow> bool" where
  "line_end c \<longleftrightarrow> c = CHR 0x0A \<or> c = CHR 0x0D"

fun find_line :: "matcher \<Rightarrow> bool \<Rightarrow> string \<Rightarrow> string option" where
  "find_line m b [] = (if b then map_option fst (m []) else None)"
| "find_line m b (c # cs) =
     (case (if b then m (c # cs) else None) of
        Some (v, r) \<Rightarrow> Some v
      | None \<Rightarrow> find_line m (line_end c) cs)"

fun replace_line :: "matcher \<Rightarrow> string \<Rightarrow> bool \<Rightarrow> string \<Rightarrow> string" where
  "replace_line m repl b [] = (if b then (case m [] of Some (v, r) \<Rightarrow> repl @ r | None \<Rightarrow> []) else [])"
| "replace_line m repl b (c # cs) =
     (case (if b then m (c # cs) else None) of
        Some (v, r) \<Rightarrow> repl @ r
      | None \<Rightarrow> c # replace_line m repl (line_end c) cs)"

section \<open>The scripts\<close>

record release_files =
  rf_package :: "string option"   \<comment> \<open>\<open>version\<close> of \<open>package.json\<close>\<close>
  rf_tauri :: "string option"     \<comment> \<open>\<open>version\<close> of \<open>tauri.conf.json\<close>\<close>
  rf_cargo :: string
  rf_readme :: string

definition cargo_matcher :: matcher where
  "cargo_matcher = match_between ''version = \"'' ''\"''"

definition sync_links :: "string \<Rightarrow> string \<Rightarrow> string" where
  "sync_links v readme =
     (let r1 = replace_all (match_between ''/download/v'' []) (''/download/v'' @ v) readme;
          r2 = replace_all (match_between ''DashBeam_'' ''_'') (''DashBeam_'' @ v @ ''_'') r1;
          r3 = replace_all (match_between ''DashBeam-v'' ''-'') (''DashBeam-v'' @ v @ ''-'') r2 in
      replace_all (match_between ''DashBeam-'' ''-1.'') (''DashBeam-'' @ v @ ''-1.'') r3)"

definition badge_text :: "string \<Rightarrow> string" where
  "badge_text v = ''[badge-version]: https://img.shields.io/badge/version-'' @ v @ ''-blue''"

definition sync_version :: "release_files \<Rightarrow> string + release_files" where
  "sync_version f =
     (case rf_package f of
        None \<Rightarrow> Inl ''Error: No version found in package.json''
      | Some v \<Rightarrow>
          if v = [] then Inl ''Error: No version found in package.json''
          else Inr (f\<lparr>rf_tauri := Some v,
                      rf_cargo := replace_line cargo_matcher (''version = \"'' @ v @ ''\"'') True (rf_cargo f),
                      rf_readme := replace_all match_badge (badge_text v) (sync_links v (rf_readme f))\<rparr>))"

definition release_versions :: "release_files \<Rightarrow> (string \<times> string option) list" where
  "release_versions f =
     [(''package.json'', rf_package f),
      (''src-tauri/tauri.conf.json'', rf_tauri f),
      (''src-tauri/Cargo.toml'', find_line cargo_matcher True (rf_cargo f)),
      (''README.md badge'', find_first match_badge (rf_readme f))]"

text \<open>The exit code with the reported mismatches: file, found, expected.\<close>

definition validate_version :: "release_files \<Rightarrow> nat \<times> (string \<times> string option \<times> string) list" where
  "validate_version f =
     (case rf_package f of
        None \<Rightarrow> (1, [])
      | Some sourceVersion \<Rightarrow>
          if sourceVersion = [] then (1, [])
          else
            (let mismatches = map (\<lambda>(file, version). (file, version, sourceVersion))
                   (filter (\<lambda>(file, version). version \<noteq> Some sourceVersion) (release_versions f)) in
             if mismatches \<noteq> [] then (1, mismatches) else (0, [])))"

text \<open>
  \<open>Number\<close> of a part of a version: a decimal numeral, an empty part, or anything else. A part has no dot;
  numerals with a sign, an exponent or a radix prefix do not occur in versions and count as the last case.
\<close>

datatype js_part = PartNumber nat | PartNaN | PartUndefined

definition part_number :: "string \<Rightarrow> js_part" where
  "part_number s =
     (let t = js_trim s in
      if t = [] then PartNumber 0
      else if \<forall>c\<in>set t. js_digit c then PartNumber (digits_val t)
      else PartNaN)"

fun show_part :: "js_part \<Rightarrow> string" where
  "show_part (PartNumber n) = show_nat n"
| "show_part PartNaN = ''NaN''"
| "show_part PartUndefined = ''undefined''"

fun part_succ :: "js_part \<Rightarrow> js_part" where
  "part_succ (PartNumber n) = PartNumber (Suc n)"
| "part_succ PartNaN = PartNaN"
| "part_succ PartUndefined = PartNaN"

definition part_at :: "js_part list \<Rightarrow> nat \<Rightarrow> js_part" where
  "part_at ps i = (if i < length ps then ps ! i else PartUndefined)"

definition dotted :: "js_part \<Rightarrow> js_part \<Rightarrow> js_part \<Rightarrow> string" where
  "dotted a b c = show_part a @ ''.'' @ show_part b @ ''.'' @ show_part c"

definition bump :: "string \<Rightarrow> string \<Rightarrow> string" where
  "bump kind current =
     (let ps = map part_number (js_split (CHR ''.'') current);
          major = part_at ps 0; minor = part_at ps 1; patch = part_at ps 2 in
      if kind = ''patch'' then dotted major minor (part_succ patch)
      else if kind = ''minor'' then dotted major (part_succ minor) (PartNumber 0)
      else dotted (part_succ major) (PartNumber 0) (PartNumber 0))"

text \<open>\<open>/^\d+\.\d+\.\d+$/\<close>\<close>

definition exact_version :: "string \<Rightarrow> bool" where
  "exact_version s \<longleftrightarrow>
     (let ps = js_split (CHR ''.'') s in length ps = 3 \<and> (\<forall>p\<in>set ps. p \<noteq> [] \<and> (\<forall>c\<in>set p. js_digit c)))"

definition new_version :: "string \<Rightarrow> string \<Rightarrow> string option" where
  "new_version versionArg current =
     (if versionArg \<in> {''patch'', ''minor'', ''major''} then Some (bump versionArg current)
      else if exact_version versionArg then Some versionArg else None)"

text \<open>The exit code and the files afterwards.\<close>

definition release :: "string option \<Rightarrow> release_files \<Rightarrow> nat \<times> release_files" where
  "release versionArg f =
     (case rf_package f of
        None \<Rightarrow> (1, f)
      | Some current \<Rightarrow>
          if current = [] then (1, f)
          else (case versionArg of
            None \<Rightarrow> (1, f)
          | Some arg \<Rightarrow>
              if arg = [] then (1, f)
              else (case new_version arg current of
                None \<Rightarrow> (1, f)
              | Some v \<Rightarrow>
                  (let f1 = f\<lparr>rf_package := Some v\<rparr> in
                   case sync_version f1 of
                     Inl _ \<Rightarrow> (1, f1)
                   | Inr f2 \<Rightarrow> if fst (validate_version f2) \<noteq> 0 then (1, f2) else (0, f2)))))"

section \<open>A replaced text is found again\<close>

lemma prefix_takeWhile_eq:
  assumes "prefix w s" "\<forall>c\<in>set w. P c" "takeWhile P s = takeWhile P t"
  shows "prefix w t"
proof -
  have "prefix w (takeWhile P s)"
    using assms(1,2) by (auto simp: prefix_def takeWhile_append2)
  then show ?thesis
    unfolding assms(3) by (metis prefix_def append.assoc takeWhile_dropWhile_id)
qed

lemma delimited_prefix: "delimited m w v \<Longrightarrow> prefix w s \<Longrightarrow> m s \<noteq> None"
  by (auto simp: delimited_def prefix_def)

definition version_text :: "string \<Rightarrow> bool" where
  "version_text v \<longleftrightarrow> v \<noteq> [] \<and> (\<forall>c\<in>set v. version_char c)"

text \<open>
  A pattern whose matches are delimited, and a replacement that it matches. Where the replacement leaves
  alone the text on which an earlier match would depend, it creates no match before the first one.
\<close>

locale found_again =
  fixes m :: matcher and repl :: "string \<Rightarrow> string"
  assumes replacement: "version_text v \<Longrightarrow> delimited m (repl v) v" "repl v \<noteq> []"
    and nonempty: "m [] = None"
begin

lemma find_text:
  assumes "version_text v"
  shows "find_first m (repl v @ r) = Some v" "find_line m True (repl v @ r) = Some v"
  using replacement [of v] assms by (cases "repl v"; force simp: delimited_def)+

end

locale anchored = found_again +
  fixes a :: char
  assumes match: "m s = Some (v, r) \<Longrightarrow> \<exists>w. s = w @ r \<and> w \<noteq> [] \<and> hd w = a \<and> a \<notin> set (tl w) \<and> delimited m w v"
    and anchor: "hd (repl v) = a"
begin

lemma copied_before: "takeWhile (\<lambda>c. c \<noteq> a) (replace_all m (repl u) s) = takeWhile (\<lambda>c. c \<noteq> a) s"
proof (induction s)
  case (Cons c cs)
  show ?case
  proof (cases "m (c # cs)")
    case (Some p)
    then have "c = a" using match [of "c # cs" "fst p" "snd p"] by (auto simp: Cons_eq_append_conv)
    then show ?thesis
      using Some anchor [of u] replacement(2) [of u] by (cases "repl u") (auto split: prod.split)
  qed (use Cons in simp)
qed simp

lemma no_new_match:
  assumes "m (c # cs) = None"
  shows "m (c # replace_all m (repl u) cs) = None"
proof (rule ccontr)
  assume "m (c # replace_all m (repl u) cs) \<noteq> None"
  then obtain v r where some: "m (c # replace_all m (repl u) cs) = Some (v, r)" by auto
  then obtain w where w: "c # replace_all m (repl u) cs = w @ r" "w \<noteq> []" "a \<notin> set (tl w)" "delimited m w v"
    using match [OF some] by auto
  then obtain ws where ws: "w = c # ws" by (cases w) auto
  have "prefix ws (replace_all m (repl u) cs)" "\<forall>x\<in>set ws. x \<noteq> a" using w ws by auto
  then have "prefix ws cs" by (rule prefix_takeWhile_eq) (rule copied_before)
  then show False using delimited_prefix [OF w(4), of "c # cs"] assms ws by simp
qed

lemma find_replaced:
  "version_text u \<Longrightarrow> find_first m s \<noteq> None \<Longrightarrow> find_first m (replace_all m (repl u) s) = Some u"
proof (induction s)
  case (Cons c cs)
  show ?case
  proof (cases "m (c # cs)")
    case None
    then show ?thesis using Cons no_new_match by simp
  qed (use Cons.prems find_text in \<open>auto split: prod.split\<close>)
qed (simp add: nonempty)

end

locale line_anchored = found_again +
  assumes line_match: "m s = Some (v, r) \<Longrightarrow> \<exists>w. s = w @ r \<and> w \<noteq> [] \<and> (\<forall>c\<in>set w. \<not> line_end c) \<and> delimited m w v"
begin

lemma line_copied:
  "takeWhile (\<lambda>c. \<not> line_end c) (replace_line m (repl u) False s) = takeWhile (\<lambda>c. \<not> line_end c) s"
  by (induction s) auto

lemma no_new_line_match:
  assumes "m (c # cs) = None"
  shows "m (c # replace_line m (repl u) (line_end c) cs) = None"
proof (rule ccontr)
  assume "m (c # replace_line m (repl u) (line_end c) cs) \<noteq> None"
  then obtain v r where some: "m (c # replace_line m (repl u) (line_end c) cs) = Some (v, r)" by auto
  then obtain w where w: "c # replace_line m (repl u) (line_end c) cs = w @ r" "w \<noteq> []"
      "\<forall>x\<in>set w. \<not> line_end x" "delimited m w v"
    using line_match [OF some] by auto
  then obtain ws where ws: "w = c # ws" by (cases w) auto
  have "prefix ws (replace_line m (repl u) False cs)" "\<forall>x\<in>set ws. \<not> line_end x" using w ws by auto
  then have "prefix ws cs" by (rule prefix_takeWhile_eq) (rule line_copied)
  then show False using delimited_prefix [OF w(4), of "c # cs"] assms ws by simp
qed

lemma find_line_replaced:
  "version_text u \<Longrightarrow> find_line m b s \<noteq> None \<Longrightarrow> find_line m b (replace_line m (repl u) b s) = Some u"
proof (induction s arbitrary: b)
  case (Cons c cs)
  show ?case
  proof (cases "if b then m (c # cs) else None")
    case None
    then show ?thesis using Cons no_new_line_match by (cases b) simp_all
  qed (use Cons.prems find_text in \<open>auto split: prod.split if_splits\<close>)
qed (simp add: nonempty split: if_splits)

end

lemma version_char_facts:
  "\<not> version_char (CHR ''\"'')" "\<not> version_char (CHR ''-'')" "\<not> version_char (CHR ''['')"
  "version_char c \<Longrightarrow> \<not> line_end c"
  by (auto simp: version_char_def js_digit_def char_code_def line_end_def)

lemma match_between_text:
  assumes "version_text v" "post \<noteq> []" "\<not> version_char (hd post)"
  shows "delimited (match_between pre post) (pre @ v @ post) v"
  using match_version_run [of v post] assms
  by (simp add: version_text_def delimited_def match_between_def match_literal_def)

lemma match_literal_append [simp]: "match_literal p (p @ r) = Some r"
  by (simp add: match_literal_def)

lemma badge_text_split:
  "badge_text v @ r = ''[badge-version]:'' @ CHR '' '' # (''https://img.shields.io/badge/version-'' @ v @ ''-blue'') @ r"
  by (simp add: badge_text_def)

lemma badge_text_delimited:
  assumes "version_text v"
  shows "delimited match_badge (badge_text v) v"
proof -
  have "delimited (match_between ''https://img.shields.io/badge/version-'' ''-blue'')
      (''https://img.shields.io/badge/version-'' @ v @ ''-blue'') v"
    by (rule match_between_text [OF assms]) (simp_all add: version_char_facts(2))
  moreover have "dropWhile js_space (CHR '' '' # ''https://img.shields.io/badge/version-'' @ t) =
      ''https://img.shields.io/badge/version-'' @ t" for t
    by (simp add: js_space_def char_code_def)
  ultimately show ?thesis
    unfolding delimited_def match_badge_def badge_text_split match_literal_append by (simp only: Option.bind.simps append.assoc simp_thms)
qed

lemma match_badge_Some:
  assumes "match_badge s = Some (v, r)"
  shows "\<exists>w. s = w @ r \<and> w \<noteq> [] \<and> hd w = CHR ''['' \<and> CHR ''['' \<notin> set (tl w) \<and> delimited match_badge w v"
proof -
  let ?pre = "''[badge-version]:''" and ?url = "''https://img.shields.io/badge/version-''"
  obtain t where t: "s = ?pre @ t" "match_between ?url ''-blue'' (dropWhile js_space t) = Some (v, r)"
    using assms by (auto simp only: match_badge_def match_literal_Some bind_eq_Some_conv)
  define sp where "sp = takeWhile js_space t"
  note u = match_between_Some [OF t(2)]
  have post: "''-blue'' \<noteq> []" "\<not> version_char (hd ''-blue'')" by (simp_all add: version_char_facts)
  have tsp: "t = sp @ (?url @ v @ ''-blue'') @ r"
    using u(1) [OF post] takeWhile_dropWhile_id [of js_space t] by (simp only: sp_def)
  have space: "\<forall>c\<in>set sp. js_space c" by (auto simp: sp_def dest: set_takeWhileD)
  have skip: "dropWhile js_space (sp @ ?url @ x) = ?url @ x" for x
    using space by (simp add: dropWhile_append2 js_space_def char_code_def)
  let ?w = "?pre @ sp @ ?url @ v @ ''-blue''"
  have "match_badge (?w @ x) = Some (v, x)" for x
    using u(2) [OF post]
    by (simp only: match_badge_def append.assoc match_literal_append Option.bind.simps skip delimited_def)
  moreover have "CHR ''['' \<notin> set (sp @ ?url @ v @ ''-blue'')"
    using space u(4) [OF post] version_char_facts(3) by (auto simp: js_space_def char_code_def)
  ultimately have "s = ?w @ r \<and> ?w \<noteq> [] \<and> hd ?w = CHR ''['' \<and> CHR ''['' \<notin> set (tl ?w) \<and> delimited match_badge ?w v"
    using t(1) tsp by (simp add: delimited_def)
  then show ?thesis by blast
qed

interpretation badge: anchored match_badge badge_text "CHR ''[''"
proof
  show "match_badge [] = None" by (simp add: match_badge_def match_literal_def)
  show "hd (badge_text v) = CHR ''[''" "badge_text v \<noteq> []" for v by (simp_all add: badge_text_def)
qed (use match_badge_Some badge_text_delimited in auto)

definition cargo_text :: "string \<Rightarrow> string" where
  "cargo_text v = ''version = \"'' @ v @ ''\"''"

interpretation cargo: line_anchored cargo_matcher cargo_text
proof
  have post: "''\"'' \<noteq> []" "\<not> version_char (hd ''\"'')" by (simp_all add: version_char_facts)
  show "delimited cargo_matcher (cargo_text v) v" if "version_text v" for v
    unfolding cargo_matcher_def cargo_text_def by (rule match_between_text [OF that post])
  show "cargo_text v \<noteq> []" for v by (simp add: cargo_text_def)
  show "cargo_matcher [] = None" by (simp add: cargo_matcher_def match_between_def match_literal_def)
  fix s v r
  assume m: "cargo_matcher s = Some (v, r)"
  note u = match_between_Some [OF m [unfolded cargo_matcher_def] post]
  have "\<forall>c\<in>set (''version = \"'' @ v @ ''\"''). \<not> line_end c"
    using u(4) version_char_facts(4) by (auto simp: line_end_def)
  then show "\<exists>w. s = w @ r \<and> w \<noteq> [] \<and> (\<forall>c\<in>set w. \<not> line_end c) \<and> delimited cargo_matcher w v"
    using u(1,2) unfolding cargo_matcher_def by blast
qed

section \<open>Properties\<close>

text \<open>Synchronising and then validating succeeds.\<close>

lemma sync_then_validate:
  assumes v: "rf_package f = Some v" "version_text v"
    and cargo: "find_line cargo_matcher True (rf_cargo f) \<noteq> None"
    and badge: "find_first match_badge (sync_links v (rf_readme f)) \<noteq> None"
  shows "\<exists>f'. sync_version f = Inr f' \<and> validate_version f' = (0, []) \<and>
    map snd (release_versions f') = replicate 4 (Some v)"
  using v(1) cargo.find_line_replaced [OF v(2) cargo] badge.find_replaced [OF v(2) badge] v(2)
  by (simp add: sync_version_def validate_version_def release_versions_def cargo_text_def version_text_def
    numeral_eq_Suc)

lemma exact_version_text: "exact_version v \<Longrightarrow> version_text v"
proof -
  assume "exact_version v"
  then obtain a b c where ps: "js_split (CHR ''.'') v = [a, b, c]"
      and d: "\<forall>p\<in>set [a, b, c]. p \<noteq> [] \<and> (\<forall>c\<in>set p. js_digit c)"
    by (auto simp: exact_version_def Let_def length_Suc_conv numeral_eq_Suc)
  have "v = a @ CHR ''.'' # b @ CHR ''.'' # c"
    using js_join_split [of "CHR ''.''" v] by (simp add: ps)
  then show ?thesis using d by (auto simp: version_text_def version_char_def)
qed

definition dotted_nat :: "nat \<Rightarrow> nat \<Rightarrow> nat \<Rightarrow> string" where
  "dotted_nat a b c = dotted (PartNumber a) (PartNumber b) (PartNumber c)"

lemma digit_no_dot: "list_all js_digit p \<Longrightarrow> CHR ''.'' \<notin> set p"
  by (auto simp: list_all_iff js_digit_def char_code_def)

lemma split_dotted_nat: "js_split (CHR ''.'') (dotted_nat a b c) = [show_nat a, show_nat b, show_nat c]"
  using js_split_join [of "[show_nat a, show_nat b, show_nat c]" "CHR ''.''"] digits_show_nat
  by (auto simp: dotted_nat_def dotted_def digit_no_dot)

lemma exact_dotted_nat: "exact_version (dotted_nat a b c)"
  using digits_show_nat by (auto simp: exact_version_def split_dotted_nat list_all_iff)

lemma js_trim_digits: "list_all js_digit p \<Longrightarrow> js_trim p = p"
proof -
  assume d: "list_all js_digit p"
  have "\<not> js_space c" if "js_digit c" for c using that by (auto simp: js_digit_def js_space_def)
  then have "dropWhile js_space q = q" if "list_all js_digit q" for q
    using that by (cases q) auto
  then show ?thesis using d by (simp add: js_trim_def)
qed

lemma part_number_show [simp]: "part_number (show_nat n) = PartNumber n"
  using digits_show_nat [of n] by (auto simp: part_number_def Let_def js_trim_digits list_all_iff)

text \<open>
  Bumping a version of the form X.Y.Z gives exactly the next patch, minor or major version.
\<close>

theorem bump_exact:
  "bump ''patch'' (dotted_nat a b c) = dotted_nat a b (Suc c) \<and>
   bump ''minor'' (dotted_nat a b c) = dotted_nat a (Suc b) 0 \<and>
   bump ''major'' (dotted_nat a b c) = dotted_nat (Suc a) 0 0"
  by (simp add: bump_def split_dotted_nat part_at_def dotted_nat_def [symmetric])

text \<open>
  C34. A release of a repository whose version has the form X.Y.Z, whose \<open>Cargo.toml\<close> has a version line and
  whose README has a version badge succeeds for every bump and every exact version, and afterwards the
  four places hold the same, new version.
\<close>

theorem release_consistent:
  fixes f :: release_files
  assumes current: "rf_package f = Some (dotted_nat a b c)"
    and v: "new_version arg (dotted_nat a b c) = Some v"
    and cargo: "find_line cargo_matcher True (rf_cargo f) \<noteq> None"
    and badge: "find_first match_badge (sync_links v (rf_readme f)) \<noteq> None"
  shows "fst (release (Some arg) f) = 0 \<and>
    map snd (release_versions (snd (release (Some arg) f))) = replicate 4 (Some v) \<and> exact_version v"
proof -
  have exact: "exact_version v"
    using v bump_exact [of a b c] by (auto simp: new_version_def exact_dotted_nat split: if_splits)
  obtain f' where f': "sync_version (f\<lparr>rf_package := Some v\<rparr>) = Inr f'" "validate_version f' = (0, [])"
      "map snd (release_versions f') = replicate 4 (Some v)"
    using sync_then_validate [of "f\<lparr>rf_package := Some v\<rparr>" v] exact_version_text [OF exact] cargo badge by auto
  have "dotted_nat a b c \<noteq> []" using exact_version_text [OF exact_dotted_nat] by (auto simp: version_text_def)
  moreover have "arg \<noteq> []" using v by (auto simp: new_version_def exact_version_def split: if_splits)
  ultimately show ?thesis using current v f' exact by (simp add: release_def)
qed

theorem release_consistent_witness:
  "fst (release (Some ''minor'')
     \<lparr>rf_package = Some (dotted_nat 0 7 1), rf_tauri = None, rf_cargo = ''[package]'' @ [CHR 0x0A] @ cargo_text ''0.7.1'',
      rf_readme = badge_text ''0.7.1''\<rparr>) = 0"
proof -
  let ?f = "\<lparr>rf_package = Some (dotted_nat 0 7 1), rf_tauri = None,
    rf_cargo = ''[package]'' @ [CHR 0x0A] @ cargo_text ''0.7.1'', rf_readme = badge_text ''0.7.1''\<rparr>"
  have "new_version ''minor'' (dotted_nat 0 7 1) = Some ''0.8.0''" by code_simp
  moreover have "find_line cargo_matcher True (rf_cargo ?f) \<noteq> None" by code_simp
  moreover have "find_first match_badge (sync_links ''0.8.0'' (rf_readme ?f)) \<noteq> None" by code_simp
  ultimately show ?thesis using release_consistent [of ?f 0 7 1 "''minor''" "''0.8.0''"] by simp
qed

lemma find_line_version:
  "find_line cargo_matcher b s = Some v \<Longrightarrow> version_text v"
proof (induction s arbitrary: b)
  case (Cons c cs)
  have "version_text u" if "cargo_matcher (c # cs) = Some (u, r)" for u r
    using match_between_Some(3,4) [OF that [unfolded cargo_matcher_def]] version_char_facts(1)
    by (auto simp: version_text_def)
  then show ?case using Cons by (auto split: if_splits option.splits)
qed (auto simp: cargo.nonempty split: if_splits)

text \<open>
  What passes the validation is a version of digits and dots: a pre-release version, once in
  \<open>package.json\<close>, is copied to the other files by a synchronisation but fails every validation, and
  the patterns no longer find it in \<open>Cargo.toml\<close> to replace it.
\<close>

theorem validated_version_numeric:
  assumes "validate_version f = (0, [])"
  shows "\<exists>v. rf_package f = Some v \<and> version_text v"
proof -
  obtain v where "rf_package f = Some v" "find_line cargo_matcher True (rf_cargo f) = Some v"
    using assms by (auto simp: validate_version_def release_versions_def split: option.splits if_splits)
  then show ?thesis using find_line_version by blast
qed

theorem invalid_argument_changes_nothing:
  assumes "arg \<notin> {''patch'', ''minor'', ''major''}" "\<not> exact_version arg"
  shows "release (Some arg) f = (1, f)"
  using assms by (auto simp: release_def new_version_def split: option.split)

end
