(* ===== verification/Release_Notes.thy ===== *)
theory Release_Notes
  imports JS_Json
begin

text \<open>
  The generator of the release notes: \<open>scripts/generate-release-notes.js\<close>.

  The script asks git and GitHub for tags, commits and generated notes and computes one text from the
  answers. The answers are arguments here and everything computed from them is a function, up to the
  text and the entry of the output file of the workflow. A regular expression is a function that follows
  the matching of the language: the leftmost start, the greedy or lazy choice, and backtracking where a
  greedy choice can fail later.

  A table is an object literal, so looking a key up also finds the members that every object inherits;
  such a value is not a string and the string methods called on it later throw. The dash between a label and its subjects is
  outside the code units of the model and is the argument \<open>em_dash\<close>; \<open>localeCompare\<close> is an argument too.
\<close>

section \<open>Tables\<close>

definition FEATURE_TYPES :: "string list" where
  "FEATURE_TYPES = [''feat'', ''feature'']"

definition FIX_TYPES :: "string list" where
  "FIX_TYPES = [''fix'', ''hotfix'']"

definition IMPROVEMENT_TYPES :: "string list" where
  "IMPROVEMENT_TYPES = [''refactor'', ''perf'', ''improvement'']"

definition SKIP_TYPES :: "string list" where
  "SKIP_TYPES = [''chore'', ''ci'', ''build'', ''test'', ''style'', ''bump'', ''debug'', ''docs'', ''documentation'']"

definition SCOPE_ALIASES :: "(string \<times> string) list" where
  "SCOPE_ALIASES = [(''pair'', ''pairing'')]"

definition TYPE_PRIORITY :: "(string \<times> int) list" where
  "TYPE_PRIORITY =
     [(''feat'', 0), (''feature'', 0), (''fix'', 1), (''hotfix'', 1), (''perf'', 2), (''refactor'', 3),
      (''improvement'', 3), (''other'', 4)]"

definition AUTHOR_LOGIN_ALIASES :: "(string \<times> string) list" where
  "AUTHOR_LOGIN_ALIASES =
     [(''noordeen'', ''noordeen123''), (''ananthakrishnan'', ''ananthan199601''), (''retengart'', ''Retengart''),
      (''rub'' @ [CHR 0xE9] @ ''n'', ''Rubensei''), (''ruben'', ''Rubensei'')]"

text \<open>A string, or a member of \<open>Object.prototype\<close>.\<close>

datatype js_entry = Own string | Inherited string

definition object_members :: "string list" where
  "object_members =
     [''constructor'', ''__defineGetter__'', ''__defineSetter__'', ''hasOwnProperty'', ''__lookupGetter__'',
      ''__lookupSetter__'', ''isPrototypeOf'', ''propertyIsEnumerable'', ''toString'', ''valueOf'', ''__proto__'',
      ''toLocaleString'']"

definition object_lookup :: "(string \<times> string) list \<Rightarrow> string \<Rightarrow> js_entry option" where
  "object_lookup table k =
     (case map_of table k of
        Some v \<Rightarrow> Some (Own v)
      | None \<Rightarrow> if k \<in> set object_members then Some (Inherited k) else None)"

section \<open>Matching\<close>

definition letter :: "char \<Rightarrow> bool" where
  "letter c \<longleftrightarrow> (let n = char_code c in (65 \<le> n \<and> n \<le> 90) \<or> (97 \<le> n \<and> n \<le> 122))"

definition word_char :: "char \<Rightarrow> bool" where
  "word_char c \<longleftrightarrow> letter c \<or> js_digit c \<or> c = CHR ''_''"

definition login_char :: "char \<Rightarrow> bool" where
  "login_char c \<longleftrightarrow> letter c \<or> js_digit c \<or> c = CHR ''-''"

definition newline :: char where
  "newline = CHR 0x0A"

text \<open>A character that \<open>.\<close> does not match.\<close>

definition terminator :: "char \<Rightarrow> bool" where
  "terminator c \<longleftrightarrow> c = CHR 0x0A \<or> c = CHR 0x0D"

text \<open>The leftmost position at which a matcher succeeds, and the last one.\<close>

fun leftmost :: "(string \<Rightarrow> 'a option) \<Rightarrow> string \<Rightarrow> 'a option" where
  "leftmost f [] = f []"
| "leftmost f (c # cs) = (case f (c # cs) of Some x \<Rightarrow> Some x | None \<Rightarrow> leftmost f cs)"

fun rightmost :: "(string \<Rightarrow> 'a option) \<Rightarrow> string \<Rightarrow> 'a option" where
  "rightmost f [] = f []"
| "rightmost f (c # cs) = (case rightmost f cs of Some x \<Rightarrow> Some x | None \<Rightarrow> f (c # cs))"

text \<open>\<open>\b(...)\b\<close> for words that begin and end with word characters.\<close>

fun word_in :: "string list \<Rightarrow> bool \<Rightarrow> string \<Rightarrow> bool" where
  "word_in ws after_word [] = False"
| "word_in ws after_word (c # cs) =
     ((\<not> after_word \<and>
       (\<exists>w\<in>set ws. prefix w (c # cs) \<and>
          (case drop (length w) (c # cs) of [] \<Rightarrow> True | d # _ \<Rightarrow> \<not> word_char d))) \<or>
      word_in ws (word_char c) cs)"

definition PAIRING_KEYWORDS :: "string \<Rightarrow> bool" where
  "PAIRING_KEYWORDS s =
     word_in [''pair'', ''pairing'', ''paired'', ''invite'', ''paired device'', ''paired devices'', ''pairing ticket'']
       False (js_lower s)"

section \<open>Commits\<close>

record 's commit =
  c_type :: string
  c_scope :: "'s option"
  c_subject :: string

text \<open>
  \<open>\s*(?<subject>.+)$\<close> after the colon: the spaces are skipped unless nothing would be left for the
  subject, which then is the last of them.
\<close>

definition match_subject :: "string \<Rightarrow> string option" where
  "match_subject r =
     (let w = dropWhile js_space r in
      if w \<noteq> [] then (if \<exists>c\<in>set w. terminator c then None else Some w)
      else if r = [] \<or> terminator (last r) then None else Some [last r])"

definition match_scope :: "string \<Rightarrow> (string option \<times> string) option" where
  "match_scope s =
     (case s of
        [] \<Rightarrow> Some (None, s)
      | c # cs \<Rightarrow>
          if c \<noteq> CHR ''('' then Some (None, s)
          else
            (let inner = takeWhile (\<lambda>x. x \<noteq> CHR '')'') cs; rest = dropWhile (\<lambda>x. x \<noteq> CHR '')'') cs in
             if inner = [] \<or> rest = [] then None else Some (Some inner, tl rest)))"

definition CONVENTIONAL :: "string \<Rightarrow> (string \<times> string option \<times> string) option" where
  "CONVENTIONAL s =
     (let ty = takeWhile letter s in
      if ty = [] then None
      else (case match_scope (dropWhile letter s) of
              None \<Rightarrow> None
            | Some (sc, r) \<Rightarrow>
                (let r1 = (case r of c # cs \<Rightarrow> if c = CHR ''!'' then cs else r | [] \<Rightarrow> r) in
                 case r1 of
                   [] \<Rightarrow> None
                 | c # cs \<Rightarrow>
                     if c \<noteq> CHR '':'' then None
                     else map_option (\<lambda>sub. (ty, sc, sub)) (match_subject cs))))"

definition parseCommit :: "string \<Rightarrow> string commit" where
  "parseCommit subject =
     (case CONVENTIONAL subject of
        None \<Rightarrow> \<lparr>c_type = ''other'', c_scope = None, c_subject = subject\<rparr>
      | Some (ty, sc, sub) \<Rightarrow>
          \<lparr>c_type = js_lower ty, c_scope = map_option js_lower sc, c_subject = js_trim sub\<rparr>)"

text \<open>
  \<open>toUpperCase\<close> of one code unit. The upper-case forms of two of them lie outside the model; they are kept.
\<close>

definition upper_char :: "char \<Rightarrow> string" where
  "upper_char c =
     (let n = char_code c in
      if n = 223 then ''SS''
      else if (97 \<le> n \<and> n \<le> 122) \<or> (224 \<le> n \<and> n \<le> 254 \<and> n \<noteq> 247) then [char_of (n - 32)] else [c])"

fun capitalize :: "string \<Rightarrow> string" where
  "capitalize [] = []"
| "capitalize (c # cs) = upper_char c @ cs"

definition dashes_to_spaces :: "string \<Rightarrow> string" where
  "dashes_to_spaces s = map (\<lambda>c. if c = CHR ''-'' then CHR '' '' else c) s"

definition scope_label :: "string \<Rightarrow> string option" where
  "scope_label s =
     (if s = [] then None else if s = ''ui'' then Some ''UI'' else if s = ''dpi'' then Some ''DPI''
      else Some (dashes_to_spaces s))"

definition formatScopeLabel :: "js_entry option \<Rightarrow> string option result" where
  "formatScopeLabel scope =
     (case scope of
        None \<Rightarrow> Inr None
      | Some (Own s) \<Rightarrow> Inr (scope_label s)
      | Some (Inherited _) \<Rightarrow> Inl (TypeError ''scope.replace is not a function''))"

definition bullet :: "string \<Rightarrow> string" where
  "bullet t = ''- '' @ t"

text \<open>A \<open>Map\<close> of arrays in insertion order.\<close>

fun map_push :: "'k \<Rightarrow> 'v \<Rightarrow> ('k \<times> 'v list) list \<Rightarrow> ('k \<times> 'v list) list" where
  "map_push k v [] = [(k, [v])]"
| "map_push k v ((k', vs) # m) = (if k = k' then (k', vs @ [v]) # m else (k', vs) # map_push k v m)"

definition scope_key :: "js_entry commit \<Rightarrow> js_entry" where
  "scope_key c = (case c_scope c of None \<Rightarrow> Own ''_general'' | Some s \<Rightarrow> s)"

definition groupByScope :: "js_entry commit list \<Rightarrow> (js_entry \<times> js_entry commit list) list" where
  "groupByScope commits = foldl (\<lambda>groups c. map_push (scope_key c) c groups) [] commits"

definition normalizeScope :: "string option \<Rightarrow> js_entry option" where
  "normalizeScope scope =
     (case scope of
        None \<Rightarrow> None
      | Some s \<Rightarrow>
          if s = [] then None
          else (case object_lookup SCOPE_ALIASES s of None \<Rightarrow> Some (Own s) | Some e \<Rightarrow> Some e))"

definition normalizeCommit :: "string commit \<Rightarrow> js_entry commit option" where
  "normalizeCommit c =
     (let scope = normalizeScope (c_scope c); subject = c_subject c in
      if js_lower subject = ''prototype for pair mode'' then None
      else if scope = None \<and> c_type c \<in> set FEATURE_TYPES \<and> PAIRING_KEYWORDS subject
      then Some \<lparr>c_type = c_type c, c_scope = Some (Own ''pairing''), c_subject = subject\<rparr>
      else Some \<lparr>c_type = c_type c, c_scope = scope, c_subject = subject\<rparr>)"

text \<open>The loop of \<open>uniqueSubjects\<close> with the subjects seen so far.\<close>

fun unique_loop :: "string list \<Rightarrow> 's commit list \<Rightarrow> 's commit list" where
  "unique_loop seen [] = []"
| "unique_loop seen (c # cs) =
     (let key = js_lower (c_subject c) in
      if key \<in> set seen then unique_loop seen cs else c # unique_loop (key # seen) cs)"

definition uniqueSubjects :: "'s commit list \<Rightarrow> 's commit list" where
  "uniqueSubjects commits = unique_loop [] commits"

definition type_priority :: "string \<Rightarrow> int" where
  "type_priority ty = (case map_of TYPE_PRIORITY ty of None \<Rightarrow> 4 | Some p \<Rightarrow> p)"

definition representative_cmp :: "'s commit \<Rightarrow> 's commit \<Rightarrow> int" where
  "representative_cmp a b =
     (let pa = type_priority (c_type a); pb = type_priority (c_type b) in
      if pa \<noteq> pb then pa - pb else int (length (c_subject b)) - int (length (c_subject a)))"

definition pickRepresentativeSubjects :: "'s commit list \<Rightarrow> nat \<Rightarrow> string list" where
  "pickRepresentativeSubjects commits limit =
     map (\<lambda>c. capitalize (c_subject c)) (take limit (js_sort representative_cmp (uniqueSubjects commits)))"

definition nth_subject :: "string list \<Rightarrow> nat \<Rightarrow> string" where
  "nth_subject subjects i = (if i < length subjects then subjects ! i else ''undefined'')"

definition more_text :: "nat \<Rightarrow> string" where
  "more_text extra = (if extra > 0 then '' (+'' @ show_nat extra @ '' more)'' else [])"

definition summarizeScopeCommits :: "string \<Rightarrow> js_entry \<Rightarrow> js_entry commit list \<Rightarrow> string result" where
  "summarizeScopeCommits em_dash scope commits =
     (let normalized = uniqueSubjects commits;
          scopeKey = (if scope = Own ''_general'' then None else Some scope) in
      try_bind (formatScopeLabel scopeKey) (\<lambda>label.
        let subjects = pickRepresentativeSubjects normalized 2;
            extraCount = length normalized - length subjects in
        Inr (case label of
               None \<Rightarrow>
                 if length subjects = 1 \<and> extraCount = 0 then nth_subject subjects 0
                 else if length subjects = 1
                 then nth_subject subjects 0 @ '' (+'' @ show_nat extraCount @ '' related changes)''
                 else js_join ''; '' subjects @ more_text extraCount
             | Some l \<Rightarrow>
                 ''**'' @ capitalize l @ ''** '' @ em_dash @ '' '' @ nth_subject subjects 0 @
                 (if length subjects > 1 then ''; '' @ nth_subject subjects 1 else []) @ more_text extraCount)))"

fun try_map :: "('a \<Rightarrow> 'b result) \<Rightarrow> 'a list \<Rightarrow> 'b list result" where
  "try_map f [] = Inr []"
| "try_map f (x # xs) = try_bind (f x) (\<lambda>y. try_bind (try_map f xs) (\<lambda>ys. Inr (y # ys)))"

definition renderSection :: "string \<Rightarrow> string \<Rightarrow> js_entry commit list \<Rightarrow> string list result" where
  "renderSection em_dash title commits =
     (if commits = [] then Inr []
      else
        try_bind (try_map (\<lambda>(scope, cs). summarizeScopeCommits em_dash scope cs) (groupByScope commits)) (\<lambda>texts.
          Inr ([''## '' @ title, ''''] @ map bullet texts @ [''''])))"

definition highlighted :: "(js_entry \<times> js_entry commit list) list \<Rightarrow> (js_entry \<times> js_entry commit list) list" where
  "highlighted groups =
     filter (\<lambda>(scope, cs).
       \<not> (scope = Own ''identity'' \<and> Own ''device'' \<in> fst ` set groups) \<and>
       \<not> (scope = Own ''pair'' \<and> Own ''pairing'' \<in> fst ` set groups)) groups"

definition pickHighlights :: "string \<Rightarrow> js_entry commit list \<Rightarrow> string list result" where
  "pickHighlights em_dash featureCommits =
     try_bind (try_map (\<lambda>(scope, cs).
         try_bind (summarizeScopeCommits em_dash scope cs) (\<lambda>t. Inr (int (length cs), t)))
       (highlighted (groupByScope featureCommits)))
     (\<lambda>hs. Inr (map snd (take 6 (js_sort (\<lambda>a b. fst b - fst a) hs))))"

section \<open>Git\<close>

text \<open>The output of a command without the white space around it.\<close>

definition sh :: "string \<Rightarrow> string" where
  "sh out = js_trim out"

definition getCommitRange :: "string \<Rightarrow> string" where
  "getCommitRange previousTag = (if previousTag = [] then ''HEAD'' else previousTag @ ''..HEAD'')"

definition getPreviousTag :: "string \<Rightarrow> string \<Rightarrow> string" where
  "getPreviousTag tags_out currentTag =
     (case find (\<lambda>tag. tag \<noteq> currentTag) (js_filter_boolean (js_split newline (sh tags_out))) of
        None \<Rightarrow> [] | Some t \<Rightarrow> t)"

record author_commit =
  a_name :: string
  a_email :: string
  a_commit :: "string commit"

definition author_line :: "string \<Rightarrow> author_commit result" where
  "author_line line =
     (case js_split (CHR ''|'') line of
        name # email # subject # _ \<Rightarrow> Inr \<lparr>a_name = name, a_email = email, a_commit = parseCommit subject\<rparr>
      | _ \<Rightarrow> Inl (TypeError ''subject is undefined''))"

definition loadCommitAuthors :: "string \<Rightarrow> author_commit list result" where
  "loadCommitAuthors log_out =
     (let raw = sh log_out in
      if raw = [] then Inr [] else try_map author_line (js_filter_boolean (js_split newline raw)))"

text \<open>\<open>/^(?:\d+\+)?([^@]+)@users\.noreply\.github\.com$/i\<close>\<close>

definition noreply_login :: "string \<Rightarrow> string option" where
  "noreply_login email =
     (let name = takeWhile (\<lambda>c. c \<noteq> CHR ''@'') email; host = dropWhile (\<lambda>c. c \<noteq> CHR ''@'') email;
          rest = dropWhile js_digit name in
      if name = [] \<or> js_lower host \<noteq> ''@users.noreply.github.com'' then None
      else if takeWhile js_digit name \<noteq> [] \<and> prefix ''+'' rest \<and> tl rest \<noteq> [] then Some (tl rest)
      else Some name)"

definition resolveGithubLogin :: "string \<Rightarrow> string \<Rightarrow> js_entry option" where
  "resolveGithubLogin name email =
     (case noreply_login email of
        Some login \<Rightarrow> Some (Own login)
      | None \<Rightarrow> object_lookup AUTHOR_LOGIN_ALIASES (js_lower (js_trim name)))"

text \<open>The callback of \<open>some\<close> for a line of the history.\<close>

definition prior_line :: "string \<Rightarrow> string \<Rightarrow> string \<Rightarrow> bool result" where
  "prior_line name email line =
     (let login = resolveGithubLogin name email in
      case js_split (CHR ''|'') line of
        priorName # priorEmail # _ \<Rightarrow>
          Inr (priorEmail = email \<or> (login \<noteq> None \<and> resolveGithubLogin priorName priorEmail = login) \<or>
               js_lower (js_trim priorName) = js_lower (js_trim name))
      | priorName # _ \<Rightarrow>
          if login \<noteq> None then Inl (TypeError ''email is undefined'')
          else Inr (js_lower (js_trim priorName) = js_lower (js_trim name))
      | [] \<Rightarrow> Inr False)"

fun try_some :: "('a \<Rightarrow> bool result) \<Rightarrow> 'a list \<Rightarrow> bool result" where
  "try_some f [] = Inr False"
| "try_some f (x # xs) = try_bind (f x) (\<lambda>b. if b then Inr True else try_some f xs)"

definition authorHasPriorContributions :: "string \<Rightarrow> string \<Rightarrow> string \<Rightarrow> string result \<Rightarrow> bool" where
  "authorHasPriorContributions name email previousTag history_out =
     (if previousTag = [] then False
      else (case history_out of
              Inl _ \<Rightarrow> False
            | Inr out \<Rightarrow>
                (let history = sh out in
                 if history = [] then False
                 else (case try_some (prior_line name email) (js_split newline history) of
                         Inl _ \<Rightarrow> False | Inr b \<Rightarrow> b))))"

section \<open>Contributors\<close>

definition with_scope :: "string option \<Rightarrow> string \<Rightarrow> string \<Rightarrow> string" where
  "with_scope scope kind otherwise =
     (case scope of
        None \<Rightarrow> otherwise
      | Some s \<Rightarrow> (case scope_label s of None \<Rightarrow> otherwise | Some l \<Rightarrow> l @ '' '' @ kind))"

definition work_area :: "string commit \<Rightarrow> string option" where
  "work_area c =
     (if c_type c \<in> set FIX_TYPES then Some (with_scope (c_scope c) ''fixes'' ''bug fixes'')
      else if c_type c \<in> set FEATURE_TYPES then Some (with_scope (c_scope c) ''features'' ''new features'')
      else if (\<exists>w\<in>{''test'', ''e2e'', ''coverage''}. js_includes (js_lower (c_subject c)) w) \<or> c_type c = ''test''
      then Some ''test coverage''
      else (case c_scope c of
              None \<Rightarrow> None
            | Some s \<Rightarrow> map_option (\<lambda>l. l @ '' improvements'') (scope_label s)))"

definition describeContributorWork :: "string commit list \<Rightarrow> string" where
  "describeContributorWork commits =
     (let areas = foldl js_set_add [] (List.map_filter work_area commits) in
      js_or (js_join '' and '' (take 2 areas)) ''their contributions'')"

record contributor =
  ct_login :: string
  ct_work :: string
  ct_isNew :: bool

definition credit_part :: "contributor \<Rightarrow> string" where
  "credit_part c = ''@'' @ ct_login c @ '' for '' @ ct_work c"

definition buildContributorCredit :: "contributor list \<Rightarrow> string option" where
  "buildContributorCredit contributors =
     (let parts = map credit_part contributors in
      if contributors = [] then None
      else if length parts = 1 then Some (''Thanking '' @ hd parts @ ''.'')
      else Some (''Thanking '' @ js_join '', '' (butlast parts) @ '' and '' @ last parts @ ''.''))"

text \<open>\<open>/\* .+ by @([A-Za-z0-9-]+) in /\<close>: the first star, and the last author after it.\<close>

definition match_by_in :: "string \<Rightarrow> string option" where
  "match_by_in s =
     (if \<not> prefix '' by @'' s then None
      else
        (let t = drop 5 s; login = takeWhile login_char t in
         if login \<noteq> [] \<and> prefix '' in '' (dropWhile login_char t) then Some login else None))"

definition match_pr_author :: "string \<Rightarrow> string option" where
  "match_pr_author s =
     (if \<not> prefix ''* '' s then None
      else (case takeWhile (\<lambda>c. \<not> terminator c) (drop 2 s) of [] \<Rightarrow> None | _ # t \<Rightarrow> rightmost match_by_in t))"

definition pr_author :: "string \<Rightarrow> string option" where
  "pr_author line = leftmost match_pr_author line"

definition author_entry ::
    "string \<Rightarrow> (string \<times> author_commit list) list \<Rightarrow> author_commit \<Rightarrow> (string \<times> author_commit list) list result" where
  "author_entry owner entries c =
     (case resolveGithubLogin (a_name c) (a_email c) of
        None \<Rightarrow> Inr entries
      | Some (Inherited _) \<Rightarrow> Inl (TypeError ''login.toLowerCase is not a function'')
      | Some (Own login) \<Rightarrow>
          if login = [] then Inr entries
          else if js_lower login = owner then Inr entries else Inr (map_push login c entries))"

fun author_entries ::
    "string \<Rightarrow> (string \<times> author_commit list) list \<Rightarrow> author_commit list \<Rightarrow> (string \<times> author_commit list) list result" where
  "author_entries owner entries [] = Inr entries"
| "author_entries owner entries (c # cs) =
     try_bind (author_entry owner entries c) (\<lambda>entries'. author_entries owner entries' cs)"

definition body_entry :: "string \<Rightarrow> (string \<times> author_commit list) list \<Rightarrow> string \<Rightarrow> (string \<times> author_commit list) list" where
  "body_entry owner entries line =
     (case pr_author line of
        None \<Rightarrow> entries
      | Some login \<Rightarrow>
          if js_lower login = owner then entries
          else if login \<in> fst ` set entries then entries else entries @ [(login, [])])"

definition repository_owner :: "string \<Rightarrow> string" where
  "repository_owner repository = js_lower (hd (js_split (CHR ''/'') repository))"

definition collectContributors ::
    "(string \<Rightarrow> string \<Rightarrow> int) \<Rightarrow> string \<Rightarrow> string result \<Rightarrow> string \<Rightarrow> string \<Rightarrow> string option \<Rightarrow> contributor list result" where
  "collectContributors localeCompare authors_out history_out previousTag repository githubBody =
     (let owner = repository_owner repository in
      try_bind (loadCommitAuthors authors_out) (\<lambda>commits.
      try_bind (author_entries owner [] commits) (\<lambda>entries.
        let entries' = foldl (body_entry owner) entries
              (case githubBody of None \<Rightarrow> [] | Some b \<Rightarrow> js_split newline b) in
        Inr (js_sort (\<lambda>a b. localeCompare (ct_login a) (ct_login b))
          (map (\<lambda>(login, cs).
             \<lparr>ct_login = login, ct_work = describeContributorWork (map a_commit cs),
              ct_isNew = (cs \<noteq> [] \<and>
                \<not> authorHasPriorContributions (a_name (hd cs)) (a_email (hd cs)) previousTag history_out)\<rparr>) entries')))))"

text \<open>\<open>/@([A-Za-z0-9-]+)/\<close>\<close>

definition match_mention :: "string \<Rightarrow> string option" where
  "match_mention s =
     (if prefix ''@'' s \<and> takeWhile login_char (drop 1 s) \<noteq> [] then Some (takeWhile login_char (drop 1 s)) else None)"

definition star_to_dash :: "string \<Rightarrow> string" where
  "star_to_dash line = (if prefix ''* '' line then ''- '' @ drop 2 line else line)"

definition renderContributorSections :: "contributor list \<Rightarrow> string list \<Rightarrow> string list" where
  "renderContributorSections contributors githubNewContributors =
     (let seen = map (\<lambda>line. case leftmost match_mention line of None \<Rightarrow> [] | Some l \<Rightarrow> l) githubNewContributors;
          derivedNew = map (\<lambda>c. ''- @'' @ ct_login c @ '' made their first contribution in this release'')
            (filter (\<lambda>c. ct_login c \<notin> set seen) (filter ct_isNew contributors));
          newLines = map star_to_dash githubNewContributors @ derivedNew in
      (if newLines \<noteq> [] then [''## New contributors'', ''''] @ newLines @ [''''] else []) @
      (case buildContributorCredit contributors of None \<Rightarrow> [] | Some t \<Rightarrow> [t, '''']))"

section \<open>The notes\<close>

definition loadCommits :: "string \<Rightarrow> js_entry commit list" where
  "loadCommits log_out =
     (let raw = sh log_out in
      if raw = [] then []
      else List.map_filter normalizeCommit
             (filter (\<lambda>c. c_type c \<notin> set SKIP_TYPES)
               (map parseCommit (js_filter_boolean (js_split newline raw)))))"

definition gh_args :: "string \<Rightarrow> string \<Rightarrow> string \<Rightarrow> string list" where
  "gh_args currentTag previousTag repository =
     [''gh'', ''api'', ''repos/'' @ repository @ ''/releases/generate-notes'', ''-f'', ''tag_name='' @ currentTag,
      ''-f'', ''target_commitish=HEAD''] @
     (if previousTag \<noteq> [] then [''-f'', ''previous_tag_name='' @ previousTag] else [])"

text \<open>The parsed answer of \<open>gh\<close> to a command is the argument \<open>body_of\<close>.\<close>

definition tryGithubGeneratedNotes ::
    "bool \<Rightarrow> (string \<Rightarrow> string result) \<Rightarrow> string \<Rightarrow> string \<Rightarrow> string \<Rightarrow> string option" where
  "tryGithubGeneratedNotes has_token body_of currentTag previousTag repository =
     (if \<not> has_token then None
      else (case body_of (js_join '' '' (gh_args currentTag previousTag repository)) of Inl _ \<Rightarrow> None | Inr b \<Rightarrow> Some b))"

text \<open>\<open>/^release\s+\d+\.\d+\.\d+/i\<close>\<close>

definition RELEASE_PR_TITLE :: "string \<Rightarrow> bool" where
  "RELEASE_PR_TITLE title =
     (let r = drop 7 title; v = dropWhile js_space r;
          v1 = dropWhile js_digit v; v2 = dropWhile js_digit (tl v1) in
      prefix ''release'' (js_lower title) \<and> takeWhile js_space r \<noteq> [] \<and>
      takeWhile js_digit v \<noteq> [] \<and> prefix ''.'' v1 \<and>
      takeWhile js_digit (tl v1) \<noteq> [] \<and> prefix ''.'' v2 \<and> takeWhile js_digit (tl v2) \<noteq> [])"

definition housekeeping_title :: "string \<Rightarrow> bool" where
  "housekeeping_title title =
     (\<exists>w\<in>set [''chore'', ''ci'', ''build'', ''test'', ''bump'', ''debug'', ''docs'', ''documentation''].
        prefix w (js_lower title) \<and>
        (case drop (length w) title of [] \<Rightarrow> True | d # _ \<Rightarrow> \<not> word_char d))"

text \<open>\<open>/\* (.+?) by @/i\<close>\<close>

fun lazy_until :: "string \<Rightarrow> string option" where
  "lazy_until [] = None"
| "lazy_until (c # cs) =
     (if terminator c then None
      else if prefix '' by @'' (js_lower cs) then Some [c]
      else map_option (\<lambda>t. c # t) (lazy_until cs))"

definition pr_title :: "string \<Rightarrow> string" where
  "pr_title line =
     (case leftmost (\<lambda>s. if prefix ''* '' s then lazy_until (drop 2 s) else None) line of
        None \<Rightarrow> [] | Some t \<Rightarrow> t)"

record github_sections =
  prLines :: "string list"
  gh_contributors :: "string list"

fun sections_loop :: "bool \<Rightarrow> string list \<Rightarrow> github_sections" where
  "sections_loop inContributors [] = \<lparr>prLines = [], gh_contributors = []\<rparr>"
| "sections_loop inContributors (line # lines) =
     (if js_starts_with line ''## New Contributors'' then sections_loop True lines
      else
        (let inC = (if js_starts_with line ''## '' \<and> inContributors then False else inContributors);
             rest = sections_loop inC lines in
         if js_starts_with line ''**Full Changelog**'' then rest
         else if inC then
           (if js_starts_with line ''* '' then rest\<lparr>gh_contributors := line # gh_contributors rest\<rparr> else rest)
         else if \<not> js_starts_with line ''* '' then rest
         else if RELEASE_PR_TITLE (pr_title line) \<or> housekeeping_title (pr_title line) then rest
         else rest\<lparr>prLines := star_to_dash line # prLines rest\<rparr>))"

definition extractGithubSections :: "string option \<Rightarrow> github_sections" where
  "extractGithubSections body =
     (case body of
        None \<Rightarrow> \<lparr>prLines = [], gh_contributors = []\<rparr>
      | Some b \<Rightarrow>
          if b = [] then \<lparr>prLines = [], gh_contributors = []\<rparr> else sections_loop False (js_split newline b))"

definition of_type :: "string list \<Rightarrow> js_entry commit list \<Rightarrow> js_entry commit list" where
  "of_type types commits = filter (\<lambda>c. c_type c \<in> set types) commits"

definition improvement_lines :: "string \<Rightarrow> js_entry commit list \<Rightarrow> string list result" where
  "improvement_lines em_dash improvements =
     (if improvements \<noteq> [] \<and> length improvements \<le> 8 then renderSection em_dash ''Improvements'' improvements
      else if length improvements > 8 then
        Inr [''## Improvements'', '''',
             bullet (show_nat (length improvements) @ '' internal improvements across '' @
                     show_nat (length (groupByScope improvements)) @ '' areas''), '''']
      else Inr [])"

definition list_section :: "string \<Rightarrow> string list \<Rightarrow> string list" where
  "list_section title items = (if items \<noteq> [] then [title, ''''] @ items @ [''''] else [])"

definition changelog_line :: "string \<Rightarrow> string \<Rightarrow> string \<Rightarrow> string" where
  "changelog_line repository previousTag currentTag =
     ''**Full Changelog**: https://github.com/'' @ repository @ ''/compare/'' @ previousTag @ ''...'' @ currentTag"

definition note_lines ::
    "string \<Rightarrow> string \<Rightarrow> string \<Rightarrow> string \<Rightarrow> string option \<Rightarrow> js_entry commit list \<Rightarrow> contributor list result \<Rightarrow> string list result" where
  "note_lines em_dash currentTag previousTag repository githubBody commits contributors =
     (let sections = extractGithubSections githubBody in
      try_bind contributors (\<lambda>cs.
      try_bind (pickHighlights em_dash (of_type FEATURE_TYPES commits)) (\<lambda>highlights.
      try_bind (renderSection em_dash ''Bug fixes'' (of_type FIX_TYPES commits)) (\<lambda>fixes.
      try_bind (improvement_lines em_dash (of_type IMPROVEMENT_TYPES commits)) (\<lambda>improvements.
        Inr (list_section ''## Release highlights'' (map bullet highlights) @
             list_section ''## What's changed'' (prLines sections) @
             fixes @ improvements @
             renderContributorSections cs (gh_contributors sections) @
             (if previousTag \<noteq> [] then [changelog_line repository previousTag currentTag, ''''] else []) @
             [''---'', '''', ''See the assets below to download and install this version.'']))))))"

definition buildReleaseNotes ::
    "string \<Rightarrow> string \<Rightarrow> string \<Rightarrow> string \<Rightarrow> string option \<Rightarrow> js_entry commit list \<Rightarrow> contributor list result \<Rightarrow> string result" where
  "buildReleaseNotes em_dash currentTag previousTag repository githubBody commits contributors =
     try_bind (note_lines em_dash currentTag previousTag repository githubBody commits contributors) (\<lambda>lines.
       Inr (js_trim (js_join [newline] lines) @ [newline]))"

text \<open>What is appended to the output file of the workflow step.\<close>

definition writeGithubOutput :: "string \<Rightarrow> string" where
  "writeGithubOutput notes = ''notes<<EOF'' @ [newline] @ notes @ ''EOF'' @ [newline]"

section \<open>The run\<close>

text \<open>The environment, the arguments, and what git and GitHub answer.\<close>

record notes_env =
  ne_current_tag :: "string option"
  ne_argument :: "string option"
  ne_describe :: string
  ne_repository :: "string option"
  ne_remote :: "string result"
  ne_previous_tag :: "string option"
  ne_tags :: "string result"
  ne_log :: "string \<Rightarrow> string result"       \<comment> \<open>the subjects of a range\<close>
  ne_authors :: "string \<Rightarrow> string result"   \<comment> \<open>name, address and subject of a range\<close>
  ne_history :: "string \<Rightarrow> string result"   \<comment> \<open>name and address up to a tag\<close>
  ne_has_token :: bool
  ne_gh :: "string \<Rightarrow> string result"
  ne_output_file :: bool

definition strip_suffix :: "string \<Rightarrow> string \<Rightarrow> string" where
  "strip_suffix p s = (if suffix p s then take (length s - length p) s else s)"

text \<open>\<open>^git@github.com:\<close> and \<open>^https:\/\/github.com\/\<close>, where the dot is any character.\<close>

definition strip_host :: "string \<Rightarrow> string \<Rightarrow> string \<Rightarrow> string" where
  "strip_host pre post s =
     (if prefix pre s \<and> length pre < length s \<and> \<not> terminator (s ! length pre) \<and> prefix post (drop (Suc (length pre)) s)
      then drop (Suc (length pre) + length post) s else s)"

definition repository_of_remote :: "string \<Rightarrow> string" where
  "repository_of_remote url =
     strip_host ''https://github'' ''com/'' (strip_host ''git@github'' ''com:'' (strip_suffix ''.git'' (sh url)))"

definition current_tag :: "notes_env \<Rightarrow> string" where
  "current_tag e =
     (case ne_current_tag e of
        Some t \<Rightarrow> t
      | None \<Rightarrow> (case ne_argument e of Some t \<Rightarrow> t | None \<Rightarrow> sh (ne_describe e)))"

datatype notes_run = MissingTag | Written string "string option"

definition notes_main :: "(string \<Rightarrow> string \<Rightarrow> int) \<Rightarrow> string \<Rightarrow> notes_env \<Rightarrow> notes_run result" where
  "notes_main localeCompare em_dash e =
     (let currentTag = current_tag e in
      try_bind (case ne_repository e of Some r \<Rightarrow> Inr r
                | None \<Rightarrow> try_bind (ne_remote e) (\<lambda>url. Inr (repository_of_remote url))) (\<lambda>repository.
      if currentTag = [] then Inr MissingTag
      else
        try_bind (case ne_previous_tag e of Some t \<Rightarrow> Inr t
                  | None \<Rightarrow> try_bind (ne_tags e) (\<lambda>out. Inr (getPreviousTag out currentTag))) (\<lambda>previousTag.
        let range = getCommitRange previousTag in
        try_bind (ne_log e range) (\<lambda>log.
        let commits = loadCommits log;
            body = tryGithubGeneratedNotes (ne_has_token e) (ne_gh e) currentTag previousTag repository in
        try_bind (buildReleaseNotes em_dash currentTag previousTag repository body commits
                    (try_bind (ne_authors e range) (\<lambda>authors.
                       collectContributors localeCompare authors (ne_history e previousTag) previousTag repository body)))
          (\<lambda>notes. Inr (Written notes (if ne_output_file e then Some (writeGithubOutput notes) else None)))))))"

section \<open>Grouping\<close>

lemma map_of_map_push:
  "map_of (map_push k v m) k' =
     (if k' = k then Some ((case map_of m k of None \<Rightarrow> [] | Some vs \<Rightarrow> vs) @ [v]) else map_of m k')"
  by (induction m) auto

lemma fst_map_push: "map fst (map_push k v m) = (if k \<in> fst ` set m then map fst m else map fst m @ [k])"
  by (induction m) force+

lemma mset_map_push: "mset (concat (map snd (map_push k v m))) = add_mset v (mset (concat (map snd m)))"
  by (induction m) auto

lemma distinct_map_push: "distinct (map fst m) \<Longrightarrow> distinct (map fst (map_push k v m))"
  unfolding fst_map_push by auto

lemma groupByScope_snoc: "groupByScope (cs @ [c]) = map_push (scope_key c) c (groupByScope cs)"
  by (simp add: groupByScope_def)

lemma map_of_groupByScope:
  "map_of (groupByScope cs) k =
     (if k \<in> scope_key ` set cs then Some (filter (\<lambda>c. scope_key c = k) cs) else None)"
proof (induction cs arbitrary: k rule: rev_induct)
  case Nil
  then show ?case by (simp add: groupByScope_def)
next
  case (snoc c cs)
  have "filter (\<lambda>x. scope_key x = k) cs = []" if "k \<notin> scope_key ` set cs"
    using that by (auto simp: filter_empty_conv)
  then show ?case
    by (cases "k = scope_key c") (simp_all add: groupByScope_snoc map_of_map_push snoc)
qed

text \<open>The keys in the order of their first commit.\<close>

lemma keys_groupByScope: "map fst (groupByScope cs) = rev (remdups (rev (map scope_key cs)))"
proof (induction cs rule: rev_induct)
  case (snoc c cs)
  have "fst ` set (groupByScope cs) = scope_key ` set cs"
    using arg_cong [OF snoc, of set] by simp
  then show ?case using snoc by (simp add: groupByScope_snoc fst_map_push)
qed (simp add: groupByScope_def)


section \<open>Summaries\<close>

definition subject_key :: "'s commit \<Rightarrow> string" where
  "subject_key c = js_lower (c_subject c)"

lemma unique_loop_keys:
  "distinct (map subject_key (unique_loop seen cs)) \<and>
   set (map subject_key (unique_loop seen cs)) = subject_key ` set cs - set seen"
proof (induction cs arbitrary: seen)
  case (Cons c cs)
  then show ?case using Cons [of "subject_key c # seen"] by (auto simp: subject_key_def Let_def)
qed simp

lemma uniqueSubjects_keys:
  "distinct (map subject_key (uniqueSubjects cs))"
  "subject_key ` set (uniqueSubjects cs) = subject_key ` set cs"
  using unique_loop_keys [of "[]" cs] by (auto simp: uniqueSubjects_def)

lemma length_uniqueSubjects: "length (uniqueSubjects cs) = card (subject_key ` set cs)"
  using uniqueSubjects_keys [of cs] by (metis distinct_card length_map list.set_map)

lemma unique_loop_distinct:
  "distinct (map subject_key cs) \<Longrightarrow> subject_key ` set cs \<inter> set seen = {} \<Longrightarrow> unique_loop seen cs = cs"
  by (induction cs arbitrary: seen) (auto simp: subject_key_def Let_def)

lemma uniqueSubjects_idem [simp]: "uniqueSubjects (uniqueSubjects cs) = uniqueSubjects cs"
  unfolding uniqueSubjects_def [of "uniqueSubjects cs"]
  by (rule unique_loop_distinct) (simp_all add: uniqueSubjects_keys)

lemma uniqueSubjects_Nil [simp]: "(uniqueSubjects cs = []) = (cs = [])"
  using uniqueSubjects_keys(2) [of cs] by (metis empty_is_image set_empty)

interpretation representatives: comparator "representative_cmp :: 's commit \<Rightarrow> 's commit \<Rightarrow> int"
  by unfold_locales (auto simp: representative_cmp_def Let_def sgn_if split: if_splits)

text \<open>
  A bullet of the notes accounts for all commits of its scope: it quotes the first two, or the only one, of the
  distinct subjects in the order feature, fix, performance, other improvement and then by decreasing length, and the number it adds
  is exactly that of the distinct subjects it does not quote.
\<close>

theorem bullet_accounts_for_all:
  fixes cs :: "js_entry commit list"
  defines "subjects \<equiv> pickRepresentativeSubjects (uniqueSubjects cs) 2"
    and "distinct_subjects \<equiv> card (subject_key ` set cs)"
  shows "length subjects + (distinct_subjects - 2) = distinct_subjects \<and> length subjects \<le> 2 \<and>
    (\<exists>ranked. mset ranked = mset (uniqueSubjects cs) \<and>
       sorted_wrt (\<lambda>a b. representative_cmp a b \<le> 0) ranked \<and>
       subjects = map (\<lambda>c. capitalize (c_subject c)) (take 2 ranked)) \<and>
    summarizeScopeCommits em_dash (Own ''_general'') cs = Inr (if distinct_subjects = 1 then hd subjects
      else js_join ''; '' subjects @ more_text (distinct_subjects - 2)) \<and>
    summarizeScopeCommits em_dash (Own ''ui'') cs = Inr (''**UI** '' @ em_dash @ '' '' @
      (if cs = [] then ''undefined'' else js_join ''; '' subjects @ more_text (distinct_subjects - 2)))"
proof -
  let ?ranked = "js_sort representative_cmp (uniqueSubjects cs)"
  have len: "length subjects = min 2 distinct_subjects"
    by (simp add: subjects_def distinct_subjects_def pickRepresentativeSubjects_def length_uniqueSubjects min.commute)
  consider "subjects = []" "distinct_subjects = 0" | x where "subjects = [x]" "distinct_subjects = 1"
    | x y where "subjects = [x, y]" "2 \<le> distinct_subjects"
  proof (cases subjects)
    case Nil
    then show ?thesis using len that(1) by simp
  next
    case (Cons x xs)
    then show ?thesis using len that(2,3) by (cases xs) (auto simp: min_def split: if_splits)
  qed
  note shape = this
  have empty: "distinct_subjects = 0 \<longleftrightarrow> cs = []"
    unfolding distinct_subjects_def length_uniqueSubjects [symmetric] by simp
  have extra: "length (uniqueSubjects cs) - length subjects = distinct_subjects - 2"
    using shape len by (simp add: length_uniqueSubjects distinct_subjects_def)
  have rest: "summarizeScopeCommits em_dash (Own ''_general'') cs = Inr (if distinct_subjects = 1 then hd subjects
      else js_join ''; '' subjects @ more_text (distinct_subjects - 2)) \<and>
    summarizeScopeCommits em_dash (Own ''ui'') cs = Inr (''**UI** '' @ em_dash @ '' '' @
      (if cs = [] then ''undefined'' else js_join ''; '' subjects @ more_text (distinct_subjects - 2)))"
    unfolding summarizeScopeCommits_def Let_def subjects_def [symmetric] extra empty [symmetric]
    using shape
    by cases (simp_all add: formatScopeLabel_def scope_label_def nth_subject_def more_text_def upper_char_def char_code_def)
  have "mset ?ranked = mset (uniqueSubjects cs)" "sorted_wrt (\<lambda>a b. representative_cmp a b \<le> 0) ?ranked"
    by (simp_all add: representatives.sorted_sort)
  then have "\<exists>ranked. mset ranked = mset (uniqueSubjects cs) \<and>
       sorted_wrt (\<lambda>a b. representative_cmp a b \<le> 0) ranked \<and>
       subjects = map (\<lambda>c. capitalize (c_subject c)) (take 2 ranked)"
    by (intro exI [of _ ?ranked]) (simp add: subjects_def pickRepresentativeSubjects_def)
  moreover have "length subjects + (distinct_subjects - 2) = distinct_subjects \<and> length subjects \<le> 2"
    using len by auto
  ultimately show ?thesis using rest by blast
qed

section \<open>Success\<close>

lemma try_map_ok: "(\<And>x. x \<in> set xs \<Longrightarrow> \<exists>y. f x = Inr y) \<Longrightarrow> \<exists>ys. try_map f xs = Inr ys"
  by (induction xs) (simp, fastforce)

definition own_scope :: "js_entry commit \<Rightarrow> bool" where
  "own_scope c = (case c_scope c of Some (Inherited _) \<Rightarrow> False | _ \<Rightarrow> True)"

lemma own_key: "own_scope c \<Longrightarrow> \<exists>s. scope_key c = Own s"
  by (auto simp: own_scope_def scope_key_def split: option.splits js_entry.splits)

lemma groups_own:
  assumes "\<forall>c\<in>set cs. own_scope c" "p \<in> set (groupByScope cs)"
  shows "\<exists>s. fst p = Own s"
proof -
  have "fst p \<in> set (map fst (groupByScope cs))" using assms(2) by simp
  then obtain c where "c \<in> set cs" "fst p = scope_key c" by (auto simp: keys_groupByScope)
  then show ?thesis using assms(1) own_key by metis
qed

lemma summarize_own: "\<exists>t. summarizeScopeCommits em_dash (Own s) cs = Inr t"
  by (simp add: summarizeScopeCommits_def formatScopeLabel_def Let_def)

lemma renderSection_ok: "\<forall>c\<in>set cs. own_scope c \<Longrightarrow> \<exists>ls. renderSection em_dash title cs = Inr ls"
proof -
  assume own: "\<forall>c\<in>set cs. own_scope c"
  have "\<exists>ts. try_map (\<lambda>(scope, cs). summarizeScopeCommits em_dash scope cs) (groupByScope cs) = Inr ts"
    by (rule try_map_ok) (use groups_own [OF own] summarize_own in force)
  then show ?thesis by (auto simp: renderSection_def)
qed

lemma pickHighlights_ok: "\<forall>c\<in>set cs. own_scope c \<Longrightarrow> \<exists>hs. pickHighlights em_dash cs = Inr hs"
proof -
  assume own: "\<forall>c\<in>set cs. own_scope c"
  have "\<exists>ts. try_map (\<lambda>(scope, cs). try_bind (summarizeScopeCommits em_dash scope cs)
      (\<lambda>t. Inr (int (length cs), t))) (highlighted (groupByScope cs)) = Inr ts"
  proof (rule try_map_ok)
    fix p assume "p \<in> set (highlighted (groupByScope cs))"
    then obtain s where "fst p = Own s" using groups_own [OF own, of p] by (auto simp: highlighted_def)
    then show "\<exists>y. (case p of (scope, cs) \<Rightarrow> try_bind (summarizeScopeCommits em_dash scope cs)
        (\<lambda>t. Inr (int (length cs), t))) = Inr y"
      using summarize_own [of em_dash s "snd p"] by (cases p) auto
  qed
  then show ?thesis by (auto simp: pickHighlights_def)
qed

text \<open>
  The notes are written whenever every scope is a name and the contributors could be collected.
\<close>

theorem notes_built:
  assumes "\<forall>c\<in>set commits. own_scope c"
  shows "\<exists>notes. buildReleaseNotes em_dash cur prev repo body commits (Inr cs) = Inr notes"
proof -
  have own: "\<forall>c\<in>set (of_type ts commits). own_scope c" for ts using assms by (auto simp: of_type_def)
  obtain hs where "pickHighlights em_dash (of_type FEATURE_TYPES commits) = Inr hs"
    using pickHighlights_ok [OF own] by blast
  moreover obtain fs where "renderSection em_dash ''Bug fixes'' (of_type FIX_TYPES commits) = Inr fs"
    using renderSection_ok [OF own] by blast
  moreover obtain ims where "improvement_lines em_dash (of_type IMPROVEMENT_TYPES commits) = Inr ims"
    using renderSection_ok [OF own, of em_dash "''Improvements''" IMPROVEMENT_TYPES]
    by (cases "of_type IMPROVEMENT_TYPES commits \<noteq> [] \<and> length (of_type IMPROVEMENT_TYPES commits) \<le> 8")
      (auto simp: improvement_lines_def)
  ultimately show ?thesis by (simp add: buildReleaseNotes_def note_lines_def Let_def)
qed

text \<open>
  A scope that is the name of a member of every object is not: looked up among the aliases it yields
  that member instead of a name, and the notes of a release with such a commit are not written.
\<close>

theorem inherited_scope_fails:
  "buildReleaseNotes em_dash cur prev repo None (loadCommits ''feat(constructor): build in place'') (Inr [])
     = Inl (TypeError ''scope.replace is not a function'')"
proof -
  have "loadCommits ''feat(constructor): build in place'' =
    [\<lparr>c_type = ''feat'', c_scope = Some (Inherited ''constructor''), c_subject = ''build in place''\<rparr>]"
    by code_simp
  then show ?thesis
    by (simp add: buildReleaseNotes_def note_lines_def pickHighlights_def groupByScope_def of_type_def
      FEATURE_TYPES_def highlighted_def scope_key_def summarizeScopeCommits_def formatScopeLabel_def)
qed

text \<open>
  The previous tag is the first other tag of the list. The tags are sorted by decreasing version, so when an older line is
  released that tag is a later version, and the range of commits is wrong.
\<close>

theorem previous_tag_later:
  "getPreviousTag (''v2.0.0'' @ [newline] @ ''v1.0.1'' @ [newline] @ ''v1.0.0'') ''v1.0.1'' = ''v2.0.0''"
  by code_simp

section \<open>Lines\<close>

text \<open>A line of the notes: one line of text that does not begin with the letter of the delimiter.\<close>

definition one_line :: "string \<Rightarrow> bool" where
  "one_line s \<longleftrightarrow> newline \<notin> set s"

definition note_line :: "string \<Rightarrow> bool" where
  "note_line s \<longleftrightarrow> one_line s \<and> (s = [] \<or> hd s \<noteq> CHR ''E'')"

text \<open>A run of lines that is empty or begins with visible text.\<close>

definition visible :: "string list \<Rightarrow> bool" where
  "visible ls \<longleftrightarrow> (ls = [] \<or> (hd ls \<noteq> [] \<and> \<not> js_space (hd (hd ls))))"

lemma one_line_append [simp]: "one_line (a @ b) = (one_line a \<and> one_line b)"
  by (simp add: one_line_def)

lemma one_line_Cons [simp]: "one_line (c # s) = (c \<noteq> newline \<and> one_line s)"
  by (auto simp: one_line_def)

lemma one_line_Nil [simp]: "one_line []"
  by (simp add: one_line_def)

lemma one_line_subset: "one_line s \<Longrightarrow> set t \<subseteq> set s \<Longrightarrow> one_line t"
  by (auto simp: one_line_def)

lemma one_line_takeWhile [simp]: "one_line s \<Longrightarrow> one_line (takeWhile P s)"
  by (rule one_line_subset) (auto dest: set_takeWhileD)

lemma one_line_dropWhile [simp]: "one_line s \<Longrightarrow> one_line (dropWhile P s)"
  by (rule one_line_subset) (auto dest: set_dropWhileD)

lemma one_line_drop [simp]: "one_line s \<Longrightarrow> one_line (drop n s)"
  by (rule one_line_subset) (auto dest: in_set_dropD)

lemma one_line_tl [simp]: "one_line s \<Longrightarrow> one_line (tl s)"
  by (cases s) auto

lemma one_line_trim [simp]: "one_line s \<Longrightarrow> one_line (js_trim s)"
  by (erule one_line_subset) (rule set_js_trim)

lemma newline_code: "c = newline \<longleftrightarrow> char_code c = 10"
proof
  assume "char_code c = 10"
  then have "c = char_of (10 :: nat)" by (metis char_code_def char_of_char)
  moreover have "char_of (10 :: nat) = newline" by code_simp
  ultimately show "c = newline" by simp
qed (simp add: newline_def char_code_def)

lemma lower_newline: "lower_char c = newline \<Longrightarrow> c = newline"
  by (auto simp: newline_code lower_char_def Let_def split: if_splits)

lemma one_line_lower [simp]: "one_line s \<Longrightarrow> one_line (js_lower s)"
  by (auto simp: one_line_def js_lower_def dest!: lower_newline [OF sym])

lemma one_line_show_nat [simp]: "one_line (show_nat n)"
  using digits_show_nat [of n] by (auto simp: one_line_def list_all_iff js_digit_def newline_def char_code_def)

lemma one_line_capitalize [simp]: "one_line s \<Longrightarrow> one_line (capitalize s)"
  by (cases s) (auto simp: upper_char_def Let_def newline_code split: if_splits, simp_all add: char_code_def)

lemma one_line_dashes [simp]: "one_line s \<Longrightarrow> one_line (dashes_to_spaces s)"
  by (auto simp: one_line_def dashes_to_spaces_def newline_def char_code_def)

lemma one_line_join: "one_line sep \<Longrightarrow> \<forall>w\<in>set ws. one_line w \<Longrightarrow> one_line (js_join sep ws)"
  by (induction sep ws rule: js_join.induct) auto

lemma one_line_split: "w \<in> set (js_split newline s) \<Longrightarrow> one_line w"
  using js_split_no_sep by (simp add: one_line_def)

lemma one_line_split_part: "one_line s \<Longrightarrow> w \<in> set (js_split d s) \<Longrightarrow> one_line w"
proof -
  have "w \<in> set (js_split d s) \<Longrightarrow> set w \<subseteq> set s" for w
    by (induction s arbitrary: w) (fastforce split: list.splits if_splits)+
  then show "one_line s \<Longrightarrow> w \<in> set (js_split d s) \<Longrightarrow> one_line w" using one_line_subset by blast
qed

subsection \<open>Commits and contributors are lines\<close>

definition line_commit :: "js_entry commit \<Rightarrow> bool" where
  "line_commit c \<longleftrightarrow> one_line (c_subject c) \<and> (case c_scope c of Some (Own s) \<Rightarrow> one_line s | _ \<Rightarrow> True)"

lemma match_subject_line: "one_line r \<Longrightarrow> match_subject r = Some t \<Longrightarrow> one_line t"
  by (cases r rule: rev_cases) (auto simp: match_subject_def Let_def split: if_splits)

lemma match_scope_line:
  "one_line s \<Longrightarrow> match_scope s = Some (sc, r) \<Longrightarrow> one_line r \<and> (\<forall>x. sc = Some x \<longrightarrow> one_line x)"
  by (auto simp: match_scope_def Let_def split: list.splits if_splits)

lemma CONVENTIONAL_line:
  assumes "one_line s" "CONVENTIONAL s = Some (ty, sc, sub)"
  shows "one_line sub \<and> (\<forall>x. sc = Some x \<longrightarrow> one_line x)"
  using assms
  by (auto simp: CONVENTIONAL_def Let_def split: if_splits option.splits list.splits
    dest!: match_scope_line [OF one_line_dropWhile [OF assms(1)]] dest: match_subject_line)

lemma parseCommit_line:
  "one_line s \<Longrightarrow> one_line (c_subject (parseCommit s)) \<and> (\<forall>x. c_scope (parseCommit s) = Some x \<longrightarrow> one_line x)"
  by (auto simp: parseCommit_def split: option.splits dest: CONVENTIONAL_line)

lemma table_line: "\<forall>v\<in>snd ` set table. one_line v \<Longrightarrow> object_lookup table k = Some (Own v) \<Longrightarrow> one_line v"
  by (auto simp: object_lookup_def split: option.splits if_splits dest!: map_of_SomeD)

lemma normalizeCommit_line:
  assumes "one_line (c_subject c)" "\<forall>x. c_scope c = Some x \<longrightarrow> one_line x" "normalizeCommit c = Some d"
  shows "line_commit d"
proof -
  have "object_lookup SCOPE_ALIASES k = Some (Own v) \<Longrightarrow> one_line v" for k v
    by (rule table_line) (auto simp: SCOPE_ALIASES_def newline_def)
  then show ?thesis
    using assms
    by (auto simp: normalizeCommit_def normalizeScope_def line_commit_def Let_def newline_def
      split: if_splits option.splits js_entry.splits)
qed

lemma loadCommits_line: "c \<in> set (loadCommits out) \<Longrightarrow> line_commit c"
  using parseCommit_line one_line_split normalizeCommit_line
  by (fastforce simp: loadCommits_def Let_def js_filter_boolean_def map_filter_def split: if_splits)

definition line_contributor :: "contributor \<Rightarrow> bool" where
  "line_contributor c \<longleftrightarrow> one_line (ct_login c) \<and> one_line (ct_work c)"

definition line_author :: "author_commit \<Rightarrow> bool" where
  "line_author a \<longleftrightarrow> one_line (a_email a) \<and> (\<forall>x. c_scope (a_commit a) = Some x \<longrightarrow> one_line x)"

lemma author_line_line: "one_line s \<Longrightarrow> author_line s = Inr a \<Longrightarrow> line_author a"
proof -
  assume s: "one_line s" and a: "author_line s = Inr a"
  obtain name email subject rest where split: "js_split (CHR ''|'') s = name # email # subject # rest"
      and a': "a = \<lparr>a_name = name, a_email = email, a_commit = parseCommit subject\<rparr>"
    using a by (auto simp: author_line_def split: list.splits)
  have "one_line email" "one_line subject" using one_line_split_part [OF s, of _ "CHR ''|''"] split by simp_all
  then show ?thesis using parseCommit_line by (simp add: a' line_author_def)
qed

lemma try_map_set: "try_map f xs = Inr ys \<Longrightarrow> y \<in> set ys \<Longrightarrow> \<exists>x\<in>set xs. f x = Inr y"
  by (induction xs arbitrary: ys) auto

lemma loadCommitAuthors_line: "loadCommitAuthors out = Inr as \<Longrightarrow> a \<in> set as \<Longrightarrow> line_author a"
  using try_map_set [of author_line] author_line_line one_line_split
  by (fastforce simp: loadCommitAuthors_def Let_def js_filter_boolean_def split: if_splits)

lemma login_line: "line_author a \<Longrightarrow> resolveGithubLogin (a_name a) (a_email a) = Some (Own l) \<Longrightarrow> one_line l"
proof -
  assume a: "line_author a" and r: "resolveGithubLogin (a_name a) (a_email a) = Some (Own l)"
  have table: "object_lookup AUTHOR_LOGIN_ALIASES k = Some (Own v) \<Longrightarrow> one_line v" for k v
    by (rule table_line) (auto simp: AUTHOR_LOGIN_ALIASES_def newline_def)
  have noreply: "noreply_login e = Some x \<Longrightarrow> one_line e \<Longrightarrow> one_line x" for e x
    by (auto simp: noreply_login_def Let_def split: if_splits)
  show ?thesis
    using a r table noreply by (auto simp: resolveGithubLogin_def line_author_def split: option.splits)
qed

definition line_entries :: "(string \<times> author_commit list) list \<Rightarrow> bool" where
  "line_entries es \<longleftrightarrow> (\<forall>(l, as)\<in>set es. one_line l \<and> (\<forall>a\<in>set as. line_author a))"

lemma line_entries_push: "line_entries es \<Longrightarrow> one_line l \<Longrightarrow> line_author a \<Longrightarrow> line_entries (map_push l a es)"
  by (induction es) (fastforce simp: line_entries_def split: if_splits)+

lemma author_entries_line:
  "author_entries owner es as = Inr es' \<Longrightarrow> line_entries es \<Longrightarrow> \<forall>a\<in>set as. line_author a \<Longrightarrow> line_entries es'"
proof (induction as arbitrary: es)
  case (Cons a as)
  then obtain e1 where e1: "author_entry owner es a = Inr e1" "author_entries owner e1 as = Inr es'" by auto
  have "line_entries e1"
    using e1(1) Cons.prems login_line [of a] line_entries_push [of es _ a]
    by (auto simp: author_entry_def split: option.splits js_entry.splits if_splits)
  then show ?case using Cons.IH e1(2) Cons.prems by simp
qed simp

lemma login_chars_line: "one_line (takeWhile login_char s)"
  by (auto simp: one_line_def login_char_def letter_def js_digit_def newline_code Let_def
    dest!: set_takeWhileD) (simp_all add: newline_def char_code_def)

lemma leftmost_Some: "leftmost f s = Some x \<Longrightarrow> \<exists>t. f t = Some x"
  by (induction s) (auto split: option.splits)

lemma rightmost_Some: "rightmost f s = Some x \<Longrightarrow> \<exists>t. f t = Some x"
  by (induction s) (auto split: option.splits)

lemma pr_author_line: "pr_author s = Some l \<Longrightarrow> one_line l"
proof -
  assume "pr_author s = Some l"
  then obtain t where "match_pr_author t = Some l" unfolding pr_author_def by (blast dest: leftmost_Some)
  then obtain u where "match_by_in u = Some l"
    by (auto simp: match_pr_author_def split: if_splits list.splits dest: rightmost_Some)
  then show ?thesis by (auto simp: match_by_in_def Let_def login_chars_line split: if_splits)
qed

lemma body_entries_line: "line_entries es \<Longrightarrow> line_entries (foldl (body_entry owner) es ls)"
proof (induction ls arbitrary: es)
  case (Cons l ls)
  have "line_entries (body_entry owner es l)"
    using Cons.prems pr_author_line [of l] by (auto simp: body_entry_def line_entries_def split: option.splits)
  then show ?case using Cons.IH by simp
qed simp

lemma scope_label_line: "one_line s \<Longrightarrow> scope_label s = Some l \<Longrightarrow> one_line l"
  by (auto simp: scope_label_def newline_def split: if_splits)

lemma work_area_line:
  assumes "\<forall>x. c_scope c = Some x \<longrightarrow> one_line x" "work_area c = Some w"
  shows "one_line w"
proof -
  have "one_line (with_scope (c_scope c) kind otherwise)" if "one_line kind" "one_line otherwise" for kind otherwise
    using assms(1) that by (auto simp: with_scope_def newline_def split: option.splits dest: scope_label_line)
  then show ?thesis
    using assms by (auto simp: work_area_def newline_def split: if_splits option.splits dest: scope_label_line)
qed

lemma describe_line:
  assumes "\<forall>c\<in>set cs. \<forall>x. c_scope c = Some x \<longrightarrow> one_line x"
  shows "one_line (describeContributorWork cs)"
proof -
  let ?areas = "foldl js_set_add [] (List.map_filter work_area cs)"
  have "\<forall>w\<in>set ?areas. one_line w"
    using assms work_area_line by (fastforce simp: set_foldl_js_set_add map_filter_def)
  then have "one_line (js_join '' and '' (take 2 ?areas))"
    by (intro one_line_join) (auto simp: newline_def dest: in_set_takeD)
  then show ?thesis by (simp add: describeContributorWork_def js_or_def Let_def newline_def)
qed

lemma contributors_line:
  assumes "collectContributors lc authors history prev repo body = Inr cs" "c \<in> set cs"
  shows "line_contributor c"
proof -
  obtain as es where as: "loadCommitAuthors authors = Inr as"
      and es: "author_entries (repository_owner repo) [] as = Inr es"
      and c: "\<exists>(l, as)\<in>set (foldl (body_entry (repository_owner repo)) es
          (case body of None \<Rightarrow> [] | Some b \<Rightarrow> js_split newline b)).
        ct_login c = l \<and> ct_work c = describeContributorWork (map a_commit as)"
    using assms by (fastforce simp: collectContributors_def Let_def)
  have "line_entries (foldl (body_entry (repository_owner repo)) es
      (case body of None \<Rightarrow> [] | Some b \<Rightarrow> js_split newline b))"
    using author_entries_line [OF es] loadCommitAuthors_line [OF as]
    by (intro body_entries_line) (auto simp: line_entries_def)
  then show ?thesis
    using c describe_line by (fastforce simp: line_entries_def line_contributor_def line_author_def)
qed

subsection \<open>The notes are lines\<close>

lemma visible_append: "visible a \<Longrightarrow> visible b \<Longrightarrow> visible (a @ b)"
  by (cases a) (auto simp: visible_def)

definition note_block :: "string list \<Rightarrow> bool" where
  "note_block ls \<longleftrightarrow> visible ls \<and> (\<forall>l\<in>set ls. note_line l)"

lemma note_block_append: "note_block a \<Longrightarrow> note_block b \<Longrightarrow> note_block (a @ b)"
  by (auto simp: note_block_def visible_append)

lemma note_block_Nil [simp]: "note_block []"
  by (simp add: note_block_def visible_def)

lemma uniqueSubjects_subset: "c \<in> set (uniqueSubjects cs) \<Longrightarrow> c \<in> set cs"
proof -
  have "set (unique_loop seen cs) \<subseteq> set cs" for seen
    by (induction cs arbitrary: seen) (auto simp: Let_def)
  then show "c \<in> set (uniqueSubjects cs) \<Longrightarrow> c \<in> set cs" by (auto simp: uniqueSubjects_def)
qed

lemma pickRepresentative_line:
  "\<forall>c\<in>set cs. one_line (c_subject c) \<Longrightarrow> t \<in> set (pickRepresentativeSubjects cs n) \<Longrightarrow> one_line t"
  by (auto simp: pickRepresentativeSubjects_def dest!: in_set_takeD uniqueSubjects_subset)

lemma summarize_line:
  assumes em: "one_line em_dash"
    and sc: "\<forall>s. scope = Own s \<longrightarrow> one_line s" and cs: "\<forall>c\<in>set cs. one_line (c_subject c)"
    and t: "summarizeScopeCommits em_dash scope cs = Inr t"
  shows "one_line t"
proof -
  define subjects where "subjects = pickRepresentativeSubjects (uniqueSubjects cs) 2"
  have lines: "\<forall>w\<in>set subjects. one_line w"
    using pickRepresentative_line [of "uniqueSubjects cs" _ 2] cs uniqueSubjects_subset by (simp add: subjects_def) blast
  then have nth: "one_line (nth_subject subjects i)" for i by (auto simp: nth_subject_def newline_def)
  have join: "one_line (js_join ''; '' subjects)" by (intro one_line_join) (auto simp: newline_def lines)
  have more: "one_line (more_text n)" for n by (auto simp: more_text_def newline_def)
  have label: "one_line l" if "formatScopeLabel (if scope = Own ''_general'' then None else Some scope) = Inr (Some l)" for l
    using that sc by (auto simp: formatScopeLabel_def split: if_splits js_entry.splits dest: scope_label_line)
  obtain label where l: "formatScopeLabel (if scope = Own ''_general'' then None else Some scope) = Inr label"
    using t by (auto simp: summarizeScopeCommits_def Let_def)
  show ?thesis
    using t l label [of "the label"] nth join more em
    unfolding summarizeScopeCommits_def Let_def subjects_def [symmetric]
    by (cases label) (auto simp: newline_def split: if_splits)
qed

lemma note_line_bullet: "one_line t \<Longrightarrow> note_line (bullet t)"
  by (simp add: note_line_def bullet_def newline_def)

lemma group_lines:
  assumes "\<forall>c\<in>set cs. line_commit c" "(k, g) \<in> set (groupByScope cs)"
  shows "(\<forall>s. k = Own s \<longrightarrow> one_line s) \<and> (\<forall>c\<in>set g. one_line (c_subject c))"
proof -
  have d: "distinct (map fst (groupByScope cs))" by (simp add: keys_groupByScope)
  then have k: "k \<in> scope_key ` set cs" and g: "g = filter (\<lambda>c. scope_key c = k) cs"
    using map_of_is_SomeI [OF d assms(2)] by (auto simp: map_of_groupByScope split: if_splits)
  have "one_line s" if "c \<in> set cs" "scope_key c = Own s" for c s
    using that assms(1) by (auto simp: scope_key_def line_commit_def newline_def split: option.splits)
  then show ?thesis using k g assms(1) by (auto simp: line_commit_def)
qed

lemma renderSection_block:
  assumes "one_line em_dash" "one_line title" "\<forall>c\<in>set cs. line_commit c" "renderSection em_dash title cs = Inr ls"
  shows "note_block ls"
proof (cases "cs = []")
  case False
  then obtain ts where ts: "try_map (\<lambda>(scope, cs). summarizeScopeCommits em_dash scope cs) (groupByScope cs) = Inr ts"
      and ls: "ls = [''## '' @ title, ''''] @ map bullet ts @ ['''']"
    using assms(4) by (auto simp: renderSection_def)
  have "one_line t" if t: "t \<in> set ts" for t
  proof -
    obtain k g where "(k, g) \<in> set (groupByScope cs)" "summarizeScopeCommits em_dash k g = Inr t"
      using try_map_set [OF ts t] by auto
    then show ?thesis using group_lines [OF assms(3)] summarize_line [OF assms(1)] by blast
  qed
  then show ?thesis
    using assms(2) note_line_bullet
    by (auto simp: ls note_block_def visible_def note_line_def newline_def js_space_def char_code_def)
qed (use assms in \<open>simp add: renderSection_def\<close>)

lemma pickHighlights_line:
  assumes "one_line em_dash" "\<forall>c\<in>set cs. line_commit c" "pickHighlights em_dash cs = Inr hs" "h \<in> set hs"
  shows "one_line h"
proof -
  obtain ps where ps: "try_map (\<lambda>(scope, cs). try_bind (summarizeScopeCommits em_dash scope cs)
      (\<lambda>t. Inr (int (length cs), t))) (highlighted (groupByScope cs)) = Inr ps" and h: "h \<in> snd ` set ps"
    using assms(3,4) by (auto simp: pickHighlights_def dest!: in_set_takeD) (metis image_eqI snd_conv)
  then obtain k g n where "(k, g) \<in> set (groupByScope cs)" "summarizeScopeCommits em_dash k g = Inr h"
    using try_map_set [OF ps] by (fastforce simp: highlighted_def)
  then show ?thesis using group_lines [OF assms(2)] summarize_line [OF assms(1)] by blast
qed

lemma list_section_block:
  assumes "title \<noteq> []" "\<not> js_space (hd title)" "note_line title" "\<forall>l\<in>set items. note_line l"
  shows "note_block (list_section title items)"
  using assms by (auto simp: list_section_def note_block_def visible_def note_line_def)

lemma star_to_dash_line: "one_line l \<Longrightarrow> prefix ''* '' l \<Longrightarrow> note_line (star_to_dash l)"
  by (simp add: star_to_dash_def note_line_def newline_def)

lemma sections_line:
  assumes "\<forall>l\<in>set ls. one_line l"
  shows "(\<forall>l\<in>set (prLines (sections_loop b ls)). note_line l) \<and>
    (\<forall>l\<in>set (gh_contributors (sections_loop b ls)). one_line l \<and> prefix ''* '' l)"
  using assms by (induction b ls rule: sections_loop.induct)
    (auto simp: Let_def js_starts_with_def star_to_dash_line)

lemma extract_line:
  "l \<in> set (prLines (extractGithubSections body)) \<Longrightarrow> note_line l"
  "l \<in> set (gh_contributors (extractGithubSections body)) \<Longrightarrow> one_line l \<and> prefix ''* '' l"
  using sections_line one_line_split by (auto simp: extractGithubSections_def split: option.splits if_splits)

lemma improvement_block:
  assumes "one_line em_dash" "\<forall>c\<in>set cs. line_commit c" "improvement_lines em_dash cs = Inr ls"
  shows "note_block ls"
proof (cases "cs \<noteq> [] \<and> length cs \<le> 8")
  case True
  then show ?thesis
    using renderSection_block [OF assms(1) _ assms(2), of "''Improvements''" ls] assms(3)
    by (simp add: improvement_lines_def newline_def)
next
  case False
  then show ?thesis
    using assms(3)
    by (auto simp: improvement_lines_def note_block_def visible_def note_line_def bullet_def newline_def
      js_space_def char_code_def split: if_splits)
qed

lemma credit_line:
  assumes "\<forall>c\<in>set cs. line_contributor c" "buildContributorCredit cs = Some t"
  shows "note_line t \<and> t \<noteq> [] \<and> \<not> js_space (hd t)"
proof -
  have parts: "\<forall>p\<in>set (map credit_part cs). one_line p"
    using assms(1) by (auto simp: credit_part_def line_contributor_def newline_def)
  then have "one_line (js_join '', '' (butlast (map credit_part cs)))"
    by (intro one_line_join) (auto simp: newline_def dest!: in_set_butlastD)
  moreover have "cs \<noteq> [] \<Longrightarrow> one_line (hd (map credit_part cs)) \<and> one_line (last (map credit_part cs))"
    using parts by (metis hd_in_set last_in_set list.map_disc_iff)
  ultimately show ?thesis
    using assms(2)
    by (auto simp: buildContributorCredit_def Let_def note_line_def newline_def js_space_def char_code_def
      split: if_splits simp del: set_map list.set_map)
qed

lemma contributor_block:
  assumes cs: "\<forall>c\<in>set cs. line_contributor c" and gh: "\<forall>l\<in>set gh. one_line l \<and> prefix ''* '' l"
  shows "note_block (renderContributorSections cs gh)"
proof -
  let ?derived = "\<lambda>P. map (\<lambda>c. ''- @'' @ ct_login c @ '' made their first contribution in this release'') (filter P cs)"
  have "\<forall>l\<in>set (map star_to_dash gh @ ?derived P). note_line l" for P
    using gh cs star_to_dash_line by (auto simp: note_line_def line_contributor_def newline_def)
  then have new: "note_block (list_section ''## New contributors'' (map star_to_dash gh @ ?derived P))" for P
    by (intro list_section_block) (simp_all add: note_line_def newline_def js_space_def char_code_def)
  have credit: "note_block (case buildContributorCredit cs of None \<Rightarrow> [] | Some t \<Rightarrow> [t, ''''])"
    using credit_line [OF cs] by (auto simp: note_block_def visible_def note_line_def split: option.split)
  show ?thesis
    unfolding renderContributorSections_def Let_def filter_filter list_section_def [symmetric]
    by (rule note_block_append [OF new credit])
qed

lemma note_lines_block:
  assumes one: "one_line em_dash" "one_line cur" "one_line prev" "one_line repo"
    and commits: "\<forall>c\<in>set commits. line_commit c" and cs: "\<forall>c\<in>set cs. line_contributor c"
    and ls: "note_lines em_dash cur prev repo body commits (Inr cs) = Inr ls"
  shows "note_block ls \<and> ls \<noteq> [] \<and> last ls = ''See the assets below to download and install this version.''"
proof -
  have typed: "\<forall>c\<in>set (of_type ts commits). line_commit c" for ts using commits by (simp add: of_type_def)
  obtain hs fs ims where hs: "pickHighlights em_dash (of_type FEATURE_TYPES commits) = Inr hs"
      and fs: "renderSection em_dash ''Bug fixes'' (of_type FIX_TYPES commits) = Inr fs"
      and ims: "improvement_lines em_dash (of_type IMPROVEMENT_TYPES commits) = Inr ims"
      and ls': "ls = list_section ''## Release highlights'' (map bullet hs) @
             list_section ''## What's changed'' (prLines (extractGithubSections body)) @
             fs @ ims @
             renderContributorSections cs (gh_contributors (extractGithubSections body)) @
             (if prev \<noteq> [] then [changelog_line repo prev cur, ''''] else []) @
             [''---'', '''', ''See the assets below to download and install this version.'']"
    using ls by (auto simp: note_lines_def Let_def)
  note line_simps = note_line_def newline_def js_space_def char_code_def
  have "note_block (list_section ''## Release highlights'' (map bullet hs))"
    using pickHighlights_line [OF one(1) typed hs] note_line_bullet
    by (intro list_section_block) (auto simp: line_simps)
  moreover have "note_block (list_section ''## What's changed'' (prLines (extractGithubSections body)))"
    using extract_line(1) by (intro list_section_block) (simp_all add: line_simps)
  moreover have "note_block fs"
    using renderSection_block [OF one(1) _ typed fs] by (simp add: newline_def)
  moreover have "note_block ims" by (rule improvement_block [OF one(1) typed ims])
  moreover have "note_block (renderContributorSections cs (gh_contributors (extractGithubSections body)))"
    using extract_line(2) by (intro contributor_block cs) blast
  moreover have "note_block (if prev \<noteq> [] then [changelog_line repo prev cur, ''''] else [])"
    using one by (simp add: note_block_def visible_def changelog_line_def line_simps)
  moreover have "note_block [''---'', '''', ''See the assets below to download and install this version.'']"
    by (simp add: note_block_def visible_def line_simps)
  ultimately show ?thesis unfolding ls' by (simp add: note_block_append)
qed

lemma trim_visible_lines:
  assumes "visible ls" "ls \<noteq> []" "last ls \<noteq> []" "\<not> js_space (last (last ls))"
  shows "js_trim (js_join [newline] ls) = js_join [newline] ls"
proof -
  have join: "js_join [newline] ls \<noteq> [] \<and> hd (js_join [newline] ls) = hd (hd ls)"
    using assms(1,2) by (cases ls; cases "tl ls") (auto simp: visible_def)
  have last: "last (js_join [newline] ls) = last (last ls)"
    using assms(2,3)
  proof (induction "[newline]" ls rule: js_join.induct)
    case (3 w v vs)
    have "js_join [newline] (v # vs) \<noteq> []" using 3(3) by (cases vs) auto
    then show ?case using 3 by simp
  qed simp_all
  have "dropWhile js_space (js_join [newline] ls) = js_join [newline] ls"
    using join assms(1,2) by (auto simp: visible_def dropWhile_eq_self_iff)
  moreover have "dropWhile js_space (rev (js_join [newline] ls)) = rev (js_join [newline] ls)"
    using join last assms(4) by (auto simp: dropWhile_eq_self_iff hd_rev)
  ultimately show ?thesis by (simp add: js_trim_def)
qed

text \<open>
  C25. The notes reach the workflow whole. They are passed on between the delimiter lines of the output file, and
  whatever the commits, authors and generated notes say, no line of the notes is the delimiter: the text
  between the first line and the first delimiter line is the notes.
\<close>

theorem notes_reach_workflow:
  assumes one: "one_line em_dash" "one_line cur" "one_line prev" "one_line repo"
    and built: "buildReleaseNotes em_dash cur prev repo body (loadCommits log_out)
      (collectContributors localeCompare authors history prev repo body) = Inr notes"
  shows "\<exists>lines. js_split newline (writeGithubOutput notes) = ''notes<<EOF'' # lines @ [''EOF'', ''''] \<and>
    ''EOF'' \<notin> set lines \<and> notes = js_join [newline] lines @ [newline]"
proof -
  obtain cs ls where cs: "collectContributors localeCompare authors history prev repo body = Inr cs"
      and ls: "note_lines em_dash cur prev repo body (loadCommits log_out) (Inr cs) = Inr ls"
      and text': "notes = js_trim (js_join [newline] ls) @ [newline]"
    using built by (auto simp: buildReleaseNotes_def note_lines_def Let_def)
  have block: "note_block ls" "ls \<noteq> []" "last ls = ''See the assets below to download and install this version.''"
    using note_lines_block [OF one _ _ ls] loadCommits_line contributors_line [OF cs] by auto
  then have n: "notes = js_join [newline] ls @ [newline]"
    unfolding text' by (subst trim_visible_lines) (auto simp: note_block_def js_space_def char_code_def)
  have "js_join [newline] (''notes<<EOF'' # ls @ [''EOF'', '''']) = writeGithubOutput notes"
  proof -
    have join: "ls \<noteq> [] \<Longrightarrow> js_join [newline] (ls @ [''EOF'', '''']) = js_join [newline] ls @ newline # ''EOF'' @ [newline]" for ls
      by (induction "[newline]" ls rule: js_join.induct) auto
    show ?thesis using join [OF block(2)] block(2) by (cases ls) (simp_all add: writeGithubOutput_def n)
  qed
  moreover have "\<forall>w\<in>set (''notes<<EOF'' # ls @ [''EOF'', '''']). newline \<notin> set w"
    using block(1) by (auto simp: note_block_def note_line_def one_line_def newline_def)
  ultimately have "js_split newline (writeGithubOutput notes) = ''notes<<EOF'' # ls @ [''EOF'', '''']"
    using js_split_join [of "''notes<<EOF'' # ls @ [''EOF'', '''']" newline] by simp
  moreover have "''EOF'' \<notin> set ls" using block(1) by (auto simp: note_block_def note_line_def)
  ultimately show ?thesis using n by blast
qed

theorem notes_reach_workflow_witness:
  "\<exists>notes. buildReleaseNotes ''--'' ''v0.2.0'' ''v0.1.0'' ''o/r'' None (loadCommits (''feat(ui): EOF'' @ [newline] @ ''EOF''))
      (collectContributors (\<lambda>a b. 0) ''n|1+dev@users.noreply.github.com|fix: x'' (Inr []) ''v0.1.0'' ''o/r'' None) = Inr notes \<and>
    (\<exists>lines. js_split newline (writeGithubOutput notes) = ''notes<<EOF'' # lines @ [''EOF'', ''''] \<and> ''EOF'' \<notin> set lines)"
proof -
  let ?commits = "loadCommits (''feat(ui): EOF'' @ [newline] @ ''EOF'')"
    and ?cs = "collectContributors (\<lambda>a b. 0) ''n|1+dev@users.noreply.github.com|fix: x'' (Inr []) ''v0.1.0'' ''o/r'' None"
  have "is_ok (buildReleaseNotes ''--'' ''v0.2.0'' ''v0.1.0'' ''o/r'' None ?commits ?cs)" by code_simp
  then obtain result where n: "buildReleaseNotes ''--'' ''v0.2.0'' ''v0.1.0'' ''o/r'' None ?commits ?cs = Inr result"
    by (auto simp: is_ok_def split: sum.splits)
  have "one_line ''--''" "one_line ''v0.2.0''" "one_line ''v0.1.0''" "one_line ''o/r''" by (simp_all add: newline_def)
  from notes_reach_workflow [OF this n] n show ?thesis by blast
qed

section \<open>Credits\<close>

definition credit_entries :: "string \<Rightarrow> (string \<times> 'a) list \<Rightarrow> bool" where
  "credit_entries owner es \<longleftrightarrow> distinct (map fst es) \<and> (\<forall>l\<in>fst ` set es. js_lower l \<noteq> owner)"

lemma credit_push: "credit_entries owner es \<Longrightarrow> js_lower l \<noteq> owner \<Longrightarrow> credit_entries owner (map_push l a es)"
proof -
  assume es: "credit_entries owner es" "js_lower l \<noteq> owner"
  have "fst ` set (map_push l a es) = insert l (fst ` set es)"
    using arg_cong [OF fst_map_push [of l a es], of set] by (auto simp del: set_map simp add: set_map [symmetric])
  then show ?thesis using es by (simp add: credit_entries_def distinct_map_push)
qed

lemma author_entries_credit:
  "author_entries owner es as = Inr es' \<Longrightarrow> credit_entries owner es \<Longrightarrow> credit_entries owner es'"
proof (induction as arbitrary: es)
  case (Cons a as)
  then obtain e1 where e1: "author_entry owner es a = Inr e1" "author_entries owner e1 as = Inr es'" by auto
  have "credit_entries owner e1"
    using e1(1) Cons.prems(2) credit_push [of owner es]
    by (auto simp: author_entry_def split: option.splits js_entry.splits if_splits)
  then show ?case using Cons.IH e1(2) by simp
qed simp

lemma body_entries_credit: "credit_entries owner es \<Longrightarrow> credit_entries owner (foldl (body_entry owner) es ls)"
proof (induction ls arbitrary: es)
  case (Cons l ls)
  have "credit_entries owner (body_entry owner es l)"
    using Cons.prems by (auto simp: body_entry_def credit_entries_def split: option.split)
  then show ?case using Cons.IH by simp
qed simp

text \<open>
  The contributors are thanked once each, and the owner of the repository, in any spelling of the name, never.
\<close>

theorem credits_exact:
  assumes "collectContributors localeCompare authors history prev repo body = Inr cs"
  shows "distinct (map ct_login cs) \<and> (\<forall>c\<in>set cs. js_lower (ct_login c) \<noteq> repository_owner repo)"
proof -
  obtain as es where es: "author_entries (repository_owner repo) [] as = Inr es"
    and cs: "cs = js_sort (\<lambda>a b. localeCompare (ct_login a) (ct_login b))
        (map (\<lambda>(login, cs). \<lparr>ct_login = login, ct_work = describeContributorWork (map a_commit cs),
            ct_isNew = (cs \<noteq> [] \<and> \<not> authorHasPriorContributions (a_name (hd cs)) (a_email (hd cs)) prev history)\<rparr>)
          (foldl (body_entry (repository_owner repo)) es
             (case body of None \<Rightarrow> [] | Some b \<Rightarrow> js_split newline b)))"
    using assms by (auto simp: collectContributors_def Let_def)
  have "credit_entries (repository_owner repo) (foldl (body_entry (repository_owner repo)) es
      (case body of None \<Rightarrow> [] | Some b \<Rightarrow> js_split newline b))"
    by (rule body_entries_credit [OF author_entries_credit [OF es]]) (simp add: credit_entries_def)
  then show ?thesis by (auto simp: cs credit_entries_def comp_def case_prod_unfold)
qed

end
