(* ===== verification/Receiver.thy ===== *)
theory Receiver
  imports Web_Platform_Api Auto_Accept Transfer_View
begin

text \<open>
  The receiving side of the window: \<open>hooks/useReceiver.ts\<close>, \<open>lib/receive-session.ts\<close> and
  \<open>store/transfer-tab-store.ts\<close>.

  The state is the hook's state and its refs; what the hook asks of the outside is logged in \<open>rc_calls\<close>.
  Each handler, effect or continuation after an \<open>await\<close> is an operation, and a run is any
  interleaving of them. A handler reads the state of the last render, which is the state before it; the effects
  that copy state into refs after a render are the operation \<open>sync_refs\<close>. The platform flags, the translation
  function, \<open>joinPath\<close> and the relay and discovery arguments are the environment.

  Payloads of engine events are the values the handlers cast them to; \<^const>\<open>None\<close> is a payload whose parse throws.
\<close>

section \<open>Paths\<close>

definition ascii_letter :: "char \<Rightarrow> bool" where
  "ascii_letter c \<longleftrightarrow> (let n = char_code c in (65 \<le> n \<and> n \<le> 90) \<or> (97 \<le> n \<and> n \<le> 122))"

definition isAbsolutePath :: "string \<Rightarrow> bool" where
  "isAbsolutePath path =
     (if path = [] then False
      else js_starts_with path ''/'' \<or>
        (case path of
           a # b # c # _ \<Rightarrow> ascii_letter a \<and> b = CHR '':'' \<and> (c = CHR 0x5C \<or> c = CHR ''/'')
         | _ \<Rightarrow> False))"

definition normalizeSeparators :: "string \<Rightarrow> string" where
  "normalizeSeparators path = js_slashes path"

definition top_level_item :: "string \<Rightarrow> string list" where
  "top_level_item name =
     (let normalized = normalizeSeparators name in
      if normalized = [] then []
      else if isAbsolutePath normalized then
        let segments = js_filter_boolean (js_split CHR ''/'' normalized) in
        if segments = [] then [] else [last segments]
      else
        let topLevel = hd (js_split CHR ''/'' normalized) in
        if topLevel = [] then [] else [topLevel])"

definition countTopLevelItems :: "string list \<Rightarrow> nat" where
  "countTopLevelItems ns = length (foldl (\<lambda>items n. foldl js_set_add items (top_level_item n)) [] ns)"

definition path_basename :: "string \<Rightarrow> string" where
  "path_basename p = js_or (last (js_split CHR ''/'' (normalizeSeparators p))) p"

section \<open>State\<close>

record TicketPreviewItem =
  pi_fileName :: string
  pi_size :: nat
  pi_thumbnail :: "string option"
  pi_mimeType :: "string option"

record TicketPreviewMetadata =
  pm_fileName :: string
  pm_itemCount :: nat
  pm_size :: nat
  pm_thumbnail :: "string option"
  pm_mimeType :: "string option"
  pm_items :: "TicketPreviewItem list option"

record TransferMetadata =
  tm_fileName :: string
  tm_fileSize :: int
  tm_duration :: rat
  tm_startTime :: nat
  tm_endTime :: nat
  tm_downloadPath :: string
  tm_itemCount :: "nat option"
  tm_pathType :: "TransferHistoryPathType option"

datatype AlertType = AInfo | AError | ASuccess

record AlertDialogState =
  al_isOpen :: bool
  al_title :: string
  al_description :: string
  al_type :: AlertType

datatype receiver_call =
    FetchTicketMetadata nat string                     \<comment> \<open>with the request number it answers to\<close>
  | ReceiveFile string string "string option" "string option" "string option"
      \<comment> \<open>ticket, outputPath, treeUri, treeDisplayPath, subFolder\<close>
  | CancelReceive
  | SystemNotification string string
  | OpenDownloadFolder string
  | OpenDownloadTarget string string
  | RevealItem string

record receiver =
  rc_ticket :: string
  isReceiving :: bool
  isTransporting :: bool
  isCompleted :: bool
  isExportPending :: bool
  rc_savePath :: string
  transferMetadata :: "TransferMetadata option"
  transferProgress :: "TransferProgress option"
  transferStartTime :: "nat option"
  fileNames :: "string list"
  previewMetadata :: "TicketPreviewMetadata option"
  isPreviewLoading :: bool
  alertDialog :: AlertDialogState
  downloadsUri :: string
  downloadsPath :: string
  downloadsUriRef :: string
  downloadsPathRef :: string
  pendingConflictNoticeRef :: "string option"
  androidMediaStoreUrisRef :: "string list"
  androidMediaStorePathRef :: string
  fileNamesRef :: "string list"
  transferProgressRef :: "TransferProgress option"
  transferStartTimeRef :: "nat option"
  savePathRef :: string
  folderOpenTriggeredRef :: bool
  androidOpenUriRef :: string
  previewRequestSeqRef :: nat
  previewMetadataRef :: "TicketPreviewMetadata option"
  transferItemCountRef :: "nat option"
  transferSeqRef :: nat
  completedOutputDirRef :: string
  preview_timer :: "(nat \<times> string) option"
  requestedTab :: "string option"
  rc_calls :: "receiver_call list"

record receiver_env =
  ANDROID :: bool
  WEB :: bool
  tr :: "string \<Rightarrow> string list \<Rightarrow> string"
  joinPath :: "string \<Rightarrow> string \<Rightarrow> string result"

definition useReceiver :: "string \<Rightarrow> string \<Rightarrow> receiver" where
  "useReceiver uri path =
     \<lparr>rc_ticket = [], isReceiving = False, isTransporting = False, isCompleted = False,
      isExportPending = False, rc_savePath = [], transferMetadata = None, transferProgress = None,
      transferStartTime = None, fileNames = [], previewMetadata = None, isPreviewLoading = False,
      alertDialog = \<lparr>al_isOpen = False, al_title = [], al_description = [], al_type = AInfo\<rparr>,
      downloadsUri = uri, downloadsPath = path, downloadsUriRef = uri, downloadsPathRef = path,
      pendingConflictNoticeRef = None, androidMediaStoreUrisRef = [], androidMediaStorePathRef = [],
      fileNamesRef = [], transferProgressRef = None, transferStartTimeRef = None, savePathRef = [],
      folderOpenTriggeredRef = False, androidOpenUriRef = [], previewRequestSeqRef = 0,
      previewMetadataRef = None, transferItemCountRef = None, transferSeqRef = 0,
      completedOutputDirRef = [], preview_timer = None, requestedTab = None, rc_calls = []\<rparr>"

definition rc_call :: "receiver_call \<Rightarrow> receiver \<Rightarrow> receiver" where
  "rc_call c s = s\<lparr>rc_calls := rc_calls s @ [c]\<rparr>"

definition showAlert :: "string \<Rightarrow> string \<Rightarrow> AlertType \<Rightarrow> receiver \<Rightarrow> receiver" where
  "showAlert title description ty s =
     s\<lparr>alertDialog := \<lparr>al_isOpen = True, al_title = title, al_description = description, al_type = ty\<rparr>\<rparr>"

definition closeAlert :: "receiver \<Rightarrow> receiver" where
  "closeAlert s = s\<lparr>alertDialog := (alertDialog s)\<lparr>al_isOpen := False\<rparr>\<rparr>"

definition isReceiveSessionBusy :: "receiver \<Rightarrow> bool" where
  "isReceiveSessionBusy s =
     (if isTransporting s \<or> isExportPending s then True else isReceiving s \<and> \<not> isCompleted s)"

text \<open>The effects that copy state and settings into refs.\<close>

definition sync_refs :: "receiver \<Rightarrow> receiver" where
  "sync_refs s =
     s\<lparr>fileNamesRef := fileNames s, transferProgressRef := transferProgress s,
       transferStartTimeRef := transferStartTime s, savePathRef := rc_savePath s,
       downloadsUriRef := downloadsUri s, downloadsPathRef := downloadsPath s\<rparr>"

section \<open>Preview of a ticket\<close>

definition preview_effect :: "receiver \<Rightarrow> receiver" where
  "preview_effect s =
     (let seq = Suc (previewRequestSeqRef s);
          s1 = s\<lparr>previewRequestSeqRef := seq, preview_timer := None\<rparr>;
          trimmed = js_trim (rc_ticket s)
      in if isReceiving s then s1\<lparr>isPreviewLoading := False\<rparr>
         else if trimmed = [] then
           s1\<lparr>previewMetadata := None, previewMetadataRef := None, isPreviewLoading := False\<rparr>
         else s1\<lparr>isPreviewLoading := True, previewMetadata := None, previewMetadataRef := None,
                 preview_timer := Some (seq, trimmed)\<rparr>)"

definition preview_timeout :: "receiver \<Rightarrow> receiver" where
  "preview_timeout s =
     (case preview_timer s of
        None \<Rightarrow> s
      | Some (seq, t) \<Rightarrow> rc_call (FetchTicketMetadata seq t) (s\<lparr>preview_timer := None\<rparr>))"

definition preview_answer :: "nat \<Rightarrow> TicketPreviewMetadata result \<Rightarrow> receiver \<Rightarrow> receiver" where
  "preview_answer seq r s =
     (if previewRequestSeqRef s \<noteq> seq then s
      else
        case r of
          Inr metadata \<Rightarrow>
            s\<lparr>previewMetadata := Some metadata, previewMetadataRef := Some metadata, isPreviewLoading := False\<rparr>
        | Inl _ \<Rightarrow> s\<lparr>previewMetadata := None, previewMetadataRef := None, isPreviewLoading := False\<rparr>)"

definition initializeSavePath :: "bool \<Rightarrow> string result \<Rightarrow> receiver \<Rightarrow> receiver" where
  "initializeSavePath android dl s =
     (if android then s\<lparr>rc_savePath := downloadsPath s\<rparr>
      else s\<lparr>rc_savePath := (case dl of Inl _ \<Rightarrow> [] | Inr p \<Rightarrow> p)\<rparr>)"

definition handleTicketChange :: "url_parser \<Rightarrow> string \<Rightarrow> receiver \<Rightarrow> receiver" where
  "handleTicketChange URL newTicket s =
     s\<lparr>rc_ticket := (case ticketFromReceiveLink URL newTicket of Some t \<Rightarrow> t | None \<Rightarrow> newTicket)\<rparr>"

section \<open>Events of the engine\<close>

text \<open>The events that are ignored when no transfer is current.\<close>

datatype engine_event =
    ReceiveStarted
  | ReceiveProgress string
  | ReceiveFileNames "string list option"
  | ReceiveConflicts "(string \<times> string) list option"     \<comment> \<open>original and resolved name\<close>
  | ReceiveCompleted jsval

datatype fallback_payload = FallbackText string | FallbackObject "string option" "string option"

definition receive_started :: "nat \<Rightarrow> receiver \<Rightarrow> receiver" where [step_defs]:
  "receive_started now s =
     s\<lparr>isTransporting := True, isCompleted := False, transferStartTime := Some now, transferProgress := None\<rparr>"

definition receive_progress :: "string \<Rightarrow> receiver \<Rightarrow> receiver" where [step_defs]:
  "receive_progress payload s =
     (case parseProgressPayload payload of None \<Rightarrow> s | Some p \<Rightarrow> s\<lparr>transferProgress := Some p\<rparr>)"

definition receive_file_names :: "string list option \<Rightarrow> receiver \<Rightarrow> receiver" where [step_defs]:
  "receive_file_names payload s =
     (case payload of None \<Rightarrow> s | Some ns \<Rightarrow> s\<lparr>fileNames := ns, fileNamesRef := ns\<rparr>)"

definition conflict_notice :: "receiver_env \<Rightarrow> (string \<times> string) list \<Rightarrow> string" where
  "conflict_notice env cs =
     (let preview = js_join [CHR 0x0A]
            (map (\<lambda>(a, b). path_basename a @ '' -> '' @ path_basename b) (take 3 cs))
      in if length cs > 3
         then preview @ [CHR 0x0A] @ tr env ''common:receiver.conflictsMore'' [show_nat (length cs - 3)]
         else preview)"

definition receive_conflicts :: "receiver_env \<Rightarrow> (string \<times> string) list option \<Rightarrow> receiver \<Rightarrow> receiver" where [step_defs]:
  "receive_conflicts env payload s =
     (case payload of
        None \<Rightarrow> s
      | Some cs \<Rightarrow> if cs = [] then s else s\<lparr>pendingConflictNoticeRef := Some (conflict_notice env cs)\<rparr>)"

text \<open>What the success screen says of a finished receive.\<close>

definition completed_item_count :: "receiver \<Rightarrow> nat" where
  "completed_item_count s =
     (case transferItemCountRef s of Some n \<Rightarrow> n | None \<Rightarrow> countTopLevelItems (fileNamesRef s))"

definition completed_display_name :: "receiver_env \<Rightarrow> receiver \<Rightarrow> string" where
  "completed_display_name env s =
     (let fallback = tr env ''common:receiver.downloadedFile'' [];
          preview = (case previewMetadataRef s of None \<Rightarrow> [] | Some p \<Rightarrow> pm_fileName p)
      in if preview \<noteq> [] then preview
         else
           case fileNamesRef s of
             [] \<Rightarrow> fallback
           | first # _ \<Rightarrow>
               if completed_item_count s \<le> 1 then js_or (last (js_split CHR ''/'' first)) first
               else
                 let label = tr env ''common:transfer.multipleFiles'' [show_nat (completed_item_count s)];
                     pathParts = js_split CHR ''/'' first
                 in if length pathParts > 1 then js_or (hd pathParts) label else label)"

definition completed_path_type :: "receiver \<Rightarrow> TransferHistoryPathType option" where
  "completed_path_type s =
     (case previewMetadataRef s of
        Some p \<Rightarrow> Some (if pm_mimeType p = Some ''inode/directory'' then HDirectory else HFile)
      | None \<Rightarrow>
          if completed_item_count s = 1 \<and> length (fileNamesRef s) > 1 then Some HDirectory
          else if completed_item_count s = 1 then Some HFile
          else None)"

definition completed_metadata :: "receiver_env \<Rightarrow> nat \<Rightarrow> TransferCompletion option \<Rightarrow> receiver \<Rightarrow> TransferMetadata" where
  "completed_metadata env endTime completion s =
     \<lparr>tm_fileName = completed_display_name env s,
      tm_fileSize = (case transferProgressRef s of None \<Rightarrow> 0 | Some p \<Rightarrow> totalBytes p),
      tm_duration =
        (case completion of
           Some c \<Rightarrow> tc_durationMs c
         | None \<Rightarrow>
             (case transferStartTimeRef s of
                None \<Rightarrow> 0
              | Some t \<Rightarrow> if t = 0 then 0 else rat_of_nat endTime - rat_of_nat t)),
      tm_startTime = (case transferStartTimeRef s of None \<Rightarrow> endTime | Some t \<Rightarrow> if t = 0 then endTime else t),
      tm_endTime = endTime,
      tm_downloadPath = savePathRef s,
      tm_itemCount = (if completed_item_count s > 1 then Some (completed_item_count s) else None),
      tm_pathType = completed_path_type s\<rparr>"

definition receive_completed :: "receiver_env \<Rightarrow> nat \<Rightarrow> jsval \<Rightarrow> receiver \<Rightarrow> receiver" where [step_defs]:
  "receive_completed env now payload s =
     (let completion = parseCompletionPayload payload;
          s1 = s\<lparr>isTransporting := False, isCompleted := True, transferProgress := None,
                 completedOutputDirRef :=
                   (case completion of None \<Rightarrow> [] | Some c \<Rightarrow> (case tc_outputDir c of None \<Rightarrow> [] | Some d \<Rightarrow> d))\<rparr>;
          s2 = s1\<lparr>transferMetadata := Some (completed_metadata env now completion s1)\<rparr>;
          s3 = (case pendingConflictNoticeRef s2 of
                  None \<Rightarrow> s2
                | Some notice \<Rightarrow>
                    if notice = [] then s2
                    else (showAlert (tr env ''common:receiver.downloadCompletedWithConflicts'' []) notice AInfo s2)
                           \<lparr>pendingConflictNoticeRef := None\<rparr>)
      in rc_call (SystemNotification (tr env ''common:receiver.downloadCompleted'' [])
                    (completed_display_name env s1)) s3)"

definition transfer_event :: "receiver_env \<Rightarrow> nat \<Rightarrow> engine_event \<Rightarrow> receiver \<Rightarrow> receiver" where [step_defs]:
  "transfer_event env now e s =
     (if transferSeqRef s = 0 then s
      else
        case e of
          ReceiveStarted \<Rightarrow> receive_started now s
        | ReceiveProgress p \<Rightarrow> receive_progress p s
        | ReceiveFileNames p \<Rightarrow> receive_file_names p s
        | ReceiveConflicts p \<Rightarrow> receive_conflicts env p s
        | ReceiveCompleted p \<Rightarrow> receive_completed env now p s)"

text \<open>The events of the Android export.\<close>

definition move_download :: "string \<Rightarrow> receiver \<Rightarrow> receiver" where [step_defs]:
  "move_download path s =
     s\<lparr>rc_savePath := path,
       transferMetadata := map_option (\<lambda>m. m\<lparr>tm_downloadPath := path\<rparr>) (transferMetadata s)\<rparr>"

definition download_fallback :: "receiver_env \<Rightarrow> fallback_payload \<Rightarrow> receiver \<Rightarrow> receiver" where [step_defs]:
  "download_fallback env payload s =
     (if \<not> ANDROID env then s
      else
        let fallbackPath = js_trim (case payload of
              FallbackText t \<Rightarrow> t
            | FallbackObject path _ \<Rightarrow> (case path of None \<Rightarrow> [] | Some p \<Rightarrow> p));
            reason = (case payload of FallbackText _ \<Rightarrow> None | FallbackObject _ r \<Rightarrow> r)
        in if fallbackPath = [] then s
           else showAlert (tr env ''common:receiver.downloadFallbackTitle'' [])
                  (if reason = Some ''saf''
                   then tr env ''common:receiver.downloadFallbackSafDescription'' [fallbackPath]
                   else tr env ''common:receiver.downloadFallbackDescription'' [fallbackPath])
                  AInfo (move_download fallbackPath (s\<lparr>androidOpenUriRef := []\<rparr>)))"

definition download_mediastore :: "receiver_env \<Rightarrow> string option \<Rightarrow> string list option \<Rightarrow> receiver \<Rightarrow> receiver" where [step_defs]:
  "download_mediastore env path uris s =
     (if \<not> ANDROID env then s
      else
        let p = js_trim (case path of None \<Rightarrow> [] | Some p \<Rightarrow> p);
            s1 = s\<lparr>androidMediaStoreUrisRef := (case uris of None \<Rightarrow> [] | Some us \<Rightarrow> us),
                   androidMediaStorePathRef := p\<rparr>
        in if p = [] then s1 else move_download p s1)"

definition export_finished :: "receiver \<Rightarrow> receiver" where [step_defs]:
  "export_finished s = s\<lparr>isExportPending := False\<rparr>"

section \<open>Commands\<close>

definition opt_nonempty :: "string \<Rightarrow> string option" where
  "opt_nonempty x = (if x = [] then None else Some x)"

text \<open>\<open>String(error)\<close>.\<close>

definition error_string :: "js_error \<Rightarrow> string" where
  "error_string e =
     (case e of
        Error m \<Rightarrow> if m = [] then ''Error'' else ''Error: '' @ m
      | WebPreviewError m \<Rightarrow> if m = [] then ''WebPreviewError'' else ''WebPreviewError: '' @ m
      | TypeError m \<Rightarrow> if m = [] then ''TypeError'' else ''TypeError: '' @ m
      | Rejected t \<Rightarrow> t)"

text \<open>The chosen folder; the answer of a picker is awaited, and what it does depends on no state.\<close>

datatype browse_answer =
    BrowseAndroid "(string \<times> string) option"       \<comment> \<open>uri and path\<close>
  | BrowseWeb bool "string option"                  \<comment> \<open>whether there is a picker\<close>
  | BrowseDialog "string list option"               \<comment> \<open>a selection of one or more paths\<close>
  | BrowseFailed js_error

definition set_selected :: "string \<Rightarrow> receiver \<Rightarrow> receiver" where
  "set_selected p s = (if p = [] then s else s\<lparr>rc_savePath := p\<rparr>)"

definition handleBrowseFolder :: "receiver_env \<Rightarrow> browse_answer \<Rightarrow> receiver \<Rightarrow> receiver" where [step_defs]:
  "handleBrowseFolder env answer s =
     (if isReceiving s then s
      else
        case answer of
          BrowseAndroid None \<Rightarrow> s
        | BrowseAndroid (Some (uri, path)) \<Rightarrow>
            set_selected path (s\<lparr>downloadsPath := path, downloadsUri := uri\<rparr>)
        | BrowseWeb supported sel \<Rightarrow>
            if \<not> supported then s else (case sel of None \<Rightarrow> s | Some p \<Rightarrow> set_selected p s)
        | BrowseDialog sel \<Rightarrow>
            (case sel of Some (p # _) \<Rightarrow> set_selected p s | _ \<Rightarrow> s)
        | BrowseFailed e \<Rightarrow>
            showAlert (tr env ''common:errors.folderDialogFailed'' [])
              (tr env ''common:errors.folderDialogFailedDesc'' [] @ '': '' @ error_string e) AError s)"

text \<open>
  \<open>receiveWithTicket\<close> up to its first \<open>await\<close>. Without a folder on a desktop it waits for \<open>downloadDir()\<close>;
  \<open>receive_output\<close> is what follows that answer.
\<close>

definition start_session :: "receiver_env \<Rightarrow> receiver \<Rightarrow> receiver" where [step_defs]:
  "start_session env s =
     s\<lparr>transferItemCountRef :=
         (case transferItemCountRef s of
            Some n \<Rightarrow> Some n
          | None \<Rightarrow>
              (case previewMetadataRef s of
                 Some p \<Rightarrow> Some (pm_itemCount p)
               | None \<Rightarrow> map_option pm_itemCount (previewMetadata s))),
       previewRequestSeqRef := previewRequestSeqRef s + 1,
       transferSeqRef := transferSeqRef s + 1,
       isReceiving := True, isTransporting := False, isCompleted := False,
       transferMetadata := None, transferProgress := None, transferStartTime := None,
       isPreviewLoading := False, pendingConflictNoticeRef := None, folderOpenTriggeredRef := False,
       completedOutputDirRef := [], androidMediaStoreUrisRef := [], androidMediaStorePathRef := [],
       isExportPending := ANDROID env,
       androidOpenUriRef := (if ANDROID env then js_trim (downloadsUriRef s) else [])\<rparr>"

definition call_receive_file :: "receiver_env \<Rightarrow> string \<Rightarrow> string option \<Rightarrow> string \<Rightarrow> receiver \<Rightarrow> receiver" where [step_defs]:
  "call_receive_file env ticketValue subFolder outputPath s =
     rc_call (ReceiveFile (js_trim ticketValue) outputPath
         (if ANDROID env then opt_nonempty (js_trim (downloadsUriRef s)) else None)
         (if ANDROID env then opt_nonempty (js_trim (downloadsPathRef s)) else None)
         (case subFolder of None \<Rightarrow> None | Some f \<Rightarrow> opt_nonempty (js_trim f))) s"

definition receiveWithTicket :: "receiver_env \<Rightarrow> string \<Rightarrow> string option \<Rightarrow> receiver \<Rightarrow> receiver" where [step_defs]:
  "receiveWithTicket env ticketValue subFolder s =
     (if js_trim ticketValue = [] then s
      else
        let s1 = start_session env s; outputPath = js_trim (savePathRef s1) in
        if outputPath = [] \<and> \<not> WEB env \<and> \<not> ANDROID env then s1
        else call_receive_file env ticketValue subFolder outputPath s1)"

definition cancelled_error :: "js_error \<Rightarrow> bool" where
  "cancelled_error e \<longleftrightarrow> error_string e = ''cancelled'' \<or> js_ends_with (error_string e) '': cancelled''"

definition receive_failed :: "receiver_env \<Rightarrow> js_error \<Rightarrow> receiver \<Rightarrow> receiver" where [step_defs]:
  "receive_failed env e s =
     (let s1 = s\<lparr>isExportPending := False\<rparr> in
      if cancelled_error e then s1
      else
        (showAlert (tr env ''common:errors.receiveFailed'' [])
           (if isWebPreviewError e
            then getWebPreviewErrorMessage e (tr env ''common:webPreview.transferUnavailable'' [])
            else error_string e)
           AError s1)\<lparr>isReceiving := False, isTransporting := False, isCompleted := False\<rparr>)"

definition receive_output ::
    "receiver_env \<Rightarrow> string \<Rightarrow> string option \<Rightarrow> string result \<Rightarrow> receiver \<Rightarrow> receiver" where [step_defs]:
  "receive_output env ticketValue subFolder dl s =
     (case dl of
        Inl e \<Rightarrow> receive_failed env e s
      | Inr p \<Rightarrow> call_receive_file env ticketValue subFolder p (s\<lparr>rc_savePath := p, savePathRef := p\<rparr>))"

definition handleReceive :: "receiver_env \<Rightarrow> receiver \<Rightarrow> receiver" where [step_defs]:
  "handleReceive env s = receiveWithTicket env (rc_ticket s) None s"

definition invite_preview :: "PairedInvitePayload \<Rightarrow> TicketPreviewMetadata" where
  "invite_preview invite =
     \<lparr>pm_fileName = sender_name invite, pm_itemCount = file_count invite, pm_size = total_size invite,
      pm_thumbnail = None,
      pm_mimeType = (if file_count invite > 1 then Some ''application/x-iroh-collection'' else None),
      pm_items = None\<rparr>"

definition acceptPairedInvite ::
    "receiver_env \<Rightarrow> PairedInvitePayload \<Rightarrow> string option \<Rightarrow> receiver \<Rightarrow> receiver" where [step_defs]:
  "acceptPairedInvite env invite subFolder s =
     (if isReceiveSessionBusy s then
        showAlert (tr env ''common:receiver.receiveBusyTitle'' [])
          (tr env ''common:receiver.receiveBusyDescription'' []) AInfo s
      else
        receiveWithTicket env (blob_ticket invite) subFolder
          (s\<lparr>requestedTab := Some ''receive'', rc_ticket := blob_ticket invite,
             previewMetadata := Some (invite_preview invite),
             previewMetadataRef := Some (invite_preview invite),
             transferItemCountRef := Some (file_count invite),
             previewRequestSeqRef := previewRequestSeqRef s + 1, isPreviewLoading := False\<rparr>))"

definition resetForNewTransfer :: "receiver \<Rightarrow> receiver" where [step_defs]:
  "resetForNewTransfer s =
     (rc_call CancelReceive (s\<lparr>transferSeqRef := 0, previewRequestSeqRef := previewRequestSeqRef s + 1\<rparr>))
       \<lparr>isReceiving := False, isTransporting := False, isCompleted := False, rc_ticket := [],
        transferMetadata := None, transferProgress := None, transferStartTime := None, fileNames := [],
        previewMetadata := None, isPreviewLoading := False, pendingConflictNoticeRef := None,
        folderOpenTriggeredRef := False, androidOpenUriRef := [], androidMediaStoreUrisRef := [],
        androidMediaStorePathRef := [], isExportPending := False, transferItemCountRef := None\<rparr>"

section \<open>Opening what was received\<close>

definition resolveRevealPath :: "receiver_env \<Rightarrow> string \<Rightarrow> string list \<Rightarrow> string option" where
  "resolveRevealPath env basePath ns =
     (if basePath = [] then None
      else
        case ns of
          [] \<Rightarrow> Some basePath
        | [name] \<Rightarrow>
            if isAbsolutePath name then Some name
            else (case joinPath env basePath name of Inr p \<Rightarrow> Some p | Inl _ \<Rightarrow> Some basePath)
        | firstName # _ \<Rightarrow>
            if isAbsolutePath firstName then
              let parts = js_split CHR ''/'' (normalizeSeparators firstName) in
              if length parts > 1 then Some (js_or (js_join ''/'' (butlast parts)) firstName)
              else Some firstName
            else
              let topLevel = hd (js_split CHR ''/'' (normalizeSeparators firstName)) in
              if topLevel \<noteq> [] then
                (case joinPath env basePath topLevel of Inr p \<Rightarrow> Some p | Inl _ \<Rightarrow> Some basePath)
              else Some basePath)"

definition handleOpenFolder :: "receiver_env \<Rightarrow> receiver \<Rightarrow> receiver" where [step_defs]:
  "handleOpenFolder env s =
     (if WEB env \<or> isExportPending s \<or> folderOpenTriggeredRef s then s
      else
        let s1 = s\<lparr>folderOpenTriggeredRef := True\<rparr> in
        if ANDROID env then
          let treeUri = js_trim (androidOpenUriRef s1); uris = androidMediaStoreUrisRef s1;
              path = androidMediaStorePathRef s1
          in if treeUri \<noteq> [] then rc_call (OpenDownloadFolder treeUri) s1
             else if uris \<noteq> [] \<or> path \<noteq> [] then
               rc_call (OpenDownloadTarget (if length uris = 1 then hd uris else []) path) s1
             else showAlert (tr env ''common:errors.openFolderFailed'' [])
                    (tr env ''common:errors.openFolderUnavailableDesc'' []) AError
                    (s1\<lparr>folderOpenTriggeredRef := False\<rparr>)
        else
          let revealBase = js_or (completedOutputDirRef s1) (rc_savePath s1) in
          if revealBase = [] then s1\<lparr>folderOpenTriggeredRef := False\<rparr>
          else
            case resolveRevealPath env revealBase (fileNamesRef s1) of
              None \<Rightarrow> s1
            | Some target \<Rightarrow> if target = [] then s1 else rc_call (RevealItem target) s1)"

definition open_failed :: "receiver_env \<Rightarrow> js_error \<Rightarrow> receiver \<Rightarrow> receiver" where [step_defs]:
  "open_failed env e s =
     showAlert (tr env ''common:errors.openFolderFailed'' [])
       (tr env ''common:errors.openFolderFailedDesc'' [] @ '': '' @ error_string e) AError
       (s\<lparr>folderOpenTriggeredRef := False\<rparr>)"

section \<open>Runs\<close>

datatype receiver_event =
    RcSync
  | RcPreviewEffect
  | RcPreviewTimer
  | RcPreviewAnswer nat "TicketPreviewMetadata result"
  | RcInitSavePath "string result"
  | RcTicket string
  | RcBrowse browse_answer
  | RcReceive
  | RcAccept PairedInvitePayload "string option"
  | RcDownloadDir string "string option" "string result"
  | RcFailed js_error                        \<comment> \<open>the command \<open>receive_file\<close> was rejected\<close>
  | RcReset
  | RcTransfer nat engine_event            \<comment> \<open>at the given time\<close>
  | RcFallback fallback_payload
  | RcMediaStore "string option" "string list option"
  | RcExportFinished
  | RcOpen
  | RcOpenFailed js_error
  | RcCloseAlert

fun receiver_step :: "receiver_env \<Rightarrow> url_parser \<Rightarrow> receiver \<Rightarrow> receiver_event \<Rightarrow> receiver" where
  "receiver_step env URL s RcSync = sync_refs s"
| "receiver_step env URL s RcPreviewEffect = preview_effect s"
| "receiver_step env URL s RcPreviewTimer = preview_timeout s"
| "receiver_step env URL s (RcPreviewAnswer seq r) = preview_answer seq r s"
| "receiver_step env URL s (RcInitSavePath dl) = initializeSavePath (ANDROID env) dl s"
| "receiver_step env URL s (RcTicket t) = handleTicketChange URL t s"
| "receiver_step env URL s (RcBrowse a) = handleBrowseFolder env a s"
| "receiver_step env URL s RcReceive = handleReceive env s"
| "receiver_step env URL s (RcAccept i f) = acceptPairedInvite env i f s"
| "receiver_step env URL s (RcDownloadDir t f dl) = receive_output env t f dl s"
| "receiver_step env URL s (RcFailed e) = receive_failed env e s"
| "receiver_step env URL s RcReset = resetForNewTransfer s"
| "receiver_step env URL s (RcTransfer now e) = transfer_event env now e s"
| "receiver_step env URL s (RcFallback p) = download_fallback env p s"
| "receiver_step env URL s (RcMediaStore p us) = download_mediastore env p us s"
| "receiver_step env URL s RcExportFinished = export_finished s"
| "receiver_step env URL s RcOpen = handleOpenFolder env s"
| "receiver_step env URL s (RcOpenFailed e) = open_failed env e s"
| "receiver_step env URL s RcCloseAlert = closeAlert s"

section \<open>Invariants\<close>

definition preview_call_old :: "nat \<Rightarrow> receiver_call \<Rightarrow> bool" where
  "preview_call_old n c = (case c of FetchTicketMetadata seq _ \<Rightarrow> seq \<le> n | _ \<Rightarrow> True)"

definition session_inv :: "receiver_env \<Rightarrow> receiver \<Rightarrow> bool" where
  "session_inv env s \<longleftrightarrow>
     (transferSeqRef s = 0 \<longrightarrow>
        \<not> isReceiving s \<and> \<not> isTransporting s \<and> \<not> isCompleted s \<and> \<not> isExportPending s \<and> transferMetadata s = None) \<and>
     \<not> (isTransporting s \<and> isCompleted s) \<and>
     (isExportPending s \<longrightarrow> ANDROID env) \<and>
     (isCompleted s \<longrightarrow> transferMetadata s \<noteq> None)"

definition preview_inv :: "receiver \<Rightarrow> bool" where
  "preview_inv s \<longleftrightarrow>
     list_all (preview_call_old (previewRequestSeqRef s)) (rc_calls s) \<and>
     (case preview_timer s of None \<Rightarrow> True | Some (seq, _) \<Rightarrow> seq \<le> previewRequestSeqRef s)"

lemma preview_call_old_mono:
  "list_all (preview_call_old n) cs \<Longrightarrow> n \<le> m \<Longrightarrow> list_all (preview_call_old m) cs"
  by (auto simp: list_all_iff preview_call_old_def split: receiver_call.splits)

lemmas preview_defs = preview_effect_def preview_timeout_def preview_answer_def rc_call_def showAlert_def
  closeAlert_def sync_refs_def set_selected_def initializeSavePath_def handleTicketChange_def

lemma session_inv_transfer: "session_inv env s \<Longrightarrow> session_inv env (transfer_event env now e s)"
  by (cases e) (auto simp: session_inv_def transfer_event_def receive_started_def receive_progress_def
      receive_file_names_def receive_conflicts_def receive_completed_def rc_call_def showAlert_def Let_def
      split: option.splits)

lemma session_inv_receive: "session_inv env s \<Longrightarrow> session_inv env (receiveWithTicket env t f s)"
  by (auto simp: session_inv_def receiveWithTicket_def start_session_def call_receive_file_def rc_call_def Let_def)

lemma session_inv_failed: "session_inv env s \<Longrightarrow> session_inv env (receive_failed env e s)"
  by (auto simp: session_inv_def receive_failed_def showAlert_def Let_def)

lemma session_inv_open: "session_inv env s \<Longrightarrow> session_inv env (handleOpenFolder env s)"
  by (auto simp: session_inv_def handleOpenFolder_def rc_call_def showAlert_def Let_def split: option.splits)

lemma session_inv_cong:
  "session_inv env s \<Longrightarrow> transferSeqRef s' = transferSeqRef s \<Longrightarrow> isReceiving s' = isReceiving s \<Longrightarrow>
   isTransporting s' = isTransporting s \<Longrightarrow> isCompleted s' = isCompleted s \<Longrightarrow>
   isExportPending s' = isExportPending s \<Longrightarrow> (transferMetadata s' = None) = (transferMetadata s = None) \<Longrightarrow>
   session_inv env s'"
  by (simp add: session_inv_def)

lemma session_inv_accept: "session_inv env s \<Longrightarrow> session_inv env (acceptPairedInvite env i f s)"
  unfolding acceptPairedInvite_def
  by (auto intro!: session_inv_receive elim!: session_inv_cong simp: showAlert_def)

interpretation session_machine: state_machine "useReceiver uri path" "receiver_step env URL" "session_inv env"
proof
  show "session_inv env (useReceiver uri path)" by (simp add: session_inv_def useReceiver_def)
next
  fix s e
  assume inv: "session_inv env s"
  show "session_inv env (receiver_step env URL s e)"
  proof (cases e)
    case (RcBrowse a)
    show ?thesis
      unfolding RcBrowse receiver_step.simps
      by (rule session_inv_cong [OF inv])
        (auto simp: handleBrowseFolder_def preview_defs split: browse_answer.splits option.splits list.splits)
  next
    case (RcPreviewAnswer q r)
    show ?thesis
      unfolding RcPreviewAnswer receiver_step.simps
      by (rule session_inv_cong [OF inv]) (auto simp: preview_defs split: sum.splits)
  next
    case (RcFallback p)
    show ?thesis
      unfolding RcFallback receiver_step.simps
      by (rule session_inv_cong [OF inv])
        (auto simp: download_fallback_def move_download_def showAlert_def Let_def split: fallback_payload.splits)
  next
    case (RcMediaStore p us)
    show ?thesis
      unfolding RcMediaStore receiver_step.simps
      by (rule session_inv_cong [OF inv]) (auto simp: download_mediastore_def move_download_def Let_def)
  next
    case RcReset
    then show ?thesis by (simp add: session_inv_def resetForNewTransfer_def rc_call_def)
  next
    case RcExportFinished
    then show ?thesis using inv by (auto simp: session_inv_def export_finished_def)
  next
    case (RcDownloadDir t f dl)
    have "session_inv env (call_receive_file env t f p (s\<lparr>rc_savePath := p, savePathRef := p\<rparr>))" for p
      by (rule session_inv_cong [OF inv]) (simp_all add: call_receive_file_def rc_call_def)
    then show ?thesis using RcDownloadDir session_inv_failed [OF inv] by (auto simp: receive_output_def split: sum.split)
  qed (use inv session_inv_transfer session_inv_receive session_inv_failed session_inv_open session_inv_accept in
      \<open>auto simp: handleReceive_def open_failed_def preview_defs Let_def elim!: session_inv_cong split: option.splits\<close>)
qed

text \<open>Requests never carry a number above the current one; other operations add no request.\<close>

lemma preview_inv_step:
  assumes "preview_inv s" "previewRequestSeqRef s \<le> previewRequestSeqRef s'" "preview_timer s' = preview_timer s"
    "\<exists>cs. rc_calls s' = rc_calls s @ cs \<and> list_all (preview_call_old 0) cs"
  shows "preview_inv s'"
  using assms preview_call_old_mono [of "previewRequestSeqRef s" "rc_calls s" "previewRequestSeqRef s'"]
    preview_call_old_mono [of 0 _ "previewRequestSeqRef s'"]
  by (auto simp: preview_inv_def split: option.splits)

lemma preview_inv_effect: "preview_inv s \<Longrightarrow> preview_inv (preview_effect s)"
  using preview_call_old_mono [of "previewRequestSeqRef s" "rc_calls s" "Suc (previewRequestSeqRef s)"]
  by (auto simp: preview_inv_def preview_effect_def Let_def split: option.splits)

lemma preview_inv_timeout: "preview_inv s \<Longrightarrow> preview_inv (preview_timeout s)"
  by (auto simp: preview_inv_def preview_timeout_def rc_call_def preview_call_old_def split: option.splits)

interpretation preview_machine: state_machine "useReceiver uri path" "receiver_step env URL" preview_inv
proof
  show "preview_inv (useReceiver uri path)" by (simp add: preview_inv_def useReceiver_def)
next
  fix s e
  assume inv: "preview_inv s"
  have old: "preview_call_old 0 (ReceiveFile a b c d f)" "preview_call_old 0 CancelReceive"
    "preview_call_old 0 (SystemNotification x y)" "preview_call_old 0 (OpenDownloadFolder x)"
    "preview_call_old 0 (OpenDownloadTarget x y)" "preview_call_old 0 (RevealItem x)" for a b c d f x y
    by (simp_all add: preview_call_old_def)
  note step = preview_inv_step [OF inv]
  note defs = step_defs preview_defs Let_def
  show "preview_inv (receiver_step env URL s e)"
  proof (cases e)
    case (RcTransfer n ev)
    show ?thesis unfolding RcTransfer receiver_step.simps
      by (rule step; cases ev) (auto simp: defs old split: option.splits)
  next
    case (RcBrowse a)
    show ?thesis unfolding RcBrowse receiver_step.simps
      by (rule step) (auto simp: defs split: browse_answer.splits option.splits list.splits)
  next
    case (RcOpen)
    show ?thesis unfolding RcOpen receiver_step.simps
      by (rule step) (auto simp: defs old split: option.splits)
  next
    case (RcAccept i f)
    show ?thesis unfolding RcAccept receiver_step.simps
      by (rule step) (auto simp: defs old)
  next
    case (RcReceive)
    show ?thesis unfolding RcReceive receiver_step.simps
      by (rule step) (auto simp: defs old)
  next
    case (RcDownloadDir t f dl)
    show ?thesis unfolding RcDownloadDir receiver_step.simps
      by (rule step) (auto simp: defs old split: sum.splits)
  next
    case RcPreviewEffect
    then show ?thesis using inv preview_inv_effect by simp
  next
    case RcPreviewTimer
    then show ?thesis using inv preview_inv_timeout by simp
  qed (simp_all, (rule step; auto simp: defs old split: sum.splits option.splits fallback_payload.splits)+)
qed

section \<open>Properties\<close>

text \<open>
  C16. In every run of the receiver the session flags are consistent: with no current transfer nothing is being
  received, transported, completed or exported and no result is shown; a session is never transporting
  and completed at once; only Android waits for an export; and a completed session has its result.
\<close>

theorem receive_session_consistent:
  defines "run \<equiv> \<lambda>env URL uri path es. run_ops (receiver_step env URL) (useReceiver uri path) es"
  shows "(0 < transferSeqRef (run env URL uri path es) \<or>
      isReceiving (run env URL uri path es) = False \<and> isTransporting (run env URL uri path es) = False \<and>
      isCompleted (run env URL uri path es) = False \<and> isExportPending (run env URL uri path es) = False \<and>
      transferMetadata (run env URL uri path es) = None) \<and>
    (isTransporting (run env URL uri path es) \<and> isCompleted (run env URL uri path es)) = False \<and>
    (isExportPending (run env URL uri path es) \<and> \<not> ANDROID env) = False \<and>
    (isCompleted (run env URL uri path es) \<and> transferMetadata (run env URL uri path es) = None) = False"
proof -
  have "session_inv env (run env URL uri path es)" unfolding run_def by (rule session_machine.reachable_inv)
  then show ?thesis by (auto simp: session_inv_def)
qed

text \<open>The events that the engine and the Android export send.\<close>

definition engine_report :: "receiver_event \<Rightarrow> bool" where
  "engine_report e =
     (case e of RcTransfer _ _ \<Rightarrow> True | RcFallback _ \<Rightarrow> True | RcMediaStore _ _ \<Rightarrow> True | RcExportFinished \<Rightarrow> True | _ \<Rightarrow> False)"

text \<open>A cancelled session, up to the notice, the shown folder and the exported files.\<close>

definition as_cancelled :: "receiver \<Rightarrow> receiver \<Rightarrow> bool" where
  "as_cancelled r s \<longleftrightarrow>
     s = r\<lparr>alertDialog := alertDialog s, rc_savePath := rc_savePath s,
            androidMediaStoreUrisRef := androidMediaStoreUrisRef s, androidMediaStorePathRef := androidMediaStorePathRef s\<rparr>"

lemma cancelled_report:
  assumes "as_cancelled r s" "engine_report e" "transferSeqRef r = 0" "transferMetadata r = None" "androidOpenUriRef r = []"
    "isExportPending r = False"
  shows "as_cancelled r (receiver_step env URL s e)"
proof -
  have f: "transferSeqRef s = 0" "transferMetadata s = None" "androidOpenUriRef s = []" "isExportPending s = False"
    using assms(1,3-) by (cases s; cases r; simp add: as_cancelled_def)+
  show ?thesis
  proof (cases e)
    case (RcTransfer now x)
    then show ?thesis using assms(1) f by (simp add: transfer_event_def)
  next
    case (RcFallback x)
    then show ?thesis
      using assms(1) f by (cases s; cases r) (simp add: as_cancelled_def download_fallback_def showAlert_def move_download_def Let_def)
  next
    case (RcMediaStore x us)
    then show ?thesis
      using assms(1) f by (cases s; cases r) (simp add: as_cancelled_def download_mediastore_def move_download_def Let_def)
  next
    case RcExportFinished
    then show ?thesis
      using assms(1) f by (cases s; cases r) (simp add: as_cancelled_def export_finished_def)
  qed (use assms(2) in \<open>simp_all add: engine_report_def\<close>)
qed

text \<open>
  C7. A cancel is final for the transfer it cancels as long as no new one starts: whatever transfer events
  of the engine still arrive, in any number and order, nothing changes. With the notices of the Android export among them, which are
  not guarded, at most the alert, the folder shown and the list of exported files change, never the session, and off Android nothing at
  all. And the answer to any preview that was requested before the cancel, or whose timer was set before it, is discarded.
\<close>

theorem cancelled_receive_silent:
  defines "run \<equiv> \<lambda>env URL uri path es. run_ops (receiver_step env URL) (useReceiver uri path) es"
    and "report \<equiv> \<lambda>e. case e of RcTransfer _ _ \<Rightarrow> True | RcFallback _ \<Rightarrow> True | RcMediaStore _ _ \<Rightarrow> True
                           | RcExportFinished \<Rightarrow> True | _ \<Rightarrow> False"
  shows "run_ops (receiver_step env URL) (resetForNewTransfer s) (map (\<lambda>(now, e). RcTransfer now e) late) =
      resetForNewTransfer s \<and>
    (\<exists>a p us q. run_ops (receiver_step env URL) (resetForNewTransfer s) (filter report evs) =
      (resetForNewTransfer s)\<lparr>alertDialog := a, rc_savePath := p, androidMediaStoreUrisRef := us, androidMediaStorePathRef := q\<rparr>) \<and>
    (ANDROID env \<or> run_ops (receiver_step env URL) (resetForNewTransfer s) (filter report evs) = resetForNewTransfer s) \<and>
    list_all (\<lambda>c. case c of
        FetchTicketMetadata seq t \<Rightarrow>
          preview_answer seq answer (resetForNewTransfer (run env URL uri path es)) =
          resetForNewTransfer (run env URL uri path es)
      | _ \<Rightarrow> True)
      (rc_calls (preview_timeout (run env URL uri path es)))"
proof -
  have "run_ops (receiver_step env URL) (resetForNewTransfer s) (map (\<lambda>(now, e). RcTransfer now e) late) =
      resetForNewTransfer s"
    by (induction late) (auto simp: transfer_event_def resetForNewTransfer_def rc_call_def)
  moreover have rep: "report = engine_report" by (simp add: report_def engine_report_def fun_eq_iff)
  have "as_cancelled (resetForNewTransfer s) (run_ops (receiver_step env URL) r (filter engine_report evs))"
    if "as_cancelled (resetForNewTransfer s) r" for r
    using that
    by (induction evs arbitrary: r)
      (simp_all add: cancelled_report resetForNewTransfer_def rc_call_def)
  moreover have "as_cancelled (resetForNewTransfer s) (resetForNewTransfer s)"
    by (cases "resetForNewTransfer s") (simp add: as_cancelled_def)
  moreover have "ANDROID env \<or> run_ops (receiver_step env URL) (resetForNewTransfer s) (filter engine_report evs) = resetForNewTransfer s"
  proof (induction evs)
    case (Cons e evs)
    have "ANDROID env \<or> receiver_step env URL (resetForNewTransfer s) e = resetForNewTransfer s" if "engine_report e"
      using that by (cases e) (auto simp: engine_report_def transfer_event_def download_fallback_def download_mediastore_def
          export_finished_def resetForNewTransfer_def rc_call_def)
    then show ?case using Cons by auto
  qed simp
  moreover have inv: "preview_inv (run env URL uri path es)" unfolding run_def by (rule preview_machine.reachable_inv)
  have "previewRequestSeqRef (preview_timeout r) = previewRequestSeqRef r" for r
    by (simp add: preview_timeout_def rc_call_def split: option.split)
  then have "list_all (preview_call_old (previewRequestSeqRef (run env URL uri path es)))
      (rc_calls (preview_timeout (run env URL uri path es)))"
    using preview_inv_timeout [OF inv] by (simp add: preview_inv_def)
  then have "list_all (\<lambda>c. case c of
        FetchTicketMetadata seq t \<Rightarrow>
          preview_answer seq answer (resetForNewTransfer (run env URL uri path es)) =
          resetForNewTransfer (run env URL uri path es)
      | _ \<Rightarrow> True)
      (rc_calls (preview_timeout (run env URL uri path es)))"
    by (rule list.pred_mono_strong)
      (auto simp: preview_call_old_def preview_answer_def resetForNewTransfer_def rc_call_def
        split: receiver_call.splits)
  ultimately show ?thesis unfolding rep as_cancelled_def by blast
qed

text \<open>On Android a notice of the export that comes after the cancel still moves the folder shown and opens an alert.\<close>

lemma late_fallback_after_cancel:
  assumes "ANDROID env" "js_trim p \<noteq> []"
  shows "let r = receiver_step env URL (resetForNewTransfer s) (RcFallback (FallbackText p)) in
    rc_savePath r = js_trim p \<and> al_isOpen (alertDialog r)"
  using assms by (simp add: download_fallback_def showAlert_def move_download_def resetForNewTransfer_def rc_call_def Let_def)

text \<open>
  C9. A finished receive frees the receiver. In every run, once the engine reports completion the session is busy
  only while an Android export is pending, and not at all once the export is done, even though the success screen is still up.
  A busy receiver answers an invite with a notice and leaves everything else alone; a free one starts the
  transfer with the invite's ticket, unless the ticket is blank or the download folder has to be looked up first.
\<close>

theorem finished_receive_frees_receiver:
  defines "run \<equiv> \<lambda>env URL uri path es. run_ops (receiver_step env URL) (useReceiver uri path) es"
  shows "isReceiveSessionBusy (receive_completed env now p (run env URL uri path es)) =
      (ANDROID env \<and> isExportPending (run env URL uri path es)) \<and>
    isReceiveSessionBusy (export_finished (receive_completed env now p s)) = False \<and>
    (if isReceiveSessionBusy s
     then acceptPairedInvite env i f s =
       s\<lparr>alertDialog := \<lparr>al_isOpen = True, al_title = tr env ''common:receiver.receiveBusyTitle'' [],
            al_description = tr env ''common:receiver.receiveBusyDescription'' [], al_type = AInfo\<rparr>\<rparr>
     else if js_trim (blob_ticket i) = [] \<or> js_trim (savePathRef s) = [] \<and> \<not> WEB env \<and> \<not> ANDROID env
     then rc_calls (acceptPairedInvite env i f s) = rc_calls s
     else (\<exists>tree shown sub.
       rc_calls (acceptPairedInvite env i f s) =
         rc_calls s @ [ReceiveFile (js_trim (blob_ticket i)) (js_trim (savePathRef s)) tree shown sub] \<and>
       isReceiveSessionBusy (acceptPairedInvite env i f s)))"
proof -
  have inv: "session_inv env (run env URL uri path es)" unfolding run_def by (rule session_machine.reachable_inv)
  have "isTransporting (receive_completed env now p s) = False \<and> isCompleted (receive_completed env now p s) \<and>
      isExportPending (receive_completed env now p s) = isExportPending s" for s
    by (auto simp: receive_completed_def rc_call_def showAlert_def Let_def split: option.splits)
  then have "isReceiveSessionBusy (receive_completed env now p (run env URL uri path es)) =
      (ANDROID env \<and> isExportPending (run env URL uri path es))"
    "isReceiveSessionBusy (export_finished (receive_completed env now p s)) = False"
    using inv by (auto simp: isReceiveSessionBusy_def session_inv_def export_finished_def)
  moreover have "if isReceiveSessionBusy s
     then acceptPairedInvite env i f s =
       s\<lparr>alertDialog := \<lparr>al_isOpen = True, al_title = tr env ''common:receiver.receiveBusyTitle'' [],
            al_description = tr env ''common:receiver.receiveBusyDescription'' [], al_type = AInfo\<rparr>\<rparr>
     else if js_trim (blob_ticket i) = [] \<or> js_trim (savePathRef s) = [] \<and> \<not> WEB env \<and> \<not> ANDROID env
     then rc_calls (acceptPairedInvite env i f s) = rc_calls s
     else (\<exists>tree shown sub.
       rc_calls (acceptPairedInvite env i f s) =
         rc_calls s @ [ReceiveFile (js_trim (blob_ticket i)) (js_trim (savePathRef s)) tree shown sub] \<and>
       isReceiveSessionBusy (acceptPairedInvite env i f s))"
    by (auto simp: acceptPairedInvite_def showAlert_def receiveWithTicket_def start_session_def
        call_receive_file_def rc_call_def Let_def isReceiveSessionBusy_def [of "_ \<lparr>rc_calls := _\<rparr>"])
  ultimately show ?thesis by blast
qed

text \<open>
  The guard on the transfer number tells only whether there is a current transfer: a completion that
  belongs to a cancelled one is taken for the one started since.
\<close>

lemma late_completion_taken:
  assumes "js_trim t \<noteq> []"
  shows "isCompleted (transfer_event env now (ReceiveCompleted p)
           (receiveWithTicket env t f (resetForNewTransfer s)))"
  using assms by (auto simp: transfer_event_def receive_completed_def receiveWithTicket_def start_session_def
      call_receive_file_def rc_call_def showAlert_def Let_def split: option.splits)

text \<open>The item count of a failed receive is kept for the next one.\<close>

lemma stale_item_count:
  assumes "js_trim t1 \<noteq> []" "js_trim t2 \<noteq> []" "transferItemCountRef s = None" "previewMetadataRef s = Some m1"
  shows "transferItemCountRef
      (receiveWithTicket env t2 f
         ((receive_failed env e (receiveWithTicket env t1 f s))\<lparr>previewMetadata := Some m2, previewMetadataRef := Some m2\<rparr>)) =
    Some (pm_itemCount m1)"
  using assms by (auto simp: receive_failed_def receiveWithTicket_def start_session_def call_receive_file_def
      rc_call_def showAlert_def Let_def split: option.splits)

end
