(* ===== verification/Progress_View.thy ===== *)
theory Progress_View
  imports Receiver
begin

text \<open>
  What a running and a finished transfer look like: \<open>components/common/TransferProgressBar.tsx\<close>,
  \<open>components/common/TransferSuccessScreen.tsx\<close>, \<open>components/common/FileCopyProgressDialog.tsx\<close>,
  \<open>components/receiver/TicketInput.tsx\<close>, \<open>components/receiver/ReceivingActiveCard.tsx\<close>,
  \<open>components/receiver/ReceiveSaveLocationPicker.tsx\<close> and \<open>components/receiver/Receiver.tsx\<close>.

  The arithmetic of the ring and the bars is that of doubles: \<open>rnd\<close> rounds a result to 53 binary digits, half to even, and is applied
  where the code divides or multiplies; the remainder \<open>%\<close> is exact. Exponents are not bounded, as the numbers here are
  neither huge nor, unless zero, below the range of doubles. Byte counts, speeds and durations, which only become texts with one or two decimals, are
  exact rationals. The geometry of the ring and the icons are not modelled. The text of a key is the key itself, and
  \<open>num\<close> is the text of a number in a template literal.
\<close>

section \<open>Doubles\<close>

text \<open>The largest \<open>k\<close> with \<open>2^k \<le> n\<close>, for a positive \<open>n\<close>.\<close>

function ilog2 :: "int \<Rightarrow> nat" where
  "ilog2 n = (if n \<le> 1 then 0 else Suc (ilog2 (n div 2)))"
  by pat_completeness auto

termination ilog2
  by (relation "measure nat") auto

declare ilog2.simps [simp del]

definition pow2 :: "int \<Rightarrow> rat" where
  "pow2 k = (if 0 \<le> k then 2 ^ nat k else 1 / 2 ^ nat (- k))"

text \<open>The exponent of a positive number: \<open>2^e \<le> x < 2^(e+1)\<close>.\<close>

definition binary_exponent :: "rat \<Rightarrow> int" where
  "binary_exponent x =
     (let (a, b) = quotient_of x; k = int (ilog2 a) - int (ilog2 b) in if pow2 k \<le> x then k else k - 1)"

text \<open>To the nearest integer, half to even.\<close>

definition round_even :: "rat \<Rightarrow> int" where
  "round_even m =
     (let f = \<lfloor>m\<rfloor>; d = m - of_int f in if d < 1 / 2 \<or> d = 1 / 2 \<and> even f then f else f + 1)"

definition rnd :: "rat \<Rightarrow> rat" where
  "rnd x =
     (if x = 0 then 0
      else (let y = \<bar>x\<bar>; u = pow2 (binary_exponent y - 52) in sgn x * (of_int (round_even (y / u)) * u)))"

section \<open>Segments\<close>

text \<open>\<open>x % m\<close>: the remainder has the sign of the dividend.\<close>

definition js_rem :: "rat \<Rightarrow> rat \<Rightarrow> rat" where
  "js_rem x m = x - m * of_int (if 0 \<le> x / m then \<lfloor>x / m\<rfloor> else \<lceil>x / m\<rceil>)"

definition filledSegments :: "nat \<Rightarrow> rat \<Rightarrow> int" where
  "filledSegments n p = \<lfloor>rnd (rnd (p / 100) * of_nat n)\<rfloor>"

definition isPartiallyFilled :: "nat \<Rightarrow> rat \<Rightarrow> nat \<Rightarrow> bool" where
  "isPartiallyFilled n p i \<longleftrightarrow> int i = filledSegments n p \<and> js_rem p (rnd (100 / of_nat n)) > 0"

definition SEGMENT_COUNT :: nat where
  "SEGMENT_COUNT = 18"

definition BAR_COUNT :: nat where
  "BAR_COUNT = 30"

text \<open>The part of a segment of the ring that is filled.\<close>

definition fillFraction :: "rat \<Rightarrow> nat \<Rightarrow> rat" where
  "fillFraction p i =
     (if int i < filledSegments SEGMENT_COUNT p then 1
      else if isPartiallyFilled SEGMENT_COUNT p i
      then rnd (js_rem p (rnd (100 / of_nat SEGMENT_COUNT)) / rnd (100 / of_nat SEGMENT_COUNT)) else 0)"

definition CircularRing :: "rat \<Rightarrow> rat list" where
  "CircularRing p = map (fillFraction p) [0..<SEGMENT_COUNT]"

text \<open>The height of a bar in percent.\<close>

definition fillPercentage :: "rat \<Rightarrow> nat \<Rightarrow> rat" where
  "fillPercentage p i =
     (if isPartiallyFilled BAR_COUNT p i
      then rnd (rnd (js_rem p (rnd (100 / of_nat BAR_COUNT)) / rnd (100 / of_nat BAR_COUNT)) * 100)
      else if \<not> int i < filledSegments BAR_COUNT p then 0 else 100)"

definition progress_bars :: "rat \<Rightarrow> rat list" where
  "progress_bars p = map (fillPercentage p) [0..<BAR_COUNT]"

definition formatSpeed :: "rat \<Rightarrow> string" where
  "formatSpeed bps =
     (let mbps = bps / (1024 * 1024); kbps = bps / 1024 in
      if mbps \<ge> 1 then js_to_fixed 2 mbps @ '' MB/s'' else js_to_fixed 2 kbps @ '' KB/s'')"

definition megabytes :: "int \<Rightarrow> string" where
  "megabytes b = js_to_fixed 2 (of_int b / (1024 * 1024))"

record progress_view =
  pv_ring :: "rat list"
  pv_bars :: "rat list"
  pv_percent :: string
  pv_speed :: string
  pv_bytes :: "string \<times> string"
  pv_eta :: "string option"

definition TransferProgressBar :: "TransferProgress \<Rightarrow> progress_view" where
  "TransferProgressBar p =
     \<lparr>pv_ring = CircularRing (percentage p), pv_bars = progress_bars (percentage p),
      pv_percent = js_to_fixed 1 (percentage p) @ ''%'', pv_speed = formatSpeed (speedBps p),
      pv_bytes = (megabytes (bytesTransferred p), megabytes (totalBytes p)),
      pv_eta = map_option (\<lambda>q. formatETA (Fin q)) (etaSeconds p)\<rparr>"

section \<open>The result\<close>

record SuccessMetadata =
  su_fileName :: string
  su_fileSize :: int
  su_duration :: rat
  su_downloadPath :: "string option"
  su_wasStopped :: bool
  su_pathType :: "TransferHistoryPathType option"
  su_itemCount :: "nat option"

definition formatDuration :: "(rat \<Rightarrow> string) \<Rightarrow> rat \<Rightarrow> string" where
  "formatDuration num ms =
     (if ms = 0 then ''NA''
      else if ms < 1000 then num ms @ ''ms''
      else if ms < 60000 then js_to_fixed 1 (ms / 1000) @ ''s''
      else show_nat (nat \<lfloor>ms / 60000\<rfloor>) @ ''m '' @ js_to_fixed 1 (js_rem ms 60000 / 1000) @ ''s'')"

definition result_speed :: "rat \<Rightarrow> string" where
  "result_speed bytesPerSecond = (if bytesPerSecond = 0 then ''NA'' else formatSpeed bytesPerSecond)"

definition calculateAverageSpeed :: "int \<Rightarrow> rat \<Rightarrow> rat" where
  "calculateAverageSpeed fileSizeBytes durationMs =
     (if durationMs = 0 then 0 else of_int fileSizeBytes / (durationMs / 1000))"

definition many_items :: "SuccessMetadata \<Rightarrow> bool" where
  "many_items m = (case su_itemCount m of None \<Rightarrow> False | Some n \<Rightarrow> n > 1)"

datatype success_control = OpenButton bool | DoneButton

record success_view =
  sv_title :: string
  sv_message :: string
  sv_kind :: string
  sv_name :: "string + nat"
  sv_path :: "string option"
  sv_size :: string
  sv_duration :: string
  sv_speed :: string
  sv_controls :: "success_control list"
  sv_donate :: bool

definition TransferSuccessScreen :: "(rat \<Rightarrow> string) \<Rightarrow> bool \<Rightarrow> bool \<Rightarrow> bool \<Rightarrow> SuccessMetadata \<Rightarrow> success_view" where
  "TransferSuccessScreen num IS_WEB has_onOpenFolder isOpenPending m =
     (let wasStopped = su_wasStopped m; isDirectory = (su_pathType m = Some HDirectory) in
      \<lparr>sv_title = (if wasStopped then ''common:transfer.stopped'' else ''common:transfer.complete''),
       sv_message = (if wasStopped then ''common:transfer.wasStopped'' else ''common:transfer.successMessage''),
       sv_kind = (if many_items m then ''common:transfer.files''
                  else if isDirectory then ''common:transfer.folder'' else ''common:transfer.file''),
       sv_name = (if many_items m then Inr (the (su_itemCount m)) else Inl (su_fileName m)),
       sv_path = (case su_downloadPath m of None \<Rightarrow> None | Some p \<Rightarrow> if p = [] then None else Some p),
       sv_size = (if wasStopped then ''NA'' else formatFileSize ''NA'' 1 1 (nat (su_fileSize m))),
       sv_duration = (if wasStopped then ''NA'' else formatDuration num (su_duration m)),
       sv_speed = (if wasStopped then ''NA''
                   else result_speed (calculateAverageSpeed (su_fileSize m) (su_duration m))),
       sv_controls = (if has_onOpenFolder \<and> \<not> IS_WEB then [OpenButton isOpenPending, DoneButton] else [DoneButton]),
       sv_donate = (\<not> wasStopped)\<rparr>)"

section \<open>Copying on Android\<close>

definition formatBytes :: "rat \<Rightarrow> string" where
  "formatBytes bytes =
     (if bytes \<ge> 1024 * 1024 * 1024 then js_to_fixed 2 (bytes / (1024 * 1024 * 1024)) @ '' GB''
      else js_to_fixed 1 (bytes / (1024 * 1024)) @ '' MB'')"

text \<open>\<open>progress\<close> is \<^const>\<open>None\<close> when it is not finite; \<open>total\<close> is the parsed number of bytes.\<close>

definition copy_percent :: "rat option \<Rightarrow> int" where
  "copy_percent progress = (case progress of None \<Rightarrow> 0 | Some q \<Rightarrow> \<lfloor>q * 100 + 1 / 2\<rfloor>)"

record copy_dialog =
  cd_open :: bool
  cd_visible :: bool
  cd_timer :: bool

definition copy_dialog_start :: copy_dialog where
  "copy_dialog_start = \<lparr>cd_open = False, cd_visible = False, cd_timer = False\<rparr>"

datatype copy_event = CdOpen bool | CdElapsed   \<comment> \<open>the property changes; the timer of 500 ms fires\<close>

fun copy_dialog_step :: "copy_dialog \<Rightarrow> copy_event \<Rightarrow> copy_dialog" where
  "copy_dialog_step s (CdOpen b) =
     (if b = cd_open s then s
      else if b then s\<lparr>cd_open := True, cd_timer := True\<rparr>
      else s\<lparr>cd_open := False, cd_timer := False, cd_visible := False\<rparr>)"
| "copy_dialog_step s CdElapsed = (if cd_timer s then s\<lparr>cd_timer := False, cd_visible := True\<rparr> else s)"

section \<open>The ticket and its preview\<close>

definition getThumbnailSrc :: "string option \<Rightarrow> string option" where
  "getThumbnailSrc thumbnail =
     (case thumbnail of
        None \<Rightarrow> None
      | Some t \<Rightarrow>
          if t = [] then None
          else Some (if js_starts_with t ''data:'' then t else ''data:image/jpeg;base64,'' @ t))"

definition thumbnailKey :: "string \<Rightarrow> string option \<Rightarrow> string option" where
  "thumbnailKey fileName thumbnail =
     (case thumbnail of
        None \<Rightarrow> None
      | Some t \<Rightarrow> if t \<noteq> [] \<and> fileName \<noteq> [] then Some (fileName @ '':'' @ t) else None)"

record preview_card =
  pc_failed :: "string list"
  pc_expanded :: bool

definition hasFailedThumbnail :: "string option \<Rightarrow> preview_card \<Rightarrow> bool" where
  "hasFailedThumbnail key s = (case key of None \<Rightarrow> False | Some k \<Rightarrow> k \<noteq> [] \<and> k \<in> set (pc_failed s))"

definition markThumbnailFailed :: "string option \<Rightarrow> preview_card \<Rightarrow> preview_card" where
  "markThumbnailFailed key s =
     (case key of None \<Rightarrow> s | Some k \<Rightarrow> if k = [] then s else s\<lparr>pc_failed := js_set_add (pc_failed s) k\<rparr>)"

definition isCollectionPreview :: "TicketPreviewMetadata \<Rightarrow> bool" where
  "isCollectionPreview m \<longleftrightarrow> pm_itemCount m > 1 \<or> pm_mimeType m = Some ''application/x-iroh-collection''"

definition previewItems :: "TicketPreviewMetadata \<Rightarrow> TicketPreviewItem list" where
  "previewItems m = (case pm_items m of None \<Rightarrow> [] | Some xs \<Rightarrow> xs)"

definition canExpandPreviewList :: "TicketPreviewMetadata \<Rightarrow> bool" where
  "canExpandPreviewList m \<longleftrightarrow> length (previewItems m) > 1"

text \<open>The image shown for an item, or \<^const>\<open>None\<close> for an icon.\<close>

definition shown_thumbnail :: "string \<Rightarrow> string option \<Rightarrow> preview_card \<Rightarrow> string option" where
  "shown_thumbnail fileName thumbnail s =
     (case getThumbnailSrc thumbnail of
        None \<Rightarrow> None
      | Some src \<Rightarrow> if hasFailedThumbnail (thumbnailKey fileName thumbnail) s then None else Some src)"

definition card_thumbnail :: "TicketPreviewMetadata \<Rightarrow> preview_card \<Rightarrow> string option" where
  "card_thumbnail m s =
     (if isCollectionPreview m then None else shown_thumbnail (pm_fileName m) (pm_thumbnail m) s)"

datatype preview_name = FoundSeveral | NameAndMore string nat | PlainName string

definition previewDisplayName :: "TicketPreviewMetadata \<Rightarrow> preview_card \<Rightarrow> preview_name" where
  "previewDisplayName m s =
     (if canExpandPreviewList m \<and> pc_expanded s then FoundSeveral
      else if pm_itemCount m > 1 then NameAndMore (pm_fileName m) (pm_itemCount m - 1)
      else PlainName (pm_fileName m))"

text \<open>The two ways to start a download, and the note shown before the preview.\<close>

definition enter_receives :: "bool \<Rightarrow> bool \<Rightarrow> receiver \<Rightarrow> bool" where
  "enter_receives is_enter shift s \<longleftrightarrow> is_enter \<and> \<not> shift \<and> js_trim (rc_ticket s) \<noteq> [] \<and> \<not> isReceiving s"

definition receive_button_enabled :: "receiver \<Rightarrow> bool" where
  "receive_button_enabled s \<longleftrightarrow> \<not> (js_trim (rc_ticket s) = [] \<or> isReceiving s)"

definition connecting_note :: "receiver \<Rightarrow> bool" where
  "connecting_note s \<longleftrightarrow> isPreviewLoading s \<and> js_trim (rc_ticket s) \<noteq> [] \<and> previewMetadata s = None"

section \<open>The receiving screens\<close>

definition receiving_status :: "receiver \<Rightarrow> string" where
  "receiving_status s =
     (if isCompleted s then ''common:receiver.downloadCompleted''
      else if isTransporting s then ''common:receiver.downloadingInProgress''
      else ''common:receiver.connectingToSender'')"

definition ReceivingActiveCard :: "receiver \<Rightarrow> string \<times> progress_view option" where
  "ReceivingActiveCard s =
     (receiving_status s,
      if isTransporting s then map_option TransferProgressBar (transferProgress s) else None)"

datatype receiver_screen = TicketScreen | ReceivedScreen TransferMetadata | ReceivingScreen

definition Receiver_screen :: "receiver \<Rightarrow> receiver_screen" where
  "Receiver_screen s =
     (if \<not> isReceiving s then TicketScreen
      else (case transferMetadata s of
              Some m \<Rightarrow> if isCompleted s then ReceivedScreen m else ReceivingScreen
            | None \<Rightarrow> ReceivingScreen))"

record save_location_view =
  sl_clickable :: bool
  sl_label :: string
  sl_text :: string
  sl_hint :: "string option"

definition ReceiveSaveLocationPicker :: "bool \<Rightarrow> bool \<Rightarrow> bool \<Rightarrow> bool \<Rightarrow> string \<Rightarrow> save_location_view" where
  "ReceiveSaveLocationPicker IS_WEB IS_ANDROID supports_picker disabled savePath =
     (let canPick = (if IS_WEB then supports_picker else True);
          none = (if IS_WEB \<and> \<not> canPick then ''common:receiver.browserDownloadsFallback''
                  else if IS_ANDROID then ''common:receiver.appDownloadsDefault''
                  else ''common:receiver.noFolderSelected'') in
      \<lparr>sl_clickable = (canPick \<and> \<not> disabled),
       sl_label = (if IS_WEB then ''common:receiver.saveLocation'' else ''common:receiver.saveToFolder''),
       sl_text = js_or (formatReceiveSavePath IS_ANDROID (Some savePath)) none,
       sl_hint = (if IS_WEB \<and> \<not> canPick then Some ''common:receiver.browserDownloadsHint''
                  else if IS_ANDROID \<and> savePath = [] then Some ''common:receiver.appDownloadsHint'' else None)\<rparr>)"

section \<open>Rounding\<close>

lemma ilog2_bounds: "1 \<le> n \<Longrightarrow> 2 ^ ilog2 n \<le> n \<and> n < 2 ^ Suc (ilog2 n)"
proof (induction n rule: ilog2.induct)
  case (1 n)
  show ?case
  proof (cases "n \<le> 1")
    case True
    then have "n = 1" using 1 by simp
    then show ?thesis by (simp add: ilog2.simps [of 1])
  next
    case False
    then have "2 ^ ilog2 (n div 2) \<le> n div 2 \<and> n div 2 < 2 ^ Suc (ilog2 (n div 2))" using 1 by simp
    then show ?thesis using False by (auto simp: ilog2.simps [of n])
  qed
qed

lemma pow2_pos [simp]: "0 < pow2 k"
  by (simp add: pow2_def)

lemma pow2_add: "pow2 (j + k) = pow2 j * pow2 k"
proof -
  have "pow2 k = 2 powi k" for k by (simp add: pow2_def power_int_def inverse_eq_divide power_one_over)
  then show ?thesis by (simp add: power_int_add)
qed

lemma pow2_nat: "pow2 (int k) = 2 ^ k"
  by (simp add: pow2_def)

lemma exponent_bounds:
  assumes "0 < x"
  shows "pow2 (binary_exponent x) \<le> x" "x < pow2 (binary_exponent x + 1)"
proof -
  obtain a b where q: "quotient_of x = (a, b)" by fastforce
  have x: "x = of_int a / of_int b" and b: "0 < b" using quotient_of_div [OF q] quotient_of_denom_pos [OF q] by simp_all
  then have a: "0 < a" using assms by (simp add: zero_less_divide_iff)
  define k where "k = int (ilog2 a) - int (ilog2 b)"
  have split: "pow2 (int i) = pow2 (int i - int j) * pow2 (int j)" for i j using pow2_add [of "int i - int j" "int j"] by simp
  have bb: "(of_int b :: rat) < 2 * pow2 (int (ilog2 b))" "pow2 (int (ilog2 b)) \<le> (of_int b :: rat)"
    using ilog2_bounds [of b] b of_int_less_iff [of b "2 ^ Suc (ilog2 b)", where ?'a = rat]
      of_int_le_iff [of "2 ^ ilog2 b" b, where ?'a = rat] by (simp_all add: pow2_nat)
  have aa: "(of_int a :: rat) < 2 * pow2 (int (ilog2 a))" "pow2 (int (ilog2 a)) \<le> (of_int a :: rat)"
    using ilog2_bounds [of a] a of_int_less_iff [of a "2 ^ Suc (ilog2 a)", where ?'a = rat]
      of_int_le_iff [of "2 ^ ilog2 a" a, where ?'a = rat] by (simp_all add: pow2_nat)
  have half: "pow2 (k - 1) = pow2 k / 2" "pow2 (k + 1) = 2 * pow2 k"
    using pow2_add [of "k - 1" 1] pow2_add [of k 1] by (simp_all add: pow2_def [of 1])
  have ab: "pow2 (int (ilog2 a)) = pow2 k * pow2 (int (ilog2 b))" using split [of "ilog2 a" "ilog2 b"] by (simp add: k_def)
  have "pow2 k * of_int b < pow2 k * (2 * pow2 (int (ilog2 b)))" by (rule mult_strict_left_mono [OF bb(1) pow2_pos])
  also have "\<dots> \<le> 2 * of_int a" using aa(2) ab by (simp add: mult.left_commute)
  finally have "pow2 k * of_int b < 2 * of_int a" .
  then have lo: "pow2 (k - 1) \<le> x" using b by (simp add: x half field_simps)
  have "2 * pow2 k * pow2 (int (ilog2 b)) \<le> 2 * pow2 k * of_int b"
    by (rule mult_left_mono [OF bb(2)]) (simp add: less_imp_le)
  moreover have "of_int a < 2 * pow2 k * pow2 (int (ilog2 b))" using aa(1) unfolding ab mult.assoc .
  ultimately have "of_int a < 2 * pow2 k * of_int b" by (rule less_le_trans [rotated])
  then have hi: "x < pow2 (k + 1)" using b by (simp add: x half pos_divide_less_eq)
  have "binary_exponent x = (if pow2 k \<le> x then k else k - 1)" by (simp add: binary_exponent_def q k_def)
  then show "pow2 (binary_exponent x) \<le> x" "x < pow2 (binary_exponent x + 1)" using lo hi by auto
qed

lemma round_even_close: "\<bar>of_int (round_even m) - m\<bar> \<le> 1 / 2"
  using floor_correct [of m] by (auto simp: round_even_def Let_def abs_le_iff field_simps split: if_splits)

lemma round_even_between: "of_int c \<le> m \<Longrightarrow> c \<le> round_even m" "m \<le> of_int c \<Longrightarrow> round_even m \<le> c"
proof -
  assume "of_int c \<le> m"
  then have "c \<le> \<lfloor>m\<rfloor>" by (simp add: le_floor_iff)
  then show "c \<le> round_even m" by (simp add: round_even_def Let_def)
next
  assume m: "m \<le> of_int c"
  then have "\<lfloor>m\<rfloor> \<le> c" by linarith
  moreover have "\<lfloor>m\<rfloor> < c" if "m - of_int \<lfloor>m\<rfloor> > 0" using that m by linarith
  ultimately show "round_even m \<le> c" by (auto simp: round_even_def Let_def)
qed

lemma rnd_pos: "0 < x \<Longrightarrow> rnd x = of_int (round_even (x / pow2 (binary_exponent x - 52))) * pow2 (binary_exponent x - 52)"
  by (simp add: rnd_def Let_def)

text \<open>The relative error, and that rounding does not cross an integer.\<close>

lemma rnd_error:
  assumes "0 \<le> x"
  shows "\<bar>rnd x - x\<bar> \<le> x / 2 ^ 53"
proof (cases "x = 0")
  case False
  then have x: "0 < x" using assms by simp
  define u where "u = pow2 (binary_exponent x - 52)"
  have u: "0 < u" by (simp add: u_def)
  have "pow2 (binary_exponent x) = u * 2 ^ 52" using pow2_add [of "binary_exponent x - 52" 52] by (simp add: u_def pow2_def [of 52])
  then have xu: "u * 2 ^ 52 \<le> x" using exponent_bounds(1) [OF x] by simp
  have "\<bar>rnd x - x\<bar> = \<bar>of_int (round_even (x / u)) - x / u\<bar> * u"
    using u by (simp add: rnd_pos [OF x] u_def [symmetric] abs_mult_pos left_diff_distrib)
  also have "\<dots> \<le> 1 / 2 * u" using round_even_close [of "x / u"] u by (intro mult_right_mono) simp_all
  also have "\<dots> \<le> x / 2 ^ 53" using xu by simp
  finally show ?thesis .
qed (simp add: rnd_def)

lemma rnd_between:
  assumes "0 \<le> x" "x < 2 ^ 52"
  shows "of_int c \<le> x \<Longrightarrow> of_int c \<le> rnd x" "x \<le> of_int c \<Longrightarrow> rnd x \<le> of_int c"
proof -
  have "(of_int c \<le> x \<longrightarrow> of_int c \<le> rnd x) \<and> (x \<le> of_int c \<longrightarrow> rnd x \<le> of_int c)"
  proof (cases "x = 0")
    case False
    then have x: "0 < x" using assms by simp
    define u where "u = pow2 (binary_exponent x - 52)"
    have u: "0 < u" by (simp add: u_def)
    have "binary_exponent x < 52"
    proof (rule ccontr)
      assume "\<not> binary_exponent x < 52"
      then have "1 \<le> pow2 (binary_exponent x - 52)" by (simp add: pow2_def)
      moreover have "pow2 (binary_exponent x) = pow2 (binary_exponent x - 52) * 2 ^ 52"
        using pow2_add [of "binary_exponent x - 52" 52] by (simp add: pow2_def [of 52])
      ultimately have "(2 :: rat) ^ 52 \<le> pow2 (binary_exponent x)" by simp
      then show False using exponent_bounds(1) [OF x] assms(2) by simp
    qed
    then have "of_int c / u = of_int (c * 2 ^ nat (52 - binary_exponent x))"
      by (simp add: u_def pow2_def)
    then obtain d where d: "of_int c / u = of_int d" by blast
    have r: "rnd x = of_int (round_even (x / u)) * u" by (simp add: rnd_pos [OF x] u_def)
    have c: "of_int c = of_int d * u" using d u by (simp add: field_simps)
    show ?thesis
      using round_even_between(1) [of d "x / u"] round_even_between(2) [of "x / u" d] u by (auto simp: r c pos_le_divide_eq pos_divide_le_eq intro!: mult_right_mono)
  qed (simp add: rnd_def)
  then show "of_int c \<le> x \<Longrightarrow> of_int c \<le> rnd x" "x \<le> of_int c \<Longrightarrow> rnd x \<le> of_int c" by blast+
qed

lemma rnd_int: "0 \<le> c \<Longrightarrow> c < 2 ^ 52 \<Longrightarrow> rnd (of_int c) = of_int c"
  using rnd_between [of "of_int c" c] of_int_less_iff [of c "2 ^ 52", where ?'a = rat] by simp

section \<open>Segments add up\<close>

text \<open>One segment out of \<open>n\<close>; \<open>scale\<close> turns the part that is filled into what is drawn.\<close>

definition segment_part :: "nat \<Rightarrow> rat \<Rightarrow> rat" where
  "segment_part n p = rnd (js_rem p (rnd (100 / of_nat n)) / rnd (100 / of_nat n))"

lemma part_bounds:
  assumes "0 \<le> p" "0 < n" "n \<le> 100"
  shows "0 \<le> segment_part n p" "segment_part n p \<le> 1" "0 \<le> rnd (segment_part n p * 100)" "rnd (segment_part n p * 100) \<le> 100"
proof -
  have n: "1 \<le> (of_nat n :: rat)" "(of_nat n :: rat) \<le> 100" using assms(2,3) by simp_all
  then have "(1 :: rat) \<le> 100 / of_nat n" "100 / of_nat n < (2 ^ 52 :: rat)" by (simp_all add: divide_simps)
  then have w: "1 \<le> rnd (100 / of_nat n)" using rnd_between(1) [of "100 / of_nat n" 1] by simp
  define w where "w = rnd (100 / of_nat n)"
  have f: "0 \<le> p / w" using assms(1) w by (simp add: w_def)
  have "js_rem p w / w = p / w - of_int \<lfloor>p / w\<rfloor>" using f w by (simp add: js_rem_def w_def [symmetric] diff_divide_distrib)
  then have r: "0 \<le> js_rem p w / w" "js_rem p w / w \<le> 1" by linarith+
  then show p: "0 \<le> segment_part n p" "segment_part n p \<le> 1"
    using rnd_between(1) [of "js_rem p w / w" 0] rnd_between(2) [of "js_rem p w / w" 1] by (simp_all add: segment_part_def w_def)
  then show "0 \<le> rnd (segment_part n p * 100)" "rnd (segment_part n p * 100) \<le> 100"
    using rnd_between(1) [of "segment_part n p * 100" 0] rnd_between(2) [of "segment_part n p * 100" 100] by simp_all
qed

lemma filled_bounds:
  assumes "0 \<le> p" "p \<le> 100" "n \<le> 100"
  shows "0 \<le> filledSegments n p" "filledSegments n p \<le> int n"
    "of_int (filledSegments n p) \<le> p / 100 * of_nat n + of_nat n / 2 ^ 51"
    "p / 100 * of_nat n - of_nat n / 2 ^ 51 - 1 \<le> of_int (filledSegments n p)"
proof -
  define x where "x = p / 100"
  have x: "0 \<le> x" "x \<le> 1" using assms by (simp_all add: x_def)
  have y: "0 \<le> rnd x" "rnd x \<le> 1" using rnd_between(1) [of x 0] rnd_between(2) [of x 1] x by simp_all
  define z where "z = rnd x * of_nat n"
  have z: "0 \<le> z" "z \<le> of_nat n" using y by (simp_all add: z_def mult_left_le_one_le)
  have n: "(of_nat n :: rat) \<le> 100" using assms(3) by simp
  then have "z < 2 ^ 52" using z by simp
  then have q: "0 \<le> rnd z" "rnd z \<le> of_nat n"
    using rnd_between(1) [of z 0] rnd_between(2) [of z "int n"] z by simp_all
  have F: "filledSegments n p = \<lfloor>rnd z\<rfloor>" by (simp add: filledSegments_def z_def x_def)
  show "0 \<le> filledSegments n p" "filledSegments n p \<le> int n" using q by (simp_all add: F) linarith
  have "\<bar>rnd x - x\<bar> \<le> 1 / 2 ^ 53" using rnd_error [OF x(1)] divide_right_mono [OF x(2), of "2 ^ 53"] by simp
  then have "\<bar>z - x * of_nat n\<bar> \<le> of_nat n / 2 ^ 53"
    using mult_right_mono [of "\<bar>rnd x - x\<bar>" "1 / 2 ^ 53" "of_nat n"]
    by (simp add: z_def abs_mult left_diff_distrib [symmetric])
  moreover have "\<bar>rnd z - z\<bar> \<le> of_nat n / 2 ^ 53"
    using rnd_error [OF z(1)] divide_right_mono [OF z(2), of "2 ^ 53"] by simp
  ultimately have "\<bar>rnd z - x * of_nat n\<bar> \<le> of_nat n / 2 ^ 53 + of_nat n / 2 ^ 53" by linarith
  also have "\<dots> \<le> of_nat n / 2 ^ 51" by simp
  finally show "of_int (filledSegments n p) \<le> p / 100 * of_nat n + of_nat n / 2 ^ 51"
    "p / 100 * of_nat n - of_nat n / 2 ^ 51 - 1 \<le> of_int (filledSegments n p)"
    unfolding F x_def by linarith+
qed

text \<open>A row whose first \<open>k\<close> segments are full and whose next one has the part \<open>t\<close>.\<close>

definition filled_row :: "int \<Rightarrow> rat \<Rightarrow> nat \<Rightarrow> rat" where
  "filled_row k t i = (if int i < k then 1 else if int i = k then t else 0)"

lemma row_sum:
  assumes "0 \<le> k" "k \<le> int n" "0 \<le> t" "t \<le> 1"
  shows "of_int k \<le> (\<Sum>i<n. filled_row k t i)" "(\<Sum>i<n. filled_row k t i) \<le> of_int k + 1"
proof -
  have sum: "(\<Sum>i<m. filled_row k t i) = (if int m \<le> k then of_nat m else of_int k + t)" for m
  proof (induction m)
    case (Suc m)
    consider "int m < k" | "int m = k" | "k < int m" by linarith
    then show ?case using Suc by cases (auto simp: filled_row_def)
  qed (use assms(1) in simp)
  have "(of_nat n :: rat) = of_int k" if "int n \<le> k" using that assms(2) by (metis antisym of_int_of_nat_eq)
  then show "of_int k \<le> (\<Sum>i<n. filled_row k t i)" "(\<Sum>i<n. filled_row k t i) \<le> of_int k + 1"
    using assms(3,4) by (auto simp: sum)
qed

lemma row_bounds: "0 \<le> t \<Longrightarrow> t \<le> 1 \<Longrightarrow> 0 \<le> filled_row k t i \<and> filled_row k t i \<le> 1"
  by (simp add: filled_row_def)

lemma row_order: "i < j \<Longrightarrow> 0 < filled_row k t j \<Longrightarrow> filled_row k t i = 1"
  by (auto simp: filled_row_def split: if_splits)

lemma row_total:
  assumes "0 \<le> p" "p \<le> 100" "0 \<le> t" "t \<le> 1" "n \<le> 100"
  shows "\<bar>(\<Sum>i<n. filled_row (filledSegments n p) t i) - p / 100 * of_nat n\<bar> \<le> 1 + of_nat n / 2 ^ 51"
proof -
  note b = filled_bounds [OF assms(1,2,5)]
  note r = row_sum [OF b(1,2) assms(3,4)]
  show ?thesis using b(3,4) r by linarith
qed

lemma filled_ends: "n \<le> 100 \<Longrightarrow> filledSegments n 0 = 0" "n \<le> 100 \<Longrightarrow> filledSegments n 100 = int n"
  using rnd_int [of 1] rnd_int [of "int n"] by (simp_all add: filledSegments_def rnd_def [of 0])

definition has_rest :: "nat \<Rightarrow> rat \<Rightarrow> bool" where
  "has_rest n p \<longleftrightarrow> js_rem p (rnd (100 / of_nat n)) > 0"

lemma ring_row: "fillFraction p i = filled_row (filledSegments 18 p) (if has_rest 18 p then segment_part 18 p else 0) i"
  by (simp add: fillFraction_def filled_row_def isPartiallyFilled_def SEGMENT_COUNT_def segment_part_def has_rest_def)

lemma bar_row:
  "fillPercentage p i = 100 * filled_row (filledSegments 30 p) ((if has_rest 30 p then rnd (segment_part 30 p * 100) else 0) / 100) i"
  by (simp add: fillPercentage_def filled_row_def isPartiallyFilled_def BAR_COUNT_def segment_part_def has_rest_def)



text \<open>
  At ten percent three bars are full and a fourth one is drawn full to less than a tenth of a percent: the width of a bar, 100/30, is rounded up, so
  its remainder in 10 is almost a whole width instead of nothing.
\<close>

lemma extra_bar_at_ten_percent:
  "map (fillPercentage 10) [0..<3] = [100, 100, 100] \<and> 999 / 10 < fillPercentage 10 3 \<and> fillPercentage 10 4 = 0"
proof -
  have f: "filledSegments 30 10 = 3" by code_simp
  have "map (fillPercentage 10) [0..<3] = [100, 100, 100] \<and> fillPercentage 10 4 = 0"
    by (simp add: bar_row filled_row_def f upt_rec numeral_3_eq_3)
  moreover have "999 / 10 < fillPercentage 10 3" by code_simp
  ultimately show ?thesis by blast
qed

text \<open>
  A duration just below a full minute is rounded up without carrying: it reads sixty seconds.
\<close>

theorem result_duration_reads_sixty:
  "formatDuration num 59960 = ''60.0s'' \<and> formatDuration num 119960 = ''1m 60.0s''"
proof -
  have "\<lfloor>6001 / 10 :: rat\<rfloor> = 600" "\<lfloor>2999 / 1500 :: rat\<rfloor> = 1" by (rule floor_unique; simp)+
  moreover have "show_nat 60 = ''60''" "show_nat 0 = ''0''" "show_nat (Suc 0) = ''1''" by code_simp+
  ultimately show ?thesis
    by (simp add: formatDuration_def js_to_fixed_def js_rem_def js_pad_zeros_def)
qed

section \<open>The dialog and the ticket\<close>

text \<open>The copy dialog appears only while a copy runs, and a copy that ends first never shows it.\<close>

definition copy_dialog_inv :: "copy_dialog \<Rightarrow> bool" where
  "copy_dialog_inv s \<longleftrightarrow> (if cd_open s then cd_timer s \<noteq> cd_visible s else \<not> cd_timer s \<and> \<not> cd_visible s)"

interpretation copy_dialog: state_machine copy_dialog_start copy_dialog_step copy_dialog_inv
proof
  show "copy_dialog_inv (copy_dialog_step s e)" if "copy_dialog_inv s" for s e
    using that by (cases e) (auto simp: copy_dialog_inv_def split: if_splits)
qed (simp add: copy_dialog_inv_def copy_dialog_start_def)

theorem copy_dialog_shown:
  fixes es :: "copy_event list"
  defines "s \<equiv> run_ops copy_dialog_step copy_dialog_start es"
  shows "(if cd_visible s then cd_open s else True) \<and>
    cd_visible (run_ops copy_dialog_step s [CdOpen False, CdElapsed]) = False \<and>
    cd_visible (run_ops copy_dialog_step s [CdOpen True, CdElapsed])"
  using copy_dialog.reachable_inv [of es] by (auto simp: s_def [symmetric] copy_dialog_inv_def split: if_splits)

text \<open>The key and the button start a download under the same condition, and a failed image is not shown again.\<close>

theorem ticket_controls_agree:
  "enter_receives True False s = receive_button_enabled s \<and>
   (if fileName \<noteq> [] then shown_thumbnail fileName th (markThumbnailFailed (thumbnailKey fileName th) c) = None else True) \<and>
   (if thumbnailKey f th \<noteq> thumbnailKey f' th'
    then shown_thumbnail f th (markThumbnailFailed (thumbnailKey f' th') c) = shown_thumbnail f th c else True)"
  by (auto simp: enter_receives_def receive_button_enabled_def shown_thumbnail_def getThumbnailSrc_def
    thumbnailKey_def hasFailedThumbnail_def markThumbnailFailed_def js_set_add_def split: option.splits)

end
