(* ===== verification/Sender.thy ===== *)
theory Sender
  imports Receiver Nearby
begin

text \<open>
  The sending side of the window: \<open>store/sender-store.ts\<close>, \<open>hooks/useSender.ts\<close>,
  \<open>store/nearby-verification-store.ts\<close>, \<open>hooks/use-transfer-busy.ts\<close> and the choice of the screen in
  \<open>components/sender/Sender.tsx\<close>.

  The state is the store, the hook's state and refs, and the work that is under way: continuations after an
  \<open>await\<close> or a timer are entries of a list with the values they captured, and the operation that runs one
  takes it out of the list. Native calls and toasts are logged. The interval that copies the progress is
  the view in which it copies. An ellipsis at the end of a shortened endpoint id is written \<open>...\<close>.
\<close>

section \<open>The store\<close>

datatype SenderViewState = IDLE | SHARING | TRANSPORTING | SUCCESS

record SendMetadata =
  sm_fileName :: string
  sm_fileSize :: int
  sm_duration :: rat
  sm_startTime :: nat
  sm_endTime :: nat
  sm_wasStopped :: bool
  sm_pathType :: "TransferHistoryPathType option"
  sm_itemCount :: nat

datatype PairedInviteStatus = InvSending | InvSent | InvFailed

datatype sender_call =
    SendItems "string list"
  | StopSharing
  | GetFileSize string
  | CheckPathType string
  | InviteDevice bool string string nat nat     \<comment> \<open>nearby, endpoint, ticket, files, bytes\<close>
  | CountSend string
  | CopyText string
  | Toast string string
  | ShowVerification string string              \<comment> \<open>endpoint and name\<close>
  | ListPaired

text \<open>A completion that waits ten milliseconds, with what it read before.\<close>

record completion_job =
  cj_payload :: jsval
  cj_broadcast :: bool
  cj_selectedPath :: string
  cj_pathType :: "TransferHistoryPathType option"
  cj_itemCount :: nat

record invite_job =
  ij_endpoint :: string
  ij_nearby :: bool
  ij_ticket :: string
  ij_files :: nat
  ij_known_size :: "nat option"                 \<comment> \<open>of the result shown when it was clicked\<close>
  ij_name :: string

record sender =
  viewState :: SenderViewState
  sd_ticket :: "string option"
  selectedPaths :: "string list"
  selectedPath :: "string option"
  pathType :: "TransferHistoryPathType option"
  thumbnailUrl :: "string option"
  sd_metadata :: "SendMetadata option"
  sd_progress :: "TransferProgress option"
  sd_isLoading :: bool
  copySuccess :: bool
  isBroadcastMode :: bool
  sd_alert :: AlertDialogState
  activeConnectionCount :: int
  pairedDevices :: "PairedDevice list"
  pairedInviteStatus :: "(string \<times> PairedInviteStatus) list"
  latestProgressRef :: "TransferProgress option"
  sd_startTimeRef :: "nat option"
  progressInterval :: "SenderViewState option"
  wasManuallyStoppedRef :: bool
  selectedPathRef :: "string option"
  pathTypeRef :: "TransferHistoryPathType option"
  completions :: "completion_job list"
  size_requests :: "SendMetadata list"
  broadcast_timers :: nat
  stop_requests :: "bool list"
  invite_jobs :: "invite_job list"
  invite_timers :: "string list"
  sd_calls :: "sender_call list"

definition sender_start :: sender where
  "sender_start =
     \<lparr>viewState = IDLE, sd_ticket = None, selectedPaths = [], selectedPath = None, pathType = None,
      thumbnailUrl = None, sd_metadata = None, sd_progress = None, sd_isLoading = False, copySuccess = False,
      isBroadcastMode = False,
      sd_alert = \<lparr>al_isOpen = False, al_title = [], al_description = [], al_type = AInfo\<rparr>,
      activeConnectionCount = 0, pairedDevices = [], pairedInviteStatus = [], latestProgressRef = None,
      sd_startTimeRef = None, progressInterval = None, wasManuallyStoppedRef = False,
      selectedPathRef = None, pathTypeRef = None, completions = [], size_requests = [],
      broadcast_timers = 0, stop_requests = [], invite_jobs = [], invite_timers = [], sd_calls = []\<rparr>"

definition first_path :: "string list \<Rightarrow> string option" where
  "first_path ps = (case ps of [] \<Rightarrow> None | p # _ \<Rightarrow> Some p)"

definition setSelectedPaths :: "string list \<Rightarrow> sender \<Rightarrow> sender" where
  "setSelectedPaths ps s = s\<lparr>selectedPaths := ps, selectedPath := first_path ps\<rparr>"

definition addSelectedPaths :: "string list \<Rightarrow> sender \<Rightarrow> sender" where
  "addSelectedPaths ps s = setSelectedPaths (foldl js_set_add (selectedPaths s) ps) s"

definition store_removeSelectedPath :: "string \<Rightarrow> sender \<Rightarrow> sender" where
  "store_removeSelectedPath path s =
     (let ps = filter (\<lambda>p. p \<noteq> path) (selectedPaths s) in
      s\<lparr>selectedPaths := ps, selectedPath := first_path ps,
        pathType := (if ps \<noteq> [] then pathType s else None)\<rparr>)"

definition setSelectedPath :: "string option \<Rightarrow> sender \<Rightarrow> sender" where
  "setSelectedPath p s =
     s\<lparr>selectedPath := p,
       selectedPaths := (case p of None \<Rightarrow> [] | Some q \<Rightarrow> if q = [] then [] else [q])\<rparr>"

definition sd_showAlert :: "string \<Rightarrow> string \<Rightarrow> AlertType \<Rightarrow> sender \<Rightarrow> sender" where
  "sd_showAlert title description ty s =
     s\<lparr>sd_alert := \<lparr>al_isOpen = True, al_title = title, al_description = description, al_type = ty\<rparr>\<rparr>"

definition sd_closeAlert :: "sender \<Rightarrow> sender" where
  "sd_closeAlert s = s\<lparr>sd_alert := (sd_alert s)\<lparr>al_isOpen := False\<rparr>\<rparr>"

definition resetToIdle :: "sender \<Rightarrow> sender" where
  "resetToIdle s =
     s\<lparr>viewState := IDLE, sd_ticket := None, selectedPaths := [], selectedPath := None, pathType := None,
       thumbnailUrl := None, sd_metadata := None, sd_progress := None, sd_isLoading := False,
       isBroadcastMode := False, activeConnectionCount := 0\<rparr>"

definition resetForBroadcast :: "sender \<Rightarrow> sender" where
  "resetForBroadcast s =
     s\<lparr>viewState := SHARING, sd_metadata := None, sd_progress := None, thumbnailUrl := None,
       activeConnectionCount := 0\<rparr>"

definition sd_call :: "sender_call \<Rightarrow> sender \<Rightarrow> sender" where
  "sd_call c s = s\<lparr>sd_calls := sd_calls s @ [c]\<rparr>"

definition setInviteStatus :: "string \<Rightarrow> PairedInviteStatus option \<Rightarrow> sender \<Rightarrow> sender" where
  "setInviteStatus e status s =
     s\<lparr>pairedInviteStatus :=
         (case status of
            None \<Rightarrow> assoc_delete e (pairedInviteStatus s)
          | Some st \<Rightarrow> assoc_put e st (pairedInviteStatus s))\<rparr>"

section \<open>Events of the engine\<close>

text \<open>The effects that run after a render.\<close>

definition sender_sync :: "sender \<Rightarrow> sender" where
  "sender_sync s =
     s\<lparr>selectedPathRef := selectedPath s, pathTypeRef := pathType s,
       pairedInviteStatus :=
         (case sd_ticket s of
            None \<Rightarrow> []
          | Some t \<Rightarrow> if t = [] then [] else pairedInviteStatus s)\<rparr>"

definition active_connection_count :: "string \<Rightarrow> sender \<Rightarrow> sender" where
  "active_connection_count payload s =
     (case js_parse_int payload of None \<Rightarrow> s | Some n \<Rightarrow> s\<lparr>activeConnectionCount := n\<rparr>)"

definition paired_devices_loaded :: "PairedDevice list result \<Rightarrow> sender \<Rightarrow> sender" where
  "paired_devices_loaded r s = (case r of Inl _ \<Rightarrow> s | Inr ds \<Rightarrow> s\<lparr>pairedDevices := ds\<rparr>)"

definition invite_response :: "string \<Rightarrow> sender \<Rightarrow> sender" where
  "invite_response e s = (if e = [] then s else setInviteStatus e None s)"

definition transfer_started :: "nat \<Rightarrow> sender \<Rightarrow> sender" where
  "transfer_started now s =
     (let s1 = s\<lparr>sd_startTimeRef := Some now, latestProgressRef := None\<rparr> in
      if isBroadcastMode s then
        s1\<lparr>sd_progress := None, sd_metadata := None, wasManuallyStoppedRef := False,
           progressInterval := Some SHARING\<rparr>
      else
        s1\<lparr>viewState := TRANSPORTING, sd_progress := None, sd_metadata := None,
           wasManuallyStoppedRef := False, progressInterval := Some TRANSPORTING\<rparr>)"

definition progress_tick :: "sender \<Rightarrow> sender" where
  "progress_tick s =
     (case (progressInterval s, latestProgressRef s) of
        (Some v, Some p) \<Rightarrow> if viewState s = v then s\<lparr>sd_progress := Some p\<rparr> else s
      | _ \<Rightarrow> s)"

definition transfer_progress :: "string \<Rightarrow> sender \<Rightarrow> sender" where
  "transfer_progress payload s =
     (if \<not> (viewState s = TRANSPORTING \<or> isBroadcastMode s \<and> viewState s = SHARING) then s
      else case parseProgressPayload payload of None \<Rightarrow> s | Some p \<Rightarrow> s\<lparr>latestProgressRef := Some p\<rparr>)"

text \<open>The guards of the completion and of the failure handler; the selected path they need.\<close>

definition current_transfer :: "sender \<Rightarrow> string option" where
  "current_transfer s =
     (if wasManuallyStoppedRef s then None
      else if viewState s = IDLE then None
      else
        case selectedPath s of
          None \<Rightarrow> None
        | Some p \<Rightarrow>
            if p = [] then None
            else if \<not> isBroadcastMode s \<and> viewState s \<noteq> TRANSPORTING then None
            else Some p)"

definition transfer_completed :: "jsval \<Rightarrow> sender \<Rightarrow> sender" where
  "transfer_completed payload s =
     (case current_transfer s of
        None \<Rightarrow> s
      | Some p \<Rightarrow>
          s\<lparr>progressInterval := None,
            sd_progress := (case latestProgressRef s of Some q \<Rightarrow> Some q | None \<Rightarrow> sd_progress s),
            completions := completions s @
              [\<lparr>cj_payload = payload, cj_broadcast = isBroadcastMode s, cj_selectedPath = p,
                cj_pathType = pathType s, cj_itemCount = length (selectedPaths s)\<rparr>]\<rparr>)"

definition start_or :: "nat \<Rightarrow> nat option \<Rightarrow> nat" where
  "start_or endTime st = (case st of None \<Rightarrow> endTime | Some t \<Rightarrow> if t = 0 then endTime else t)"

definition elapsed :: "nat \<Rightarrow> nat option \<Rightarrow> rat" where
  "elapsed endTime st =
     (case st of None \<Rightarrow> 0 | Some t \<Rightarrow> if t = 0 then 0 else rat_of_nat endTime - rat_of_nat t)"

definition send_file_name :: "string \<Rightarrow> string" where
  "send_file_name path = js_or (last (js_split CHR ''/'' path)) ''Unknown''"

definition pt_or :: "TransferHistoryPathType option \<Rightarrow> TransferHistoryPathType option \<Rightarrow> TransferHistoryPathType option" where
  "pt_or a b = (case a of None \<Rightarrow> b | Some x \<Rightarrow> Some x)"

text \<open>After the ten milliseconds.\<close>

definition completed_send :: "nat \<Rightarrow> completion_job \<Rightarrow> sender \<Rightarrow> SendMetadata" where
  "completed_send endTime j s =
     \<lparr>sm_fileName = send_file_name (cj_selectedPath j),
      sm_fileSize = (case latestProgressRef s of None \<Rightarrow> 0 | Some p \<Rightarrow> totalBytes p),
      sm_duration =
        (case parseCompletionPayload (cj_payload j) of
           Some c \<Rightarrow> tc_durationMs c
         | None \<Rightarrow> elapsed endTime (sd_startTimeRef s)),
      sm_startTime = start_or endTime (sd_startTimeRef s), sm_endTime = endTime, sm_wasStopped = False,
      sm_pathType = pt_or (cj_pathType j) (pathTypeRef s), sm_itemCount = cj_itemCount j\<rparr>"

definition completion_continue :: "nat \<Rightarrow> sender \<Rightarrow> sender" where
  "completion_continue endTime s =
     (case completions s of
        [] \<Rightarrow> s
      | j # js \<Rightarrow>
          let m = completed_send endTime j s;
              s1 = s\<lparr>completions := js, sd_metadata := Some m\<rparr>;
              s2 = (if cj_broadcast j then s1\<lparr>broadcast_timers := broadcast_timers s1 + 1\<rparr>
                    else s1\<lparr>viewState := SUCCESS, sd_progress := None\<rparr>)
          in if cj_itemCount j \<le> 1
             then sd_call (GetFileSize (cj_selectedPath j)) (s2\<lparr>size_requests := size_requests s2 @ [m]\<rparr>)
             else s2)"

definition list_remove :: "nat \<Rightarrow> 'a list \<Rightarrow> 'a list" where
  "list_remove k xs = take k xs @ drop (Suc k) xs"

definition size_answer :: "nat \<Rightarrow> nat result \<Rightarrow> sender \<Rightarrow> sender" where
  "size_answer k r s =
     (if k < length (size_requests s) then
        let m = size_requests s ! k; s1 = s\<lparr>size_requests := list_remove k (size_requests s)\<rparr> in
        (case r of
           Inl _ \<Rightarrow> s1
         | Inr n \<Rightarrow>
             s1\<lparr>sd_metadata := Some (m\<lparr>sm_fileSize := int n,
                  sm_startTime := start_or (sm_endTime m) (sd_startTimeRef s)\<rparr>)\<rparr>)
      else s)"

text \<open>The timer that a completed broadcast leaves behind.\<close>

definition broadcast_timer :: "sender \<Rightarrow> sender" where
  "broadcast_timer s =
     (if broadcast_timers s = 0 then s
      else (resetForBroadcast s)\<lparr>broadcast_timers := broadcast_timers s - 1, latestProgressRef := None,
             sd_startTimeRef := None\<rparr>)"

definition transfer_failed :: "nat \<Rightarrow> sender \<Rightarrow> sender" where
  "transfer_failed endTime s =
     (case current_transfer s of
        None \<Rightarrow> s
      | Some p \<Rightarrow>
          let s1 = s\<lparr>progressInterval := None\<rparr> in
          if isBroadcastMode s then
            (resetForBroadcast s1)\<lparr>latestProgressRef := None, sd_startTimeRef := None\<rparr>
          else
            s1\<lparr>sd_metadata := Some
                 \<lparr>sm_fileName = send_file_name p, sm_fileSize = 0,
                  sm_duration = elapsed endTime (sd_startTimeRef s),
                  sm_startTime = start_or endTime (sd_startTimeRef s), sm_endTime = endTime,
                  sm_wasStopped = True, sm_pathType = pt_or (pathType s) (pathTypeRef s),
                  sm_itemCount = length (selectedPaths s)\<rparr>,
               viewState := SUCCESS, sd_progress := None\<rparr>)"

section \<open>Choosing what to send\<close>

definition path_type_answer :: "TransferHistoryPathType result \<Rightarrow> sender \<Rightarrow> sender" where
  "path_type_answer r s = s\<lparr>pathType := (case r of Inl _ \<Rightarrow> None | Inr ty \<Rightarrow> Some ty)\<rparr>"

definition handleFilesSelect :: "string list \<Rightarrow> TransferHistoryPathType option \<Rightarrow> sender \<Rightarrow> sender" where
  "handleFilesSelect paths provided s =
     (if paths = [] then s
      else
        let s1 = addSelectedPaths paths s in
        if length (selectedPaths s1) > 1 then s1\<lparr>pathType := None\<rparr>
        else
          case provided of
            Some ty \<Rightarrow> s1\<lparr>pathType := Some ty\<rparr>
          | None \<Rightarrow> if pathTypeRef s1 \<noteq> None then s1 else sd_call (CheckPathType (hd paths)) s1)"

definition handleFileSelect :: "string \<Rightarrow> TransferHistoryPathType option \<Rightarrow> sender \<Rightarrow> sender" where
  "handleFileSelect path provided s = handleFilesSelect [path] provided s"

definition clearSelectedPath :: "sender \<Rightarrow> sender" where
  "clearSelectedPath s = (setSelectedPaths [] s)\<lparr>pathType := None\<rparr>"

definition removeSelectedPath :: "string \<Rightarrow> sender \<Rightarrow> sender" where
  "removeSelectedPath path s =
     (let s1 = store_removeSelectedPath path s in
      case selectedPaths s1 of
        [] \<Rightarrow> s1\<lparr>pathType := None\<rparr>
      | [p] \<Rightarrow> sd_call (CheckPathType p) s1
      | _ \<Rightarrow> s1\<lparr>pathType := None\<rparr>)"

definition applyIntent :: "string \<Rightarrow> sender \<Rightarrow> sender" where
  "applyIntent path s = (if path = [] then s else sd_call (CheckPathType path) (setSelectedPath (Some path) s))"

section \<open>Starting and stopping a share\<close>

definition startSharing :: "sender \<Rightarrow> sender" where
  "startSharing s =
     (if selectedPaths s = [] then s
      else
        sd_call (SendItems (selectedPaths s))
          (s\<lparr>viewState := IDLE, sd_metadata := None, sd_progress := None, activeConnectionCount := 0,
             sd_startTimeRef := None, wasManuallyStoppedRef := False, latestProgressRef := None,
             sd_isLoading := True\<rparr>))"

definition share_error_text :: "receiver_env \<Rightarrow> js_error \<Rightarrow> string" where
  "share_error_text env e =
     (if isWebPreviewError e
      then getWebPreviewErrorMessage e (tr env ''common:webPreview.transferUnavailable'' [])
      else tr env ''common:errors.sharingFailedDesc'' [] @ '': '' @ error_string e)"

definition share_answer :: "receiver_env \<Rightarrow> string result \<Rightarrow> sender \<Rightarrow> sender" where
  "share_answer env r s =
     (case r of
        Inr t \<Rightarrow> s\<lparr>sd_ticket := Some t, viewState := SHARING, sd_isLoading := False\<rparr>
      | Inl e \<Rightarrow>
          (sd_showAlert (tr env ''common:errors.sharingFailed'' []) (share_error_text env e) AError s)
            \<lparr>sd_isLoading := False\<rparr>)"

definition stopped_metadata :: "nat \<Rightarrow> string \<Rightarrow> sender \<Rightarrow> SendMetadata" where
  "stopped_metadata endTime path s =
     \<lparr>sm_fileName = send_file_name path, sm_fileSize = 0, sm_duration = 0,
      sm_startTime = start_or endTime (sd_startTimeRef s), sm_endTime = endTime, sm_wasStopped = True,
      sm_pathType = pathTypeRef s, sm_itemCount = length (selectedPaths s)\<rparr>"

text \<open>
  \<open>stopSharing\<close> up to its \<open>await\<close>. The mode is switched off first, so the branch for an active transfer
  in broadcast mode, which reads the store afterwards, is never taken; it is kept here as it is written.
\<close>

definition stopSharing :: "nat \<Rightarrow> sender \<Rightarrow> sender" where
  "stopSharing now s =
     (let s1 = s\<lparr>isBroadcastMode := False\<rparr>;
          wasActiveTransfer =
            (viewState s = TRANSPORTING \<and>
             (case sd_metadata s of None \<Rightarrow> True | Some m \<Rightarrow> \<not> sm_wasStopped m));
          isCompletedTransfer = (viewState s = SUCCESS \<and> sd_metadata s \<noteq> None);
          path = (case selectedPathRef s of None \<Rightarrow> [] | Some p \<Rightarrow> p);
          active = (wasActiveTransfer \<and> path \<noteq> []);
          s2 = (if \<not> active then s1
                else if isBroadcastMode s1 then
                  (resetForBroadcast (s1\<lparr>wasManuallyStoppedRef := True, progressInterval := None\<rparr>))
                    \<lparr>latestProgressRef := None, sd_startTimeRef := None\<rparr>
                else
                  s1\<lparr>wasManuallyStoppedRef := True, progressInterval := None,
                     sd_metadata := Some (stopped_metadata now path s1), viewState := SUCCESS,
                     latestProgressRef := None, sd_startTimeRef := None\<rparr>)
      in if isCompletedTransfer then
           sd_call StopSharing
             ((resetToIdle (s2\<lparr>wasManuallyStoppedRef := False\<rparr>))\<lparr>sd_startTimeRef := None, latestProgressRef := None\<rparr>)
         else sd_call StopSharing (s2\<lparr>stop_requests := stop_requests s2 @ [active]\<rparr>))"

definition stop_answer :: "receiver_env \<Rightarrow> nat \<Rightarrow> unit result \<Rightarrow> sender \<Rightarrow> sender" where
  "stop_answer env k r s =
     (if k < length (stop_requests s) then
        let active = stop_requests s ! k; s1 = s\<lparr>stop_requests := list_remove k (stop_requests s)\<rparr> in
        (case r of
           Inl e \<Rightarrow>
             sd_showAlert (tr env ''common:errors.stopSharingFailed'' [])
               (tr env ''common:errors.stopSharingFailedDesc'' [] @ '': '' @ error_string e) AError s1
         | Inr _ \<Rightarrow>
             if \<not> active then
               (resetToIdle (s1\<lparr>wasManuallyStoppedRef := False, activeConnectionCount := 0\<rparr>))
                 \<lparr>sd_startTimeRef := None, latestProgressRef := None\<rparr>
             else
               (setSelectedPaths [] (s1\<lparr>sd_ticket := None\<rparr>))
                 \<lparr>pathType := None, sd_progress := None, sd_startTimeRef := None, latestProgressRef := None\<rparr>)
      else s)"

text \<open>The switch is on the ticket card, which is shown while a share waits; its undo is always there.\<close>

definition setBroadcast :: "bool \<Rightarrow> sender \<Rightarrow> sender" where
  "setBroadcast b s =
     (if b \<and> \<not> (viewState s = SHARING \<and> sd_ticket s \<noteq> None) then s else s\<lparr>isBroadcastMode := b\<rparr>)"

definition idle_effect :: "sender \<Rightarrow> sender" where
  "idle_effect s = (if viewState s = IDLE \<and> isBroadcastMode s then s\<lparr>isBroadcastMode := False\<rparr> else s)"

definition copyTicket :: "receiver_env \<Rightarrow> unit result \<Rightarrow> sender \<Rightarrow> sender" where
  "copyTicket env r s =
     (case sd_ticket s of
        None \<Rightarrow> s
      | Some t \<Rightarrow>
          if t = [] then s
          else
            case r of
              Inr _ \<Rightarrow> sd_call (CopyText t) (s\<lparr>copySuccess := True\<rparr>)
            | Inl e \<Rightarrow>
                sd_showAlert (tr env ''common:errors.copyFailed'' [])
                  (tr env ''common:errors.copyFailedDesc'' [] @ '': '' @ error_string e) AError s)"

section \<open>Inviting a device\<close>

definition invite_in_flight :: "PairedInviteStatus \<Rightarrow> bool" where
  "invite_in_flight st = (st = InvSending \<or> st = InvSent)"

text \<open>The guards both handlers share: \<^const>\<open>None\<close> when the click does nothing more.\<close>

definition invite_guard :: "receiver_env \<Rightarrow> bool \<Rightarrow> string \<Rightarrow> sender \<Rightarrow> sender \<times> string option" where
  "invite_guard env ready e s =
     (case sd_ticket s of
        None \<Rightarrow> (s, None)
      | Some t \<Rightarrow>
          if t = [] then (s, None)
          else if \<not> ready then
            (sd_call (Toast (tr env ''common:settings.devices.nodeUnavailableTitle'' [])
                            (tr env ''common:settings.devices.nodeUnavailableHint'' [])) s, None)
          else if map_of (pairedInviteStatus s) e = Some InvSending then (s, None)
          else if list_ex (\<lambda>(i, st). i \<noteq> e \<and> invite_in_flight st) (pairedInviteStatus s) \<or>
                  map_of (pairedInviteStatus s) e = Some InvSent then (s, None)
          else (s, Some t))"

text \<open>The size of the share: that of the result shown, or the sum of what can be measured.\<close>

definition known_share_size :: "sender \<Rightarrow> nat option" where
  "known_share_size s =
     (case sd_metadata s of None \<Rightarrow> None | Some m \<Rightarrow> if sm_fileSize m \<noteq> 0 then Some (nat (sm_fileSize m)) else None)"

definition resolveShareTotalSize :: "nat option \<Rightarrow> nat result list \<Rightarrow> nat" where
  "resolveShareTotalSize known sizes =
     (case known of
        Some n \<Rightarrow> n
      | None \<Rightarrow> sum_list (map (\<lambda>r. case r of Inl _ \<Rightarrow> 0 | Inr n \<Rightarrow> n) sizes))"

definition begin_invite :: "bool \<Rightarrow> string \<Rightarrow> string \<Rightarrow> string \<Rightarrow> sender \<Rightarrow> sender" where
  "begin_invite isNearby e t name s =
     setInviteStatus e (Some InvSending)
       (s\<lparr>invite_jobs := invite_jobs s @
            [\<lparr>ij_endpoint = e, ij_nearby = isNearby, ij_ticket = t, ij_files = max (length (selectedPaths s)) 1,
              ij_known_size = known_share_size s, ij_name = name\<rparr>]\<rparr>)"

definition onInvitePairedDevice :: "receiver_env \<Rightarrow> bool \<Rightarrow> string \<Rightarrow> sender \<Rightarrow> sender" where
  "onInvitePairedDevice env ready e s =
     (case invite_guard env ready e s of
        (s1, None) \<Rightarrow> s1
      | (s1, Some t) \<Rightarrow>
          (case find (\<lambda>d. endpoint_id d = e) (pairedDevices s1) of
             None \<Rightarrow> begin_invite False e t (tr env ''common:sender.pairedDevices.unknownPeer'' []) (sd_call (CountSend e) s1)
           | Some d \<Rightarrow>
               if \<not> isPairedDeviceActive d \<or> \<not> online d then s1
               else begin_invite False e t (display_name d) (sd_call (CountSend e) s1)))"

definition onInviteNearbyDevice :: "receiver_env \<Rightarrow> bool \<Rightarrow> NearbyDevice list \<Rightarrow> string \<Rightarrow> sender \<Rightarrow> sender" where
  "onInviteNearbyDevice env ready nearbyDevices e s =
     (case invite_guard env ready e s of
        (s1, None) \<Rightarrow> s1
      | (s1, Some t) \<Rightarrow>
          let fallback = (if e \<noteq> [] then take 8 e @ ''...'' else tr env ''common:sender.pairedDevices.unknownPeer'' []);
              name = (case find (\<lambda>d. endpointId d = e) nearbyDevices of
                        None \<Rightarrow> fallback
                      | Some d \<Rightarrow> (case displayName d of None \<Rightarrow> fallback | Some n \<Rightarrow> n))
          in begin_invite True e t name s1)"

definition invite_sized :: "nat \<Rightarrow> nat result list \<Rightarrow> sender \<Rightarrow> sender" where
  "invite_sized k sizes s =
     (if k < length (invite_jobs s) then
        let j = invite_jobs s ! k in
        sd_call (InviteDevice (ij_nearby j) (ij_endpoint j) (ij_ticket j) (ij_files j) (resolveShareTotalSize (ij_known_size j) sizes)) s
      else s)"

definition invite_answer :: "receiver_env \<Rightarrow> nat \<Rightarrow> bool result \<Rightarrow> sender \<Rightarrow> sender" where
  "invite_answer env k r s =
     (if k < length (invite_jobs s) then
        let j = invite_jobs s ! k; e = ij_endpoint j;
            s1 = s\<lparr>invite_jobs := list_remove k (invite_jobs s)\<rparr>
        in case r of
             Inr True \<Rightarrow>
               let s2 = sd_call (Toast (tr env ''common:sender.pairedDevices.inviteSentTo'' [ij_name j])
                                       (tr env ''common:sender.pairedDevices.inviteSentDesc'' []))
                          (setInviteStatus e (Some InvSent) s1)
               in if ij_nearby j then sd_call (ShowVerification e (ij_name j)) s2 else s2
           | Inr False \<Rightarrow>
               sd_call (Toast (tr env ''common:sender.pairedDevices.inviteFailed'' [])
                         (if ij_nearby j then tr env ''common:settings.devices.nearby.inviteFailed'' []
                          else tr env ''common:sender.pairedDevices.deviceUnreachable'' []))
                 ((setInviteStatus e (Some InvFailed) s1)\<lparr>invite_timers := invite_timers s1 @ [e]\<rparr>)
           | Inl err \<Rightarrow>
               sd_call (Toast (tr env ''common:sender.pairedDevices.inviteFailed'' []) (error_string err))
                 ((setInviteStatus e (Some InvFailed) s1)\<lparr>invite_timers := invite_timers s1 @ [e]\<rparr>)
      else s)"

definition invite_timer :: "nat \<Rightarrow> sender \<Rightarrow> sender" where
  "invite_timer k s =
     (if k < length (invite_timers s) then
        setInviteStatus (invite_timers s ! k) None (s\<lparr>invite_timers := list_remove k (invite_timers s)\<rparr>)
      else s)"

section \<open>Screens and runs\<close>

datatype screen = ChooseScreen | SharingScreen | SuccessScreen | NoScreen

definition sender_screen :: "sender \<Rightarrow> screen" where
  "sender_screen s =
     (if viewState s = IDLE then ChooseScreen
      else if viewState s = SUCCESS \<and> sd_metadata s \<noteq> None \<and> \<not> isBroadcastMode s then SuccessScreen
      else if ((viewState s = SHARING \<or> viewState s = TRANSPORTING) \<and> \<not> isBroadcastMode s) \<or>
              (viewState s = SHARING \<and> isBroadcastMode s) then SharingScreen
      else NoScreen)"

definition useTransferBusy :: "bool \<Rightarrow> sender \<Rightarrow> bool" where
  "useTransferBusy receiving s \<longleftrightarrow>
     receiving \<or> viewState s = TRANSPORTING \<or> (viewState s = SHARING \<and> activeConnectionCount s > 0)"

datatype sender_event =
    SdSync
  | SdIdleEffect
  | SdConnections string
  | SdDevices "PairedDevice list result"
  | SdPresence DevicePresencePayload
  | SdInviteResponse string
  | SdStarted nat
  | SdTick
  | SdProgress string
  | SdCompleted jsval
  | SdCompletionContinue nat
  | SdSize nat "nat result"
  | SdBroadcastTimer
  | SdFailed nat
  | SdSelect "string list" "TransferHistoryPathType option"
  | SdClear
  | SdRemove string
  | SdIntent string
  | SdPathType "TransferHistoryPathType result"
  | SdShare
  | SdShareAnswer "string result"
  | SdStop nat
  | SdStopAnswer nat "unit result"
  | SdBroadcast bool
  | SdCopy "unit result"
  | SdCopyTimer
  | SdInvitePaired bool string
  | SdInviteNearby bool "NearbyDevice list" string
  | SdInviteSized nat "nat result list"
  | SdInviteAnswer nat "bool result"
  | SdInviteTimer nat
  | SdCloseAlert

fun sender_step :: "receiver_env \<Rightarrow> sender \<Rightarrow> sender_event \<Rightarrow> sender" where
  "sender_step env s SdSync = sender_sync s"
| "sender_step env s SdIdleEffect = idle_effect s"
| "sender_step env s (SdConnections p) = active_connection_count p s"
| "sender_step env s (SdDevices r) = paired_devices_loaded r s"
| "sender_step env s (SdPresence p) = s\<lparr>pairedDevices := patchDevicePresence (pairedDevices s) p\<rparr>"
| "sender_step env s (SdInviteResponse e) = invite_response e s"
| "sender_step env s (SdStarted now) = transfer_started now s"
| "sender_step env s SdTick = progress_tick s"
| "sender_step env s (SdProgress p) = transfer_progress p s"
| "sender_step env s (SdCompleted p) = transfer_completed p s"
| "sender_step env s (SdCompletionContinue now) = completion_continue now s"
| "sender_step env s (SdSize k r) = size_answer k r s"
| "sender_step env s SdBroadcastTimer = broadcast_timer s"
| "sender_step env s (SdFailed now) = transfer_failed now s"
| "sender_step env s (SdSelect ps ty) = handleFilesSelect ps ty s"
| "sender_step env s SdClear = clearSelectedPath s"
| "sender_step env s (SdRemove p) = removeSelectedPath p s"
| "sender_step env s (SdIntent p) = applyIntent p s"
| "sender_step env s (SdPathType r) = path_type_answer r s"
| "sender_step env s SdShare = startSharing s"
| "sender_step env s (SdShareAnswer r) = share_answer env r s"
| "sender_step env s (SdStop now) = stopSharing now s"
| "sender_step env s (SdStopAnswer k r) = stop_answer env k r s"
| "sender_step env s (SdBroadcast b) = setBroadcast b s"
| "sender_step env s (SdCopy r) = copyTicket env r s"
| "sender_step env s SdCopyTimer = s\<lparr>copySuccess := False\<rparr>"
| "sender_step env s (SdInvitePaired ready e) = onInvitePairedDevice env ready e s"
| "sender_step env s (SdInviteNearby ready ds e) = onInviteNearbyDevice env ready ds e s"
| "sender_step env s (SdInviteSized k sizes) = invite_sized k sizes s"
| "sender_step env s (SdInviteAnswer k r) = invite_answer env k r s"
| "sender_step env s (SdInviteTimer k) = invite_timer k s"
| "sender_step env s SdCloseAlert = sd_closeAlert s"

section \<open>Invariants\<close>

definition selection_inv :: "sender \<Rightarrow> bool" where
  "selection_inv s \<longleftrightarrow>
     selectedPath s = first_path (selectedPaths s) \<and> distinct (selectedPaths s) \<and>
     distinct (map fst (pairedInviteStatus s))"

definition normal_inv :: "sender \<Rightarrow> bool" where
  "normal_inv s \<longleftrightarrow>
     \<not> isBroadcastMode s \<and> (viewState s = SUCCESS \<longrightarrow> sd_metadata s \<noteq> None) \<and>
     list_all (\<lambda>j. \<not> cj_broadcast j) (completions s) \<and> broadcast_timers s = 0"

lemmas small_defs = sd_call_def sd_showAlert_def sd_closeAlert_def sender_sync_def active_connection_count_def
  paired_devices_loaded_def invite_response_def setInviteStatus_def transfer_progress_def progress_tick_def
  path_type_answer_def copyTicket_def setBroadcast_def idle_effect_def invite_guard_def begin_invite_def
  onInvitePairedDevice_def onInviteNearbyDevice_def invite_sized_def invite_answer_def invite_timer_def

lemmas share_defs = resetToIdle_def resetForBroadcast_def transfer_started_def transfer_completed_def
  completion_continue_def size_answer_def broadcast_timer_def transfer_failed_def startSharing_def
  share_answer_def stopSharing_def stop_answer_def

lemmas select_defs = setSelectedPaths_def addSelectedPaths_def store_removeSelectedPath_def setSelectedPath_def
  handleFilesSelect_def clearSelectedPath_def removeSelectedPath_def applyIntent_def first_path_def

text \<open>Operations that leave the selection and the invites alone, or change one of them in the allowed way.\<close>

lemma selection_inv_cong:
  "selection_inv s \<Longrightarrow> selectedPaths s' = selectedPaths s \<Longrightarrow> selectedPath s' = selectedPath s \<Longrightarrow>
   distinct (map fst (pairedInviteStatus s')) \<Longrightarrow> selection_inv s'"
  by (simp add: selection_inv_def)

lemma selection_inv_new:
  "selection_inv s \<Longrightarrow> selectedPath s' = first_path (selectedPaths s') \<Longrightarrow> distinct (selectedPaths s') \<Longrightarrow>
   pairedInviteStatus s' = pairedInviteStatus s \<Longrightarrow> selection_inv s'"
  by (simp add: selection_inv_def)

lemma status_distinct:
  "distinct (map fst m) \<Longrightarrow> distinct (map fst (assoc_put e st m))"
  "distinct (map fst m) \<Longrightarrow> distinct (map fst (assoc_delete e m))"
  by (rule distinct_assoc_put, assumption) (rule distinct_assoc_delete, assumption)

lemma selection_inv_small:
  assumes "selection_inv s"
  shows "selection_inv (onInvitePairedDevice env ready e s)" "selection_inv (onInviteNearbyDevice env ready ds e s)"
    "selection_inv (invite_answer env k b s)" "selection_inv (invite_timer k s)" "selection_inv (sender_sync s)"
  using assms status_distinct
  by (auto intro!: selection_inv_cong [OF assms]
      simp: selection_inv_def small_defs Let_def split: option.splits sum.splits bool.splits)

lemma selection_inv_share:
  assumes "selection_inv s"
  shows "selection_inv (transfer_started now s)" "selection_inv (transfer_completed p s)"
    "selection_inv (completion_continue now s)" "selection_inv (size_answer k r s)"
    "selection_inv (broadcast_timer s)" "selection_inv (transfer_failed now s)" "selection_inv (startSharing s)"
    "selection_inv (share_answer env q s)" "selection_inv (stopSharing now s)" "selection_inv (stop_answer env k u s)"
  using assms
  by (auto simp: selection_inv_def share_defs sd_call_def sd_showAlert_def setSelectedPaths_def first_path_def Let_def
      split: option.splits sum.splits list.splits)

lemma selection_inv_remove:
  assumes "selection_inv s"
  shows "selection_inv (removeSelectedPath p s)"
proof -
  have "selectedPaths (removeSelectedPath p s) = filter (\<lambda>q. q \<noteq> p) (selectedPaths s) \<and>
      selectedPath (removeSelectedPath p s) = first_path (filter (\<lambda>q. q \<noteq> p) (selectedPaths s)) \<and>
      pairedInviteStatus (removeSelectedPath p s) = pairedInviteStatus s"
    by (simp add: removeSelectedPath_def store_removeSelectedPath_def sd_call_def Let_def split: list.split)
  then show ?thesis using assms by (simp add: selection_inv_def)
qed

lemma selection_inv_select:
  assumes "selection_inv s"
  shows "selection_inv (handleFilesSelect ps ty s)" "selection_inv (clearSelectedPath s)"
    "selection_inv (applyIntent p s)"
  using assms
  by (auto simp: selection_inv_def select_defs sd_call_def Let_def split: option.splits list.splits)

interpretation selection_machine: state_machine sender_start "sender_step env" selection_inv
proof
  show "selection_inv sender_start" by (simp add: selection_inv_def sender_start_def first_path_def)
next
  fix s e
  assume inv: "selection_inv s"
  show "selection_inv (sender_step env s e)"
    by (cases e; simp add: inv selection_inv_small selection_inv_share selection_inv_select selection_inv_remove;
        use inv in \<open>auto simp: selection_inv_def small_defs Let_def intro: status_distinct split: option.splits sum.splits\<close>)
qed

lemma normal_inv_share:
  assumes "normal_inv s"
  shows "normal_inv (transfer_started now s)" "normal_inv (transfer_completed p s)"
    "normal_inv (completion_continue now s)" "normal_inv (size_answer k r s)"
    "normal_inv (broadcast_timer s)" "normal_inv (transfer_failed now s)" "normal_inv (startSharing s)"
    "normal_inv (share_answer env q s)" "normal_inv (stopSharing now s)" "normal_inv (stop_answer env k u s)"
  using assms
  by (auto simp: normal_inv_def share_defs sd_call_def sd_showAlert_def setSelectedPaths_def Let_def
      split: option.splits sum.splits list.splits)

lemma normal_inv_cong:
  "normal_inv s \<Longrightarrow> isBroadcastMode s' = isBroadcastMode s \<Longrightarrow> viewState s' = viewState s \<Longrightarrow>
   sd_metadata s' = sd_metadata s \<Longrightarrow> completions s' = completions s \<Longrightarrow>
   broadcast_timers s' = broadcast_timers s \<Longrightarrow> normal_inv s'"
  by (simp add: normal_inv_def)

lemma normal_inv_select:
  assumes "normal_inv s"
  shows "normal_inv (handleFilesSelect ps ty s)" "normal_inv (clearSelectedPath s)"
    "normal_inv (removeSelectedPath p s)" "normal_inv (applyIntent p s)"
  by (rule normal_inv_cong [OF assms];
      auto simp: select_defs sd_call_def Let_def split: option.splits list.splits)+

lemma normal_inv_invites:
  assumes "normal_inv s"
  shows "normal_inv (onInvitePairedDevice env ready e s)" "normal_inv (onInviteNearbyDevice env ready ds e s)"
    "normal_inv (invite_answer env k b s)" "normal_inv (invite_timer k s)" "normal_inv (invite_sized k sizes s)"
  by (rule normal_inv_cong [OF assms];
      auto simp: small_defs Let_def split: option.splits sum.splits bool.splits)+

definition normal_event :: "sender_event \<Rightarrow> bool" where
  "normal_event e \<longleftrightarrow> e \<noteq> SdBroadcast True"

interpretation normal_machine: state_machine sender_start
    "\<lambda>s e. if normal_event e then sender_step env s e else s" normal_inv
proof
  show "normal_inv sender_start" by (simp add: normal_inv_def sender_start_def)
next
  fix s e
  assume inv: "normal_inv s"
  show "normal_inv (if normal_event e then sender_step env s e else s)"
    by (cases e; simp add: inv normal_event_def normal_inv_share normal_inv_select normal_inv_invites;
        use inv in \<open>auto simp: normal_inv_def small_defs Let_def split: option.splits sum.splits\<close>)
qed

section \<open>Properties\<close>

text \<open>
  C18. In every run of the sender the selection is a list without duplicates whose first element is the selected
  path. And in every run that never switches broadcast mode on there is always a screen to show: a success
  screen always has its result, whatever events arrive late and in whatever order.
\<close>

theorem sender_screen_defined:
  fixes env :: receiver_env
  defines "run \<equiv> \<lambda>es. run_ops (sender_step env) sender_start es"
  shows "distinct (selectedPaths (run es)) \<and> selectedPath (run es) = first_path (selectedPaths (run es)) \<and>
    sender_screen (run (filter (\<lambda>e. e \<noteq> SdBroadcast True) es)) \<in> {ChooseScreen, SharingScreen, SuccessScreen} \<and>
    isBroadcastMode (run (filter (\<lambda>e. e \<noteq> SdBroadcast True) es)) = False"
proof -
  have "selection_inv (run es)" unfolding run_def by (rule selection_machine.reachable_inv)
  moreover have "normal_inv (run (filter (\<lambda>e. e \<noteq> SdBroadcast True) es))"
    using normal_machine.reachable_inv [of env es]
    by (simp add: run_def run_ops_filter normal_event_def [abs_def])
  ultimately show ?thesis
    by (cases "viewState (run (filter (\<lambda>e. e \<noteq> SdBroadcast True) es))")
      (simp_all add: selection_inv_def normal_inv_def sender_screen_def)
qed

definition late_report :: "sender_event \<Rightarrow> bool" where
  "late_report e =
     (case e of SdProgress _ \<Rightarrow> True | SdCompleted _ \<Rightarrow> True | SdFailed _ \<Rightarrow> True | _ \<Rightarrow> False)"

lemma late_reports_ignored:
  assumes "viewState s \<noteq> TRANSPORTING" "\<not> isBroadcastMode s"
  shows "run_ops (sender_step env) s (filter late_report es) = s"
proof (induction es)
  case (Cons e es)
  have "sender_step env s e = s" if "late_report e"
    using that assms by (cases e) (auto simp: late_report_def transfer_progress_def transfer_completed_def
        transfer_failed_def current_transfer_def split: option.splits)
  then show ?case using Cons by simp
qed simp

text \<open>
  What can arrive after an active transfer was stopped: anything but the report that a transfer starts, the
  beginning of another share, and a second stop.
\<close>

definition after_stop :: "sender_event \<Rightarrow> bool" where
  "after_stop e =
     (case e of SdStarted _ \<Rightarrow> False | SdShare \<Rightarrow> False | SdShareAnswer _ \<Rightarrow> False | SdStop _ \<Rightarrow> False | _ \<Rightarrow> True)"

definition nothing_pending :: "sender \<Rightarrow> bool" where
  "nothing_pending s \<longleftrightarrow>
     completions s = [] \<and> size_requests s = [] \<and> broadcast_timers s = 0 \<and> stop_requests s = []"

definition stopped_inv :: "SendMetadata \<Rightarrow> sender \<Rightarrow> bool" where
  "stopped_inv m s \<longleftrightarrow>
     viewState s = SUCCESS \<and> sd_metadata s = Some m \<and> \<not> isBroadcastMode s \<and>
     completions s = [] \<and> size_requests s = [] \<and> broadcast_timers s = 0 \<and> list_all id (stop_requests s)"

lemma list_all_remove: "list_all P xs \<Longrightarrow> list_all P (list_remove k xs)"
  by (auto simp: list_all_iff list_remove_def dest: in_set_takeD in_set_dropD)

lemma stopped_stop_answer: "stopped_inv m s \<Longrightarrow> stopped_inv m (stop_answer env k r s)"
  using list_all_remove [of id "stop_requests s" k]
  by (auto simp: stopped_inv_def stop_answer_def sd_showAlert_def setSelectedPaths_def Let_def list_all_length
      split: sum.splits)

lemma stopped_select:
  "stopped_inv m s \<Longrightarrow> stopped_inv m (handleFilesSelect ps ty s)"
  "stopped_inv m s \<Longrightarrow> stopped_inv m (removeSelectedPath p s)"
  "stopped_inv m s \<Longrightarrow> stopped_inv m (applyIntent p s)"
  "stopped_inv m s \<Longrightarrow> stopped_inv m (clearSelectedPath s)"
  by (auto simp: stopped_inv_def clearSelectedPath_def handleFilesSelect_def addSelectedPaths_def setSelectedPaths_def removeSelectedPath_def
      store_removeSelectedPath_def applyIntent_def setSelectedPath_def sd_call_def Let_def
      split: option.splits list.splits)

lemma stopped_invites:
  "stopped_inv m s \<Longrightarrow> stopped_inv m (onInvitePairedDevice env ready e s)"
  "stopped_inv m s \<Longrightarrow> stopped_inv m (onInviteNearbyDevice env ready ds e s)"
  "stopped_inv m s \<Longrightarrow> stopped_inv m (invite_sized k sizes s)"
  "stopped_inv m s \<Longrightarrow> stopped_inv m (invite_answer env k r s)"
  "stopped_inv m s \<Longrightarrow> stopped_inv m (invite_timer k s)"
  by (auto simp: stopped_inv_def onInvitePairedDevice_def onInviteNearbyDevice_def invite_guard_def begin_invite_def
      invite_sized_def invite_answer_def invite_timer_def setInviteStatus_def sd_call_def Let_def
      split: option.splits sum.splits if_splits bool.splits)

lemma stopped_reports:
  assumes "stopped_inv m s"
  shows "transfer_completed p s = s" "completion_continue now s = s" "size_answer k r s = s" "broadcast_timer s = s"
    "transfer_failed now s = s"
  using assms by (auto simp: stopped_inv_def transfer_completed_def completion_continue_def size_answer_def
      broadcast_timer_def transfer_failed_def current_transfer_def split: option.splits)

lemma stopped_step:
  assumes "stopped_inv m s" "after_stop e"
  shows "stopped_inv m (sender_step env s e)"
  using assms
  by (cases e; simp add: stopped_stop_answer stopped_select stopped_invites stopped_reports;
      auto simp: after_stop_def stopped_inv_def small_defs Let_def split: option.splits sum.splits)

lemma stopped_run:
  assumes "stopped_inv m s"
  shows "stopped_inv m (run_ops (sender_step env) s (filter after_stop es))"
  using assms by (induction es arbitrary: s) (auto intro: stopped_step)

text \<open>
  C6. Stopping is final. An active transfer ends on the success screen, marked as stopped; a finished one is
  cleared away; a share that waits keeps its view until the engine confirms, and is then idle. Broadcast mode is off
  in every case, and unless a transfer without a selected path goes on, no progress, completion or failure that the
  engine reports late changes anything. The stopped result of an active transfer, with nothing of an earlier one pending, then
  stays on the screen in every interleaving of events in which no transfer is reported to start and no share is begun or stopped again. (A
  late start report and a completion already under way are not ignored: \<open>late_start_revives\<close>,
  \<open>pending_completion_replaces_stop\<close>.)
\<close>

theorem stop_is_final:
  defines "path \<equiv> \<lambda>s. case selectedPathRef s of None \<Rightarrow> [] | Some p \<Rightarrow> p"
    and "stopped \<equiv> \<lambda>s. case sd_metadata s of None \<Rightarrow> False | Some m \<Rightarrow> sm_wasStopped m"
  shows "isBroadcastMode (stopSharing now s) = False \<and>
    (if viewState s = TRANSPORTING \<and> \<not> stopped s \<and> path s \<noteq> []
     then viewState (stopSharing now s) = SUCCESS \<and> stopped (stopSharing now s) \<and>
          wasManuallyStoppedRef (stopSharing now s) \<and>
          (completions s = [] \<and> size_requests s = [] \<and> broadcast_timers s = 0 \<and> stop_requests s = [] \<longrightarrow>
           (let s' = run_ops (sender_step env) (stopSharing now s)
               (filter (\<lambda>e. case e of SdStarted _ \<Rightarrow> False | SdShare \<Rightarrow> False | SdShareAnswer _ \<Rightarrow> False
                                    | SdStop _ \<Rightarrow> False | _ \<Rightarrow> True) es) in
            sender_screen s' = SuccessScreen \<and> sd_metadata s' = sd_metadata (stopSharing now s)))
     else if viewState s = SUCCESS \<and> sd_metadata s \<noteq> None
     then viewState (stopSharing now s) = IDLE \<and> sd_ticket (stopSharing now s) = None \<and>
          selectedPaths (stopSharing now s) = [] \<and> sd_metadata (stopSharing now s) = None
     else viewState (stopSharing now s) = viewState s \<and>
          viewState (stop_answer env (length (stop_requests s)) (Inr ()) (stopSharing now s)) = IDLE) \<and>
    (viewState (stopSharing now s) = TRANSPORTING \<or>
     run_ops (sender_step env) (stopSharing now s)
       (filter (\<lambda>e. case e of SdProgress _ \<Rightarrow> True | SdCompleted _ \<Rightarrow> True | SdFailed _ \<Rightarrow> True | _ \<Rightarrow> False) es) =
       stopSharing now s)"
proof -
  have off: "isBroadcastMode (stopSharing now s) = False"
    by (simp add: stopSharing_def sd_call_def resetToIdle_def resetForBroadcast_def Let_def)
  have "viewState (stopSharing now s) = TRANSPORTING \<or>
      run_ops (sender_step env) (stopSharing now s) (filter late_report es) = stopSharing now s"
    using late_reports_ignored [of "stopSharing now s"] off by blast
  moreover have "late_report = (\<lambda>e. case e of SdProgress _ \<Rightarrow> True | SdCompleted _ \<Rightarrow> True | SdFailed _ \<Rightarrow> True | _ \<Rightarrow> False)"
    by (simp add: late_report_def fun_eq_iff)
  moreover have "if viewState s = TRANSPORTING \<and> \<not> stopped s \<and> path s \<noteq> []
     then viewState (stopSharing now s) = SUCCESS \<and> stopped (stopSharing now s) \<and>
          wasManuallyStoppedRef (stopSharing now s)
     else if viewState s = SUCCESS \<and> sd_metadata s \<noteq> None
     then viewState (stopSharing now s) = IDLE \<and> sd_ticket (stopSharing now s) = None \<and>
          selectedPaths (stopSharing now s) = [] \<and> sd_metadata (stopSharing now s) = None
     else viewState (stopSharing now s) = viewState s \<and>
          viewState (stop_answer env (length (stop_requests s)) (Inr ()) (stopSharing now s)) = IDLE"
    by (auto simp: stopped_def path_def stopSharing_def stop_answer_def sd_call_def resetToIdle_def
        stopped_metadata_def Let_def nth_append split: option.splits)
  moreover have "sender_screen (run_ops (sender_step env) (stopSharing now s) (filter after_stop es)) = SuccessScreen \<and>
      sd_metadata (run_ops (sender_step env) (stopSharing now s) (filter after_stop es)) = sd_metadata (stopSharing now s)"
    if "viewState s = TRANSPORTING \<and> \<not> stopped s \<and> path s \<noteq> []"
      "completions s = [] \<and> size_requests s = [] \<and> broadcast_timers s = 0 \<and> stop_requests s = []"
  proof -
    have "stopped_inv (stopped_metadata now (path s) (s\<lparr>isBroadcastMode := False\<rparr>)) (stopSharing now s)"
      using that by (auto simp: stopped_inv_def stopped_def path_def stopSharing_def sd_call_def Let_def split: option.splits)
    from stopped_run [OF this, of env es] this show ?thesis
      by (simp add: stopped_inv_def sender_screen_def)
  qed
  moreover have "after_stop = (\<lambda>e. case e of SdStarted _ \<Rightarrow> False | SdShare \<Rightarrow> False | SdShareAnswer _ \<Rightarrow> False
      | SdStop _ \<Rightarrow> False | _ \<Rightarrow> True)"
    by (simp add: after_stop_def fun_eq_iff)
  ultimately show ?thesis using off by (simp add: Let_def)
qed

definition demo_env :: receiver_env where
  "demo_env = \<lparr>ANDROID = False, WEB = False, tr = (\<lambda>k _. k), joinPath = (\<lambda>a b. Inr (a @ ''/'' @ b))\<rparr>"

definition demo_stop :: sender where
  "demo_stop = sender_start\<lparr>viewState := TRANSPORTING, selectedPathRef := Some ''/d/a''\<rparr>"

theorem stop_is_final_witness:
  "let s' = run_ops (sender_step demo_env) (stopSharing 3 demo_stop) [SdCompleted Null, SdStopAnswer 0 (Inr ()), SdFailed 4] in
   sender_screen s' = SuccessScreen \<and> sd_metadata s' = sd_metadata (stopSharing 3 demo_stop)"
  using stop_is_final [of 3 demo_stop demo_env "[SdCompleted Null, SdStopAnswer 0 (Inr ()), SdFailed 4]"]
  by (simp add: demo_stop_def sender_start_def Let_def del: sender_step.simps run_ops_simps)

text \<open>A report that the transfer starts is taken whenever it comes, also after the user has stopped it.\<close>

lemma late_start_revives:
  "let s' = sender_step env (stopSharing now s) (SdStarted t) in
   viewState s' = TRANSPORTING \<and> \<not> wasManuallyStoppedRef s' \<and> sd_metadata s' = None"
  by (simp add: stopSharing_def transfer_started_def sd_call_def resetToIdle_def resetForBroadcast_def Let_def)

text \<open>A completion whose ten milliseconds are not over replaces the stopped result by a successful one.\<close>

lemma pending_completion_replaces_stop:
  assumes "completions s = [j]" "\<not> cj_broadcast j"
  shows "let s' = sender_step env (stopSharing now s) (SdCompletionContinue t) in
    viewState s' = SUCCESS \<and> (\<exists>m. sd_metadata s' = Some m \<and> \<not> sm_wasStopped m)"
  using assms by (simp add: stopSharing_def completion_continue_def completed_send_def sd_call_def resetToIdle_def
      resetForBroadcast_def Let_def)

text \<open>Events that neither the user's choices nor the course of the transfer bring about, and progress reports.\<close>

definition bystander :: "sender_event \<Rightarrow> bool" where
  "bystander e =
     (case e of
        SdSync \<Rightarrow> True | SdIdleEffect \<Rightarrow> True | SdConnections _ \<Rightarrow> True | SdDevices _ \<Rightarrow> True | SdPresence _ \<Rightarrow> True
      | SdInviteResponse _ \<Rightarrow> True | SdTick \<Rightarrow> True | SdProgress _ \<Rightarrow> True | SdPathType _ \<Rightarrow> True | SdCopyTimer \<Rightarrow> True
      | SdCloseAlert \<Rightarrow> True | _ \<Rightarrow> False)"

text \<open>The progress reports among the events that can be read.\<close>

definition readable_reports :: "sender_event list \<Rightarrow> TransferProgress list" where
  "readable_reports es = List.map_filter (\<lambda>e. case e of SdProgress x \<Rightarrow> parseProgressPayload x | _ \<Rightarrow> None) es"

definition latest_report :: "TransferProgress option \<Rightarrow> TransferProgress list \<Rightarrow> TransferProgress option" where
  "latest_report p rs = (if rs = [] then p else Some (last rs))"

definition transfer_running :: "string \<Rightarrow> string list \<Rightarrow> string \<Rightarrow> sender_call list \<Rightarrow> completion_job list \<Rightarrow> sender \<Rightarrow> bool" where
  "transfer_running p ps t calls js s \<longleftrightarrow>
     viewState s = TRANSPORTING \<and> selectedPaths s = p # ps \<and> selectedPath s = Some p \<and> \<not> isBroadcastMode s \<and>
     \<not> wasManuallyStoppedRef s \<and> sd_ticket s = Some t \<and> sd_calls s = calls \<and> completions s = js"

lemma running_step:
  assumes "transfer_running p ps t calls js s" "bystander e"
  shows "transfer_running p ps t calls js (sender_step env s e) \<and>
    latestProgressRef (sender_step env s e) = latest_report (latestProgressRef s) (readable_reports [e])"
  using assms
  by (cases e) (auto simp: bystander_def transfer_running_def readable_reports_def latest_report_def map_filter_simps sender_sync_def idle_effect_def
      active_connection_count_def paired_devices_loaded_def invite_response_def setInviteStatus_def progress_tick_def
      transfer_progress_def path_type_answer_def sd_closeAlert_def split: option.splits sum.splits)

lemma running_events:
  assumes "transfer_running p ps t calls js s" "list_all bystander es"
  shows "transfer_running p ps t calls js (run_ops (sender_step env) s es) \<and>
    latestProgressRef (run_ops (sender_step env) s es) = latest_report (latestProgressRef s) (readable_reports es)"
  using assms
proof (induction es arbitrary: s)
  case (Cons e es)
  from running_step [of p ps t calls js s e env] Cons.prems
  have r: "transfer_running p ps t calls js (sender_step env s e)"
    "latestProgressRef (sender_step env s e) = latest_report (latestProgressRef s) (readable_reports [e])" by simp_all
  have "readable_reports (e # es) = readable_reports [e] @ readable_reports es"
    by (simp add: readable_reports_def map_filter_def)
  with Cons.IH [OF r(1)] Cons.prems r(2) show ?case by (auto simp: latest_report_def)
qed (simp add: readable_reports_def latest_report_def map_filter_simps)

lemma send_file_name_segment:
  assumes "dir = [] \<or> last dir = CHR ''/''" "CHR ''/'' \<notin> set name" "name \<noteq> []"
  shows "send_file_name (dir @ name) = name"
proof -
  have "last (js_split CHR ''/'' (dir @ name)) = name"
    using assms(1)
  proof (induction dir)
    case Nil
    then show ?case by (simp add: js_split_single assms(2))
  next
    case (Cons c cs)
    show ?case
    proof (cases "cs = []")
      case True
      then show ?thesis using Cons.prems by (simp add: js_split_single assms(2))
    next
      case False
      then have ih: "last (js_split CHR ''/'' (cs @ name)) = name" using Cons by simp
      have "js_split CHR ''/'' (cs @ name) \<noteq> [w]" for w
      proof
        assume w: "js_split CHR ''/'' (cs @ name) = [w]"
        then have "js_join [CHR ''/''] [w] = cs @ name" by (metis js_join_split)
        moreover have "CHR ''/'' \<notin> set w" using js_split_no_sep w by (metis list.set_intros(1))
        ultimately show False using False Cons.prems last_in_set [of cs] by auto
      qed
      then show ?thesis using ih by (auto split: list.splits)
    qed
  qed
  then show ?thesis using assms(3) by (simp add: send_file_name_def js_or_def)
qed

lemma set_add_distinct: "distinct (xs @ ys) \<Longrightarrow> foldl js_set_add xs ys = xs @ ys"
proof (induction ys arbitrary: xs)
  case (Cons y ys)
  from Cons.IH [of "xs @ [y]"] Cons.prems show ?case by (simp add: js_set_add_def)
qed simp

lemma share_runs:
  assumes "distinct (p # ps)" "selectedPaths s = []" "\<not> isBroadcastMode s" "completions s = []"
  shows "\<exists>a. transfer_running p ps t (sd_calls s @ a @ [SendItems (p # ps)]) []
        (run_ops (sender_step env) s [SdSelect (p # ps) ty, SdShare, SdShareAnswer (Inr t), SdStarted t0]) \<and>
      set a \<subseteq> range CheckPathType \<and>
      latestProgressRef (run_ops (sender_step env) s [SdSelect (p # ps) ty, SdShare, SdShareAnswer (Inr t), SdStarted t0]) = None"
proof -
  have sel: "foldl js_set_add [] (p # ps) = p # ps" using set_add_distinct [of "[]" "p # ps"] assms(1) by simp
  define s1 where "s1 = handleFilesSelect (p # ps) ty s"
  have s1: "selectedPaths s1 = p # ps" "selectedPath s1 = Some p" "\<not> isBroadcastMode s1" "completions s1 = []"
    using assms(2-) sel by (auto simp: s1_def handleFilesSelect_def addSelectedPaths_def setSelectedPaths_def first_path_def
        sd_call_def Let_def split: option.splits)
  have "\<exists>a. sd_calls s1 = sd_calls s @ a \<and> set a \<subseteq> range CheckPathType"
    by (auto simp: s1_def handleFilesSelect_def addSelectedPaths_def setSelectedPaths_def sd_call_def Let_def
        split: option.splits)
  then obtain a where "sd_calls s1 = sd_calls s @ a" "set a \<subseteq> range CheckPathType" by blast
  then show ?thesis
    using s1 by (intro exI [of _ a]) (simp add: s1_def [symmetric] transfer_running_def startSharing_def share_answer_def
        transfer_started_def sd_call_def)
qed

text \<open>
  C13. A share that goes well. With nothing selected before, no broadcast and no completion under way, choosing items, starting the share, the
  ticket of the engine, the start of the transfer, any number of progress reports among renders, ticks and events of other devices, the
  completion, again such events, and the end of its delay lead to the success screen. The engine was asked once to send
  exactly the items chosen, the ticket is the one it returned, and the result carries the last path segment of the first item as
  its name, the number of items, the bytes of the last readable progress report (0 without one) and the time the engine measured.
\<close>

theorem send_succeeds:
  assumes "distinct ((dir @ name) # ps)" "dir = [] \<or> last dir = CHR ''/''" "name \<noteq> []" "CHR ''/'' \<notin> set name"
    and "selectedPaths s = []" "\<not> isBroadcastMode s" "completions s = []"
    and "list_all bystander es" "list_all bystander es'" "parseCompletionPayload payload = Some c"
  shows "let s' = run_ops (sender_step env) s
      ([SdSelect ((dir @ name) # ps) ty, SdShare, SdShareAnswer (Inr t), SdStarted t0] @ es @ [SdCompleted payload] @ es' @
       [SdCompletionContinue t1]) in
    sender_screen s' = SuccessScreen \<and> sd_ticket s' = Some t \<and>
    (\<exists>a b. sd_calls s' = sd_calls s @ a @ SendItems ((dir @ name) # ps) # b \<and> (\<forall>qs. SendItems qs \<notin> set (a @ b))) \<and>
    (\<exists>m. sd_metadata s' = Some m \<and> sm_fileName m = name \<and> sm_itemCount m = Suc (length ps) \<and>
       sm_fileSize m = (if readable_reports (es @ es') = [] then 0 else totalBytes (last (readable_reports (es @ es')))) \<and>
       sm_duration m = tc_durationMs c \<and> \<not> sm_wasStopped m)"
proof -
  define s1 where "s1 = run_ops (sender_step env) s [SdSelect ((dir @ name) # ps) ty, SdShare, SdShareAnswer (Inr t), SdStarted t0]"
  define s2 where "s2 = run_ops (sender_step env) s1 es"
  define s3 where "s3 = transfer_completed payload s2"
  define s4 where "s4 = run_ops (sender_step env) s3 es'"
  obtain a where a: "transfer_running (dir @ name) ps t (sd_calls s @ a @ [SendItems ((dir @ name) # ps)]) [] s1"
    "set a \<subseteq> range CheckPathType" "latestProgressRef s1 = None"
    using share_runs [OF assms(1,5-7), of t env ty t0] unfolding s1_def by blast
  note r2 = running_events [OF a(1) assms(8), of env, folded s2_def]
  obtain j where j: "cj_selectedPath j = dir @ name" "\<not> cj_broadcast j" "cj_itemCount j = Suc (length ps)" "cj_payload j = payload"
    and r3: "transfer_running (dir @ name) ps t (sd_calls s @ a @ [SendItems ((dir @ name) # ps)]) [j] s3"
      "latestProgressRef s3 = latestProgressRef s2"
    using r2 assms(3) that [of "\<lparr>cj_payload = payload, cj_broadcast = False, cj_selectedPath = dir @ name,
        cj_pathType = pathType s2, cj_itemCount = Suc (length ps)\<rparr>"]
    by (auto simp: s3_def transfer_running_def transfer_completed_def current_transfer_def)
  note r4 = running_events [OF r3(1) assms(9), of env, folded s4_def]
  have rs: "readable_reports (es @ es') = readable_reports es @ readable_reports es'" by (simp add: readable_reports_def map_filter_def)
  have l: "latestProgressRef s4 = latest_report None (readable_reports (es @ es'))"
    using r4 r3(2) r2 a(3) by (auto simp: latest_report_def rs)
  have "run_ops (sender_step env) s ([SdSelect ((dir @ name) # ps) ty, SdShare, SdShareAnswer (Inr t), SdStarted t0] @ es @
      [SdCompleted payload] @ es' @ [SdCompletionContinue t1]) = completion_continue t1 s4"
    unfolding run_ops_simps(3) s1_def [symmetric] s2_def [symmetric] by (simp add: s3_def [symmetric] s4_def [symmetric])
  moreover define b where "b = (if ps = [] then [GetFileSize (dir @ name)] else [])"
  have "sd_calls (completion_continue t1 s4) = sd_calls s @ a @ SendItems ((dir @ name) # ps) # b"
    "\<forall>qs. SendItems qs \<notin> set (a @ b)"
    using r4 j a(2) by (auto simp: completion_continue_def transfer_running_def sd_call_def b_def Let_def)
  then have "\<exists>a b. sd_calls (completion_continue t1 s4) = sd_calls s @ a @ SendItems ((dir @ name) # ps) # b \<and>
      (\<forall>qs. SendItems qs \<notin> set (a @ b))" by blast
  moreover have "sender_screen (completion_continue t1 s4) = SuccessScreen \<and> sd_ticket (completion_continue t1 s4) = Some t"
    using r4 j by (simp add: completion_continue_def transfer_running_def sd_call_def sender_screen_def Let_def)
  moreover have "sd_metadata (completion_continue t1 s4) = Some (completed_send t1 j s4)"
    using r4 by (simp add: completion_continue_def transfer_running_def sd_call_def Let_def)
  moreover have "sm_fileSize (completed_send t1 j s4) =
      (if readable_reports (es @ es') = [] then 0 else totalBytes (last (readable_reports (es @ es'))))"
    by (simp add: completed_send_def l latest_report_def)
  ultimately show ?thesis
    using j send_file_name_segment [OF assms(2,4,3)] assms(10) by (simp add: completed_send_def Let_def)
qed

definition demo_events :: "sender_event list" where
  "demo_events = [SdSync, SdProgress (show_nat 3 @ '':'' @ show_nat 3 @ '':'' @ show_nat 7), SdTick]"

theorem send_succeeds_witness:
  "let s' = run_ops (sender_step demo_env) sender_start
      ([SdSelect [''/d/a''] (Some HFile), SdShare, SdShareAnswer (Inr ''t''), SdStarted 5] @ demo_events @
       [SdCompleted (Str (JSON_stringify (JObj [(''durationMs'', JNat 4)])))] @ [SdSync] @ [SdCompletionContinue 9]) in
   sender_screen s' = SuccessScreen \<and> (\<exists>m. sd_metadata s' = Some m \<and> sm_fileName m = ''a'' \<and> sm_itemCount m = 1)"
proof -
  have "parseCompletionPayload (Str (JSON_stringify (JObj [(''durationMs'', JNat 4)]))) \<noteq> None"
    using parse_stringify [of "JObj [(''durationMs'', JNat 4)]"]
    by (simp add: parseCompletionPayload_def finite_num_def del: JSON_stringify.simps)
  then obtain c where c: "parseCompletionPayload (Str (JSON_stringify (JObj [(''durationMs'', JNat 4)]))) = Some c" by blast
  have "list_all bystander demo_events" "list_all bystander [SdSync]"
    by (simp_all add: demo_events_def bystander_def)
  from send_succeeds [OF _ _ _ _ _ _ _ this c, of "''/d/''" "''a''" "[]" sender_start demo_env "Some HFile" "''t''" 5 9]
  show ?thesis
    by (auto simp: sender_start_def Let_def simp del: JSON_stringify.simps sender_step.simps run_ops_simps)
qed

text \<open>
  A click on a paired device starts an invite exactly when there is a ticket, the node is ready, no invite
  to any device is on its way or delivered and unanswered, and the device is unknown or active and online. It
  then marks that device as being invited and carries the current ticket and the number of items.
\<close>

theorem invite_starts_exactly:
  fixes env :: receiver_env and es :: "sender_event list"
  defines "s \<equiv> run_ops (sender_step env) sender_start es"
  shows "map (\<lambda>j. (ij_endpoint j, ij_nearby j, ij_ticket j, ij_files j)) (invite_jobs (onInvitePairedDevice env' ready e s)) =
    map (\<lambda>j. (ij_endpoint j, ij_nearby j, ij_ticket j, ij_files j)) (invite_jobs s) @
    (case sd_ticket s of
       None \<Rightarrow> []
     | Some t \<Rightarrow>
         if t \<noteq> [] \<and> ready \<and> list_all (\<lambda>(_, st). st = InvFailed) (pairedInviteStatus s) \<and>
            (case find (\<lambda>d. endpoint_id d = e) (pairedDevices s) of None \<Rightarrow> True | Some d \<Rightarrow> isPairedDeviceActive d \<and> online d)
         then [(e, False, t, max (length (selectedPaths s)) 1)] else [])"
proof -
  have d: "distinct (map fst (pairedInviteStatus s))"
    using selection_machine.reachable_inv [of env es] by (simp add: s_def selection_inv_def)
  have st: "invite_in_flight st \<longleftrightarrow> st \<noteq> InvFailed" for st by (cases st) (auto simp: invite_in_flight_def)
  have guard: "map_of (pairedInviteStatus s) e \<noteq> Some InvSending \<and>
      \<not> list_ex (\<lambda>(i, st). i \<noteq> e \<and> invite_in_flight st) (pairedInviteStatus s) \<and>
      map_of (pairedInviteStatus s) e \<noteq> Some InvSent \<longleftrightarrow>
      list_all (\<lambda>(_, st). st = InvFailed) (pairedInviteStatus s)"
    using map_of_eq_Some_iff [OF d] st PairedInviteStatus.exhaust
    by (auto simp: list_all_iff list_ex_iff split: prod.splits) metis+
  show ?thesis
    using guard
    by (auto simp: onInvitePairedDevice_def invite_guard_def begin_invite_def setInviteStatus_def sd_call_def
        split: option.splits if_splits)
qed

text \<open>
  A completed broadcast leaves a timer that nothing cancels. If the share is stopped and confirmed within its two
  seconds, the timer brings the sharing view back, with no ticket and nothing selected.
\<close>

lemma broadcast_timer_revives_share:
  fixes env :: receiver_env and t1 t2 :: nat and payload :: jsval and s :: sender
  assumes "selectedPaths s = p # ps" "selectedPath s = Some p" "p \<noteq> []" "isBroadcastMode s" "viewState s = SHARING"
    "completions s = []" "stop_requests s = []" "\<not> wasManuallyStoppedRef s"
  defines "fin \<equiv> completion_continue t1 (transfer_completed payload s)"
    and "idle \<equiv> stop_answer env 0 (Inr ()) (stopSharing t2 (completion_continue t1 (transfer_completed payload s)))"
  shows "broadcast_timers fin = Suc (broadcast_timers s)" "viewState idle = IDLE"
    "viewState (broadcast_timer idle) = SHARING" "sd_ticket (broadcast_timer idle) = None"
    "selectedPaths (broadcast_timer idle) = []" "sender_screen (broadcast_timer idle) = SharingScreen"
proof -
  have d: "viewState fin = SHARING" "stop_requests fin = []" "broadcast_timers fin = Suc (broadcast_timers s)"
    using assms by (simp_all add: fin_def transfer_completed_def current_transfer_def completion_continue_def
        sd_call_def Let_def)
  have e: "stop_requests (stopSharing t2 fin) = [False]" "broadcast_timers (stopSharing t2 fin) = broadcast_timers fin"
    using d(1,2) by (simp_all add: stopSharing_def sd_call_def Let_def)
  have i: "viewState idle = IDLE" "sd_ticket idle = None" "selectedPaths idle = []" "isBroadcastMode idle = False"
    "broadcast_timers idle = Suc (broadcast_timers s)"
    using d e by (simp_all add: idle_def fin_def [symmetric] stop_answer_def resetToIdle_def Let_def)
  show "broadcast_timers fin = Suc (broadcast_timers s)" "viewState idle = IDLE" using d i by simp_all
  show "viewState (broadcast_timer idle) = SHARING" "sd_ticket (broadcast_timer idle) = None"
    "selectedPaths (broadcast_timer idle) = []" "sender_screen (broadcast_timer idle) = SharingScreen"
    using i by (simp_all add: broadcast_timer_def resetForBroadcast_def sender_screen_def)
qed

text \<open>The branch of \<open>stopSharing\<close> for broadcast mode is never taken: it never leaves the sharing view.\<close>

lemma stop_never_resumes_broadcast:
  "viewState s = TRANSPORTING \<Longrightarrow> viewState (stopSharing now s) \<noteq> SHARING"
  by (simp add: stopSharing_def sd_call_def Let_def split: option.splits)

text \<open>The timer of a failed invite clears whatever status the device has by then.\<close>

lemma stale_timer_clears_live_invite:
  assumes "invite_timers s = [e]" "map_of (pairedInviteStatus s) e = Some InvSending"
  shows "map_of (pairedInviteStatus (invite_timer 0 s)) e = None"
  using assms by (simp add: invite_timer_def setInviteStatus_def)

text \<open>The answer to a question about one path is stored even when several are selected by then.\<close>

lemma late_path_type:
  assumes "p \<noteq> q" "selectedPaths s = []" "pathTypeRef s = None"
  shows "let s' = run_ops (sender_step env) s [SdSelect [p] None, SdSelect [q] None, SdPathType (Inr HFile)] in
    selectedPaths s' = [p, q] \<and> pathType s' = Some HFile"
  using assms by (simp add: handleFilesSelect_def addSelectedPaths_def setSelectedPaths_def first_path_def
      js_set_add_def sd_call_def path_type_answer_def Let_def)

end
