(* ===== verification/Home_Page.thy ===== *)
theory Home_Page
  imports Sender Updater General_Settings
begin

text \<open>
  The start page and what surrounds it: \<open>routes/index.tsx\<close> with \<open>store/transfer-tab-store.ts\<close>,
  \<open>components/common/AppUpdater.tsx\<close>, \<open>components/AppFooter.tsx\<close>, \<open>components/RelayStatusButton.tsx\<close>,
  \<open>components/pairing/DevicePairingStatus.tsx\<close> and \<open>lib/safeArea.ts\<close>.

  The page keeps the two tabs mounted and reacts to links, launch intents and requests of other screens;
  what it tells the sender and the receiver is a list of calls. A request of the relay button belongs to
  the configuration it was made for; its effect is cancelled when the configuration changes.
\<close>

section \<open>The tabs\<close>

datatype TransferTab = SendTab | ReceiveTab

datatype home_call =
    TicketChange string
  | HcSelectPath string
  | HcCheckPathType string
  | SetPathType "string option"
  | FallbackToast string

record home_page =
  activeTab :: TransferTab
  hp_isSharing :: bool
  hp_isReceiving :: bool
  hp_requestedTab :: "TransferTab option"
  hp_checks :: "string list"      \<comment> \<open>paths whose type is being asked\<close>
  hp_calls :: "home_call list"

definition home_start :: home_page where
  "home_start = \<lparr>activeTab = SendTab, hp_isSharing = False, hp_isReceiving = False, hp_requestedTab = None,
     hp_checks = [], hp_calls = []\<rparr>"

definition home_call_with :: "home_call list \<Rightarrow> home_page \<Rightarrow> home_page" where [step_defs]:
  "home_call_with cs s = s\<lparr>hp_calls := hp_calls s @ cs\<rparr>"

definition applyReceiveLink :: "url_parser \<Rightarrow> string \<Rightarrow> home_page \<Rightarrow> home_page" where [step_defs]:
  "applyReceiveLink URL url s =
     (case ticketFromReceiveLink URL url of
        None \<Rightarrow> s
      | Some ticket \<Rightarrow> if ticket = [] then s else (home_call_with [TicketChange ticket] s)\<lparr>activeTab := ReceiveTab\<rparr>)"

definition requested_tab_effect :: "home_page \<Rightarrow> home_page" where [step_defs]:
  "requested_tab_effect s =
     (case hp_requestedTab s of None \<Rightarrow> s | Some tab \<Rightarrow> s\<lparr>activeTab := tab, hp_requestedTab := None\<rparr>)"

definition home_applyIntent :: "string \<Rightarrow> home_page \<Rightarrow> home_page" where [step_defs]:
  "home_applyIntent path s =
     (if path = [] then s
      else (home_call_with [HcSelectPath path, HcCheckPathType path] s)
             \<lparr>activeTab := SendTab, hp_checks := hp_checks s @ [path]\<rparr>)"

definition intent_type_answer :: "nat \<Rightarrow> string result \<Rightarrow> home_page \<Rightarrow> home_page" where [step_defs]:
  "intent_type_answer j r s =
     (if \<not> j < length (hp_checks s) then s
      else home_call_with [SetPathType (case r of Inr ty \<Rightarrow> Some ty | Inl _ \<Rightarrow> None)]
             (s\<lparr>hp_checks := drop_call j (hp_checks s)\<rparr>))"

definition relay_fell_back :: "string \<Rightarrow> home_page \<Rightarrow> home_page" where [step_defs]:
  "relay_fell_back payload s =
     (case relayFallbackToastDescriptionKey payload of
        None \<Rightarrow> s
      | Some key \<Rightarrow> if key = [] then s else home_call_with [FallbackToast key] s)"

definition tab_disabled :: "TransferTab \<Rightarrow> home_page \<Rightarrow> bool" where
  "tab_disabled tab s = (case tab of SendTab \<Rightarrow> hp_isReceiving s | ReceiveTab \<Rightarrow> hp_isSharing s)"

datatype home_event =
    HpLink string
  | HpRequest TransferTab
  | HpIntent string
  | HpPathType nat "string result"
  | HpFellBack string
  | HpTabClick TransferTab
  | HpSharing bool
  | HpReceiving bool

fun home_step :: "url_parser \<Rightarrow> home_page \<Rightarrow> home_event \<Rightarrow> home_page" where
  "home_step URL s (HpLink url) = applyReceiveLink URL url s"
| "home_step URL s (HpRequest tab) = requested_tab_effect (s\<lparr>hp_requestedTab := Some tab\<rparr>)"
| "home_step URL s (HpIntent path) = home_applyIntent path s"
| "home_step URL s (HpPathType j r) = intent_type_answer j r s"
| "home_step URL s (HpFellBack payload) = relay_fell_back payload s"
| "home_step URL s (HpTabClick tab) = (if tab_disabled tab s then s else s\<lparr>activeTab := tab\<rparr>)"
| "home_step URL s (HpSharing b) = s\<lparr>hp_isSharing := b\<rparr>"
| "home_step URL s (HpReceiving b) = s\<lparr>hp_isReceiving := b\<rparr>"

section \<open>The update banner\<close>

record update_banner =
  bn_app :: updater_app
  bn_confirming :: bool
  bn_restarts :: nat

definition banner_start :: "string option \<Rightarrow> update_banner" where
  "banner_start dismissed = \<lparr>bn_app = updater_start dismissed, bn_confirming = False, bn_restarts = 0\<rparr>"

definition banner_visible :: "update_banner \<Rightarrow> bool" where
  "banner_visible s = sn_bannerVisible (shown (store (bn_app s)))"

definition canDismiss :: "update_banner \<Rightarrow> bool" where
  "canDismiss s \<longleftrightarrow> sn_phase (shown (store (bn_app s))) = UAvailable"

definition banner_updater :: "updater_event \<Rightarrow> update_banner \<Rightarrow> update_banner" where [step_defs]:
  "banner_updater e s = s\<lparr>bn_app := updater_step (bn_app s) e\<rparr>"

definition handleRestart :: "bool \<Rightarrow> update_banner \<Rightarrow> update_banner" where [step_defs]:
  "handleRestart transferBusy s =
     (if transferBusy \<and> \<not> bn_confirming s then s\<lparr>bn_confirming := True\<rparr>
      else (banner_updater RestartClick s)\<lparr>bn_restarts := Suc (bn_restarts s)\<rparr>)"

datatype banner_event =
    BnEscape
  | BnDismiss
  | BnInstall
  | BnRestart bool
  | BnCancel
  | BnUpdater updater_event

text \<open>A button acts only while it is drawn.\<close>

fun banner_step :: "update_banner \<Rightarrow> banner_event \<Rightarrow> update_banner" where
  "banner_step s BnEscape = (if banner_visible s \<and> canDismiss s then banner_updater DismissClick s else s)"
| "banner_step s BnDismiss = (if banner_visible s \<and> canDismiss s then banner_updater DismissClick s else s)"
| "banner_step s BnInstall = (if banner_visible s \<and> canDismiss s then banner_updater InstallClick s else s)"
| "banner_step s (BnRestart busy) =
     (if banner_visible s \<and> sn_phase (shown (store (bn_app s))) = UReady then handleRestart busy s else s)"
| "banner_step s BnCancel =
     (if banner_visible s \<and> sn_phase (shown (store (bn_app s))) = UReady \<and> bn_confirming s
      then s\<lparr>bn_confirming := False\<rparr> else s)"
| "banner_step s (BnUpdater e) = banner_updater e s"

section \<open>The footer\<close>

datatype footer_target = HistoryPage | DevicesPage | SettingsPage

text \<open>The entries in order, and whether each is a link.\<close>

definition AppFooter :: "bool \<Rightarrow> bool \<Rightarrow> sender \<Rightarrow> (footer_target \<times> bool) list" where
  "AppFooter IS_TAURI IS_PAIRING_CAPABLE s =
     (let isSharing = (viewState s = SHARING \<or> viewState s = TRANSPORTING) in
      (if IS_TAURI then [(HistoryPage, \<not> isSharing)] else []) @
      (if IS_PAIRING_CAPABLE then [(DevicesPage, \<not> isSharing)] else []) @
      [(SettingsPage, \<not> isSharing)])"

section \<open>The relay button\<close>

datatype RelayStatusKind = RsPublic | RsCustom | RsDisabled | RsUnavailable

record RelayStatusResponse =
  rs_kind :: RelayStatusKind
  rs_url :: "string option"
  rs_connected :: bool
  rs_fellBack :: bool

definition status_unavailable :: RelayStatusResponse where
  "status_unavailable = \<lparr>rs_kind = RsUnavailable, rs_url = None, rs_connected = False, rs_fellBack = False\<rparr>"

text \<open>
  \<open>rb_effect\<close> numbers the runs of the effect, \<open>rb_cancelled\<close> says that the current one was cleaned up.
  \<open>rb_answered\<close> is the configuration whose answer is shown.
\<close>

record relay_button =
  rb_effect :: nat
  rb_cancelled :: bool
  rb_config :: RelayConfigArg
  rb_requests :: "(nat \<times> RelayConfigArg) list"
  rb_status :: "RelayStatusResponse option"
  rb_loading :: bool
  rb_showInfo :: bool
  rb_answered :: "RelayConfigArg option"

definition relay_load :: "RelayConfigArg \<Rightarrow> relay_button \<Rightarrow> relay_button" where [step_defs]:
  "relay_load c s =
     s\<lparr>rb_effect := Suc (rb_effect s), rb_cancelled := False, rb_config := c, rb_loading := True,
       rb_requests := rb_requests s @ [(Suc (rb_effect s), c)]\<rparr>"

definition RelayStatusButton :: "bool \<Rightarrow> RelayConfigInput \<Rightarrow> relay_button" where
  "RelayStatusButton IS_WEB input =
     relay_load (buildRelayStatusConfig IS_WEB input)
       \<lparr>rb_effect = 0, rb_cancelled = True, rb_config = buildRelayStatusConfig IS_WEB input, rb_requests = [],
        rb_status = None, rb_loading = True, rb_showInfo = False, rb_answered = None\<rparr>"

definition relay_status_answer :: "nat \<Rightarrow> RelayStatusResponse result \<Rightarrow> relay_button \<Rightarrow> relay_button" where [step_defs]:
  "relay_status_answer j r s =
     (if \<not> j < length (rb_requests s) then s
      else
        (let (i, c) = rb_requests s ! j; s1 = s\<lparr>rb_requests := drop_call j (rb_requests s)\<rparr> in
         if i \<noteq> rb_effect s \<or> rb_cancelled s then s1
         else s1\<lparr>rb_status := Some (case r of Inr st \<Rightarrow> st | Inl _ \<Rightarrow> status_unavailable),
                 rb_answered := Some c, rb_loading := False\<rparr>))"

datatype relay_button_event = RbSettings RelayConfigInput | RbAnswer nat "RelayStatusResponse result" | RbInfo | RbUnmount

text \<open>\<open>useMemo\<close> makes a new configuration for every change of the settings, and the effect runs for it.\<close>

fun relay_button_step :: "bool \<Rightarrow> relay_button \<Rightarrow> relay_button_event \<Rightarrow> relay_button" where
  "relay_button_step web s (RbSettings input) =
     (if rb_cancelled s then s else relay_load (buildRelayStatusConfig web input) s)"
| "relay_button_step web s (RbAnswer j r) = relay_status_answer j r s"
| "relay_button_step web s RbInfo = s\<lparr>rb_showInfo := \<not> rb_showInfo s\<rparr>"
| "relay_button_step web s RbUnmount = s\<lparr>rb_cancelled := True\<rparr>"

definition activeKind :: "RelayStatusResponse option \<Rightarrow> RelayStatusKind" where
  "activeKind status =
     (case status of
        None \<Rightarrow> RsUnavailable
      | Some st \<Rightarrow> if rs_connected st then rs_kind st else if rs_kind st = RsDisabled then RsDisabled else RsUnavailable)"

definition didFallBack :: "RelayStatusResponse option \<Rightarrow> bool" where
  "didFallBack status = (case status of None \<Rightarrow> False | Some st \<Rightarrow> rs_connected st \<and> rs_fellBack st)"

definition displayKind :: "RelayStatusResponse option \<Rightarrow> RelayStatusKind" where
  "displayKind status = (if didFallBack status then RsPublic else activeKind status)"

fun headingKey :: "RelayStatusKind \<Rightarrow> string" where
  "headingKey RsCustom = ''footer.relay.customHeading''"
| "headingKey RsPublic = ''footer.relay.publicHeading''"
| "headingKey RsDisabled = ''footer.relay.disabledHeading''"
| "headingKey RsUnavailable = ''footer.relay.unavailableHeading''"

section \<open>The status of a paired device\<close>

definition DevicePairingStatus :: "bool \<Rightarrow> bool \<Rightarrow> PairedDevice \<Rightarrow> string" where
  "DevicePairingStatus nodeReady networkReady d =
     (if pairing_status d = Some PUnpairedRemotely then ''statusUnpaired''
      else if pairing_status d = Some PStaleLocalIdentity then ''statusRePairRequired''
      else if online d then ''statusOnline''
      else if nodeReady \<and> \<not> networkReady \<and> isPairedDeviceActive d then ''statusConnecting''
      else ''statusOffline'')"

section \<open>Safe areas\<close>

text \<open>The value of an edge, and whether any edge has one. A missing edge is \<open>NaN\<close>.\<close>

definition inset_value :: "jsnum \<Rightarrow> rat" where
  "inset_value raw = (case raw of Fin q \<Rightarrow> if q > 0 then q else 0 | _ \<Rightarrow> 0)"

definition applyInsets :: "jsnum list \<Rightarrow> rat list \<times> bool" where
  "applyInsets edges = (map inset_value edges, list_ex (\<lambda>e. inset_value e > 0) edges)"

definition readInsets :: "jsnum list result \<Rightarrow> bool" where
  "readInsets r = (case r of Inl _ \<Rightarrow> False | Inr edges \<Rightarrow> snd (applyInsets edges))"

definition STARTUP_RETRY_DELAYS_MS :: "nat list" where
  "STARTUP_RETRY_DELAYS_MS = [150, 500, 1500]"

text \<open>The reads at startup: the answers used up, given the answers to come.\<close>

fun startup_reads :: "nat list \<Rightarrow> jsnum list result list \<Rightarrow> nat" where
  "startup_reads delays [] = 0"
| "startup_reads delays (r # rs) =
     (if readInsets r then 1
      else (case delays of [] \<Rightarrow> 1 | d # ds \<Rightarrow> Suc (startup_reads ds rs)))"

section \<open>Properties\<close>

text \<open>
  Clicks never leave the tab of a running transfer while only that one runs, and while at most one of the
  two is running the other tab's owner can still be reached.
\<close>

definition tab_of_transfer :: "home_page \<Rightarrow> TransferTab" where
  "tab_of_transfer s = (if hp_isSharing s then SendTab else ReceiveTab)"

lemma tab_clicks_keep_transfer:
  assumes "hp_isSharing s \<noteq> hp_isReceiving s" "activeTab s = tab_of_transfer s"
  shows "run_ops (home_step URL) s (map HpTabClick tabs) = s"
  using assms
proof (induction tabs)
  case (Cons tab tabs)
  have "activeTab s = tab \<Longrightarrow> s\<lparr>activeTab := tab\<rparr> = s" for tab by simp
  then have "home_step URL s (HpTabClick tab) = s"
    using Cons.prems by (cases tab) (auto simp: tab_disabled_def tab_of_transfer_def split: if_splits)
  then show ?case using Cons by simp
qed simp

text \<open>
  A receive link that arrives while files are shared moves the page to the other tab; once that receive
  runs as well, both tabs are disabled and no click returns to the share.
\<close>

lemma both_tabs_locked:
  fixes URL :: url_parser and url ticket :: string and tabs :: "TransferTab list"
  assumes "ticketFromReceiveLink URL url = Some ticket" "ticket \<noteq> []"
  defines "s \<equiv> run_ops (home_step URL) home_start [HpSharing True, HpLink url, HpReceiving True]"
  shows "activeTab s = ReceiveTab \<and> hp_isSharing s \<and>
    activeTab (run_ops (home_step URL) s (map HpTabClick tabs)) = ReceiveTab"
proof -
  have s: "activeTab s = ReceiveTab" "hp_isSharing s" "hp_isReceiving s"
    using assms(1,2) by (auto simp: s_def home_start_def step_defs)
  then have "run_ops (home_step URL) s (map HpTabClick tabs) = s"
  proof (induction tabs)
    case (Cons tab tabs)
    then show ?case by (cases tab) (auto simp: tab_disabled_def)
  qed simp
  then show ?thesis using s by simp
qed

text \<open>
  An answer to a launch intent reports the type of a path; after every intent was answered none is open,
  and each path was handed to the sender in the order of the intents.
\<close>

definition selected_paths :: "home_page \<Rightarrow> string list" where
  "selected_paths s = List.map_filter (\<lambda>c. case c of HcSelectPath p \<Rightarrow> Some p | _ \<Rightarrow> None) (hp_calls s)"

lemma intents_select_in_order:
  "selected_paths (run_ops (home_step URL) s es) =
     selected_paths s @ filter (\<lambda>p. p \<noteq> []) (List.map_filter (\<lambda>e. case e of HpIntent p \<Rightarrow> Some p | _ \<Rightarrow> None) es)"
proof (induction es arbitrary: s)
  case (Cons e es)
  have "selected_paths (home_step URL s e) =
      selected_paths s @ (case e of HpIntent p \<Rightarrow> if p = [] then [] else [p] | _ \<Rightarrow> [])"
    by (cases e) (auto simp: selected_paths_def List.map_filter_def step_defs split: option.splits)
  then show ?case using Cons.IH by (cases e) (auto simp: List.map_filter_def)
qed (simp add: List.map_filter_def)

subsection \<open>Restarting for an update\<close>

lemma banner_confirming:
  assumes "bn_confirming (run_ops banner_step (banner_start d) es)"
  shows "\<exists>k < length es. es ! k = BnRestart True \<and>
    (\<forall>j. k < j \<and> j \<le> length es \<longrightarrow> bn_confirming (run_ops banner_step (banner_start d) (take j es)))"
  using assms
proof (induction es rule: rev_induct)
  case Nil
  then show ?case by (simp add: banner_start_def)
next
  case (snoc e es)
  let ?run = "\<lambda>es. run_ops banner_step (banner_start d) es"
  show ?case
  proof (cases "bn_confirming (?run es)")
    case True
    then obtain k where k: "k < length es" "es ! k = BnRestart True"
        "\<And>j. k < j \<Longrightarrow> j \<le> length es \<Longrightarrow> bn_confirming (?run (take j es))"
      using snoc.IH by blast
    have "bn_confirming (?run (take j (es @ [e])))" if "k < j" "j \<le> length (es @ [e])" for j
    proof (cases "j \<le> length es")
      case True
      then show ?thesis using k(3) that by simp
    next
      case False
      then have "take j (es @ [e]) = es @ [e]" using that by simp
      then show ?thesis using snoc.prems by simp
    qed
    then show ?thesis using k by (intro exI [of _ k]) (simp add: nth_append)
  next
    case False
    then have "e = BnRestart True"
      using snoc.prems by (cases e) (auto simp: step_defs split: if_splits)
    moreover have "take j (es @ [e]) = es @ [e]" if "length es < j" for j
      using that by simp
    ultimately show ?thesis using snoc.prems by (intro exI [of _ "length es"]) auto
  qed
qed

text \<open>
  From the banner the application restarts during a transfer only on a second click: the first one drew
  the warning, and it has been on display ever since.
\<close>

theorem busy_restart_confirmed:
  fixes es :: "banner_event list" and d :: "string option"
  defines "s \<equiv> run_ops banner_step (banner_start d) es"
  assumes restarts: "bn_restarts (banner_step s (BnRestart True)) \<noteq> bn_restarts s"
  shows "\<exists>k < length es. es ! k = BnRestart True \<and>
    (\<forall>j. k < j \<and> j \<le> length es \<longrightarrow> bn_confirming (run_ops banner_step (banner_start d) (take j es)))"
proof (rule banner_confirming)
  show "bn_confirming (run_ops banner_step (banner_start d) es)"
    using restarts by (auto simp: s_def step_defs split: if_splits)
qed

text \<open>
  The update section of the settings draws its restart button for every installed update and has no such
  warning. The footer leads there while files are being received: it disables its links only for a share.
\<close>

lemma settings_restart_unwarned:
  assumes "phase (core (store a)) = UReady" "sn_phase (shown (store a)) = UReady"
    and "viewState sd \<notin> {SHARING, TRANSPORTING}"
  shows "URestartButton \<in> set (AutoUpdate False autoUpdate isPending (shown (store a))) \<and>
    phase (core (store (updater_step a RestartClick))) = URestarting \<and>
    (SettingsPage, True) \<in> set (AppFooter tauri pairing sd)"
  using assms by (auto simp: AutoUpdate_def AppFooter_def on_store_def restarting_def Let_def)

subsection \<open>The relay status\<close>

definition relay_button_inv :: "relay_button \<Rightarrow> bool" where
  "relay_button_inv s \<longleftrightarrow>
     distinct (map fst (rb_requests s)) \<and> (\<forall>(i, c) \<in> set (rb_requests s). i \<le> rb_effect s) \<and>
     (\<forall>c. (rb_effect s, c) \<in> set (rb_requests s) \<longrightarrow> c = rb_config s) \<and>
     (\<not> rb_cancelled s \<longrightarrow>
        rb_loading s = ((rb_effect s, rb_config s) \<in> set (rb_requests s)) \<and>
        (\<not> rb_loading s \<longrightarrow> rb_answered s = Some (rb_config s) \<and> rb_status s \<noteq> None))"

lemma drop_call_distinct:
  assumes "distinct (map fst xs)" "j < length xs"
  shows "distinct (map fst (drop_call j xs))" "set (drop_call j xs) = {p \<in> set xs. fst p \<noteq> fst (xs ! j)}"
proof -
  have xs: "xs = take j xs @ xs ! j # drop (Suc j) xs" using assms(2) by (rule id_take_nth_drop)
  then have d: "distinct (map fst (take j xs @ xs ! j # drop (Suc j) xs))" using assms(1) by simp
  then show "distinct (map fst (drop_call j xs))" by (auto simp: drop_call_def)
  have "set xs = insert (xs ! j) (set (drop_call j xs))"
    by (subst xs) (auto simp: drop_call_def)
  moreover have "fst p \<noteq> fst (xs ! j)" if "p \<in> set (drop_call j xs)" for p
    using d that by (auto simp: drop_call_def image_iff)
  ultimately show "set (drop_call j xs) = {p \<in> set xs. fst p \<noteq> fst (xs ! j)}" by auto
qed

lemma relay_load_inv:
  assumes "relay_button_inv s"
  shows "relay_button_inv (relay_load c s)"
proof -
  have old: "distinct (map fst (rb_requests s))" "\<And>i d. (i, d) \<in> set (rb_requests s) \<Longrightarrow> i \<le> rb_effect s"
    using assms unfolding relay_button_inv_def by blast+
  then have new: "\<And>d. (Suc (rb_effect s), d) \<notin> set (rb_requests s)"
    using not_less_eq_eq by blast
  then have "Suc (rb_effect s) \<notin> fst ` set (rb_requests s)" by force
  moreover have "\<forall>(i, d) \<in> set (rb_requests s). i \<le> Suc (rb_effect s)"
    using old(2) le_SucI by blast
  ultimately show ?thesis
    using old(1) new by (simp add: relay_button_inv_def relay_load_def)
qed

lemma relay_answer_inv:
  assumes inv: "relay_button_inv s"
  shows "relay_button_inv (relay_status_answer j r s)"
proof (cases "j < length (rb_requests s)")
  case j: True
  obtain i c where ic: "rb_requests s ! j = (i, c)" by fastforce
  then have mem: "(i, c) \<in> set (rb_requests s)" using j nth_mem by metis
  have d: "distinct (map fst (rb_requests s))" using inv by (simp add: relay_button_inv_def)
  show ?thesis
    using inv j mem drop_call_distinct [OF d j]
    by (auto simp: relay_button_inv_def relay_status_answer_def ic Let_def)
qed (use inv in \<open>simp add: relay_status_answer_def\<close>)

interpretation relay_button: state_machine "RelayStatusButton web input" "relay_button_step web" relay_button_inv
proof
  show "relay_button_inv (RelayStatusButton web input)"
    by (simp add: RelayStatusButton_def relay_button_inv_def relay_load_def)
next
  fix s e assume "relay_button_inv s"
  then show "relay_button_inv (relay_button_step web s e)"
    by (cases e) (auto simp: relay_load_inv relay_answer_inv, auto simp: relay_button_inv_def)
qed

text \<open>The settings in force: the last ones the button has seen.\<close>

definition settings_seen :: "relay_button_event list \<Rightarrow> RelayConfigInput list" where
  "settings_seen es = List.map_filter (\<lambda>e. case e of RbSettings i \<Rightarrow> Some i | _ \<Rightarrow> None) es"

lemma relay_config_in_force:
  assumes "\<not> rb_cancelled s0" "RbUnmount \<notin> set es"
  shows "\<not> rb_cancelled (run_ops (relay_button_step web) s0 es) \<and>
    rb_config (run_ops (relay_button_step web) s0 es) =
      (if settings_seen es = [] then rb_config s0 else buildRelayStatusConfig web (last (settings_seen es)))"
  using assms
proof (induction es arbitrary: s0)
  case (Cons e es)
  have "\<not> rb_cancelled (relay_button_step web s0 e) \<and>
      rb_config (relay_button_step web s0 e) = (case e of RbSettings i \<Rightarrow> buildRelayStatusConfig web i | _ \<Rightarrow> rb_config s0)"
    using Cons.prems by (cases e) (auto simp: step_defs Let_def split: prod.splits)
  then show ?case using Cons by (cases e) (auto simp: settings_seen_def map_filter_simps)
qed (simp add: settings_seen_def map_filter_simps)

text \<open>
  C23. While the relay button is on the page, the status it holds once it has stopped loading is the answer for
  the settings last seen, however the answers for earlier settings arrive; and while it is
  loading, the request that will end this is on its way: its answer, an error included, ends the loading
  and is shown. (While it is loading the status of the settings before is still drawn: \<open>old_status_while_loading\<close>.)
\<close>

theorem relay_status_current:
  fixes web :: bool and input :: RelayConfigInput and es :: "relay_button_event list"
    and r :: "RelayStatusResponse result"
  defines "s \<equiv> run_ops (relay_button_step web) (RelayStatusButton web input) es"
    and "force \<equiv> buildRelayConfigArg web (last (input # List.map_filter (\<lambda>e. case e of RbSettings i \<Rightarrow> Some i | _ \<Rightarrow> None) es))"
  assumes mounted: "RbUnmount \<notin> set es"
  shows "if rb_loading s
    then \<exists>j. let s' = relay_button_step web s (RbAnswer j r) in
           rb_requests s ! j = (rb_effect s, force) \<and> \<not> rb_loading s' \<and> rb_answered s' = Some force \<and>
           rb_status s' = Some (case r of Inr st \<Rightarrow> st | Inl _ \<Rightarrow> status_unavailable)
    else rb_answered s = Some force \<and> rb_status s \<noteq> None"
proof -
  have inv: "relay_button_inv s" unfolding s_def by (rule relay_button.reachable_inv)
  have "\<not> rb_cancelled (RelayStatusButton web input)" by (simp add: RelayStatusButton_def relay_load_def)
  note f = relay_config_in_force [OF this mounted, of web, folded s_def]
  have "buildRelayStatusConfig web i = buildRelayConfigArg web i" for i by (cases i) (simp add: buildRelayStatusConfig_def)
  moreover have "rb_config (RelayStatusButton web input) = buildRelayStatusConfig web input"
    by (simp add: RelayStatusButton_def relay_load_def)
  ultimately have up: "\<not> rb_cancelled s" and force: "rb_config s = force"
    using f by (simp_all add: force_def settings_seen_def)
  show ?thesis
  proof (cases "rb_loading s")
    case True
    then have "(rb_effect s, rb_config s) \<in> set (rb_requests s)"
      using inv up by (simp add: relay_button_inv_def)
    then obtain j where "j < length (rb_requests s)" "rb_requests s ! j = (rb_effect s, rb_config s)"
      by (auto simp: in_set_conv_nth)
    then show ?thesis using True up force by (auto simp: relay_status_answer_def Let_def intro!: exI [of _ j])
  qed (use inv up force in \<open>auto simp: relay_button_inv_def\<close>)
qed

text \<open>New settings leave the status of the old ones where it is until their answer comes, and the heading is made from it.\<close>

lemma old_status_while_loading:
  assumes "\<not> rb_cancelled s"
  shows "let s' = relay_button_step web s (RbSettings i) in rb_loading s' \<and> rb_status s' = rb_status s \<and>
    headingKey (displayKind (rb_status s')) = headingKey (displayKind (rb_status s))"
  using assms by (simp add: relay_load_def Let_def)

text \<open>
  The heading names a custom relay exactly when one is connected and the connection did not fall back to
  the public relays.
\<close>

lemma custom_heading_honest:
  "headingKey (displayKind (Some st)) = ''footer.relay.customHeading'' \<longleftrightarrow>
     rs_connected st \<and> rs_kind st = RsCustom \<and> \<not> rs_fellBack st"
proof -
  have "headingKey k = ''footer.relay.customHeading'' \<longleftrightarrow> k = RsCustom" for k by (cases k) simp_all
  then show ?thesis by (auto simp: displayKind_def didFallBack_def activeKind_def)
qed

subsection \<open>Safe areas\<close>

lemma inset_value_nonneg: "inset_value raw \<ge> 0"
  by (auto simp: inset_value_def split: jsnum.split)

text \<open>
  The start reads the insets at most four times, and it stops early only after a read that found one.
\<close>

lemma startup_reads_bounded:
  assumes "length rs = 4"
  defines "n \<equiv> startup_reads STARTUP_RETRY_DELAYS_MS rs"
  shows "1 \<le> n \<and> n \<le> 4 \<and> (\<forall>j < n - 1. \<not> readInsets (rs ! j)) \<and> (n < 4 \<longrightarrow> readInsets (rs ! (n - 1)))"
proof -
  obtain a b c e where "rs = [a, b, c, e]"
    using assms(1) by (auto simp: numeral_eq_Suc length_Suc_conv)
  then show ?thesis by (auto simp: n_def STARTUP_RETRY_DELAYS_MS_def less_Suc_eq)
qed

theorem relay_status_current_witness:
  "let plain = \<lparr>relayMode = RDefault, relayUrls = [], relayAuthToken = [], relayFallback = FPublic\<rparr>;
       custom = \<lparr>relayMode = RCustom, relayUrls = [''https://r.example''], relayAuthToken = [], relayFallback = FPublic\<rparr>;
       late = RbAnswer 0 (Inr \<lparr>rs_kind = RsPublic, rs_url = None, rs_connected = True, rs_fellBack = False\<rparr>);
       s = run_ops (relay_button_step False) (RelayStatusButton False plain) [RbSettings custom, late];
       s' = relay_button_step False s (RbAnswer 0 (Inr status_unavailable))
   in rb_loading s \<and> rb_status s = None \<and> \<not> rb_loading s' \<and> rb_answered s' = Some (rb_config s) \<and>
      rb_status s' = Some status_unavailable"
proof -
  let ?plain = "\<lparr>relayMode = RDefault, relayUrls = [], relayAuthToken = [], relayFallback = FPublic\<rparr>"
  let ?es = "[RbSettings \<lparr>relayMode = RCustom, relayUrls = [''https://r.example''], relayAuthToken = [], relayFallback = FPublic\<rparr>,
    RbAnswer 0 (Inr \<lparr>rs_kind = RsPublic, rs_url = None, rs_connected = True, rs_fellBack = False\<rparr>)]"
  let ?s = "run_ops (relay_button_step False) (RelayStatusButton False ?plain) ?es"
  have loading: "rb_loading ?s" "rb_status ?s = None"
    by (simp_all add: RelayStatusButton_def step_defs drop_call_def Let_def)
  obtain j where "\<not> rb_loading (relay_button_step False ?s (RbAnswer j (Inr status_unavailable)))"
    using relay_status_current [of ?es False ?plain "Inr status_unavailable"] loading(1)
    unfolding Let_def by (auto simp del: run_ops_simps relay_button_step.simps)
  then have "rb_requests ?s \<noteq> []"
    using loading(1) by (auto simp: relay_status_answer_def)
  then show ?thesis
    by (simp add: RelayStatusButton_def step_defs drop_call_def Let_def)
qed

end
