(* ===== verification/Pick_Files.thy ===== *)
theory Pick_Files
  imports Sender
begin

text \<open>
  Choosing files to send: \<open>hooks/useDragDrop.ts\<close> and \<open>plugins/nativeUtils.ts\<close>.

  The hook hands what was chosen to the sender (\<open>onFilesSelect\<close> is \<open>handleFilesSelect\<close> of \<open>Sender\<close>), so its state is paired with the sender's.
  On Android a choice is copied into the cache first: the native side reports over a channel, and the messages of a copy are
  events. A copy is named by the number of its channel; \<open>cancelRef\<close> is the copy whose job can be cancelled.
\<close>

section \<open>Messages of a copy\<close>

record CopyProgress =
  cp_totalBytes :: string
  cp_progress :: rat
  cp_cachedPath :: "string option"
  cp_cachedPaths :: "string option"
  cp_completed :: bool
  cp_error :: "string option"

datatype copy_message =
    CopyStart string nat
  | CopyEvent rat
  | CopyComplete "string list"
  | CopyError string

definition string_elems :: "jsval \<Rightarrow> string list option" where
  "string_elems v =
     (case v of
        Arr xs \<Rightarrow>
          if list_all (\<lambda>x. case x of Str _ \<Rightarrow> True | _ \<Rightarrow> False) xs
          then Some (map (\<lambda>x. case x of Str t \<Rightarrow> t | _ \<Rightarrow> []) xs) else None
      | _ \<Rightarrow> None)"

definition present :: "string option \<Rightarrow> string" where
  "present s = (case s of None \<Rightarrow> [] | Some t \<Rightarrow> t)"

text \<open>
  \<open>BigInt(text)\<close> of the digits the native side sends. The outer \<^const>\<open>None\<close> is a handler that throws on a list that does not parse.
\<close>

definition bindCopyChannel :: "CopyProgress \<Rightarrow> copy_message option" where
  "bindCopyChannel event =
     (let listed = present (cp_cachedPaths event) in
      if listed \<noteq> [] \<and> Option.bind (JSON_parse listed) string_elems = None then None
      else
        let cachedPaths = (if listed = [] then None else Option.bind (JSON_parse listed) string_elems) in
        if present (cp_error event) \<noteq> [] then Some (CopyError (present (cp_error event)))
        else if cachedPaths \<noteq> None \<and> cp_completed event then Some (CopyComplete (the cachedPaths))
        else if present (cp_cachedPath event) \<noteq> [] \<and> cp_completed event
        then Some (CopyComplete [present (cp_cachedPath event)])
        else if present (cp_cachedPath event) \<noteq> [] \<and> cp_progress event = 0
        then Some (CopyStart (present (cp_cachedPath event)) (digits_val (cp_totalBytes event)))
        else Some (CopyEvent (cp_progress event)))"

section \<open>The picker\<close>

record picker =
  pk_sender :: sender
  isDragActive :: bool
  webDragDepthRef :: nat
  pk_pathType :: "TransferHistoryPathType option"
  showFullPath :: bool
  pk_alert :: AlertDialogState
  isCopying :: bool
  copyProgress :: rat
  copyFileName :: string
  copyTotalBytes :: string
  cancelRef :: "nat option"
  pollInFlight :: bool
  finished :: "nat list"               \<comment> \<open>copies whose local \<open>completed\<close> is set\<close>
  cancelled_jobs :: "nat list"
  tab_requests :: nat
  share_polls :: nat                   \<comment> \<open>calls of \<open>consume_share_intent\<close>\<close>

definition useDragDrop :: "sender \<Rightarrow> picker" where
  "useDragDrop s =
     \<lparr>pk_sender = s, isDragActive = False, webDragDepthRef = 0, pk_pathType = None, showFullPath = False,
      pk_alert = \<lparr>al_isOpen = False, al_title = [], al_description = [], al_type = AInfo\<rparr>,
      isCopying = False, copyProgress = 0, copyFileName = [], copyTotalBytes = ''0'', cancelRef = None,
      pollInFlight = False, finished = [], cancelled_jobs = [], tab_requests = 0, share_polls = 0\<rparr>"

definition pk_showAlert :: "string \<Rightarrow> string \<Rightarrow> AlertType \<Rightarrow> picker \<Rightarrow> picker" where [step_defs]:
  "pk_showAlert title description ty s =
     s\<lparr>pk_alert := \<lparr>al_isOpen = True, al_title = title, al_description = description, al_type = ty\<rparr>\<rparr>"

definition file_dialog_failed :: "receiver_env \<Rightarrow> js_error \<Rightarrow> picker \<Rightarrow> picker" where [step_defs]:
  "file_dialog_failed env e s =
     pk_showAlert (tr env ''common:errors.fileDialogFailed'' [])
       (tr env ''common:errors.fileDialogFailedDesc'' [] @ '': '' @ error_string e) AError s"

definition folder_dialog_failed :: "receiver_env \<Rightarrow> js_error \<Rightarrow> picker \<Rightarrow> picker" where [step_defs]:
  "folder_dialog_failed env e s =
     pk_showAlert (tr env ''common:errors.folderDialogFailed'' [])
       (tr env ''common:errors.folderDialogFailedDesc'' [] @ '': '' @ error_string e) AError s"

definition checkPathType :: "TransferHistoryPathType option \<Rightarrow> TransferHistoryPathType result \<Rightarrow> picker \<Rightarrow> picker" where [step_defs]:
  "checkPathType provided answer s =
     s\<lparr>pk_pathType := (case provided of Some ty \<Rightarrow> Some ty
                        | None \<Rightarrow> (case answer of Inl _ \<Rightarrow> None | Inr ty \<Rightarrow> Some ty))\<rparr>"

definition triggerFilesSelect :: "string list \<Rightarrow> TransferHistoryPathType option \<Rightarrow> picker \<Rightarrow> picker" where [step_defs]:
  "triggerFilesSelect paths ty s =
     (if paths = [] then s else s\<lparr>pk_sender := handleFilesSelect paths ty (pk_sender s)\<rparr>)"

definition copy_idle :: "picker \<Rightarrow> picker" where [step_defs]:
  "copy_idle s =
     s\<lparr>isCopying := False, copyProgress := 0, copyFileName := [], copyTotalBytes := ''0'', cancelRef := None\<rparr>"

definition cancelCopy :: "picker \<Rightarrow> picker" where [step_defs]:
  "cancelCopy s =
     copy_idle (case cancelRef s of None \<Rightarrow> s | Some k \<Rightarrow> s\<lparr>cancelled_jobs := cancelled_jobs s @ [k]\<rparr>)"

text \<open>\<open>path.split(/[/\\]/).filter(Boolean).pop() || path\<close>.\<close>

definition copy_name :: "string \<Rightarrow> string" where
  "copy_name path =
     (let segments = js_filter_boolean (js_split CHR ''/'' (js_slashes path)) in
      if segments = [] then path else last segments)"

text \<open>A message of the copy \<open>k\<close>; \<open>afterSelect\<close> of a share switches to the sending tab.\<close>

definition on_copy_message :: "receiver_env \<Rightarrow> nat \<Rightarrow> TransferHistoryPathType \<Rightarrow> bool \<Rightarrow> copy_message \<Rightarrow> picker \<Rightarrow> picker" where [step_defs]:
  "on_copy_message env k ty share m s =
     (case m of
        CopyStart path n \<Rightarrow>
          s\<lparr>copyFileName := copy_name path, copyTotalBytes := show_nat n, copyProgress := 0, isCopying := True\<rparr>
      | CopyEvent p \<Rightarrow> s\<lparr>copyProgress := p\<rparr>
      | CopyComplete paths \<Rightarrow>
          (let s1 = triggerFilesSelect paths (Some ty) (copy_idle (s\<lparr>finished := finished s @ [k]\<rparr>)) in
           if share then s1\<lparr>tab_requests := tab_requests s1 + 1\<rparr> else s1)
      | CopyError msg \<Rightarrow>
          pk_showAlert (tr env ''common:errors.fileDialogFailed'' []) msg AError
            (copy_idle (s\<lparr>finished := finished s @ [k]\<rparr>)))"

text \<open>The answer of the native call that started the copy \<open>k\<close>: whether there is a job.\<close>

definition copy_started :: "receiver_env \<Rightarrow> nat \<Rightarrow> bool result \<Rightarrow> picker \<Rightarrow> picker" where [step_defs]:
  "copy_started env k r s =
     (case r of
        Inl e \<Rightarrow> file_dialog_failed env e s
      | Inr b \<Rightarrow> if b \<and> k \<notin> set (finished s) then s\<lparr>cancelRef := Some k\<rparr> else s)"

text \<open>Desktop and browser pickers.\<close>

definition browseFile :: "receiver_env \<Rightarrow> string list option result \<Rightarrow> picker \<Rightarrow> picker" where [step_defs]:
  "browseFile env r s =
     (case r of
        Inl e \<Rightarrow> file_dialog_failed env e s
      | Inr None \<Rightarrow> s
      | Inr (Some paths) \<Rightarrow> triggerFilesSelect paths (Some HFile) s)"

definition browseFolder :: "receiver_env \<Rightarrow> string list option result \<Rightarrow> picker \<Rightarrow> picker" where [step_defs]:
  "browseFolder env r s =
     (case r of
        Inl e \<Rightarrow> folder_dialog_failed env e s
      | Inr (Some (p # _)) \<Rightarrow> if p = [] then s else triggerFilesSelect [p] (Some HDirectory) s
      | Inr _ \<Rightarrow> s)"

section \<open>Dragging\<close>

definition handleWebDragEnter :: "picker \<Rightarrow> picker" where [step_defs]:
  "handleWebDragEnter s = s\<lparr>webDragDepthRef := webDragDepthRef s + 1, isDragActive := True\<rparr>"

definition handleWebDragLeave :: "picker \<Rightarrow> picker" where [step_defs]:
  "handleWebDragLeave s =
     (let depth = webDragDepthRef s - 1 in
      s\<lparr>webDragDepthRef := depth, isDragActive := (if depth = 0 then False else isDragActive s)\<rparr>)"

text \<open>A drop ends the drag at once; what was dropped is known after an \<open>await\<close>.\<close>

definition handleWebDrop :: "picker \<Rightarrow> picker" where [step_defs]:
  "handleWebDrop s = s\<lparr>webDragDepthRef := 0, isDragActive := False\<rparr>"

definition web_drop_answer ::
    "receiver_env \<Rightarrow> (string list \<times> TransferHistoryPathType option) result \<Rightarrow> picker \<Rightarrow> picker" where [step_defs]:
  "web_drop_answer env r s =
     (case r of
        Inl e \<Rightarrow> file_dialog_failed env e s
      | Inr (paths, ty) \<Rightarrow> if paths \<noteq> [] then triggerFilesSelect paths ty s else s)"

definition tauri_drag_drop :: "string list option \<Rightarrow> picker \<Rightarrow> picker" where [step_defs]:
  "tauri_drag_drop paths s =
     (let s1 = s\<lparr>isDragActive := False\<rparr> in
      case paths of None \<Rightarrow> s1 | Some ps \<Rightarrow> if ps = [] then s1 else triggerFilesSelect ps None s1)"

definition tauri_drag_hover :: "picker \<Rightarrow> picker" where [step_defs]:
  "tauri_drag_hover s = s\<lparr>isDragActive := True\<rparr>"

definition tauri_drag_leave :: "picker \<Rightarrow> picker" where [step_defs]:
  "tauri_drag_leave s = s\<lparr>isDragActive := False\<rparr>"

section \<open>Shares of other apps\<close>

definition poll_share :: "picker \<Rightarrow> picker" where [step_defs]:
  "poll_share s =
     (if pollInFlight s \<or> cancelRef s \<noteq> None then s
      else s\<lparr>pollInFlight := True, share_polls := share_polls s + 1\<rparr>)"

definition poll_answer :: "receiver_env \<Rightarrow> nat \<Rightarrow> bool result \<Rightarrow> picker \<Rightarrow> picker" where [step_defs]:
  "poll_answer env k r s = (copy_started env k r s)\<lparr>pollInFlight := False\<rparr>"

datatype picker_event =
    PkEnter
  | PkLeave
  | PkDrop
  | PkDropped "(string list \<times> TransferHistoryPathType option) result"
  | PkToggle
  | PkFiles "string list option result"
  | PkFolder "string list option result"
  | PkMessage nat TransferHistoryPathType bool CopyProgress
  | PkStarted nat "bool result"
  | PkCancel
  | PkPoll
  | PkPolled nat "bool result"
  | PkSender sender_event               \<comment> \<open>anything the sender does meanwhile\<close>

fun picker_step :: "receiver_env \<Rightarrow> picker \<Rightarrow> picker_event \<Rightarrow> picker" where
  "picker_step env s PkEnter = handleWebDragEnter s"
| "picker_step env s PkLeave = handleWebDragLeave s"
| "picker_step env s PkDrop = handleWebDrop s"
| "picker_step env s (PkDropped r) = web_drop_answer env r s"
| "picker_step env s PkToggle = s\<lparr>showFullPath := \<not> showFullPath s\<rparr>"
| "picker_step env s (PkFiles r) = browseFile env r s"
| "picker_step env s (PkFolder r) = browseFolder env r s"
| "picker_step env s (PkMessage k ty share cp) =
     (case bindCopyChannel cp of None \<Rightarrow> s | Some m \<Rightarrow> on_copy_message env k ty share m s)"
| "picker_step env s (PkStarted k r) = copy_started env k r s"
| "picker_step env s PkCancel = cancelCopy s"
| "picker_step env s PkPoll = poll_share s"
| "picker_step env s (PkPolled k r) = poll_answer env k r s"
| "picker_step env s (PkSender e) = s\<lparr>pk_sender := sender_step env (pk_sender s) e\<rparr>"

section \<open>Properties\<close>

definition picker_inv :: "picker \<Rightarrow> bool" where
  "picker_inv s \<longleftrightarrow>
     isDragActive s = (0 < webDragDepthRef s) \<and>
     cancelRef s \<notin> Some ` set (finished s) \<and>
     selection_inv (pk_sender s)"

lemma picker_selection:
  "selection_inv (pk_sender s) \<Longrightarrow> selection_inv (pk_sender (triggerFilesSelect ps ty s))"
  by (simp add: triggerFilesSelect_def selection_inv_select)

lemma trigger_keeps:
  "isDragActive (triggerFilesSelect ps ty s) = isDragActive s" "webDragDepthRef (triggerFilesSelect ps ty s) = webDragDepthRef s"
  "cancelRef (triggerFilesSelect ps ty s) = cancelRef s" "finished (triggerFilesSelect ps ty s) = finished s"
  by (simp_all add: triggerFilesSelect_def)

lemma picker_inv_trigger: "picker_inv s \<Longrightarrow> picker_inv (triggerFilesSelect ps ty s)"
  by (simp add: picker_inv_def picker_selection trigger_keeps)

lemma picker_inv_copy:
  assumes "picker_inv s"
  shows "picker_inv (on_copy_message env k ty share m s)"
proof (cases m)
  case (CopyComplete paths)
  have "picker_inv (triggerFilesSelect paths (Some ty) (copy_idle (s\<lparr>finished := finished s @ [k]\<rparr>)))"
    using assms by (intro picker_inv_trigger) (simp add: picker_inv_def copy_idle_def)
  then show ?thesis by (simp add: CopyComplete on_copy_message_def Let_def picker_inv_def)
qed (use assms in \<open>simp_all add: on_copy_message_def picker_inv_def copy_idle_def pk_showAlert_def\<close>)

lemma picker_inv_pick:
  assumes "picker_inv s"
  shows "picker_inv (browseFile env r s)" "picker_inv (browseFolder env r s)" "picker_inv (web_drop_answer env d s)"
    "picker_inv (copy_started env k b s)"
proof -
  have "picker_inv (file_dialog_failed env e s)" "picker_inv (folder_dialog_failed env e s)" for e
    using assms by (simp_all add: picker_inv_def file_dialog_failed_def folder_dialog_failed_def pk_showAlert_def)
  moreover have "picker_inv (s\<lparr>cancelRef := Some k\<rparr>)" if "k \<notin> set (finished s)"
    using assms that by (auto simp: picker_inv_def)
  ultimately show "picker_inv (browseFile env r s)" "picker_inv (browseFolder env r s)"
    "picker_inv (web_drop_answer env d s)" "picker_inv (copy_started env k b s)"
    using assms picker_inv_trigger [OF assms]
    by (auto simp: browseFile_def browseFolder_def web_drop_answer_def copy_started_def
        split: sum.splits option.splits list.splits)
qed

interpretation picker_machine: state_machine "useDragDrop sender_start" "picker_step env" picker_inv
proof
  show "picker_inv (useDragDrop sender_start)"
    by (simp add: picker_inv_def useDragDrop_def selection_machine.inv_init)
next
  fix s e
  assume inv: "picker_inv s"
  show "picker_inv (picker_step env s e)"
  proof (cases e)
    case (PkSender se)
    then show ?thesis using inv selection_machine.inv_step [of "pk_sender s" env se] by (simp add: picker_inv_def)
  next
    case (PkMessage k ty share cp)
    then show ?thesis using inv picker_inv_copy [OF inv] by (simp split: option.split)
  next
    case (PkPolled k r)
    then show ?thesis using picker_inv_pick(4) [OF inv] by (simp add: poll_answer_def picker_inv_def)
  qed (use inv picker_inv_pick [OF inv] in \<open>auto simp: picker_inv_def handleWebDragEnter_def handleWebDragLeave_def
      handleWebDrop_def cancelCopy_def copy_idle_def poll_share_def Let_def split: option.splits\<close>)
qed

text \<open>
  In every run of the browser's or the phone's picker, with the sender working beside it, the drop zone is highlighted exactly while a drag is
  inside it, the copy that can be cancelled has not finished, and the selection of the sender stays free of duplicates.
\<close>

theorem picker_consistent:
  fixes env :: receiver_env
  defines "run \<equiv> \<lambda>es. run_ops (picker_step env) (useDragDrop sender_start) es"
  shows "isDragActive (run es) = (0 < webDragDepthRef (run es)) \<and>
    cancelRef (run es) \<notin> Some ` set (finished (run es)) \<and>
    distinct (selectedPaths (pk_sender (run es))) \<and>
    selectedPath (pk_sender (run es)) = first_path (selectedPaths (pk_sender (run es)))"
proof -
  have "picker_inv (run es)" unfolding run_def by (rule picker_machine.reachable_inv)
  then show ?thesis by (simp add: picker_inv_def selection_inv_def)
qed

lemma select_adds: "selectedPaths (handleFilesSelect ps ty s) = foldl js_set_add (selectedPaths s) ps"
  by (simp add: handleFilesSelect_def addSelectedPaths_def setSelectedPaths_def sd_call_def Let_def split: option.split)

text \<open>
  Whatever way files are chosen, in a file dialog, a folder dialog, a drop in the browser, a drop on the desktop window or a finished copy on Android, they
  are added to what was selected, in the order given and each once, and nothing selected before is lost.
\<close>

theorem picked_files_selected:
  "selectedPaths (pk_sender (browseFile env (Inr (Some ps)) s)) = foldl js_set_add (selectedPaths (pk_sender s)) ps \<and>
   selectedPaths (pk_sender (browseFolder env (Inr (Some ((c # p) # ps))) s)) = js_set_add (selectedPaths (pk_sender s)) (c # p) \<and>
   selectedPaths (pk_sender (web_drop_answer env (Inr (ps, ty)) s)) = foldl js_set_add (selectedPaths (pk_sender s)) ps \<and>
   selectedPaths (pk_sender (tauri_drag_drop (Some ps) s)) = foldl js_set_add (selectedPaths (pk_sender s)) ps \<and>
   selectedPaths (pk_sender (on_copy_message env k kind share (CopyComplete ps) s)) = foldl js_set_add (selectedPaths (pk_sender s)) ps \<and>
   set (foldl js_set_add (selectedPaths (pk_sender s)) ps) = set (selectedPaths (pk_sender s)) \<union> set ps \<and>
   prefix (selectedPaths (pk_sender s)) (foldl js_set_add (selectedPaths (pk_sender s)) ps)"
  by (simp add: browseFile_def browseFolder_def web_drop_answer_def tauri_drag_drop_def on_copy_message_def
      triggerFilesSelect_def copy_idle_def select_adds prefix_foldl_js_set_add Let_def)

end
