(* ===== verification/Send_Panels.thy ===== *)
theory Send_Panels
  imports Progress_View Sender Pick_Files General_Settings
begin

text \<open>
  The panels of the send tab: \<open>components/sender/PairedDevicesPanel.tsx\<close>, \<open>ShareLinkPanel.tsx\<close>,
  \<open>SharingActiveCard.tsx\<close>, \<open>SharingActiveHeader.tsx\<close>, \<open>Dropzone.tsx\<close>, \<open>DragDrop.tsx\<close>,
  \<open>BrowseButtons.tsx\<close> and \<open>ShareActionCard.tsx\<close>, with \<open>components/common/StatusIndicator.tsx\<close> and the
  clipboard and identifier helpers of \<open>lib/utils.ts\<close>.

  A view is the list of what is drawn, with the conditions under which its controls act. The text of a
  key is the key itself, an ellipsis is written as three dots. Requests are events of their own, so an
  answer can arrive after the panel has changed.
\<close>

section \<open>Devices to send to\<close>

definition anotherInviteInFlight :: "(string \<times> PairedInviteStatus) list \<Rightarrow> string \<Rightarrow> bool" where
  "anotherInviteInFlight status e = list_ex (\<lambda>(i, st). i \<noteq> e \<and> (st = InvSending \<or> st = InvSent)) status"

definition truncatedEndpointId :: "string \<Rightarrow> string" where
  "truncatedEndpointId e = take 8 e @ ''...''"

definition sortedDevices :: "(string \<Rightarrow> string \<Rightarrow> int) \<Rightarrow> string option \<Rightarrow> PairedDevice list \<Rightarrow> PairedDevice list" where
  "sortedDevices lc raw pds = sortPairedDevicesForList lc pds (getPairedSendCounts raw)"

definition filteredDevices :: "bool \<Rightarrow> string \<Rightarrow> PairedDevice list \<Rightarrow> PairedDevice list" where
  "filteredDevices showSearch query rows =
     (if \<not> showSearch then rows else filter (\<lambda>d. matchesPairedDeviceSearch d query) rows)"

record device_row =
  row_id :: string
  row_name :: string
  row_subtitle :: string
  row_sending :: bool
  row_disabled :: bool

definition paired_row_disabled :: "bool \<Rightarrow> bool \<Rightarrow> (string \<times> PairedInviteStatus) list \<Rightarrow> PairedDevice \<Rightarrow> bool" where
  "paired_row_disabled ready hasTicket status d \<longleftrightarrow>
     \<not> ready \<or> \<not> hasTicket \<or> map_of status (endpoint_id d) = Some InvSending \<or> \<not> isPairedDeviceActive d \<or>
     \<not> online d \<or> anotherInviteInFlight status (endpoint_id d) \<or> map_of status (endpoint_id d) = Some InvSent"

definition paired_row :: "bool \<Rightarrow> bool \<Rightarrow> (string \<times> PairedInviteStatus) list \<Rightarrow> PairedDevice \<Rightarrow> device_row" where
  "paired_row ready hasTicket status d =
     (let isSending = (map_of status (endpoint_id d) = Some InvSending) in
      \<lparr>row_id = endpoint_id d, row_name = display_name d,
       row_subtitle = (if isSending then ''common:sender.pairedDevices.sending''
                       else deviceSubtitle (Some (device_type d)) (Some (os d))),
       row_sending = isSending, row_disabled = paired_row_disabled ready hasTicket status d\<rparr>)"

datatype device_list = NoDevices | NoMatches | DeviceRows "device_row list"

definition pairedListContent ::
    "bool \<Rightarrow> bool \<Rightarrow> (string \<times> PairedInviteStatus) list \<Rightarrow> bool \<Rightarrow> string \<Rightarrow> PairedDevice list \<Rightarrow> device_list" where
  "pairedListContent ready hasTicket status showSearch query rows =
     (if rows = [] then NoDevices
      else if filteredDevices showSearch query rows = [] then NoMatches
      else DeviceRows (map (paired_row ready hasTicket status) (filteredDevices showSearch query rows)))"

definition nearby_row_disabled :: "bool \<Rightarrow> bool \<Rightarrow> bool \<Rightarrow> (string \<times> PairedInviteStatus) list \<Rightarrow> string \<Rightarrow> bool" where
  "nearby_row_disabled ready hasTicket canInvite status e \<longleftrightarrow>
     \<not> ready \<or> \<not> hasTicket \<or> \<not> canInvite \<or> map_of status e = Some InvSending \<or> map_of status e = Some InvSent \<or>
     anotherInviteInFlight status e"

definition NearbySheetRow :: "bool \<Rightarrow> bool \<Rightarrow> bool \<Rightarrow> (string \<times> PairedInviteStatus) list \<Rightarrow> NearbyDevice \<Rightarrow> device_row" where
  "NearbySheetRow ready hasTicket canInvite status d =
     (let isSending = (map_of status (endpointId d) = Some InvSending) in
      \<lparr>row_id = endpointId d,
       row_name = (case displayName d of
                     Some n \<Rightarrow> if identified d \<and> n \<noteq> [] then n else truncatedEndpointId (endpointId d)
                   | None \<Rightarrow> truncatedEndpointId (endpointId d)),
       row_subtitle = (if isSending then [] else ''common:settings.devices.nearby.unverified''),
       row_sending = isSending,
       row_disabled = nearby_row_disabled ready hasTicket canInvite status (endpointId d)\<rparr>)"

datatype nearby_list = NearbyUnavailable string | NearbyEmpty | NearbyRows "device_row list"

definition nearbyListContent ::
    "string option \<Rightarrow> bool \<Rightarrow> bool \<Rightarrow> bool \<Rightarrow> (string \<times> PairedInviteStatus) list \<Rightarrow> NearbyDevice list \<Rightarrow> nearby_list" where
  "nearbyListContent reason ready hasTicket canInvite status ds =
     (if truthy_string reason then NearbyUnavailable (the reason)
      else if ds = [] then NearbyEmpty
      else NearbyRows (map (NearbySheetRow ready hasTicket canInvite status) ds))"

datatype node_note = NodeLoading | NodeUnavailable | NoNote

record devices_panel_view =
  dv_header :: bool
  dv_note :: node_note
  dv_search :: bool
  dv_paired :: device_list
  dv_nearby :: "nearby_list option"

definition PairedDevicesPanel ::
    "bool \<Rightarrow> (string \<Rightarrow> string \<Rightarrow> int) \<Rightarrow> string option \<Rightarrow> PairedDevice list \<Rightarrow> (string \<times> PairedInviteStatus) list \<Rightarrow>
     bool \<Rightarrow> bool \<Rightarrow> bool \<Rightarrow> bool \<Rightarrow> bool \<Rightarrow> bool \<Rightarrow> string \<Rightarrow> string option \<Rightarrow> NearbyDevice list \<Rightarrow> devices_panel_view" where
  "PairedDevicesPanel IS_PAIRING_CAPABLE lc raw pds status ready pend hasTicket canInviteNearby
     showHeader showSearch query reason nearbyDevices =
     (let rows = sortedDevices lc raw pds in
      \<lparr>dv_header = showHeader,
       dv_note = (if pend then NodeLoading else if \<not> ready then NodeUnavailable else NoNote),
       dv_search = (showSearch \<and> rows \<noteq> []),
       dv_paired = pairedListContent ready hasTicket status showSearch query rows,
       dv_nearby = (if IS_PAIRING_CAPABLE \<and> canInviteNearby
                    then Some (nearbyListContent reason ready hasTicket canInviteNearby status nearbyDevices) else None)\<rparr>)"

text \<open>
  The listeners of an open panel. \<open>pl_open\<close> is the running effect, a registration that has not answered
  yet is in \<open>pl_waiting\<close>, and a listener that was stored or stopped has left it.
\<close>

datatype panel_topic = NearbyEvents | PairedEvents

record panel_listeners =
  pl_effects :: nat
  pl_open :: "nat option"
  pl_query :: string
  pl_waiting :: "(nat \<times> panel_topic) list"
  pl_active :: "(nat \<times> panel_topic) list"
  pl_hydrations :: nat

definition panel_closed :: panel_listeners where
  "panel_closed = \<lparr>pl_effects = 0, pl_open = None, pl_query = [], pl_waiting = [], pl_active = [], pl_hydrations = 0\<rparr>"

definition panel_open :: "bool \<Rightarrow> panel_listeners \<Rightarrow> panel_listeners" where [step_defs]:
  "panel_open IS_PAIRING_CAPABLE s =
     (if pl_open s \<noteq> None then s
      else if \<not> IS_PAIRING_CAPABLE then s\<lparr>pl_query := [], pl_open := Some (pl_effects s), pl_effects := Suc (pl_effects s)\<rparr>
      else s\<lparr>pl_query := [], pl_open := Some (pl_effects s), pl_effects := Suc (pl_effects s),
             pl_hydrations := Suc (pl_hydrations s),
             pl_waiting := pl_waiting s @ [(pl_effects s, NearbyEvents), (pl_effects s, PairedEvents)]\<rparr>)"

definition panel_registered :: "nat \<Rightarrow> panel_listeners \<Rightarrow> panel_listeners" where [step_defs]:
  "panel_registered j s =
     (if \<not> j < length (pl_waiting s) then s
      else
        (let w = pl_waiting s ! j; s1 = s\<lparr>pl_waiting := drop_call j (pl_waiting s)\<rparr> in
         if pl_open s = Some (fst w) then s1\<lparr>pl_active := pl_active s @ [w]\<rparr> else s1))"

definition panel_close :: "panel_listeners \<Rightarrow> panel_listeners" where [step_defs]:
  "panel_close s =
     (case pl_open s of
        None \<Rightarrow> s
      | Some i \<Rightarrow> s\<lparr>pl_open := None, pl_active := filter (\<lambda>w. fst w \<noteq> i) (pl_active s)\<rparr>)"

datatype panel_event = PlOpen | PlClose | PlRegistered nat | PlDevicePaired | PlSearch string

fun panel_step :: "bool \<Rightarrow> panel_listeners \<Rightarrow> panel_event \<Rightarrow> panel_listeners" where
  "panel_step cap s PlOpen = panel_open cap s"
| "panel_step cap s PlClose = panel_close s"
| "panel_step cap s (PlRegistered j) = panel_registered j s"
| "panel_step cap s PlDevicePaired =
     s\<lparr>pl_hydrations := pl_hydrations s + length (filter (\<lambda>w. snd w = PairedEvents) (pl_active s))\<rparr>"
| "panel_step cap s (PlSearch q) = (if pl_open s = None then s else s\<lparr>pl_query := q\<rparr>)"

section \<open>The share link\<close>

definition clampedProgress :: "TransferProgress \<Rightarrow> TransferProgress" where
  "clampedProgress p =
     p\<lparr>bytesTransferred := min (max (bytesTransferred p) 0) (totalBytes p),
       percentage := min (max (percentage p) 0) 100\<rparr>"

definition defaultProgress :: TransferProgress where
  "defaultProgress = \<lparr>bytesTransferred = 0, totalBytes = 0, speedBps = 0, percentage = 0, etaSeconds = None\<rparr>"

definition progressToDisplay :: "bool \<Rightarrow> TransferProgress option \<Rightarrow> TransferProgress option" where
  "progressToDisplay transporting p =
     (if transporting then Some (case p of None \<Rightarrow> defaultProgress | Some q \<Rightarrow> clampedProgress q) else None)"

definition share_statusText :: "bool \<Rightarrow> bool \<Rightarrow> string" where
  "share_statusText completed transporting =
     (if completed then ''common:sender.transferCompleted''
      else if transporting then ''common:sender.sharingInProgress''
      else ''common:sender.listeningForConnection'')"

definition displayStatusText :: "(int \<Rightarrow> string) \<Rightarrow> int \<Rightarrow> bool \<Rightarrow> string \<Rightarrow> string" where
  "displayStatusText num n broadcast status =
     (if broadcast \<and> n > 0
      then num n @ '' '' @ (if n = 1 then ''transfer'' else ''transfers'') @ '' in progress''
      else status)"

definition StatusIndicator :: "(int \<Rightarrow> string) \<Rightarrow> bool \<Rightarrow> bool \<Rightarrow> string \<Rightarrow> int \<Rightarrow> bool \<Rightarrow> bool \<times> string" where
  "StatusIndicator num completed transporting status n broadcast =
     (completed \<or> (broadcast \<and> n > 0) \<or> transporting, displayStatusText num n broadcast status)"

text \<open>The last part of a path: \<open>split('/').pop()\<close>.\<close>

definition path_tail :: "string \<Rightarrow> string" where
  "path_tail p = last (js_split (CHR ''/'') p)"

datatype share_label = ManyFiles string nat | OneFile "string option"

record sharing_header =
  sh_tooltip :: bool
  sh_label :: share_label
  sh_items :: "string list"
  sh_status :: "bool \<times> string"

definition SharingActiveHeader ::
    "(int \<Rightarrow> string) \<Rightarrow> string list \<Rightarrow> string option \<Rightarrow> string \<Rightarrow> bool \<Rightarrow> bool \<Rightarrow> int \<Rightarrow> bool \<Rightarrow> sharing_header" where
  "SharingActiveHeader num paths path status completed transporting n broadcast =
     \<lparr>sh_tooltip = (truthy_string path \<or> length paths > 1),
      sh_label = (if length paths > 1 then ManyFiles (path_tail (hd paths)) (length paths - 1)
                  else OneFile (map_option path_tail path)),
      sh_items = map path_tail paths,
      sh_status = StatusIndicator num completed transporting status n broadcast\<rparr>"

record share_panel_view =
  sp_header :: sharing_header
  sp_pulse :: bool
  sp_ticket :: "(string \<times> string) option"     \<comment> \<open>the ticket and its link\<close>
  sp_devices_button :: bool
  sp_progress :: "progress_view option"

text \<open>\<open>link\<close> stands for \<open>buildReceiveLink\<close>; its second argument is the origin of the page in a browser.\<close>

definition ShareLinkPanel ::
    "bool \<Rightarrow> string \<Rightarrow> (string \<Rightarrow> string option \<Rightarrow> string) \<Rightarrow> (int \<Rightarrow> string) \<Rightarrow> string list \<Rightarrow> string option \<Rightarrow>
     string option \<Rightarrow> bool \<Rightarrow> bool \<Rightarrow> bool \<Rightarrow> int \<Rightarrow> TransferProgress option \<Rightarrow> bool \<Rightarrow> share_panel_view" where
  "ShareLinkPanel IS_WEB origin link num paths path ticket transporting completed broadcast n p showDevices =
     (let drawn = truthy_string ticket \<and> \<not> transporting in
      \<lparr>sp_header = SharingActiveHeader num paths path (share_statusText completed transporting) completed
                     transporting n broadcast,
       sp_pulse = ((transporting \<and> \<not> broadcast) \<or> (broadcast \<and> n > 0)),
       sp_ticket = (if drawn then Some (the ticket, link (the ticket) (if IS_WEB then Some origin else None)) else None),
       sp_devices_button = (drawn \<and> showDevices),
       sp_progress = map_option TransferProgressBar (progressToDisplay transporting p)\<rparr>)"

text \<open>The card: on a desktop the device list starts open, and a delivered invite closes it.\<close>

definition devicesOpen_start :: "bool \<Rightarrow> bool \<Rightarrow> bool" where
  "devicesOpen_start IS_PAIRING_CAPABLE IS_MOBILE \<longleftrightarrow> IS_PAIRING_CAPABLE \<and> \<not> IS_MOBILE"

definition SharingActiveCard ::
    "bool \<Rightarrow> bool \<Rightarrow> string \<Rightarrow> (string \<Rightarrow> string option \<Rightarrow> string) \<Rightarrow> (int \<Rightarrow> string) \<Rightarrow> bool \<Rightarrow> sender \<Rightarrow>
     share_panel_view \<times> bool" where
  "SharingActiveCard IS_PAIRING_CAPABLE IS_WEB origin link num devicesOpen s =
     (ShareLinkPanel IS_WEB origin link num (selectedPaths s) (selectedPath s) (sd_ticket s)
        (viewState s = TRANSPORTING \<and> \<not> isBroadcastMode s) False (isBroadcastMode s) (activeConnectionCount s)
        (sd_progress s) (IS_PAIRING_CAPABLE \<and> \<not> devicesOpen),
      IS_PAIRING_CAPABLE \<and> devicesOpen)"

subsection \<open>Sharing the ticket\<close>

definition canNativeShare :: "bool \<Rightarrow> bool \<Rightarrow> bool \<Rightarrow> string \<Rightarrow> string \<Rightarrow> nat \<Rightarrow> bool" where
  "canNativeShare hasShare IS_MOBILE IS_WEB userAgent platform maxTouchPoints \<longleftrightarrow>
     hasShare \<and>
     (IS_MOBILE \<or>
      (IS_WEB \<and>
       (list_ex (js_includes (js_lower userAgent)) [''android'', ''iphone'', ''ipad'', ''ipod''] \<or>
        (platform = ''MacIntel'' \<and> maxTouchPoints > 1))))"

datatype share_outcome = ShareDone | ShareAborted | ShareFailed string

datatype display_call =
    NativeShare string string         \<comment> \<open>intro and link\<close>
  | ClipboardText string
  | SetBroadcastMode bool
  | ShareErrorToast string

text \<open>
  \<open>td_timers\<close> are the timers that have neither fired nor been cleared, \<open>linkCopyTimer\<close> the one the
  reference holds. A toast is its number; each has a timer that closes it.
\<close>

record ticket_display =
  td_mounted :: bool
  linkCopySuccess :: bool
  qrDialogOpen :: bool
  linkCopyTimer :: "nat option"
  td_timers :: "nat list"
  td_next :: nat
  td_shares :: "bool list"           \<comment> \<open>running \<open>shareTicket\<close> calls, and whether each uses the share sheet\<close>
  td_toasts :: "nat list"
  td_toast_timers :: "nat list"
  td_calls :: "display_call list"

definition TicketDisplay :: ticket_display where
  "TicketDisplay =
     \<lparr>td_mounted = True, linkCopySuccess = False, qrDialogOpen = False, linkCopyTimer = None, td_timers = [],
      td_next = 0, td_shares = [], td_toasts = [], td_toast_timers = [], td_calls = []\<rparr>"

definition td_call :: "display_call \<Rightarrow> ticket_display \<Rightarrow> ticket_display" where [step_defs]:
  "td_call c s = s\<lparr>td_calls := td_calls s @ [c]\<rparr>"

definition shareTicket :: "bool \<Rightarrow> string \<Rightarrow> string \<Rightarrow> ticket_display \<Rightarrow> ticket_display" where [step_defs]:
  "shareTicket native intro url s =
     td_call (if native then NativeShare intro url else ClipboardText (formatReceiveShareMessage intro url))
       (s\<lparr>td_shares := td_shares s @ [native]\<rparr>)"

definition clearTimer :: "nat option \<Rightarrow> nat list \<Rightarrow> nat list" where
  "clearTimer t ts = (case t of None \<Rightarrow> ts | Some k \<Rightarrow> filter (\<lambda>i. i \<noteq> k) ts)"

definition share_settled :: "nat \<Rightarrow> share_outcome \<Rightarrow> ticket_display \<Rightarrow> ticket_display" where [step_defs]:
  "share_settled j r s =
     (if \<not> j < length (td_shares s) then s
      else
        (let native = td_shares s ! j; s1 = s\<lparr>td_shares := drop_call j (td_shares s)\<rparr> in
         case r of
           ShareDone \<Rightarrow>
             if native then s1
             else s1\<lparr>linkCopySuccess := True, linkCopyTimer := Some (td_next s), td_next := Suc (td_next s),
                     td_timers := clearTimer (linkCopyTimer s) (td_timers s) @ [td_next s]\<rparr>
         | ShareAborted \<Rightarrow> s1
         | ShareFailed e \<Rightarrow> td_call (ShareErrorToast e) s1))"

definition link_timer_fires :: "nat \<Rightarrow> ticket_display \<Rightarrow> ticket_display" where [step_defs]:
  "link_timer_fires k s =
     (if k \<in> set (td_timers s) then s\<lparr>linkCopySuccess := False, td_timers := filter (\<lambda>i. i \<noteq> k) (td_timers s)\<rparr> else s)"

definition handleBroadcastChange :: "bool \<Rightarrow> ticket_display \<Rightarrow> ticket_display" where [step_defs]:
  "handleBroadcastChange b s =
     (let s1 = td_call (SetBroadcastMode b) s in
      if b then s1\<lparr>td_toasts := td_toasts s @ [td_next s], td_toast_timers := td_toast_timers s @ [td_next s],
                   td_next := Suc (td_next s)\<rparr>
      else s1)"

definition undo_broadcast :: "nat \<Rightarrow> ticket_display \<Rightarrow> ticket_display" where [step_defs]:
  "undo_broadcast k s =
     (if k \<in> set (td_toasts s)
      then (td_call (SetBroadcastMode False) s)\<lparr>td_toasts := filter (\<lambda>i. i \<noteq> k) (td_toasts s)\<rparr> else s)"

definition toast_timer_fires :: "nat \<Rightarrow> ticket_display \<Rightarrow> ticket_display" where [step_defs]:
  "toast_timer_fires k s =
     (if k \<in> set (td_toast_timers s)
      then s\<lparr>td_toasts := filter (\<lambda>i. i \<noteq> k) (td_toasts s),
             td_toast_timers := filter (\<lambda>i. i \<noteq> k) (td_toast_timers s)\<rparr> else s)"

definition display_unmount :: "ticket_display \<Rightarrow> ticket_display" where [step_defs]:
  "display_unmount s = s\<lparr>td_mounted := False, td_timers := clearTimer (linkCopyTimer s) (td_timers s)\<rparr>"

datatype display_event =
    TdShare bool string string
  | TdSettled nat share_outcome
  | TdTimer nat
  | TdBroadcast bool
  | TdUndo nat
  | TdToastTimer nat
  | TdQr bool
  | TdUnmount

text \<open>The controls act while the panel is drawn; timers and answers come at any time, and so does the toast.\<close>

fun display_step :: "ticket_display \<Rightarrow> display_event \<Rightarrow> ticket_display" where
  "display_step s (TdShare native intro url) = (if td_mounted s then shareTicket native intro url s else s)"
| "display_step s (TdSettled j r) = share_settled j r s"
| "display_step s (TdTimer k) = link_timer_fires k s"
| "display_step s (TdBroadcast b) = (if td_mounted s then handleBroadcastChange b s else s)"
| "display_step s (TdUndo k) = undo_broadcast k s"
| "display_step s (TdToastTimer k) = toast_timer_fires k s"
| "display_step s (TdQr b) = (if td_mounted s then s\<lparr>qrDialogOpen := b\<rparr> else s)"
| "display_step s TdUnmount = (if td_mounted s then display_unmount s else s)"

section \<open>The drop zone\<close>

definition getPathBaseName :: "string \<Rightarrow> string" where
  "getPathBaseName p = last (js_split (CHR ''/'') (map (\<lambda>c. if c = CHR 0x5C then CHR ''/'' else c) p))"

definition dropzone_status :: "bool \<Rightarrow> bool \<Rightarrow> string list \<Rightarrow> string option \<Rightarrow> TransferHistoryPathType option \<Rightarrow> string" where
  "dropzone_status loading dragging paths path ty =
     (if loading then ''common:sender.preparingForTransport''
      else if dragging then ''common:sender.dropFilesHere''
      else if length paths > 1 then ''common:sender.itemSelected''
      else if truthy_string path then
        (case ty of
           Some HDirectory \<Rightarrow> ''common:sender.folderSelected''
         | Some HFile \<Rightarrow> ''common:sender.fileSelected''
         | _ \<Rightarrow> ''common:sender.itemSelected'')
      else ''common:sender.dragAndDrop'')"

definition shorten :: "nat \<Rightarrow> string \<Rightarrow> string" where
  "shorten n s = (if length s > n then take n s @ ''...'' else s)"

datatype sub_text =
    WaitText
  | ManyText nat string
  | PathText string bool string      \<comment> \<open>name, whether the full path is visible, the path\<close>
  | BrowseText

definition getSubText :: "bool \<Rightarrow> string list \<Rightarrow> string option \<Rightarrow> bool \<Rightarrow> sub_text" where
  "getSubText loading paths path showFull =
     (if loading then WaitText
      else if length paths > 1
      then ManyText (length paths - 1) (shorten 40 (if hd paths \<noteq> [] then getPathBaseName (hd paths) else []))
      else if truthy_string path then PathText (shorten 60 (getPathBaseName (the path))) showFull (the path)
      else BrowseText)"

text \<open>The state of the zone: the types shown, and the requests with the selection each was made for.\<close>

record drop_zone =
  dz_paths :: "string list"
  mimeTypesByPath :: "(string \<times> string) list"
  dz_effect :: nat
  dz_requests :: "(nat \<times> string list) list"
  canScrollLeft :: bool
  canScrollRight :: bool

text \<open>An index beyond the answer reads \<open>undefined\<close>, which adds no entry.\<close>

fun mime_entries :: "string list \<Rightarrow> string option list \<Rightarrow> (string \<times> string) list \<Rightarrow> (string \<times> string) list" where
  "mime_entries [] types m = m"
| "mime_entries (p # ps) [] m = mime_entries ps [] m"
| "mime_entries (p # ps) (t # ts) m =
     mime_entries ps ts (case t of None \<Rightarrow> m | Some ty \<Rightarrow> if ty = [] then m else assoc_put p ty m)"

definition mime_map :: "string list \<Rightarrow> string option list \<Rightarrow> (string \<times> string) list" where
  "mime_map paths types = mime_entries paths types []"

definition select_effect :: "string list \<Rightarrow> drop_zone \<Rightarrow> drop_zone" where [step_defs]:
  "select_effect paths s =
     (let s1 = s\<lparr>dz_paths := paths, dz_effect := Suc (dz_effect s)\<rparr> in
      if paths = [] then s1\<lparr>mimeTypesByPath := []\<rparr>
      else s1\<lparr>dz_requests := dz_requests s @ [(Suc (dz_effect s), paths)]\<rparr>)"

definition mime_answer :: "nat \<Rightarrow> string option list result \<Rightarrow> drop_zone \<Rightarrow> drop_zone" where [step_defs]:
  "mime_answer j r s =
     (if \<not> j < length (dz_requests s) then s
      else
        (let (i, paths) = dz_requests s ! j; s1 = s\<lparr>dz_requests := drop_call j (dz_requests s)\<rparr> in
         case r of
           Inl _ \<Rightarrow> s1
         | Inr types \<Rightarrow> if i \<noteq> dz_effect s then s1 else s1\<lparr>mimeTypesByPath := mime_map paths types\<rparr>))"

text \<open>The scroller: its position, its content and its width; \<^const>\<open>None\<close> when it is not drawn.\<close>

definition updateScrollHints :: "(rat \<times> rat \<times> rat) option \<Rightarrow> drop_zone \<Rightarrow> drop_zone" where [step_defs]:
  "updateScrollHints container s =
     (case container of
        None \<Rightarrow> s\<lparr>canScrollLeft := False, canScrollRight := False\<rparr>
      | Some (left, content, width) \<Rightarrow>
          s\<lparr>canScrollLeft := left > 4, canScrollRight := (content - width) - left > 4\<rparr>)"

definition Dropzone :: drop_zone where
  "Dropzone = \<lparr>dz_paths = [], mimeTypesByPath = [], dz_effect = 0, dz_requests = [], canScrollLeft = False,
     canScrollRight = False\<rparr>"

datatype dropzone_event = DzSelect "string list" | DzMime nat "string option list result" | DzScroll "(rat \<times> rat \<times> rat) option"

fun dropzone_step :: "drop_zone \<Rightarrow> dropzone_event \<Rightarrow> drop_zone" where
  "dropzone_step s (DzSelect paths) = select_effect paths s"
| "dropzone_step s (DzMime j r) = mime_answer j r s"
| "dropzone_step s (DzScroll c) = updateScrollHints c s"

text \<open>A vertical wheel moves the strip sideways: the new position, \<^const>\<open>None\<close> where the page scrolls.\<close>

definition handlePreviewWheel :: "rat \<Rightarrow> rat \<Rightarrow> rat \<times> rat \<times> rat \<Rightarrow> rat option" where
  "handlePreviewWheel deltaX deltaY c =
     (case c of (left, content, width) \<Rightarrow>
        if abs deltaY \<le> abs deltaX \<or> content \<le> width then None else Some (left + deltaY))"

definition empty_click :: "string list \<Rightarrow> bool \<Rightarrow> bool \<Rightarrow> bool" where
  "empty_click paths loading hasHandler \<longleftrightarrow> \<not> (paths \<noteq> [] \<or> loading \<or> \<not> hasHandler)"

definition empty_key :: "string list \<Rightarrow> bool \<Rightarrow> bool \<Rightarrow> string \<Rightarrow> bool" where
  "empty_key paths loading hasHandler key \<longleftrightarrow>
     \<not> (paths \<noteq> [] \<or> loading \<or> \<not> hasHandler) \<and> (key = ''Enter'' \<or> key = '' '')"

datatype zone_control =
    AddMenu
  | ClearButton
  | StatusLines string sub_text
  | FileCard string "string option" string        \<comment> \<open>path, its type, its name; the card has a remove button\<close>

definition zone_view ::
    "bool \<Rightarrow> bool \<Rightarrow> string list \<Rightarrow> string option \<Rightarrow> TransferHistoryPathType option \<Rightarrow> bool \<Rightarrow> drop_zone \<Rightarrow> zone_control list" where
  "zone_view loading dragging paths path ty showFull z =
     (if paths \<noteq> [] \<and> \<not> loading then [AddMenu, ClearButton] else []) @
     (if paths = [] then [StatusLines (dropzone_status loading dragging paths path ty) (getSubText loading paths path showFull)]
      else []) @
     map (\<lambda>p. FileCard p (map_of (mimeTypesByPath z) p) (getPathBaseName p)) paths"

text \<open>What the idle screen draws below the zone: whether the browse buttons and the share button are there, and whether they act.\<close>

definition BrowseButtons :: "bool \<Rightarrow> string \<times> bool" where
  "BrowseButtons loading = (if loading then ''common:loading'' else ''common:sender.browseFile'', \<not> loading)"

definition ShareActionCard :: "string list \<Rightarrow> string option \<Rightarrow> bool \<Rightarrow> (string \<times> bool) option" where
  "ShareActionCard paths path loading =
     (if paths = [] \<and> \<not> truthy_string path then None
      else Some (if loading then ''common:sender.startingShare'' else ''common:sender.startSharing'', \<not> loading))"

record idle_view =
  iv_zone :: "zone_control list"
  iv_browse :: "(string \<times> bool) option"
  iv_share :: "(string \<times> bool) option"

definition DragDrop :: "picker \<Rightarrow> drop_zone \<Rightarrow> idle_view" where
  "DragDrop p z =
     (let s = pk_sender p in
      \<lparr>iv_zone = zone_view (sd_isLoading s) (isDragActive p) (selectedPaths s) (selectedPath s) (pk_pathType p) (showFullPath p) z,
       iv_browse = (if truthy_string (selectedPath s) then None else Some (BrowseButtons (sd_isLoading s))),
       iv_share = ShareActionCard (selectedPaths s) (selectedPath s) (sd_isLoading s)\<rparr>)"

section \<open>Identifiers and the clipboard\<close>

definition hex_byte :: "8 word \<Rightarrow> string" where
  "hex_byte b = [hex_char (unat b div 16), hex_char (unat b mod 16)]"

text \<open>\<open>native\<close> is the identifier of the platform, where it has such a function; \<open>bytes\<close> are the random bytes.\<close>

definition randomUUID :: "string option \<Rightarrow> 8 word list \<Rightarrow> string" where
  "randomUUID native bytes =
     (case native of
        Some u \<Rightarrow> u
      | None \<Rightarrow>
          let b1 = bytes[6 := or (and (bytes ! 6) 0x0F) 0x40];
              b2 = b1[8 := or (and (b1 ! 8) 0x3F) 0x80];
              hex = concat (map hex_byte b2)
          in take 8 hex @ ''-'' @ take 4 (drop 8 hex) @ ''-'' @ take 4 (drop 12 hex) @ ''-'' @
             take 4 (drop 16 hex) @ ''-'' @ drop 20 hex)"

datatype dom_op = AppendArea string | SelectArea | RemoveArea

text \<open>
  The clipboard interface answers or is missing; without it the text is copied from a hidden text area:
  \<open>exec\<close> is what \<open>execCommand\<close> returns or throws.
\<close>

definition copyTextToClipboard :: "unit result option \<Rightarrow> bool \<Rightarrow> bool result \<Rightarrow> string \<Rightarrow> dom_op list \<times> unit result" where
  "copyTextToClipboard clipboard hasDocument exec text0 =
     (case clipboard of
        Some r \<Rightarrow> ([], r)
      | None \<Rightarrow>
          if \<not> hasDocument then ([], Inl (Error ''Clipboard API unavailable''))
          else ([AppendArea text0, SelectArea, RemoveArea],
                try_bind exec (\<lambda>copied. if copied then Inr () else Inl (Error ''Clipboard copy failed''))))"

section \<open>Properties\<close>

subsection \<open>Inviting from the list\<close>

lemma another_invite: "anotherInviteInFlight st e = list_ex (\<lambda>(i, st). i \<noteq> e \<and> invite_in_flight st) st"
  by (simp add: anotherInviteInFlight_def invite_in_flight_def)

lemma guard_passes:
  "snd (invite_guard env ready e s) =
     (if truthy_string (sd_ticket s) \<and> ready \<and> map_of (pairedInviteStatus s) e \<notin> {Some InvSending, Some InvSent} \<and>
         \<not> anotherInviteInFlight (pairedInviteStatus s) e
      then sd_ticket s else None)"
  by (auto simp: invite_guard_def another_invite truthy_string_def split: option.split)

lemma guard_keeps_jobs: "fst (invite_guard env ready e s) = s1 \<Longrightarrow> invite_jobs s1 = invite_jobs s \<and> pairedDevices s1 = pairedDevices s \<and>
    selectedPaths s1 = selectedPaths s \<and> sd_metadata s1 = sd_metadata s"
  by (auto simp: invite_guard_def sd_call_def split: option.split)

lemma begin_invite_jobs:
  "invite_jobs (begin_invite n e t name s) = invite_jobs s @
     [\<lparr>ij_endpoint = e, ij_nearby = n, ij_ticket = t, ij_files = max (length (selectedPaths s)) 1,
       ij_known_size = known_share_size s, ij_name = name\<rparr>]"
  by (simp add: begin_invite_def setInviteStatus_def)

lemma find_distinct:
  "distinct (map f xs) \<Longrightarrow> x \<in> set xs \<Longrightarrow> find (\<lambda>y. f y = f x) xs = Some x"
  by (induction xs) (auto simp: image_iff)

text \<open>
  C17. A row of the device list is enabled exactly when a click on it starts an invite: one for that
  device, with the ticket of the share and the number of its files. A disabled row starts nothing. The
  panel decides this from what the hook checks again, and the two never disagree.
\<close>

theorem enabled_row_invites:
  fixes s :: sender and d :: PairedDevice and ready :: bool and env :: receiver_env
  assumes "d \<in> set (pairedDevices s)" "distinct (map endpoint_id (pairedDevices s))"
  defines "row \<equiv> paired_row ready (truthy_string (sd_ticket s)) (pairedInviteStatus s) d"
  shows "map (\<lambda>j. (ij_endpoint j, ij_nearby j, Some (ij_ticket j), ij_files j, ij_name j))
      (invite_jobs (onInvitePairedDevice env ready (row_id row) s)) =
    map (\<lambda>j. (ij_endpoint j, ij_nearby j, Some (ij_ticket j), ij_files j, ij_name j)) (invite_jobs s) @
      (if row_disabled row then []
       else [(endpoint_id d, False, sd_ticket s, max (length (selectedPaths s)) 1, display_name d)])"
proof -
  obtain s1 g where g: "invite_guard env ready (endpoint_id d) s = (s1, g)" by fastforce
  have keep: "invite_jobs s1 = invite_jobs s" "pairedDevices s1 = pairedDevices s" "selectedPaths s1 = selectedPaths s"
    using guard_keeps_jobs [of env ready "endpoint_id d" s s1] g by simp_all
  have found: "find (\<lambda>d'. endpoint_id d' = endpoint_id d) (pairedDevices s) = Some d"
    by (rule find_distinct [OF assms(2,1)])
  have "(g = None) = (\<not> (ready \<and> truthy_string (sd_ticket s) \<and>
      map_of (pairedInviteStatus s) (endpoint_id d) \<notin> {Some InvSending, Some InvSent} \<and>
      \<not> anotherInviteInFlight (pairedInviteStatus s) (endpoint_id d)))"
      "\<And>t. g = Some t \<Longrightarrow> sd_ticket s = Some t"
    using guard_passes [of env ready "endpoint_id d" s] g by (auto simp: truthy_string_def split: option.splits if_splits)
  then show ?thesis
    using g keep found
    by (cases g) (auto simp: row_def paired_row_def paired_row_disabled_def onInvitePairedDevice_def Let_def
        begin_invite_jobs sd_call_def)
qed

theorem enabled_row_invites_witness:
  "let d = \<lparr>endpoint_id = ''e1'', display_name = ''Desk'', device_type = ''desktop'', os = ''linux'', paired_at = 0,
         last_seen_at = 0, pairing_status = None, online = True, trusted = False\<rparr>;
       s = sender_start\<lparr>sd_ticket := Some ''t'', selectedPaths := [''/a''], pairedDevices := [d]\<rparr>
   in row_disabled (paired_row True True [] d) = False \<and>
      map ij_endpoint (invite_jobs (onInvitePairedDevice demo_env True ''e1'' s)) = [''e1'']"
proof -
  let ?d = "\<lparr>endpoint_id = ''e1'', display_name = ''Desk'', device_type = ''desktop'', os = ''linux'', paired_at = 0,
         last_seen_at = 0, pairing_status = None, online = True, trusted = False\<rparr>"
  let ?s = "sender_start\<lparr>sd_ticket := Some ''t'', selectedPaths := [''/a''], pairedDevices := [?d]\<rparr>"
  have on: "\<not> row_disabled (paired_row True True [] ?d)" and id: "row_id (paired_row True True [] ?d) = ''e1''"
    by (simp_all add: paired_row_def paired_row_disabled_def anotherInviteInFlight_def isPairedDeviceActive_def Let_def)
  have "map (\<lambda>j. (ij_endpoint j, ij_nearby j, Some (ij_ticket j), ij_files j, ij_name j))
      (invite_jobs (onInvitePairedDevice demo_env True ''e1'' ?s)) = [(''e1'', False, Some ''t'', 1, ''Desk'')]"
    using enabled_row_invites [of ?d ?s demo_env True] on id by (simp add: sender_start_def truthy_string_def)
  from arg_cong [OF this, of "map fst"] show ?thesis
    using on by (simp add: Let_def comp_def)
qed

text \<open>The same for a nearby device, which needs no record of its own.\<close>

lemma enabled_nearby_row_invites:
  fixes s :: sender and d :: NearbyDevice and ready :: bool and env :: receiver_env and ds :: "NearbyDevice list"
  defines "row \<equiv> NearbySheetRow ready (truthy_string (sd_ticket s)) True (pairedInviteStatus s) d"
  shows "map (\<lambda>j. (ij_endpoint j, ij_nearby j, Some (ij_ticket j)))
      (invite_jobs (onInviteNearbyDevice env ready ds (row_id row) s)) =
    map (\<lambda>j. (ij_endpoint j, ij_nearby j, Some (ij_ticket j))) (invite_jobs s) @
      (if row_disabled row then [] else [(endpointId d, True, sd_ticket s)])"
proof -
  obtain s1 g where g: "invite_guard env ready (endpointId d) s = (s1, g)" by fastforce
  have keep: "invite_jobs s1 = invite_jobs s"
    using guard_keeps_jobs [of env ready "endpointId d" s s1] g by simp
  have "(g = None) = row_disabled row" "\<And>t. g = Some t \<Longrightarrow> sd_ticket s = Some t"
    using guard_passes [of env ready "endpointId d" s] g
    by (auto simp: row_def NearbySheetRow_def nearby_row_disabled_def Let_def truthy_string_def split: option.splits if_splits)
  moreover have "row_id row = endpointId d" by (simp add: row_def NearbySheetRow_def Let_def)
  ultimately show ?thesis
    using g keep by (cases g) (auto simp: onInviteNearbyDevice_def Let_def begin_invite_jobs)
qed

text \<open>The list draws every paired device that matches the search, once for each.\<close>

lemma panel_lists_matches:
  assumes "pairedListContent ready hasTicket status showSearch query (sortedDevices lc raw pds) = DeviceRows rs"
  shows "mset (map row_id rs) =
    mset (map endpoint_id (if showSearch then filter (\<lambda>d. matchesPairedDeviceSearch d query) pds else pds))"
proof -
  have "rs = map (paired_row ready hasTicket status) (filteredDevices showSearch query (sortedDevices lc raw pds))"
    using assms by (auto simp: pairedListContent_def split: if_splits)
  moreover have "row_id \<circ> paired_row ready hasTicket status = endpoint_id"
    by (simp add: fun_eq_iff paired_row_def Let_def)
  ultimately have "map row_id rs = map endpoint_id (filteredDevices showSearch query (sortedDevices lc raw pds))"
    by simp
  then show ?thesis
    by (simp add: filteredDevices_def sortedDevices_def sortPairedDevicesForList_def)
qed

subsection \<open>The listeners of the panel\<close>

definition panel_inv :: "panel_listeners \<Rightarrow> bool" where
  "panel_inv s \<longleftrightarrow>
     distinct (pl_waiting s @ pl_active s) \<and> fst ` set (pl_waiting s @ pl_active s) \<subseteq> {..<pl_effects s} \<and>
     (case pl_open s of
        None \<Rightarrow> pl_active s = []
      | Some i \<Rightarrow> i < pl_effects s \<and> fst ` set (pl_active s) \<subseteq> {i})"

lemma set_drop_call_distinct:
  assumes "distinct xs" "j < length xs"
  shows "distinct (drop_call j xs)" "set (drop_call j xs) = set xs - {xs ! j}"
proof -
  have xs: "xs = take j xs @ xs ! j # drop (Suc j) xs" using assms(2) by (rule id_take_nth_drop)
  then have "distinct (take j xs @ xs ! j # drop (Suc j) xs)" using assms(1) by simp
  then show "distinct (drop_call j xs)" "set (drop_call j xs) = set xs - {xs ! j}"
    by (auto simp: drop_call_def arg_cong [OF xs, of set])
qed

lemma panel_registered_inv:
  assumes "panel_inv s"
  shows "panel_inv (panel_registered j s)"
proof (cases "j < length (pl_waiting s)")
  case True
  have "pl_waiting s ! j \<in> set (pl_waiting s)" using True by simp
  moreover have "distinct (pl_waiting s)" using assms by (simp add: panel_inv_def)
  moreover have "pl_waiting s ! j \<notin> set (pl_active s)"
    using assms calculation(1) unfolding panel_inv_def distinct_append by blast
  ultimately show ?thesis
    using assms set_drop_call_distinct [of "pl_waiting s" j] True
    by (cases "pl_open s") (auto simp: panel_inv_def panel_registered_def Let_def)
qed (use assms in \<open>simp add: panel_registered_def\<close>)

interpretation devices_panel: state_machine panel_closed "panel_step cap" panel_inv
proof
  show "panel_inv panel_closed" by (simp add: panel_inv_def panel_closed_def)
next
  fix s e assume inv: "panel_inv s"
  then show "panel_inv (panel_step cap s e)"
  proof (cases e)
    case PlOpen
    have "fst ` set (pl_waiting s) \<subseteq> {..<pl_effects s}" using inv by (auto simp: panel_inv_def)
    then have "(pl_effects s, x) \<notin> set (pl_waiting s)" "fst ` set (pl_waiting s) \<subseteq> {..<Suc (pl_effects s)}" for x
      by (force, force)
    then show ?thesis
      using inv PlOpen by (cases "pl_open s") (auto simp: panel_inv_def panel_open_def)
  next
    case PlClose
    then show ?thesis using inv by (fastforce simp: panel_inv_def panel_close_def filter_empty_conv split: option.splits)
  next
    case PlRegistered
    then show ?thesis using inv by (simp add: panel_registered_inv)
  qed (auto simp: panel_inv_def split: option.splits)
qed

text \<open>
  However late the registrations answer, a closed panel has no listener and an open one has at most one
  of each kind, its own.
\<close>

lemma panel_listeners_bounded:
  fixes es :: "panel_event list" and cap :: bool
  defines "s \<equiv> run_ops (panel_step cap) panel_closed es"
  shows "(pl_open s = None \<longrightarrow> pl_active s = []) \<and> distinct (map snd (pl_active s)) \<and> length (pl_active s) \<le> 2"
proof -
  have inv: "panel_inv s" unfolding s_def by (rule devices_panel.reachable_inv)
  then obtain i where same: "fst ` set (pl_active s) \<subseteq> {i}" "distinct (pl_active s)"
    by (cases "pl_open s") (auto simp: panel_inv_def)
  then have "inj_on snd (set (pl_active s))"
    by (intro inj_onI prod_eqI) auto
  then have d: "distinct (map snd (pl_active s))" using same(2) by (simp add: distinct_map)
  have "set (map snd (pl_active s)) \<subseteq> {NearbyEvents, PairedEvents}" using panel_topic.exhaust by auto
  then have "card (set (map snd (pl_active s))) \<le> card {NearbyEvents, PairedEvents}"
    by (rule card_mono [rotated]) simp
  then have "length (pl_active s) \<le> 2" using distinct_card [OF d] by simp
  moreover have "pl_open s = None \<Longrightarrow> pl_active s = []" using inv by (simp add: panel_inv_def)
  ultimately show ?thesis using d by blast
qed

subsection \<open>Progress in range\<close>

lemma displayed_progress_in_range:
  assumes "progressToDisplay transporting p = Some q" "\<forall>x. p = Some x \<longrightarrow> 0 \<le> totalBytes x"
  shows "0 \<le> percentage q \<and> percentage q \<le> 100 \<and> 0 \<le> bytesTransferred q \<and> bytesTransferred q \<le> totalBytes q"
  using assms by (cases p) (auto simp: progressToDisplay_def defaultProgress_def clampedProgress_def split: if_splits)

subsection \<open>The tick on the share button\<close>

definition display_inv :: "ticket_display \<Rightarrow> bool" where
  "display_inv s \<longleftrightarrow>
     (td_timers s = [] \<or> (linkCopyTimer s \<noteq> None \<and> td_timers s = [the (linkCopyTimer s)])) \<and>
     (td_mounted s \<longrightarrow> linkCopySuccess s = (td_timers s \<noteq> [])) \<and>
     set (td_toasts s) \<subseteq> set (td_toast_timers s)"

lemma display_cleared: "display_inv s \<Longrightarrow> clearTimer (linkCopyTimer s) (td_timers s) = []"
  by (cases "linkCopyTimer s") (auto simp: display_inv_def clearTimer_def)

interpretation ticket_display: state_machine TicketDisplay display_step display_inv
proof
  show "display_inv TicketDisplay" by (simp add: display_inv_def TicketDisplay_def)
next
  fix s e assume inv: "display_inv s"
  show "display_inv (display_step s e)"
  proof (cases e)
    case (TdShare native intro url)
    then show ?thesis
      using inv by (cases "linkCopyTimer s") (auto simp: display_inv_def shareTicket_def td_call_def)
  next
    case (TdSettled j r)
    then show ?thesis
      using inv display_cleared [OF inv]
      by (cases r) (auto simp: display_inv_def share_settled_def td_call_def Let_def)
  next
    case (TdTimer k)
    then show ?thesis
      using inv by (cases "linkCopyTimer s") (auto simp: display_inv_def link_timer_fires_def)
  next
    case (TdBroadcast b)
    then show ?thesis using inv by (auto simp: display_inv_def handleBroadcastChange_def td_call_def Let_def)
  next
    case (TdUndo k)
    then show ?thesis using inv by (auto simp: display_inv_def undo_broadcast_def td_call_def)
  next
    case (TdToastTimer k)
    then show ?thesis using inv by (auto simp: display_inv_def toast_timer_fires_def)
  next
    case (TdQr b)
    then show ?thesis using inv by (simp add: display_inv_def)
  next
    case TdUnmount
    then show ?thesis
      using inv display_cleared [OF inv] by (simp add: display_inv_def display_unmount_def)
  qed
qed

text \<open>
  The tick of the share button is on exactly while its one timer runs, and every announcement of the
  broadcast mode still on screen has a timer that will take it down: nothing stays for good, whatever the
  order in which copies, timers and clicks arrive.
\<close>

theorem tick_and_toasts_end:
  fixes es :: "display_event list"
  defines "s \<equiv> run_ops display_step TicketDisplay es"
  shows "(td_mounted s \<longrightarrow> linkCopySuccess s = (td_timers s \<noteq> [])) \<and> length (td_timers s) \<le> 1 \<and>
    (td_timers s \<noteq> [] \<longrightarrow> \<not> linkCopySuccess (display_step s (TdTimer (hd (td_timers s))))) \<and>
    td_toasts (run_ops display_step s (map TdToastTimer (td_toast_timers s))) = []"
proof -
  have inv: "display_inv s" unfolding s_def by (rule ticket_display.reachable_inv)
  have fire: "set (td_toasts (run_ops display_step s0 (map TdToastTimer ks))) \<subseteq> set (td_toasts s0) - set ks"
    if "set (td_toasts s0) \<subseteq> set (td_toast_timers s0)" for ks s0
    using that
  proof (induction ks arbitrary: s0)
    case (Cons k ks)
    let ?s1 = "toast_timer_fires k s0"
    have sub: "set (td_toasts ?s1) \<subseteq> set (td_toast_timers ?s1)"
      and sub1: "set (td_toasts ?s1) \<subseteq> set (td_toasts s0) - {k}"
      using Cons.prems by (auto simp: toast_timer_fires_def)
    then show ?case using Cons.IH [OF sub] by auto
  qed simp
  have "set (td_toasts s) \<subseteq> set (td_toast_timers s)" using inv by (simp add: display_inv_def)
  then have "td_toasts (run_ops display_step s (map TdToastTimer (td_toast_timers s))) = []"
    using fire [of s "td_toast_timers s"] by (simp add: Diff_eq_empty_iff [THEN iffD2])
  then show ?thesis using inv by (cases "linkCopyTimer s") (auto simp: display_inv_def link_timer_fires_def)
qed

subsection \<open>The types of the chosen files\<close>

text \<open>Runs in which every answer of \<open>get_paths_mime_types\<close> is the one of the paths it was asked for.\<close>

fun truthful :: "(string \<Rightarrow> string option) \<Rightarrow> drop_zone \<Rightarrow> dropzone_event list \<Rightarrow> bool" where
  "truthful f s [] = True"
| "truthful f s (e # es) =
     ((case e of
         DzMime j (Inr types) \<Rightarrow> j < length (dz_requests s) \<longrightarrow> types = map f (snd (dz_requests s ! j))
       | _ \<Rightarrow> True) \<and> truthful f (dropzone_step s e) es)"

lemma mime_map_lookup:
  "map_of (mime_map paths (map f paths)) p = (if p \<in> set paths \<and> f p \<noteq> Some [] then f p else None)"
proof -
  have "map_of (mime_entries ps (map f ps) m) p =
      (if p \<in> set ps \<and> f p \<noteq> None \<and> f p \<noteq> Some [] then f p else map_of m p)" for ps m
    by (induction ps arbitrary: m) (auto simp: map_of_assoc_put split: option.split)
  then show ?thesis by (auto simp: mime_map_def)
qed

text \<open>
  A card of the drop zone shows the type of its own file or none, even when the answers for earlier
  selections arrive late and out of order.
\<close>

theorem card_types_own:
  fixes f :: "string \<Rightarrow> string option" and es :: "dropzone_event list"
  assumes "truthful f Dropzone es"
  defines "z \<equiv> run_ops dropzone_step Dropzone es"
  shows "FileCard p ty name \<in> set (zone_view loading dragging paths path pty showFull z) \<Longrightarrow> ty = None \<or> ty = f p"
proof -
  have "\<forall>p. map_of (mimeTypesByPath (run_ops dropzone_step s es)) p \<in> {None, f p}"
    if "truthful f s es" "\<forall>p. map_of (mimeTypesByPath s) p \<in> {None, f p}" for s
    using that
  proof (induction es arbitrary: s)
    case (Cons e es)
    have "\<forall>p. map_of (mimeTypesByPath (dropzone_step s e)) p \<in> {None, f p}"
    proof (cases e)
      case (DzMime j r)
      then show ?thesis
        using Cons.prems by (cases r) (auto simp: mime_answer_def Let_def mime_map_lookup split: prod.splits)
    qed (use Cons.prems in \<open>auto simp: step_defs Let_def split: option.splits\<close>)
    then show ?case using Cons by simp
  qed simp
  from this [OF assms(1)] have "\<forall>p. map_of (mimeTypesByPath z) p \<in> {None, f p}"
    by (simp add: z_def Dropzone_def)
  then show "FileCard p ty name \<in> set (zone_view loading dragging paths path pty showFull z) \<Longrightarrow> ty = None \<or> ty = f p"
    by (auto simp: zone_view_def split: if_splits)
qed

subsection \<open>The idle screen\<close>

text \<open>
  The share button acts exactly when a click starts a share of the whole selection, the browse buttons
  are there exactly while nothing is chosen.
\<close>

lemma idle_controls:
  assumes "selection_inv (pk_sender p)" "[] \<notin> set (selectedPaths (pk_sender p))"
  shows "(\<exists>label. iv_share (DragDrop p z) = Some (label, True)) =
      (\<not> sd_isLoading (pk_sender p) \<and> selectedPaths (pk_sender p) \<noteq> []) \<and>
    (iv_browse (DragDrop p z) = None) = (selectedPaths (pk_sender p) \<noteq> []) \<and>
    (selectedPaths (pk_sender p) \<noteq> [] \<longrightarrow>
       sd_calls (startSharing (pk_sender p)) = sd_calls (pk_sender p) @ [SendItems (selectedPaths (pk_sender p))])"
  using assms
  by (cases "selectedPaths (pk_sender p)")
    (auto simp: DragDrop_def ShareActionCard_def Let_def truthy_string_def selection_inv_def first_path_def
      startSharing_def sd_call_def)

text \<open>
  While a share is being prepared the menu and the clear button are gone, but every card keeps its remove
  button. Removing a file then changes only the list on the screen: the share already has the file, and
  the sharing screen goes on to list the rest.
\<close>

lemma removed_while_preparing:
  fixes s :: sender and env :: receiver_env and ticket :: string
  assumes "selectedPaths s = [a, b]" "a \<noteq> b"
  defines "s1 \<equiv> startSharing s"
  defines "s2 \<equiv> share_answer env (Inr ticket) (removeSelectedPath b s1)"
  shows "FileCard b (map_of (mimeTypesByPath z) b) (getPathBaseName b) \<in>
      set (zone_view (sd_isLoading s1) dragging (selectedPaths s1) (selectedPath s1) pty showFull z) \<and>
    SendItems [a, b] \<in> set (sd_calls s2) \<and> viewState s2 = SHARING \<and> selectedPaths s2 = [a]"
  using assms
  by (simp add: zone_view_def s1_def s2_def startSharing_def removeSelectedPath_def store_removeSelectedPath_def
      share_answer_def sd_call_def Let_def)

subsection \<open>Identifiers and the clipboard\<close>

lemma hex_char_lower: "n < 16 \<Longrightarrow> hex_char n \<in> set ''0123456789abcdef''"
proof -
  have "list_all (\<lambda>n. hex_char n \<in> set ''0123456789abcdef'') [0..<16]" by code_simp
  then show "n < 16 \<Longrightarrow> hex_char n \<in> set ''0123456789abcdef''" by (simp only: list_all_iff set_upt atLeastLessThan_iff) simp
qed

text \<open>The text is copied or an error is reported, and the helper element never stays in the page.\<close>

lemma clipboard_cleans_up:
  "snd (copyTextToClipboard c d e t) = Inr () \<longleftrightarrow> c = Some (Inr ()) \<or> (c = None \<and> d \<and> e = Inr True)"
  "AppendArea t' \<in> set (fst (copyTextToClipboard c d e t)) \<longrightarrow>
     t' = t \<and> last (fst (copyTextToClipboard c d e t)) = RemoveArea"
  by (auto simp: copyTextToClipboard_def split: option.split sum.split)

lemma version_nibble: "drop_bit 4 (or (and x 0x0F) 0x40) = (4 :: 8 word)"
  by (simp add: drop_bit_or drop_bit_and)

lemma variant_nibble: "unat (drop_bit 4 (or (and x 0x3F) 0x80) :: 8 word) \<in> {8, 9, 10, 11}"
proof -
  define n where "n = unat (drop_bit 4 x)"
  have "drop_bit 4 (or (and x 0x3F) 0x80) = or (and (drop_bit 4 x) 3) (8 :: 8 word)"
    by (simp add: drop_bit_or drop_bit_and)
  then have "unat (drop_bit 4 (or (and x 0x3F) 0x80)) = or (and n 3) 8"
    by (simp add: unsigned_or_eq unsigned_and_eq n_def)
  moreover have "and n 3 = n mod 4"
    using take_bit_eq_mask [of 2 n] by (simp add: take_bit_eq_mod mask_eq_exp_minus_1)
  moreover have "n mod 4 = 0 \<or> n mod 4 = 1 \<or> n mod 4 = 2 \<or> n mod 4 = 3" by arith
  ultimately show ?thesis by auto
qed

text \<open>
  Where the platform has no function for it, the identifier of sixteen random bytes has the form of a
  random \<open>UUID\<close>: thirty-six characters, lower-case hexadecimal digits in five groups, the version digit
  four and a variant digit between eight and eleven.
\<close>

theorem uuid_v4_format:
  fixes bytes :: "8 word list"
  assumes "length bytes = 16"
  defines "u \<equiv> randomUUID None bytes"
  shows "length u = 36 \<and> u ! 14 = CHR ''4'' \<and> u ! 19 \<in> set ''89ab'' \<and>
    (\<forall>i < 36. if i \<in> {8, 13, 18, 23} then u ! i = CHR ''-'' else u ! i \<in> set ''0123456789abcdef'')"
proof -
  let ?b1 = "bytes[6 := or (and (bytes ! 6) 0x0F) 0x40]"
  let ?b2 = "?b1[8 := or (and (?b1 ! 8) 0x3F) 0x80]"
  have len: "length ?b2 = 16" using assms(1) by simp
  have b6: "?b2 ! 6 = or (and (bytes ! 6) 0x0F) 0x40" and b8: "?b2 ! 8 = or (and (bytes ! 8) 0x3F) 0x80"
    using assms(1) by simp_all
  obtain c where c: "c = ?b2" by simp
  have "\<exists>c0 c1 c2 c3 c4 c5 c6 c7 c8 c9 c10 c11 c12 c13 c14 c15.
      c = [c0, c1, c2, c3, c4, c5, c6, c7, c8, c9, c10, c11, c12, c13, c14, c15]"
    using len unfolding c [symmetric] by (simp add: numeral_eq_Suc length_Suc_conv) blast
  then obtain c0 c1 c2 c3 c4 c5 c6 c7 c8 c9 c10 c11 c12 c13 c14 c15 where
    cs: "c = [c0, c1, c2, c3, c4, c5, c6, c7, c8, c9, c10, c11, c12, c13, c14, c15]" by blast
  have "unat c6 div 16 = 4"
    using arg_cong [OF version_nibble [of "bytes ! 6"], of unat] b6 unfolding c [symmetric] cs
    by (simp add: drop_bit_eq_div unat_div)
  moreover have "hex_char 4 = CHR ''4''" by code_simp
  ultimately have hi: "hex_char (unat c6 div 16) = CHR ''4''" by simp
  have "unat c8 div 16 \<in> {8, 9, 10, 11}"
    using variant_nibble [of "bytes ! 8"] b8 unfolding c [symmetric] cs
    by (simp add: drop_bit_eq_div unat_div)
  moreover have "hex_char ` {8, 9, 10, 11} = set ''89ab''" by code_simp
  ultimately have var: "hex_char (unat c8 div 16) \<in> set ''89ab''" by blast
  have hex: "hex_char (unat b div 16) \<in> set ''0123456789abcdef''" "hex_char (unat b mod 16) \<in> set ''0123456789abcdef''"
    for b :: "8 word"
  proof -
    have "unat b < 256" using unsigned_less [of b, where ?'a = nat] by simp
    then have "unat b div 16 < 16" "unat b mod 16 < 16" by simp_all
    then show "hex_char (unat b div 16) \<in> set ''0123456789abcdef''" "hex_char (unat b mod 16) \<in> set ''0123456789abcdef''"
      by (blast intro: hex_char_lower)+
  qed
  have u: "u = concat (map hex_byte [c0, c1, c2, c3]) @ ''-'' @ concat (map hex_byte [c4, c5]) @ ''-'' @
      concat (map hex_byte [c6, c7]) @ ''-'' @ concat (map hex_byte [c8, c9]) @ ''-'' @
      concat (map hex_byte [c10, c11, c12, c13, c14, c15])"
    unfolding u_def randomUUID_def Let_def option.case c [symmetric] cs
    by (simp add: hex_byte_def)
  have len36: "length u = 36" unfolding u by (simp add: hex_byte_def)
  have "\<forall>i < length u. if i \<in> {8, 13, 18, 23} then u ! i = CHR ''-'' else u ! i \<in> set ''0123456789abcdef''"
    unfolding u using hex by (simp add: hex_byte_def All_less_Suc2 del: set_simps list.set)
  moreover have "u ! 14 = CHR ''4''" using hi unfolding u by (simp add: hex_byte_def)
  moreover have "u ! 19 \<in> set ''89ab''" using var unfolding u by (simp add: hex_byte_def del: set_simps list.set)
  ultimately show ?thesis using len36 by simp
qed

end
