(* ===== verification/Translations.thy ===== *)
theory Translations
  imports JS_Json Release_Notes
begin

text \<open>
  The texts of the program: \<open>i18n/setup.ts\<close>, \<open>i18n/TranslationContext.tsx\<close>,
  \<open>i18n/react-i18next-compat.ts\<close>, \<open>components/LanguageSwitcher.tsx\<close>, \<open>components/CountryFlag.tsx\<close> and
  \<open>hooks/useTrayLabels.ts\<close>.

  A catalogue is a tree of texts, the content of one file of \<open>locales/\<close>. A lookup with \<open>in\<close> or with an
  index also finds the members of \<open>Object.prototype\<close>; such a value is \<open>Native\<close> with the way to it, and
  \<open>native\<close> is its text. The options of a text are given with their texts, without the undefined ones.
  The stored language is one entry of the browser storage, which may refuse to be read or written.
\<close>

section \<open>Catalogues\<close>

datatype message = Message string | Messages "(string \<times> message) list"

text \<open>Languages, with their namespaces.\<close>

type_synonym catalogue = "(string \<times> (string \<times> message) list) list"

text \<open>
  \<open>/\.\.\/locales\/([^/]+)\/([^/]+)\.json/\<close> at the start of a text: the second group is greedy, so it ends
  at the last \<open>.json\<close> of its part of the path.
\<close>

definition json_stem :: "string \<Rightarrow> string option" where
  "json_stem part =
     (case filter (\<lambda>k. prefix ''.json'' (drop k part)) (rev [1..<length part]) of
        [] \<Rightarrow> None
      | k # _ \<Rightarrow> Some (take k part))"

definition locale_here :: "string \<Rightarrow> (string \<times> string) option" where
  "locale_here p =
     (if \<not> prefix ''../locales/'' p then None
      else
        (let rest = drop 11 p; lng = takeWhile (\<lambda>c. c \<noteq> CHR ''/'') rest; after = drop (length lng) rest in
         if lng = [] \<or> after = [] then None
         else map_option (Pair lng) (json_stem (takeWhile (\<lambda>c. c \<noteq> CHR ''/'') (tl after)))))"

fun locale_match :: "string \<Rightarrow> (string \<times> string) option" where
  "locale_match [] = None"
| "locale_match (c # cs) = (case locale_here (c # cs) of Some m \<Rightarrow> Some m | None \<Rightarrow> locale_match cs)"

definition add_file :: "catalogue \<times> string list \<Rightarrow> string \<times> message \<Rightarrow> catalogue \<times> string list" where
  "add_file acc file =
     (case acc of (res, nss) \<Rightarrow>
        (case locale_match (fst file) of
           None \<Rightarrow> acc
         | Some (lng, ns) \<Rightarrow>
             (let old = (case map_of res lng of None \<Rightarrow> [] | Some e \<Rightarrow> e) in
              (assoc_put lng (assoc_put ns (snd file) old) res, if ns \<in> set nss then nss else nss @ [ns]))))"

definition load_resources :: "(string \<times> message) list \<Rightarrow> catalogue \<times> string list" where
  "load_resources files = foldl add_file ([], []) files"

section \<open>Looking up a text\<close>

datatype tvalue = Found message | Native "string list"

definition value_member :: "tvalue \<Rightarrow> string \<Rightarrow> tvalue option" where
  "value_member v k =
     (case v of
        Found (Message _) \<Rightarrow> None
      | Found (Messages kvs) \<Rightarrow>
          (case map_of kvs k of
             Some m \<Rightarrow> Some (Found m)
           | None \<Rightarrow> if k \<in> set object_members then Some (Native [k]) else None)
      | Native w \<Rightarrow> if w = [''__proto__''] \<and> k \<in> set object_members then Some (Native (w @ [k])) else None)"

definition getNestedValue :: "message option \<Rightarrow> string \<Rightarrow> tvalue option" where
  "getNestedValue obj p =
     foldl (\<lambda>cur k. Option.bind cur (\<lambda>v. value_member v k)) (map_option Found obj) (js_split (CHR ''.'') p)"

definition catalogue_entry :: "catalogue \<Rightarrow> string \<Rightarrow> string \<Rightarrow> message option" where
  "catalogue_entry res lng ns = Option.bind (map_of res lng) (\<lambda>nss. map_of nss ns)"

section \<open>Filling in\<close>

text \<open>\<open>/\{\{(\w+)\}\}/\<close> at the start of a text.\<close>

definition var_here :: "string \<Rightarrow> (string \<times> string) option" where
  "var_here s =
     (if \<not> prefix ''{{'' s then None
      else
        (let v = takeWhile word_char (drop 2 s); rest = dropWhile word_char (drop 2 s) in
         if v \<noteq> [] \<and> prefix ''}}'' rest then Some (v, drop 2 rest) else None))"

lemma var_here_shorter: "var_here s = Some (v, rest) \<Longrightarrow> length rest < length s"
proof -
  assume h: "var_here s = Some (v, rest)"
  then have "rest = drop 2 (dropWhile word_char (drop 2 s))" "s \<noteq> []"
    by (auto simp: var_here_def Let_def split: if_splits)
  moreover have "length (dropWhile word_char (drop 2 s)) \<le> length s - 2"
    using length_dropWhile_le [of word_char "drop 2 s"] by simp
  moreover have "length s \<ge> 2" using h by (auto simp: var_here_def prefix_def split: if_splits)
  ultimately show "length rest < length s" by simp
qed

definition option_value :: "(string list \<Rightarrow> string) \<Rightarrow> (string \<times> string) list \<Rightarrow> string \<Rightarrow> string option" where
  "option_value native opts v =
     (case map_of opts v of
        Some x \<Rightarrow> Some x
      | None \<Rightarrow> if v \<in> set object_members then Some (native [v]) else None)"

function interpolate :: "(string \<Rightarrow> string option) \<Rightarrow> string \<Rightarrow> string" where
  "interpolate f [] = []"
| "interpolate f (c # cs) =
     (case var_here (c # cs) of
        None \<Rightarrow> c # interpolate f cs
      | Some (v, rest) \<Rightarrow>
          (case f v of Some x \<Rightarrow> x | None \<Rightarrow> ''{{'' @ v @ ''}}'') @ interpolate f rest)"
  by pat_completeness auto
termination
  by (relation "measure (\<lambda>(f, s). length s)") (auto dest: var_here_shorter)

definition fallbackLng :: string where
  "fallbackLng = ''en''"

definition defaultNS :: string where
  "defaultNS = ''common''"

definition split_key :: "string \<Rightarrow> string \<times> string" where
  "split_key key =
     (if js_includes key '':'' then (let parts = js_split (CHR '':'') key in (parts ! 0, parts ! 1))
      else (defaultNS, key))"

definition value_text :: "(string list \<Rightarrow> string) \<Rightarrow> (string \<times> string) list \<Rightarrow> tvalue \<Rightarrow> string" where
  "value_text native opts v =
     (case v of
        Found (Message s) \<Rightarrow> interpolate (option_value native opts) s
      | Found (Messages _) \<Rightarrow> ''[object Object]''
      | Native w \<Rightarrow> native w)"

definition translate ::
    "(string list \<Rightarrow> string) \<Rightarrow> catalogue \<Rightarrow> string \<Rightarrow> string \<Rightarrow> (string \<times> string) list \<Rightarrow> string" where
  "translate native res language key opts =
     (let (namespace, k) = split_key key;
          own = getNestedValue (catalogue_entry res language namespace) k;
          translation = (if own = None \<and> language \<noteq> fallbackLng
                         then getNestedValue (catalogue_entry res fallbackLng namespace) k else own)
      in case translation of None \<Rightarrow> key | Some v \<Rightarrow> value_text native opts v)"

text \<open>The hook of the components: a namespace is put before a key that has none.\<close>

definition namespacedT :: "(string \<Rightarrow> (string \<times> string) list \<Rightarrow> string) \<Rightarrow> string option \<Rightarrow> string \<Rightarrow> (string \<times> string) list \<Rightarrow> string" where
  "namespacedT t namespace key opts =
     (case namespace of
        None \<Rightarrow> t key opts
      | Some ns \<Rightarrow>
          if ns = [] then t key opts else t (if js_includes key '':'' then key else ns @ '':'' @ key) opts)"

section \<open>The language\<close>

record language_state =
  ls_stored :: "string option"       \<comment> \<open>the entry of the storage\<close>
  ls_readable :: bool
  ls_writable :: bool
  ls_instance :: string              \<comment> \<open>\<open>i18nInstance.language\<close>\<close>
  ls_shown :: string                 \<comment> \<open>the state of the provider; a change draws everything again\<close>

definition or_en :: "string option \<Rightarrow> string" where
  "or_en s = (case s of None \<Rightarrow> ''en'' | Some l \<Rightarrow> if l = [] then ''en'' else l)"

definition getStoredLanguage :: "bool \<Rightarrow> string option \<Rightarrow> string" where
  "getStoredLanguage readable s = (if readable then or_en s else ''en'')"

definition initI18n :: "bool \<Rightarrow> bool \<Rightarrow> string option \<Rightarrow> language_state" where
  "initI18n readable writable s =
     \<lparr>ls_stored = s, ls_readable = readable, ls_writable = writable,
      ls_instance = getStoredLanguage readable s, ls_shown = getStoredLanguage readable s\<rparr>"

definition language_known :: "catalogue \<Rightarrow> string \<Rightarrow> bool" where
  "language_known res lng \<longleftrightarrow> map_of res lng \<noteq> None \<or> lng \<in> set object_members"

definition changeLanguage :: "catalogue \<Rightarrow> string \<Rightarrow> language_state \<Rightarrow> language_state" where [step_defs]:
  "changeLanguage res lng s =
     (if language_known res lng
      then s\<lparr>ls_instance := lng, ls_stored := (if ls_writable s then Some lng else ls_stored s)\<rparr>
      else s)"

definition handleLanguageChange :: "catalogue \<Rightarrow> language_state \<Rightarrow> language_state" where [step_defs]:
  "handleLanguageChange res s =
     (if \<not> ls_readable s then s
      else
        (let newLang = or_en (ls_stored s) in
         if newLang = ls_shown s then s else changeLanguage res newLang (s\<lparr>ls_shown := newLang\<rparr>)))"

definition LANGUAGES :: "(string \<times> string) list" where
  "LANGUAGES =
     [(''ar'', ''SA''), (''bn'', ''BD''), (''cs'', ''CZ''), (''de'', ''DE''), (''en'', ''US''), (''es'', ''ES''),
      (''fa'', ''IR''), (''fr'', ''FR''), (''hi'', ''IN''), (''hu'', ''HU''), (''it'', ''IT''), (''ja'', ''JP''),
      (''km'', ''KH''), (''ko'', ''KR''), (''no'', ''NO''), (''pl'', ''PL''), (''pt-BR'', ''BR''), (''ru'', ''RU''),
      (''sr'', ''RS''), (''th'', ''TH''), (''tr'', ''TR''), (''uk'', ''UA''), (''uz-Latn'', ''UZ''), (''zh-CN'', ''CN''),
      (''zh-TW'', ''TW'')]"

definition currentLanguage :: "string \<Rightarrow> string \<times> string" where
  "currentLanguage language =
     (case find (\<lambda>l. fst l = language) LANGUAGES of Some l \<Rightarrow> l | None \<Rightarrow> LANGUAGES ! 0)"

definition pick_language :: "catalogue \<Rightarrow> string \<Rightarrow> language_state \<Rightarrow> language_state" where [step_defs]:
  "pick_language res lng s = handleLanguageChange res (changeLanguage res lng s)"

datatype language_event =
    LgPick nat                       \<comment> \<open>an item of the list\<close>
  | LgBrowser                        \<comment> \<open>the browser's own \<open>languagechange\<close>\<close>
  | LgStorage bool "string option"   \<comment> \<open>another window changed an entry; whether it is this one\<close>

fun language_step :: "catalogue \<Rightarrow> language_state \<Rightarrow> language_event \<Rightarrow> language_state" where
  "language_step res s (LgPick i) = (if i < length LANGUAGES then pick_language res (fst (LANGUAGES ! i)) s else s)"
| "language_step res s LgBrowser = handleLanguageChange res s"
| "language_step res s (LgStorage own v) = (if own then handleLanguageChange res (s\<lparr>ls_stored := v\<rparr>) else s)"

definition FLAGS :: "string list" where
  "FLAGS =
     [''AE'', ''AU'', ''BD'', ''BH'', ''BR'', ''CA'', ''CN'', ''CZ'', ''DE'', ''ES'', ''FR'', ''GB'', ''HU'', ''ID'', ''IE'',
      ''IN'', ''IR'', ''IT'', ''JP'', ''KH'', ''KR'', ''NO'', ''PL'', ''RS'', ''RU'', ''SA'', ''SE'', ''SG'', ''TH'', ''TR'',
      ''TW'', ''UA'', ''US'', ''UZ'', ''ZA'']"

text \<open>The labels of the tray, set again whenever the language of a render differs from the last one.\<close>

definition tray_labels :: "(string \<Rightarrow> (string \<times> string) list \<Rightarrow> string) \<Rightarrow> string list" where
  "tray_labels t =
     map (\<lambda>k. t (''settings.general.systembar.'' @ k) [])
       [''trayOpen'', ''trayQuit'', ''trayNoDevices'', ''trayDevicesOnline'', ''trayDeviceOnline'']"

definition useTrayLabels :: "bool \<Rightarrow> string option \<Rightarrow> string \<Rightarrow> (string \<Rightarrow> (string \<times> string) list \<Rightarrow> string) \<Rightarrow> string list option" where
  "useTrayLabels IS_DESKTOP before now t = (if IS_DESKTOP \<and> before \<noteq> Some now then Some (tray_labels t) else None)"

section \<open>Properties\<close>

subsection \<open>Catalogues\<close>

lemma takeWhile_segment: "d \<notin> set w \<Longrightarrow> takeWhile (\<lambda>c. c \<noteq> d) (w @ d # r) = w"
  by (induction w) auto

lemma locale_match_common:
  assumes "lng \<noteq> []" "CHR ''/'' \<notin> set lng"
  shows "locale_match (''../locales/'' @ lng @ ''/common.json'') = Some (lng, ''common'')"
proof -
  have stem: "json_stem (takeWhile (\<lambda>c. c \<noteq> CHR ''/'') ''common.json'') = Some ''common''" by code_simp
  have "takeWhile (\<lambda>c. c \<noteq> CHR ''/'') (lng @ ''/common.json'') = lng"
    using takeWhile_segment [OF assms(2), of "''common.json''"] by simp
  then have "locale_here (''../locales/'' @ lng @ ''/common.json'') = Some (lng, ''common'')"
    using assms(1) stem by (simp add: locale_here_def Let_def)
  then show ?thesis by (simp only: append_Cons locale_match.simps option.case)
qed

text \<open>The files of all languages of the switcher are found again under their language.\<close>

lemma languages_load:
  assumes "distinct ls" "\<forall>l \<in> set ls. l \<noteq> [] \<and> CHR ''/'' \<notin> set l" "l \<in> set ls"
  shows "catalogue_entry (fst (load_resources (map (\<lambda>l. (''../locales/'' @ l @ ''/common.json'', content l)) ls))) l ''common'' =
    Some (content l)"
proof -
  have "catalogue_entry (fst (foldl add_file acc (map (\<lambda>l. (''../locales/'' @ l @ ''/common.json'', content l)) ls))) k ''common'' =
      (if k \<in> set ls then Some (content k) else catalogue_entry (fst acc) k ''common'')" for acc k
    using assms(2)
  proof (induction ls arbitrary: acc)
    case (Cons l ls)
    have "catalogue_entry (fst (add_file acc (''../locales/'' @ l @ ''/common.json'', content l))) k ''common'' =
        (if k = l then Some (content k) else catalogue_entry (fst acc) k ''common'')"
      using Cons.prems locale_match_common [of l]
      by (cases acc) (simp add: add_file_def catalogue_entry_def Let_def map_of_assoc_put)
    then show ?case using Cons by (cases "k = l") (simp_all del: append_Cons)
  qed simp
  from this [of "([], [])" l] show ?thesis using assms(3) by (simp add: load_resources_def)
qed

lemma switcher_languages: "distinct (map fst LANGUAGES)" "\<forall>l \<in> set (map fst LANGUAGES). l \<noteq> [] \<and> CHR ''/'' \<notin> set l"
  "\<forall>l \<in> set LANGUAGES. snd l \<in> set FLAGS" "''en'' \<in> set (map fst LANGUAGES)"
  by code_simp+

subsection \<open>Filling in\<close>

datatype template_part = Lit string | Hole string

fun print_part :: "template_part \<Rightarrow> string" where
  "print_part (Lit s) = s"
| "print_part (Hole v) = ''{{'' @ v @ ''}}''"

fun part_ok :: "template_part \<Rightarrow> bool" where
  "part_ok (Lit s) = (CHR ''{'' \<notin> set s)"
| "part_ok (Hole v) = (v \<noteq> [] \<and> list_all word_char v)"

fun fill_part :: "(string \<Rightarrow> string option) \<Rightarrow> template_part \<Rightarrow> string" where
  "fill_part f (Lit s) = s"
| "fill_part f (Hole v) = (case f v of Some x \<Rightarrow> x | None \<Rightarrow> ''{{'' @ v @ ''}}'')"

lemma interpolate_literal: "CHR ''{'' \<notin> set s \<Longrightarrow> interpolate f (s @ r) = s @ interpolate f r"
  by (induction s) (auto simp: var_here_def)

lemma interpolate_hole:
  assumes "v \<noteq> []" "list_all word_char v"
  shows "interpolate f (''{{'' @ v @ ''}}'' @ r) = fill_part f (Hole v) @ interpolate f r"
proof -
  have "\<not> word_char (CHR ''}'')" by code_simp
  then have "takeWhile word_char (v @ ''}}'' @ r) = v" "dropWhile word_char (v @ ''}}'' @ r) = ''}}'' @ r"
    using assms(2) by (simp_all add: takeWhile_append dropWhile_append list_all_iff)
  then have "var_here (''{{'' @ v @ ''}}'' @ r) = Some (v, r)"
    using assms(1) by (simp add: var_here_def Let_def)
  then show ?thesis by simp
qed

text \<open>
  A text made of literal parts and named holes is filled in hole by hole: a value replaces its hole and
  is not read again, a hole without a value stays as it is written, and the rest is kept.
\<close>

theorem template_filled:
  assumes "list_all part_ok ps"
  shows "interpolate f (concat (map print_part ps)) = concat (map (fill_part f) ps)"
  using assms
proof (induction ps)
  case (Cons p ps)
  then show ?case
    using interpolate_literal interpolate_hole by (cases p) (simp_all del: append_Cons interpolate.simps)
qed simp

subsection \<open>The language\<close>

text \<open>A language of the switcher, and a stored entry that names one (or is missing, which stands for English).\<close>

definition language_offered :: "string \<Rightarrow> bool" where
  "language_offered l \<longleftrightarrow> l \<in> set (map fst LANGUAGES)"

definition stored_offered :: "string option \<Rightarrow> bool" where
  "stored_offered v = (case v of None \<Rightarrow> True | Some l \<Rightarrow> language_offered l)"

definition language_inv :: "language_state \<Rightarrow> bool" where
  "language_inv s \<longleftrightarrow>
     ls_readable s \<and> ls_writable s \<and> stored_offered (ls_stored s) \<and> ls_instance s = or_en (ls_stored s) \<and>
     ls_shown s = ls_instance s"

definition offered_event :: "language_event \<Rightarrow> bool" where
  "offered_event e = (case e of LgStorage True v \<Rightarrow> stored_offered v | _ \<Rightarrow> True)"

lemma or_en_offered: "stored_offered v \<Longrightarrow> language_offered (or_en v) \<and> (v = Some (or_en v) \<or> v = None \<and> or_en v = ''en'')"
  using switcher_languages(2,4) by (auto simp: stored_offered_def language_offered_def or_en_def split: option.splits)

lemma language_step_inv:
  assumes inv: "language_inv s" and e: "offered_event e" and all: "\<forall>l. language_offered l \<longrightarrow> map_of res l \<noteq> None"
  shows "language_inv (language_step res s e)"
proof -
  have known: "language_offered l \<Longrightarrow> language_known res l \<and> or_en (Some l) = l \<and> stored_offered (Some l)" for l
    using all switcher_languages(2) by (auto simp: language_known_def stored_offered_def language_offered_def or_en_def)
  have change: "language_inv (handleLanguageChange res u)"
    if "ls_readable u" "ls_writable u" "stored_offered (ls_stored u)" "ls_shown u = or_en (ls_stored u) \<longrightarrow> ls_instance u = ls_shown u" for u
    using that known or_en_offered [OF that(3)] by (auto simp: language_inv_def handleLanguageChange_def changeLanguage_def Let_def)
  have now: "ls_readable s" "ls_writable s" "stored_offered (ls_stored s)" "ls_instance s = ls_shown s"
    using inv by (simp_all add: language_inv_def)
  show ?thesis
  proof (cases e)
    case (LgPick i)
    show ?thesis
    proof (cases "i < length LANGUAGES")
      case True
      then have "language_offered (fst (LANGUAGES ! i))" by (simp add: language_offered_def)
      from known [OF this] show ?thesis
        using LgPick True now by (simp add: pick_language_def changeLanguage_def change)
    qed (use inv LgPick in simp)
  next
    case LgBrowser
    then show ?thesis using now by (simp add: change)
  next
    case (LgStorage own v)
    then show ?thesis using inv e now by (cases own) (simp_all add: offered_event_def change)
  qed
qed

lemma switcher_shows: "language_offered l \<Longrightarrow> fst (currentLanguage l) = l"
proof -
  assume "language_offered l"
  then obtain x where "x \<in> set LANGUAGES" "fst x = l" by (auto simp: language_offered_def)
  then have "find (\<lambda>y. fst y = l) LANGUAGES \<noteq> None" unfolding find_None_iff by blast
  then obtain y where y: "find (\<lambda>y. fst y = l) LANGUAGES = Some y" by blast
  then have "fst y = l" unfolding find_Some_iff by blast
  then show ?thesis by (simp add: currentLanguage_def y)
qed

text \<open>
  C33. With a storage that can be read and written and holds nothing or a language of the switcher, and a catalogue for each of these languages, every
  choice in the switcher, every change that another window makes to another of them or to nothing, and every signal of the browser leaves one
  language everywhere: the texts, the entry that the switcher marks and the stored entry (none stands for English) agree, and a
  choice is shown, marked and stored.
\<close>

theorem one_language_everywhere:
  assumes "\<forall>l \<in> set (map fst LANGUAGES). map_of res l \<noteq> None"
    and "case v of None \<Rightarrow> True | Some l \<Rightarrow> l \<in> set (map fst LANGUAGES)"
    and "list_all (\<lambda>e. case e of LgStorage True (Some l) \<Rightarrow> l \<in> set (map fst LANGUAGES) | _ \<Rightarrow> True) es"
  defines "s \<equiv> run_ops (language_step res) (initI18n True True v) es"
  shows "ls_instance s \<in> set (map fst LANGUAGES) \<and> ls_shown s = ls_instance s \<and>
    fst (currentLanguage (ls_shown s)) = ls_instance s \<and>
    (ls_stored s = Some (ls_instance s) \<or> ls_stored s = None \<and> ls_instance s = ''en'') \<and>
    (if i < length LANGUAGES
     then let s' = language_step res s (LgPick i) in
       ls_instance s' = fst (LANGUAGES ! i) \<and> ls_shown s' = fst (LANGUAGES ! i) \<and>
       currentLanguage (ls_shown s') = LANGUAGES ! i \<and> ls_stored s' = Some (fst (LANGUAGES ! i))
     else True)"
proof -
  have all: "\<forall>l. language_offered l \<longrightarrow> map_of res l \<noteq> None" using assms(1) by (auto simp: language_offered_def)
  have es: "list_all offered_event es"
    using assms(3) by (rule list.pred_mono_strong)
      (auto simp: offered_event_def stored_offered_def language_offered_def split: language_event.splits bool.splits option.splits)
  have run: "language_inv (run_ops (language_step res) s0 es)" if "language_inv s0" for s0
    using that es by (induction es arbitrary: s0) (auto simp: language_step_inv [OF _ _ all])
  have inv: "language_inv s"
    unfolding s_def by (rule run)
      (use assms(2) in \<open>auto simp: language_inv_def initI18n_def getStoredLanguage_def stored_offered_def language_offered_def split: option.splits\<close>)
  have pick: "let s' = language_step res s (LgPick i) in
      ls_instance s' = fst (LANGUAGES ! i) \<and> ls_shown s' = fst (LANGUAGES ! i) \<and>
      currentLanguage (ls_shown s') = LANGUAGES ! i \<and> ls_stored s' = Some (fst (LANGUAGES ! i))" if i: "i < length LANGUAGES"
  proof -
    have m: "LANGUAGES ! i \<in> set LANGUAGES" using i by simp
    then have "language_known res (fst (LANGUAGES ! i))" "fst (LANGUAGES ! i) \<noteq> []"
      using all switcher_languages(2) by (auto simp: language_offered_def language_known_def)
    moreover have "find (\<lambda>l. fst l = fst (LANGUAGES ! i)) LANGUAGES = Some (LANGUAGES ! i)"
      using i switcher_languages(1) unfolding find_Some_iff
      by (intro exI [of _ i]) (auto simp: distinct_conv_nth)
    ultimately show ?thesis
      using inv i by (auto simp: language_inv_def step_defs or_en_def currentLanguage_def Let_def)
  qed
  have "language_offered (ls_instance s)" "ls_stored s = Some (ls_instance s) \<or> ls_stored s = None \<and> ls_instance s = ''en''"
    using inv or_en_offered [of "ls_stored s"] by (auto simp: language_inv_def)
  then show ?thesis using inv pick switcher_shows by (simp add: language_inv_def language_offered_def)
qed

theorem one_language_everywhere_witness:
  "let res = map (\<lambda>l. (fst l, [])) LANGUAGES;
       s = run_ops (language_step res) (initI18n True True None) [LgPick 3, LgBrowser, LgStorage True (Some ''fr'')]
   in ls_shown s = ''fr'' \<and> ls_instance s = ls_shown s \<and> fst (currentLanguage (ls_shown s)) = ''fr''"
proof -
  let ?res = "map (\<lambda>l. (fst l, [])) LANGUAGES :: catalogue"
  let ?es = "[LgPick 3, LgBrowser, LgStorage True (Some ''fr'')]"
  have ent: "map_of ?res l \<noteq> None" if "l \<in> set (map fst LANGUAGES)" for l
    using that by (auto simp: map_of_eq_None_iff image_iff)
  moreover have "''en'' \<in> set (map fst LANGUAGES)" and fr: "''fr'' \<in> set (map fst LANGUAGES)" and "''de'' \<in> set (map fst LANGUAGES)"
      and third: "3 < length LANGUAGES" "fst (LANGUAGES ! 3) = ''de''" by code_simp+
  ultimately have k: "language_known ?res ''en''" "language_known ?res ''fr''" "language_known ?res ''de''"
    unfolding language_known_def by blast+
  let ?s = "run_ops (language_step ?res) (initI18n True True None) ?es"
  have a: "\<forall>l \<in> set (map fst LANGUAGES). map_of ?res l \<noteq> None" using ent by blast
  have b: "case None of None \<Rightarrow> True | Some l \<Rightarrow> l \<in> set (map fst LANGUAGES)" by simp
  have c: "list_all (\<lambda>e. case e of LgStorage True (Some l) \<Rightarrow> l \<in> set (map fst LANGUAGES) | _ \<Rightarrow> True) ?es"
    using fr by (simp only: list.pred_inject language_event.case bool.case option.case simp_thms)
  note o = one_language_everywhere [OF a b c, of 0]
  have "ls_shown ?s = ls_instance ?s" "fst (currentLanguage (ls_shown ?s)) = ls_instance ?s"
    by (rule conjunct1 [OF conjunct2 [OF o]], rule conjunct1 [OF conjunct2 [OF conjunct2 [OF o]]])
  moreover have "ls_shown ?s = ''fr''"
    using k third by (simp add: or_en_def initI18n_def getStoredLanguage_def step_defs Let_def del: nth_map)
  ultimately show ?thesis by simp
qed

text \<open>
  An entry like \<open>constructor\<close>, which every object inherits, passes for a language of the catalogue: it is stored and taken over, although
  the texts are then the English ones and the switcher marks the first language of its list.
\<close>

lemma inherited_language_taken:
  assumes "ls_readable s" "ls_writable s" "ls_shown s \<noteq> ''constructor''"
  shows "let s' = language_step res s (LgStorage True (Some ''constructor'')) in
    ls_instance s' = ''constructor'' \<and> ls_shown s' = ''constructor'' \<and> currentLanguage (ls_shown s') = (''ar'', ''SA'')"
  using assms by (auto simp: step_defs or_en_def language_known_def object_members_def currentLanguage_def LANGUAGES_def Let_def)

text \<open>
  A stored language that the program does not have: the texts are the English ones, and the switcher
  shows the first language of its list.
\<close>

lemma unknown_language_shows_first:
  assumes "map_of res lng = None" "find (\<lambda>l. fst l = lng) LANGUAGES = None"
  shows "translate native res lng key opts = translate native res ''en'' key opts \<and>
    currentLanguage lng = (''ar'', ''SA'')"
proof -
  have none: "foldl (\<lambda>cur k. Option.bind cur (\<lambda>v. value_member v k)) None ks = None" for ks
    by (induction ks) simp_all
  have "lng \<noteq> ''en''" using assms(2) by (auto simp: LANGUAGES_def)
  moreover have "catalogue_entry res lng ns = None" for ns using assms(1) by (simp add: catalogue_entry_def)
  ultimately have "translate native res lng key opts = translate native res ''en'' key opts"
    by (simp add: translate_def fallbackLng_def getNestedValue_def none split: prod.split)
  then show ?thesis using assms(2) by (simp add: currentLanguage_def LANGUAGES_def)
qed

text \<open>
  Where the storage cannot be written, a choice changes the language of the texts but draws nothing
  again: what is on the screen stays in the old language until something else draws it.
\<close>

lemma unwritable_choice_not_drawn:
  assumes "language_known res ''de''"
  defines "s \<equiv> language_step res (initI18n True False None) (LgPick 3)"
  shows "ls_instance s = ''de'' \<and> ls_shown s = ''en'' \<and> ls_stored s = None"
  using assms by (simp add: s_def initI18n_def getStoredLanguage_def or_en_def step_defs LANGUAGES_def Let_def)

end
