(* ===== verification/Android_Build.thy ===== *)
theory Android_Build
  imports Release_Notes
begin

text \<open>
  The Android release: \<open>scripts/android-release-build.js\<close> and
  \<open>scripts/apply-android-release-gradle-patches.js\<close>.

  The disk maps the absolute paths of files to their contents, in the order in which a directory lists
  them; a directory exists when a file is below it. Paths are joined with a slash. A tool (\<open>npx tauri\<close>,
  \<open>git\<close>, \<open>apksigner\<close>) is the parameter \<open>tool\<close>: from the command line and the disk it gives the new disk
  and its exit status, \<^const>\<open>None\<close> when it was killed. The listing of an archive and the verdict of
  \<open>jarsigner\<close> depend on the content of the file. A script ends with \<open>Left\<close> and its exit code, or goes on.
\<close>

section \<open>Files and tools\<close>

type_synonym build_disk = "(string \<times> string) list"

definition join_path :: "string \<Rightarrow> string \<Rightarrow> string" where
  "join_path a b = a @ ''/'' @ b"

definition existsSync :: "build_disk \<Rightarrow> string \<Rightarrow> bool" where
  "existsSync d p = list_ex (\<lambda>f. fst f = p \<or> prefix (p @ ''/'') (fst f)) d"

text \<open>The names in a directory, without repetition.\<close>

definition readdirSync :: "build_disk \<Rightarrow> string \<Rightarrow> string list" where
  "readdirSync d p =
     remdups (map (\<lambda>f. takeWhile (\<lambda>c. c \<noteq> CHR ''/'') (drop (length p + 1) (fst f)))
       (filter (\<lambda>f. prefix (p @ ''/'') (fst f)) d))"

definition write_file :: "string \<Rightarrow> string \<Rightarrow> build_disk \<Rightarrow> build_disk" where
  "write_file p content d = assoc_put p content d"

definition rm_tree :: "string \<Rightarrow> build_disk \<Rightarrow> build_disk" where
  "rm_tree p d = filter (\<lambda>f. \<not> (fst f = p \<or> prefix (p @ ''/'') (fst f))) d"

type_synonym tool = "string list \<Rightarrow> (string \<times> string) list \<Rightarrow> build_disk \<Rightarrow> build_disk \<times> nat option"

record android_world =
  aw_tool :: tool                                  \<comment> \<open>command line and added environment\<close>
  aw_unzip :: "string \<Rightarrow> string option"            \<comment> \<open>\<open>unzip -l\<close> of a content; \<open>None\<close> when it fails\<close>
  aw_jarsigner :: "string \<Rightarrow> (nat \<times> string) option" \<comment> \<open>status and output; \<open>None\<close> when it is missing\<close>
  aw_decode :: "string \<Rightarrow> string"                  \<comment> \<open>base 64\<close>
  aw_env :: "string \<Rightarrow> string option"

text \<open>A step of the script: an exit code, or a value and the disk.\<close>

type_synonym 'a script = "build_disk \<Rightarrow> nat + 'a \<times> build_disk"

definition seq :: "'a script \<Rightarrow> ('a \<Rightarrow> 'b script) \<Rightarrow> 'b script" where
  "seq m f d = (case m d of Inl n \<Rightarrow> Inl n | Inr (x, d') \<Rightarrow> f x d')"

definition done_with :: "'a \<Rightarrow> 'a script" where
  "done_with x d = Inr (x, d)"

definition exit_with :: "nat \<Rightarrow> 'a script" where
  "exit_with n d = Inl n"

definition on_disk :: "(build_disk \<Rightarrow> build_disk) \<Rightarrow> unit script" where
  "on_disk f d = Inr ((), f d)"

definition check :: "(build_disk \<Rightarrow> bool) \<Rightarrow> unit script" where
  "check P d = (if P d then Inr ((), d) else Inl 1)"

definition run_cmd :: "android_world \<Rightarrow> string list \<Rightarrow> (string \<times> string) list \<Rightarrow> unit script" where
  "run_cmd w cmd env d =
     (case aw_tool w cmd env d of
        (d', Some 0) \<Rightarrow> Inr ((), d')
      | (d', Some n) \<Rightarrow> Inl n
      | (d', None) \<Rightarrow> Inl 1)"

fun for_each :: "('a \<Rightarrow> unit script) \<Rightarrow> 'a list \<Rightarrow> unit script" where
  "for_each f [] = done_with ()"
| "for_each f (x # xs) = seq (f x) (\<lambda>_. for_each f xs)"

section \<open>Paths and profiles\<close>

text \<open>\<open>repo\<close> is the directory of the repository.\<close>

definition genAndroid :: "string \<Rightarrow> string" where
  "genAndroid repo = repo @ ''/src-tauri/gen/android''"

definition universalApkDir :: "string \<Rightarrow> string" where
  "universalApkDir repo = genAndroid repo @ ''/app/build/outputs/apk/universal/release''"

definition extraSignedDir :: "string \<Rightarrow> string" where
  "extraSignedDir repo = repo @ ''/build/android-apks''"

definition signedAabDir :: "string \<Rightarrow> string" where
  "signedAabDir repo = repo @ ''/build/android-aab''"

definition REQUIRED_UNIVERSAL_ABIS :: "string list" where
  "REQUIRED_UNIVERSAL_ABIS = [''arm64-v8a'', ''armeabi-v7a'']"

record apk_profile =
  ap_args :: "string list"
  ap_file :: string

definition split_profile :: "string \<Rightarrow> string \<Rightarrow> string \<times> apk_profile" where
  "split_profile name target =
     (name, \<lparr>ap_args = [''--apk'', ''--split-per-abi'', ''--target'', target], ap_file = ''app-'' @ name @ ''-release.apk''\<rparr>)"

definition APK_PROFILES :: "(string \<times> apk_profile) list" where
  "APK_PROFILES =
     [(''universal'', \<lparr>ap_args = [''--apk''], ap_file = ''app-universal-release.apk''\<rparr>),
      split_profile ''arm64'' ''aarch64'', split_profile ''armv7'' ''armv7'']"

definition AAB_PROFILES :: "(string \<times> apk_profile) list" where
  "AAB_PROFILES = [(''universal'', \<lparr>ap_args = [''--aab''], ap_file = ''app-universal-release.aab''\<rparr>)]"

definition aab_outputDir :: "string \<Rightarrow> string" where
  "aab_outputDir repo = genAndroid repo @ ''/app/build/outputs/bundle/universalRelease''"

definition PROFILE_ABI_DIRS :: "(string \<times> string) list" where
  "PROFILE_ABI_DIRS = [(''arm64'', ''arm64''), (''armv7'', ''arm'')]"

text \<open>\<^const>\<open>None\<close> where the function throws.\<close>

definition outputDirForProfile :: "string \<Rightarrow> string \<Rightarrow> string option" where
  "outputDirForProfile repo name =
     (if name = ''universal'' then Some (universalApkDir repo)
      else map_option (\<lambda>abi. genAndroid repo @ ''/app/build/outputs/apk/'' @ abi @ ''/release'') (map_of PROFILE_ABI_DIRS name))"

text \<open>
  The names of a list of profiles. A member of \<open>Object.prototype\<close> is not unknown to \<open>table[n]\<close>; such a
  profile has no build arguments, and spreading them fails, which ends the script with code one.
\<close>

definition profile_names :: "string \<Rightarrow> string list" where
  "profile_names raw = filter (\<lambda>n. n \<noteq> []) (map js_trim (js_split (CHR '','') raw))"

definition selectProfiles :: "(string \<times> apk_profile) list \<Rightarrow> string option \<Rightarrow> string \<Rightarrow> (string \<times> apk_profile option) list option" where
  "selectProfiles table env fallback =
     (let names = profile_names (case env of Some raw \<Rightarrow> raw | None \<Rightarrow> fallback) in
      if list_ex (\<lambda>n. map_of table n = None \<and> n \<notin> set object_members) names then None
      else Some (map (\<lambda>n. (n, map_of table n)) names))"

section \<open>Finding and checking what was built\<close>

definition findApkInDir :: "build_disk \<Rightarrow> string \<Rightarrow> (string \<times> bool) option" where
  "findApkInDir d dir =
     (if \<not> existsSync d dir then None
      else
        (let files = filter (\<lambda>f. suffix ''.apk'' f) (readdirSync d dir) in
         case find (suffix ''-unsigned.apk'') files of
           Some f \<Rightarrow> Some (join_path dir f, False)
         | None \<Rightarrow>
             (case find (\<lambda>f. \<not> suffix ''-unsigned.apk'' f) files of
                Some f \<Rightarrow> Some (join_path dir f, True)
              | None \<Rightarrow> None)))"

definition findAabInDir :: "build_disk \<Rightarrow> string \<Rightarrow> string option" where
  "findAabInDir d dir =
     (if \<not> existsSync d dir then None
      else map_option (join_path dir) (find (suffix ''.aab'') (readdirSync d dir)))"

definition has_abis :: "android_world \<Rightarrow> string \<Rightarrow> string option \<Rightarrow> bool" where
  "has_abis w pre content =
     (case Option.bind content (aw_unzip w) of
        None \<Rightarrow> False
      | Some listing \<Rightarrow> list_all (\<lambda>abi. js_includes listing (pre @ abi @ ''/'')) REQUIRED_UNIVERSAL_ABIS)"

definition verifyUniversalApk :: "android_world \<Rightarrow> string \<Rightarrow> unit script" where
  "verifyUniversalApk w apk = check (\<lambda>d. has_abis w ''lib/'' (map_of d apk))"

definition verifyBundleAbis :: "android_world \<Rightarrow> string \<Rightarrow> unit script" where
  "verifyBundleAbis w aab = check (\<lambda>d. has_abis w ''base/lib/'' (map_of d aab))"

definition bundle_signed :: "android_world \<Rightarrow> string option \<Rightarrow> bool" where
  "bundle_signed w content =
     (case Option.bind content (aw_jarsigner w) of
        None \<Rightarrow> False
      | Some (status, out) \<Rightarrow> status = 0 \<and> js_includes out ''jar verified'')"

definition verifyBundleSigned :: "android_world \<Rightarrow> string \<Rightarrow> unit script" where
  "verifyBundleSigned w aab = check (\<lambda>d. bundle_signed w (map_of d aab))"

section \<open>Keys\<close>

record keystore =
  ks_storeFile :: string
  ks_alias :: string
  ks_password :: string
  ks_keyPass :: string

text \<open>\<open>indexOf('=')\<close> is minus one without the sign: the key then loses its last character and the value is the whole line.\<close>

definition prop_line :: "string \<Rightarrow> string \<times> string" where
  "prop_line l =
     (let k = takeWhile (\<lambda>c. c \<noteq> CHR ''='') l in
      if CHR ''='' \<in> set l then (js_trim k, js_trim (drop (length k + 1) l))
      else (js_trim (butlast l), js_trim l))"

text \<open>\<open>Object.fromEntries\<close>: the last of several equal keys counts.\<close>

definition parse_props :: "string \<Rightarrow> (string \<times> string) list" where
  "parse_props content =
     rev (map prop_line (filter (\<lambda>l. l \<noteq> [] \<and> \<not> prefix ''#'' l) (js_split (CHR 0x0A) content)))"

definition prop_or :: "(string \<times> string) list \<Rightarrow> string \<Rightarrow> string \<Rightarrow> string" where
  "prop_or props k1 k2 =
     (case map_of props k1 of
        Some v \<Rightarrow> if v \<noteq> [] then v else (case map_of props k2 of Some u \<Rightarrow> u | None \<Rightarrow> [])
      | None \<Rightarrow> (case map_of props k2 of Some u \<Rightarrow> u | None \<Rightarrow> []))"

definition keystorePropsPath :: "string \<Rightarrow> string" where
  "keystorePropsPath repo = genAndroid repo @ ''/keystore.properties''"

definition keystore_of :: "string \<Rightarrow> keystore option" where
  "keystore_of content =
     (let props = parse_props content;
          storeFile = prop_or props ''storeFile'' ''store'';
          alias = prop_or props ''keyAlias'' ''alias'';
          ksPassword = prop_or props ''storePassword'' ''password'';
          keyPass = prop_or props ''keyPassword'' ''password''
      in if storeFile = [] \<or> alias = [] \<or> ksPassword = [] \<or> keyPass = [] then None
         else Some \<lparr>ks_storeFile = storeFile, ks_alias = alias, ks_password = ksPassword, ks_keyPass = keyPass\<rparr>)"

definition readKeystoreProps :: "string \<Rightarrow> build_disk \<Rightarrow> keystore option" where
  "readKeystoreProps repo d = Option.bind (map_of d (keystorePropsPath repo)) keystore_of"

definition env_text :: "android_world \<Rightarrow> string \<Rightarrow> string" where
  "env_text w k = (case aw_env w k of None \<Rightarrow> [] | Some v \<Rightarrow> v)"

definition props_text :: "string \<Rightarrow> string \<Rightarrow> string \<Rightarrow> string \<Rightarrow> string" where
  "props_text keyAlias keyPassword storeFile storePassword =
     ''keyAlias='' @ keyAlias @ [CHR 0x0A] @ ''keyPassword='' @ keyPassword @ [CHR 0x0A] @
     ''storeFile='' @ storeFile @ [CHR 0x0A] @ ''storePassword='' @ storePassword @ [CHR 0x0A]"

definition write_keystore :: "android_world \<Rightarrow> string \<Rightarrow> unit script" where
  "write_keystore w repo =
     (let key = env_text w ''ANDROID_KEY_BASE64''; alias = env_text w ''ANDROID_KEY_ALIAS'';
          pass = env_text w ''ANDROID_KEY_PASSWORD'';
          store = (if env_text w ''ANDROID_STORE_PASSWORD'' \<noteq> [] then env_text w ''ANDROID_STORE_PASSWORD'' else pass);
          file = join_path repo ''.keystore.jks''
      in if key \<noteq> [] \<and> alias \<noteq> [] \<and> pass \<noteq> []
         then on_disk (\<lambda>d. write_file (keystorePropsPath repo) (props_text alias pass file store)
                             (write_file file (aw_decode w key) d))
         else done_with ())"

text \<open>\<open>sort()\<close> of texts: by the codes of their characters.\<close>

fun code_less :: "string \<Rightarrow> string \<Rightarrow> bool" where
  "code_less [] ys = (ys \<noteq> [])"
| "code_less (x # xs) [] = False"
| "code_less (x # xs) (y # ys) = (if x = y then code_less xs ys else char_code x < char_code y)"

definition sort_texts :: "string list \<Rightarrow> string list" where
  "sort_texts xs = js_sort (\<lambda>a b. if code_less a b then -1 else if code_less b a then 1 else 0) xs"

text \<open>\<open>apksigner\<close>: the pinned version, else the first of the others in reverse alphabetical order.\<close>

definition androidHome :: "android_world \<Rightarrow> string" where
  "androidHome w =
     (if env_text w ''ANDROID_HOME'' \<noteq> [] then env_text w ''ANDROID_HOME''
      else if env_text w ''ANDROID_SDK_ROOT'' \<noteq> [] then env_text w ''ANDROID_SDK_ROOT''
      else env_text w ''HOME'' @ ''/Library/Android/sdk'')"

definition resolveApksigner :: "android_world \<Rightarrow> build_disk \<Rightarrow> string option" where
  "resolveApksigner w d =
     (let tools = androidHome w @ ''/build-tools''; pinned = tools @ ''/34.0.0/apksigner'';
          found = (if existsSync d pinned then pinned
                   else case find (\<lambda>v. existsSync d (tools @ ''/'' @ v @ ''/apksigner'')) (rev (sort_texts (readdirSync d tools))) of
                          Some v \<Rightarrow> tools @ ''/'' @ v @ ''/apksigner''
                        | None \<Rightarrow> pinned)
      in if existsSync d found then Some found else None)"

definition sign_command :: "string \<Rightarrow> string \<Rightarrow> string \<Rightarrow> keystore \<Rightarrow> string list" where
  "sign_command apksigner unsigned signed ks =
     [apksigner, ''sign'', ''--ks'', ks_storeFile ks, ''--ks-key-alias'', ks_alias ks,
      ''--ks-pass'', ''env:ALTSENDME_APKSIGNER_KS_PASS'', ''--key-pass'', ''env:ALTSENDME_APKSIGNER_KEY_PASS'',
      ''--out'', signed, unsigned]"

definition signApk :: "android_world \<Rightarrow> string \<Rightarrow> string \<Rightarrow> keystore \<Rightarrow> unit script" where
  "signApk w unsigned signed ks d =
     (case resolveApksigner w d of
        None \<Rightarrow> Inl 1
      | Some tool \<Rightarrow>
          run_cmd w (sign_command tool unsigned signed ks)
            [(''ALTSENDME_APKSIGNER_KS_PASS'', ks_password ks), (''ALTSENDME_APKSIGNER_KEY_PASS'', ks_keyPass ks)] d)"

section \<open>The patches of the build file\<close>

definition buildGradle :: "string \<Rightarrow> string" where
  "buildGradle repo = genAndroid repo @ ''/app/build.gradle.kts''"

definition file_text :: "string \<Rightarrow> build_disk \<Rightarrow> string" where
  "file_text p d = (case map_of d p of None \<Rightarrow> [] | Some t \<Rightarrow> t)"

definition gitApply :: "android_world \<Rightarrow> string \<Rightarrow> unit script" where
  "gitApply w patch d =
     (case aw_tool w [''git'', ''apply'', ''scripts/patches/'' @ patch] [] d of
        (d', Some 0) \<Rightarrow> Inr ((), d')
      | _ \<Rightarrow> Inl 1)"

definition needsSigningPatch :: "string \<Rightarrow> build_disk \<Rightarrow> bool" where
  "needsSigningPatch repo d \<longleftrightarrow>
     existsSync d (keystorePropsPath repo) \<and>
     \<not> (js_includes (file_text (buildGradle repo) d) ''signingConfigs'' \<and>
        js_includes (file_text (buildGradle repo) d) (''create('' @ [CHR 0x22] @ ''release'' @ [CHR 0x22] @ '')''))"

definition apply_gradle_patches :: "android_world \<Rightarrow> string \<Rightarrow> unit script" where
  "apply_gradle_patches w repo =
     seq (check (\<lambda>d. existsSync d (buildGradle repo))) (\<lambda>_.
     seq (\<lambda>d. if js_includes (file_text (buildGradle repo) d) ''dependenciesInfo'' then done_with () d
              else gitApply w ''01-fdroid-gradle.patch'' d) (\<lambda>_.
     (\<lambda>d. if needsSigningPatch repo d then gitApply w ''02-signing-gradle.patch'' d else done_with () d)))"

section \<open>The script\<close>

definition manifestPath :: "string \<Rightarrow> string" where
  "manifestPath repo = genAndroid repo @ ''/app/src/main/AndroidManifest.xml''"

definition mainActivity :: "string \<Rightarrow> string" where
  "mainActivity repo = genAndroid repo @ ''/app/src/main/java/com/dashbeam/android/MainActivity.kt''"

definition adiFile :: "string \<Rightarrow> string" where
  "adiFile repo = genAndroid repo @ ''/app/src/main/assets/adi-registration.properties''"

definition prepare :: "android_world \<Rightarrow> string \<Rightarrow> unit script" where
  "prepare w repo =
     seq (on_disk (rm_tree (genAndroid repo))) (\<lambda>_.
     seq (run_cmd w [''npx'', ''tauri'', ''android'', ''init'', ''--ci''] []) (\<lambda>_.
     seq (run_cmd w [''git'', ''checkout'', ''HEAD'', ''--'', ''src-tauri/gen/android/app/src/main/''] []) (\<lambda>_.
     seq (check (\<lambda>d. existsSync d (manifestPath repo))) (\<lambda>_.
     seq (check (\<lambda>d. existsSync d (buildGradle repo))) (\<lambda>_.
     seq (check (\<lambda>d. js_includes (file_text (mainActivity repo) d) ''enableEdgeToEdge()'')) (\<lambda>_.
     seq (if env_text w ''ANDROID_ADI_TOKEN'' \<noteq> []
          then on_disk (write_file (adiFile repo) (js_trim (env_text w ''ANDROID_ADI_TOKEN'') @ [CHR 0x0A]))
          else done_with ()) (\<lambda>_.
     seq (write_keystore w repo) (\<lambda>_.
     apply_gradle_patches w repo))))))))"

definition replace_end :: "string \<Rightarrow> string \<Rightarrow> string \<Rightarrow> string" where
  "replace_end ending new p = (if suffix ending p then take (length p - length ending) p @ new else p)"

definition copyFile :: "string \<Rightarrow> string \<Rightarrow> unit script" where
  "copyFile from to d = (case map_of d from of None \<Rightarrow> Inl 1 | Some t \<Rightarrow> Inr ((), write_file to t d))"

definition tauri_build :: "android_world \<Rightarrow> apk_profile option \<Rightarrow> unit script" where
  "tauri_build w p =
     (case p of
        None \<Rightarrow> exit_with 1
      | Some q \<Rightarrow> run_cmd w ([''npx'', ''tauri'', ''android'', ''build''] @ ap_args q @ [''--'', ''--locked'']) [])"

definition signed_apk :: "string \<Rightarrow> apk_profile \<Rightarrow> string" where
  "signed_apk repo p = join_path (extraSignedDir repo) (ap_file p)"

definition finish_apk ::
    "android_world \<Rightarrow> string \<Rightarrow> keystore option \<Rightarrow> apk_profile \<Rightarrow> string \<times> bool \<Rightarrow> unit script" where
  "finish_apk w repo keystore p built =
     (if snd built then (if fst built \<noteq> signed_apk repo p then copyFile (fst built) (signed_apk repo p) else done_with ())
      else case keystore of
        Some ks \<Rightarrow> signApk w (fst built) (signed_apk repo p) ks
      | None \<Rightarrow> copyFile (fst built) (replace_end ''.apk'' ''-unsigned.apk'' (signed_apk repo p)))"

definition build_apk ::
    "android_world \<Rightarrow> string \<Rightarrow> keystore option \<Rightarrow> string \<times> apk_profile option \<Rightarrow> unit script" where
  "build_apk w repo keystore profile =
     seq (tauri_build w (snd profile)) (\<lambda>_ d.
       case Option.bind (outputDirForProfile repo (fst profile)) (findApkInDir d) of
         None \<Rightarrow> Inl 1
       | Some built \<Rightarrow>
           seq (finish_apk w repo keystore (the (snd profile)) built) (\<lambda>_.
             if fst profile = ''universal'' then verifyUniversalApk w (signed_apk repo (the (snd profile))) else done_with ()) d)"

definition aab_dest :: "string \<Rightarrow> keystore option \<Rightarrow> apk_profile \<Rightarrow> string" where
  "aab_dest repo keystore p =
     join_path (signedAabDir repo)
       (replace_end ''.aab'' ((if keystore = None then ''-unsigned'' else []) @ ''.aab'') (ap_file p))"

definition build_aab :: "android_world \<Rightarrow> string \<Rightarrow> keystore option \<Rightarrow> string \<times> apk_profile option \<Rightarrow> unit script" where
  "build_aab w repo keystore profile =
     seq (tauri_build w (snd profile)) (\<lambda>_ d.
       case findAabInDir d (aab_outputDir repo) of
         None \<Rightarrow> Inl 1
       | Some built \<Rightarrow>
           (let dest = aab_dest repo keystore (the (snd profile)) in
            seq (copyFile built dest) (\<lambda>_.
            seq (verifyBundleAbis w dest) (\<lambda>_.
            if keystore \<noteq> None then verifyBundleSigned w dest else done_with ())) d))"

definition android_release_build :: "android_world \<Rightarrow> string \<Rightarrow> unit script" where
  "android_release_build w repo =
     seq (prepare w repo) (\<lambda>_ d.
       (let keystore = readKeystoreProps repo d in
        case selectProfiles APK_PROFILES (aw_env w ''ANDROID_APK_PROFILES'') ''universal,arm64,armv7'' of
          None \<Rightarrow> Inl 1
        | Some profiles \<Rightarrow>
            (case selectProfiles AAB_PROFILES (aw_env w ''ANDROID_AAB_PROFILES'') [] of
               None \<Rightarrow> Inl 1
             | Some aabProfiles \<Rightarrow>
                 seq (for_each (build_apk w repo keystore) profiles) (\<lambda>_.
                   for_each (build_aab w repo keystore) aabProfiles) d)))"

section \<open>Properties\<close>

subsection \<open>The steps of a script\<close>

lemma seq_Inr: "seq m f d = Inr (y, d'') \<longleftrightarrow> (\<exists>x d'. m d = Inr (x, d') \<and> f x d' = Inr (y, d''))"
  by (auto simp: seq_def split: sum.split)

lemma check_Inr [simp]: "check P d = Inr (x, d') \<longleftrightarrow> P d \<and> d' = d"
  by (auto simp: check_def)

lemma done_Inr [simp]: "done_with x d = Inr (y, d') \<longleftrightarrow> y = x \<and> d' = d"
  by (auto simp: done_with_def)

lemma exit_Inr [simp]: "exit_with n d \<noteq> Inr r"
  by (simp add: exit_with_def)

lemma run_cmd_Inr: "run_cmd w cmd env d = Inr (x, d') \<longleftrightarrow> aw_tool w cmd env d = (d', Some 0)"
  by (auto simp: run_cmd_def split: prod.split option.split nat.split)

lemma copyFile_Inr:
  "copyFile from to d = Inr (x, d') \<longleftrightarrow> (\<exists>t. map_of d from = Some t \<and> d' = write_file to t d)"
  by (auto simp: copyFile_def split: option.split)

lemma map_of_write_file [simp]: "map_of (write_file p t d) q = (if q = p then Some t else map_of d q)"
  by (simp add: write_file_def map_of_assoc_put)

text \<open>A property that one element of a list establishes and the others keep holds at the end.\<close>

lemma for_each_establishes:
  assumes "for_each f xs d = Inr ((), d')"
    and "\<And>x d d'. x \<in> set xs \<Longrightarrow> f x d = Inr ((), d') \<Longrightarrow> E x \<or> P d \<Longrightarrow> P d'"
    and "(\<exists>x \<in> set xs. E x) \<or> P d"
  shows "P d'"
  using assms
proof (induction xs arbitrary: d)
  case (Cons x xs)
  obtain d1 where step: "f x d = Inr ((), d1)" and rest: "for_each f xs d1 = Inr ((), d')"
    using Cons.prems(1) by (auto simp: seq_Inr)
  have "(\<exists>y \<in> set xs. E y) \<or> P d1"
    using Cons.prems(2) [OF _ step] Cons.prems(3) by auto
  with rest show ?case using Cons.IH Cons.prems(2) by (metis list.set_intros(2))
qed simp

subsection \<open>Keys\<close>

lemma js_split_first: "d \<notin> set w \<Longrightarrow> js_split d (w @ d # r) = w # js_split d r"
  by (induction w) auto

lemma prop_line_of: "CHR ''='' \<notin> set k \<Longrightarrow> prop_line (k @ ''='' @ v) = (js_trim k, js_trim v)"
proof -
  assume k: "CHR ''='' \<notin> set k"
  then have "takeWhile (\<lambda>c. c \<noteq> CHR ''='') (k @ ''='' @ v) = k" by (induction k) auto
  then show ?thesis by (simp add: prop_line_def)
qed

definition plain_value :: "string \<Rightarrow> bool" where
  "plain_value v \<longleftrightarrow> v \<noteq> [] \<and> CHR 0x0A \<notin> set v \<and> js_trim v = v"

text \<open>The key properties that the script writes are read back as they are.\<close>

theorem keystore_roundtrip:
  assumes "plain_value ka" "plain_value pass" "plain_value file" "plain_value store"
  shows "keystore_of (props_text ka pass file store) =
    Some \<lparr>ks_storeFile = file, ks_alias = ka, ks_password = store, ks_keyPass = pass\<rparr>"
proof -
  let ?nl = "CHR 0x0A :: char"
  have text_eq: "props_text ka pass file store = (''keyAlias='' @ ka) @ ?nl # (''keyPassword='' @ pass) @ ?nl #
      (''storeFile='' @ file) @ ?nl # (''storePassword='' @ store) @ ?nl # []"
    by (simp add: props_text_def)
  have no_nl: "?nl \<notin> set (''keyAlias='' @ ka)" "?nl \<notin> set (''keyPassword='' @ pass)" "?nl \<notin> set (''storeFile='' @ file)"
      "?nl \<notin> set (''storePassword='' @ store)"
    using assms by (simp_all add: plain_value_def)
  have lines: "js_split ?nl (props_text ka pass file store) =
      [''keyAlias='' @ ka, ''keyPassword='' @ pass, ''storeFile='' @ file, ''storePassword='' @ store, []]"
    unfolding text_eq by (simp only: js_split_first [OF no_nl(1)] js_split_first [OF no_nl(2)]
        js_split_first [OF no_nl(3)] js_split_first [OF no_nl(4)] js_split.simps)
  have trims: "js_trim ''keyAlias'' = ''keyAlias''" "js_trim ''keyPassword'' = ''keyPassword''"
      "js_trim ''storeFile'' = ''storeFile''" "js_trim ''storePassword'' = ''storePassword''"
    by code_simp+
  have props: "prop_line (''keyAlias='' @ ka) = (''keyAlias'', ka)"
      "prop_line (''keyPassword='' @ pass) = (''keyPassword'', pass)"
      "prop_line (''storeFile='' @ file) = (''storeFile'', file)"
      "prop_line (''storePassword='' @ store) = (''storePassword'', store)"
    using prop_line_of [of "''keyAlias''" ka] prop_line_of [of "''keyPassword''" pass]
      prop_line_of [of "''storeFile''" "file"] prop_line_of [of "''storePassword''" store] assms trims
    by (simp_all add: plain_value_def)
  have "parse_props (props_text ka pass file store) =
      [(''storePassword'', store), (''storeFile'', file), (''keyPassword'', pass), (''keyAlias'', ka)]"
    unfolding parse_props_def lines using props by simp
  then show ?thesis
    using assms by (simp add: keystore_of_def prop_or_def plain_value_def Let_def)
qed

subsection \<open>What a finished build has checked\<close>

text \<open>
  What the tools leave alone: a file below \<open>build/\<close> is written by them only when it is the target of
  \<open>--out\<close>. Gradle, \<open>tauri\<close> and \<open>git\<close> work in \<open>gen/android\<close>, \<open>apksigner\<close> writes the file it is told to.
\<close>

definition out_target :: "string list \<Rightarrow> string \<Rightarrow> bool" where
  "out_target cmd p \<longleftrightarrow> list_ex (\<lambda>(a, b). a = ''--out'' \<and> b = p) (zip cmd (tl cmd))"

definition tools_local :: "android_world \<Rightarrow> string \<Rightarrow> bool" where
  "tools_local w repo \<longleftrightarrow>
     (\<forall>cmd env d p. prefix (repo @ ''/build/'') p \<and> \<not> out_target cmd p \<longrightarrow>
        map_of (fst (aw_tool w cmd env d)) p = map_of d p)"

lemma sign_targets:
  "out_target (sign_command t u s ks) p \<Longrightarrow> p = s \<or> p \<in> {''sign'', ''--ks-key-alias'', ''--ks-pass''} \<or> s = ''--out'' \<and> p = u"
  by (auto simp: out_target_def sign_command_def)

lemma tools_keep:
  assumes "tools_local w repo" "run_cmd w cmd env d = Inr (x, d')" "prefix (repo @ ''/build/'') p" "\<not> out_target cmd p"
  shows "map_of d' p = map_of d p"
  using assms(1) [unfolded tools_local_def, rule_format, of p cmd env d] assms(2-4) by (simp add: run_cmd_Inr)

lemma not_built_there: "prefix (repo @ ''/build/'') p \<Longrightarrow> p \<noteq> genAndroid repo @ q"
  by (auto simp: genAndroid_def prefix_def)

lemma build_no_out:
  assumes "tauri_build w p d = Inr (x, d')" "tools_local w repo" "prefix (repo @ ''/build/'') f" "p \<in> {None} \<union> Some ` snd ` set (APK_PROFILES @ AAB_PROFILES)"
  shows "map_of d' f = map_of d f"
proof -
  obtain q where q: "p = Some q" "q \<in> snd ` set (APK_PROFILES @ AAB_PROFILES)"
    using assms(1,4) by (cases p) (auto simp: tauri_build_def)
  then have "\<not> out_target ([''npx'', ''tauri'', ''android'', ''build''] @ ap_args q @ [''--'', ''--locked'']) f"
    by (auto simp: APK_PROFILES_def AAB_PROFILES_def split_profile_def out_target_def)
  then show ?thesis
    using tools_keep [OF assms(2) _ assms(3)] assms(1) q(1) by (simp add: tauri_build_def)
qed

lemma signed_apk_slash: "CHR ''/'' \<in> set (signed_apk repo p)"
  by (simp add: signed_apk_def join_path_def)

lemma finish_keeps:
  assumes "finish_apk w repo keystore p built d = Inr (x, d')" "tools_local w repo" "prefix (repo @ ''/build/'') f"
    "f \<noteq> signed_apk repo p" "f \<noteq> replace_end ''.apk'' ''-unsigned.apk'' (signed_apk repo p)"
  shows "map_of d' f = map_of d f"
proof (cases "snd built \<or> keystore = None")
  case True
  then show ?thesis
    using assms by (auto simp: finish_apk_def copyFile_Inr split: if_splits option.splits)
next
  case False
  then obtain ks where ks: "keystore = Some ks" and unsigned: "\<not> snd built" by auto
  then obtain t env where run: "run_cmd w (sign_command t (fst built) (signed_apk repo p) ks) env d = Inr (x, d')"
    using assms(1) by (auto simp: finish_apk_def signApk_def split: option.splits)
  have "CHR ''/'' \<in> set f" using assms(3) by (auto simp: prefix_def)
  then have "f \<notin> {''sign'', ''--ks-key-alias'', ''--ks-pass''}" by auto
  moreover have "signed_apk repo p \<noteq> ''--out''" using signed_apk_slash [of repo p] by auto
  ultimately have "\<not> out_target (sign_command t (fst built) (signed_apk repo p) ks) f"
    using sign_targets assms(4) by blast
  then show ?thesis by (rule tools_keep [OF assms(2) run assms(3)])
qed

lemma apk_names:
  "map_of APK_PROFILES n = Some p \<Longrightarrow> n \<noteq> ''universal'' \<Longrightarrow> ap_file p \<in> {''app-arm64-release.apk'', ''app-armv7-release.apk''}"
  "map_of APK_PROFILES n = Some p \<Longrightarrow> p \<in> snd ` set (APK_PROFILES @ AAB_PROFILES)"
  "map_of AAB_PROFILES n = Some p \<Longrightarrow> p \<in> snd ` set (APK_PROFILES @ AAB_PROFILES) \<and> ap_file p = ''app-universal-release.aab''"
  by (auto simp: APK_PROFILES_def AAB_PROFILES_def split_profile_def split: if_splits)

definition universal_apk :: "string \<Rightarrow> string" where
  "universal_apk repo = extraSignedDir repo @ ''/app-universal-release.apk''"

lemma universal_apk_build: "prefix (repo @ ''/build/'') (universal_apk repo)"
  by (simp add: universal_apk_def extraSignedDir_def)

lemma build_apk_universal:
  assumes "build_apk w repo keystore (n, map_of APK_PROFILES n) d = Inr ((), d')" "tools_local w repo"
    "n = ''universal'' \<or> has_abis w ''lib/'' (map_of d (universal_apk repo))"
  shows "has_abis w ''lib/'' (map_of d' (universal_apk repo))"
proof -
  obtain d1 p where d1: "tauri_build w (map_of APK_PROFILES n) d = Inr ((), d1)" and p: "map_of APK_PROFILES n = Some p"
    using assms(1) by (auto simp: build_apk_def seq_Inr tauri_build_def split: option.splits)
  then obtain built d2 where fin: "finish_apk w repo keystore p built d1 = Inr ((), d2)"
      and ver: "(if n = ''universal'' then verifyUniversalApk w (signed_apk repo p) else done_with ()) d2 = Inr ((), d')"
    using assms(1) by (cases "n = ''universal''") (auto simp: build_apk_def seq_Inr p split: option.splits)
  show ?thesis
  proof (cases "n = ''universal''")
    case True
    then have "signed_apk repo p = universal_apk repo"
      using p by (auto simp: APK_PROFILES_def signed_apk_def universal_apk_def join_path_def)
    then show ?thesis using ver True by (simp add: verifyUniversalApk_def)
  next
    case False
    have names: "ap_file p \<in> {''app-arm64-release.apk'', ''app-armv7-release.apk''}" using apk_names(1) [OF p False] .
    have "universal_apk repo \<noteq> signed_apk repo p" "universal_apk repo \<noteq> replace_end ''.apk'' ''-unsigned.apk'' (signed_apk repo p)"
      using names by (auto simp: universal_apk_def signed_apk_def join_path_def replace_end_def suffix_def)
    then have "map_of d2 (universal_apk repo) = map_of d1 (universal_apk repo)"
      by (rule finish_keeps [OF fin assms(2) universal_apk_build])
    moreover have "map_of d1 (universal_apk repo) = map_of d (universal_apk repo)"
      using build_no_out [OF d1 assms(2) universal_apk_build] apk_names(2) p by auto
    ultimately show ?thesis using ver False assms(3) by simp
  qed
qed

lemma build_aab_checks:
  assumes "build_aab w repo keystore (n, map_of AAB_PROFILES n) d = Inr ((), d')" "tools_local w repo"
  shows "map_of d' (universal_apk repo) = map_of d (universal_apk repo) \<and>
    (\<exists>p. map_of AAB_PROFILES n = Some p \<and> has_abis w ''base/lib/'' (map_of d' (aab_dest repo keystore p)) \<and>
       (keystore \<noteq> None \<longrightarrow> bundle_signed w (map_of d' (aab_dest repo keystore p))))"
proof -
  obtain d1 p where d1: "tauri_build w (map_of AAB_PROFILES n) d = Inr ((), d1)" and p: "map_of AAB_PROFILES n = Some p"
    using assms(1) by (auto simp: build_aab_def seq_Inr tauri_build_def split: option.splits)
  then obtain built where copy: "copyFile built (aab_dest repo keystore p) d1 = Inr ((), d')"
      and abis: "has_abis w ''base/lib/'' (map_of d' (aab_dest repo keystore p))"
      and signed: "keystore \<noteq> None \<longrightarrow> bundle_signed w (map_of d' (aab_dest repo keystore p))"
    using assms(1) by (cases keystore)
      (auto simp: build_aab_def seq_Inr p Let_def verifyBundleAbis_def verifyBundleSigned_def split: option.splits)
  have "aab_dest repo keystore p \<noteq> universal_apk repo"
    using apk_names(3) [OF p]
    by (auto simp: aab_dest_def universal_apk_def signedAabDir_def extraSignedDir_def join_path_def)
  then have "map_of d' (universal_apk repo) = map_of d1 (universal_apk repo)"
    using copy by (auto simp: copyFile_Inr)
  moreover have "map_of d1 (universal_apk repo) = map_of d (universal_apk repo)"
    using build_no_out [OF d1 assms(2) universal_apk_build] apk_names(3) p by auto
  ultimately show ?thesis using abis signed p by auto
qed

text \<open>
  A release build that ends normally and was asked for the universal package leaves one that contains the
  native libraries of every required architecture, whatever else was built after it, provided the tools write below \<open>build\<close>
  only what they are told to.
\<close>

theorem released_universal_verified:
  fixes w :: android_world and repo :: string and d d' :: build_disk
  assumes "android_release_build w repo d = Inr ((), d')" "tools_local w repo"
    and "''universal'' \<in> set (profile_names (case aw_env w ''ANDROID_APK_PROFILES'' of Some raw \<Rightarrow> raw | None \<Rightarrow> ''universal,arm64,armv7''))"
  shows "has_abis w ''lib/'' (map_of d' (universal_apk repo))"
proof -
  let ?P = "\<lambda>d. has_abis w ''lib/'' (map_of d (universal_apk repo))"
  obtain d0 d1 profiles aabs where
      sel: "selectProfiles APK_PROFILES (aw_env w ''ANDROID_APK_PROFILES'') ''universal,arm64,armv7'' = Some profiles"
      "selectProfiles AAB_PROFILES (aw_env w ''ANDROID_AAB_PROFILES'') [] = Some aabs"
    and apk: "for_each (build_apk w repo (readKeystoreProps repo d0)) profiles d0 = Inr ((), d1)"
    and aab: "for_each (build_aab w repo (readKeystoreProps repo d0)) aabs d1 = Inr ((), d')"
    using assms(1)
    by (cases "selectProfiles APK_PROFILES (aw_env w ''ANDROID_APK_PROFILES'') ''universal,arm64,armv7''";
        cases "selectProfiles AAB_PROFILES (aw_env w ''ANDROID_AAB_PROFILES'') []")
      (auto simp: android_release_build_def seq_Inr Let_def)
  have mem: "\<And>x. x \<in> set profiles \<Longrightarrow> x = (fst x, map_of APK_PROFILES (fst x))"
      "\<And>x. x \<in> set aabs \<Longrightarrow> x = (fst x, map_of AAB_PROFILES (fst x))"
      and univ: "\<exists>x \<in> set profiles. fst x = ''universal''"
    using sel assms(3) by (auto simp: selectProfiles_def Let_def split: if_splits)
  have "?P d1"
  proof (rule for_each_establishes [OF apk, where E = "\<lambda>x. fst x = ''universal''"])
    show "\<And>x d d'. x \<in> set profiles \<Longrightarrow> build_apk w repo (readKeystoreProps repo d0) x d = Inr ((), d') \<Longrightarrow>
        fst x = ''universal'' \<or> ?P d \<Longrightarrow> ?P d'"
      using build_apk_universal [OF _ assms(2)] mem(1) by metis
  qed (use univ in blast)
  moreover have "\<And>x d d'. x \<in> set aabs \<Longrightarrow> build_aab w repo (readKeystoreProps repo d0) x d = Inr ((), d') \<Longrightarrow>
      False \<or> ?P d \<Longrightarrow> ?P d'"
    using build_aab_checks [OF _ assms(2)] mem(2) by metis
  ultimately show ?thesis
    using for_each_establishes [OF aab, of "\<lambda>_. False" ?P] by blast
qed

text \<open>A world in which every tool leaves the generated project and a package that Gradle has signed.\<close>

definition demo_project :: build_disk where
  "demo_project =
     [(manifestPath ''/r'', []), (buildGradle ''/r'', ''dependenciesInfo''), (mainActivity ''/r'', ''enableEdgeToEdge()''),
      (universalApkDir ''/r'' @ ''/app-universal-release.apk'', ''apk'')]"

definition demo_android :: android_world where
  "demo_android =
     \<lparr>aw_tool = (\<lambda>cmd env d. (foldl (\<lambda>d f. write_file (fst f) (snd f) d) d demo_project, Some 0)),
      aw_unzip = (\<lambda>_. Some ''lib/arm64-v8a/x lib/armeabi-v7a/x''), aw_jarsigner = (\<lambda>_. None), aw_decode = (\<lambda>s. s),
      aw_env = (\<lambda>k. if k = ''ANDROID_APK_PROFILES'' then Some ''universal'' else None)\<rparr>"

lemma demo_local: "tools_local demo_android ''/r''"
  by (auto simp: tools_local_def demo_android_def demo_project_def manifestPath_def buildGradle_def mainActivity_def
      universalApkDir_def genAndroid_def prefix_def)

theorem released_universal_verified_witness:
  "\<exists>d'. android_release_build demo_android ''/r'' [] = Inr ((), d') \<and> has_abis demo_android ''lib/'' (map_of d' (universal_apk ''/r''))"
proof -
  have run: "android_release_build demo_android ''/r'' [] = Inr ((), demo_project @ [(universal_apk ''/r'', ''apk'')])"
    by code_simp
  have "''universal'' \<in> set (profile_names (case aw_env demo_android ''ANDROID_APK_PROFILES'' of
      Some raw \<Rightarrow> raw | None \<Rightarrow> ''universal,arm64,armv7''))"
    by code_simp
  with run show ?thesis using released_universal_verified [OF run demo_local] by blast
qed

text \<open>
  Without keys Gradle leaves an unsigned package, which the script stores under a name of its own; it then
  checks the signed name. Unless an older build has left a file there, it ends with an error right after
  the universal build, and the other packages are not built.
\<close>

theorem unsigned_release_fails:
  assumes "tauri_build w (Some p) d = Inr ((), d1)" "map_of APK_PROFILES ''universal'' = Some p"
    and "findApkInDir d1 (universalApkDir repo) = Some (f, False)"
    and "map_of d1 (universal_apk repo) = None"
  shows "for_each (build_apk w repo None) ((''universal'', Some p) # rest) d = Inl 1"
proof -
  have "signed_apk repo p = universal_apk repo"
    using assms(2) by (auto simp: APK_PROFILES_def signed_apk_def universal_apk_def join_path_def)
  moreover have "replace_end ''.apk'' ''-unsigned.apk'' (universal_apk repo) \<noteq> universal_apk repo"
    by (simp add: replace_end_def universal_apk_def suffix_def)
  ultimately have "build_apk w repo None (''universal'', Some p) d = Inl 1"
    using assms
    by (auto simp: build_apk_def seq_def outputDirForProfile_def finish_apk_def copyFile_def verifyUniversalApk_def
        check_def has_abis_def split: option.splits sum.splits)
  then show ?thesis by (simp add: seq_def)
qed

text \<open>An empty list of profiles builds none; the default is used only when the variable is not set.\<close>

lemma empty_list_builds_none: "selectProfiles t (Some []) fallback = Some []"
  by (simp add: selectProfiles_def profile_names_def)

text \<open>Patching a build file that has both patches runs no command.\<close>

lemma patches_not_repeated:
  assumes "existsSync d (buildGradle repo)" "js_includes (file_text (buildGradle repo) d) ''dependenciesInfo''"
    "\<not> needsSigningPatch repo d"
  shows "apply_gradle_patches w repo d = Inr ((), d)"
  using assms by (simp add: apply_gradle_patches_def seq_def check_def done_with_def)

end
