(* ===== verification/Packaging.thy ===== *)
theory Packaging
  imports Android_Build Release_Version
begin

text \<open>
  The other packaging scripts: \<open>scripts/patch-linux-deb.js\<close>, \<open>scripts/package-windows-portable.js\<close>,
  \<open>scripts/build-wasm-bridge.js\<close> and \<open>scripts/run-lib-tests.js\<close>.

  A directory is a tree; an entry that is neither a file nor a directory, such as a link, is \<open>TreeOther\<close>.
  The tools (\<open>dpkg-deb\<close>, \<open>zip\<close>, \<open>gh\<close>, \<open>cargo\<close>, \<open>node\<close>) are parameters: what they print or their exit
  status. An exception of a script is its message.
\<close>

section \<open>The Debian package\<close>

definition COMPATIBLE_DEPENDS :: string where
  "COMPATIBLE_DEPENDS =
     ''libayatana-appindicator3-1 | libappindicator3-1, libwebkit2gtk-4.1-0, libgtk-3-0t64 | libgtk-3-0''"

text \<open>\<open>/^Depends: .+$/m\<close> at the start of a line: what follows the colon, and the text after the line.\<close>

definition first_line :: "string \<Rightarrow> string" where
  "first_line s = takeWhile (\<lambda>c. \<not> line_end c) s"

definition depends_match :: matcher where
  "depends_match s =
     (let l = first_line s in
      if prefix ''Depends: '' l \<and> length l > 9 then Some (drop 9 l, drop (length l) s) else None)"

datatype deb_result = NoDepends | Compatible | Patched string

definition patchDeb :: "string \<Rightarrow> deb_result" where
  "patchDeb original =
     (if find_line depends_match True original = None then NoDepends
      else
        (let patched = replace_line depends_match (''Depends: '' @ COMPATIBLE_DEPENDS) True original in
         if patched = original then Compatible else Patched patched))"

definition findDebArtifacts :: "string list option \<Rightarrow> string list" where
  "findDebArtifacts names = (case names of None \<Rightarrow> [] | Some ns \<Rightarrow> filter (suffix ''.deb'') ns)"

datatype gh_call = GhFind string | GhDelete string | GhUpload string string    \<comment> \<open>asset name; asset id; content type and name\<close>

text \<open>\<open>found\<close> is what the first call prints. A release id and a repository that are empty or missing skip the upload.\<close>

definition upload_calls :: "string \<Rightarrow> string \<Rightarrow> string \<Rightarrow> string \<Rightarrow> string \<Rightarrow> gh_call list" where
  "upload_calls kind releaseId repo name found =
     (if releaseId = [] \<or> repo = [] then []
      else [GhFind name] @ (if js_trim found \<noteq> [] then [GhDelete (js_trim found)] else []) @ [GhUpload kind name])"

text \<open>The calls up to the first that fails, and whether all succeed.\<close>

definition gh_run :: "(gh_call \<Rightarrow> bool) \<Rightarrow> gh_call list \<Rightarrow> gh_call list \<times> bool" where
  "gh_run ok cs = (takeWhile ok cs @ take 1 (dropWhile ok cs), list_all ok cs)"

definition reuploadAsset :: "string \<Rightarrow> string \<Rightarrow> string \<Rightarrow> string \<Rightarrow> gh_call list" where
  "reuploadAsset releaseId repo name found = upload_calls ''application/vnd.debian.binary-package'' releaseId repo name found"

text \<open>The packages in order, each with its control file; the run ends at the first exception.\<close>

fun patch_all ::
    "(gh_call \<Rightarrow> bool) \<Rightarrow> string \<Rightarrow> string \<Rightarrow> (string \<Rightarrow> string) \<Rightarrow> (string \<times> string) list \<Rightarrow>
     (string \<times> string) list \<times> gh_call list \<times> bool" where
  "patch_all ok releaseId repo found [] = ([], [], True)"
| "patch_all ok releaseId repo found ((name, control) # debs) =
     (case patchDeb control of
        NoDepends \<Rightarrow> ((name, control) # debs, [], False)
      | Compatible \<Rightarrow>
          (case patch_all ok releaseId repo found debs of (out, calls, fine) \<Rightarrow> ((name, control) # out, calls, fine))
      | Patched new \<Rightarrow>
          (case gh_run ok (reuploadAsset releaseId repo name (found name)) of
             (made, False) \<Rightarrow> ((name, new) # debs, made, False)
           | (made, True) \<Rightarrow>
               (case patch_all ok releaseId repo found debs of
                  (out, calls, fine) \<Rightarrow> ((name, new) # out, made @ calls, fine))))"

section \<open>The portable archive for Windows\<close>

datatype tree_node = TreeFile string | TreeDir "(string \<times> tree_node) list" | TreeOther

definition PRODUCT_NAME :: string where
  "PRODUCT_NAME = ''DashBeam''"

definition PORTABLE_MARKER :: string where
  "PORTABLE_MARKER = ''.portable''"

definition PORTABLE_README :: string where
  "PORTABLE_README = ''README-PORTABLE.txt''"

definition readVersion :: "string option \<Rightarrow> string \<Rightarrow> string" where
  "readVersion env package =
     (case env of None \<Rightarrow> package | Some v \<Rightarrow> if js_trim v \<noteq> [] then js_trim v else package)"

definition archLabel :: "string \<Rightarrow> string option" where
  "archLabel t =
     (if prefix ''aarch64-'' t \<or> js_includes t ''arm64'' then Some ''arm64''
      else if prefix ''x86_64-'' t \<or> js_includes t ''x64'' then Some ''x64''
      else None)"

definition EXE_CANDIDATES :: "string list" where
  "EXE_CANDIDATES = [PRODUCT_NAME @ ''.exe'', ''dashbeam.exe'', ''AltSendme.exe'', ''alt-sendme.exe'']"

type_synonym tree_dir = "(string \<times> tree_node) list"

definition findBuiltExe :: "tree_dir \<Rightarrow> string option" where
  "findBuiltExe dir = find (\<lambda>n. map_of dir n \<noteq> None) EXE_CANDIDATES"

text \<open>The two release directories of a target, the first with a binary.\<close>

definition findReleaseDir :: "tree_dir option \<Rightarrow> tree_dir option \<Rightarrow> tree_dir option" where
  "findReleaseDir own shared =
     find (\<lambda>dir. findBuiltExe dir \<noteq> None) (List.map_filter id [own, shared])"

text \<open>\<open>copyDir\<close>: directories and files, nothing else.\<close>

fun copy_node :: "tree_node \<Rightarrow> tree_node option" and copy_entries :: "tree_dir \<Rightarrow> tree_dir" where
  "copy_node (TreeFile t) = Some (TreeFile t)"
| "copy_node (TreeDir es) = Some (TreeDir (copy_entries es))"
| "copy_node TreeOther = None"
| "copy_entries [] = []"
| "copy_entries ((n, x) # es) =
     (case copy_node x of None \<Rightarrow> copy_entries es | Some y \<Rightarrow> (n, y) # copy_entries es)"

fun node_at :: "tree_node \<Rightarrow> string list \<Rightarrow> tree_node option" where
  "node_at x [] = Some x"
| "node_at (TreeDir es) (n # ns) = Option.bind (map_of es n) (\<lambda>y. node_at y ns)"
| "node_at _ (n # ns) = None"

definition dir_of :: "tree_node option \<Rightarrow> tree_dir" where
  "dir_of x = (case x of Some (TreeDir es) \<Rightarrow> es | _ \<Rightarrow> [])"

fun put_at :: "string list \<Rightarrow> tree_node \<Rightarrow> tree_dir \<Rightarrow> tree_dir" where
  "put_at [] x es = es"
| "put_at [n] x es = assoc_put n x es"
| "put_at (n # m # ns) x es = assoc_put n (TreeDir (put_at (m # ns) x (dir_of (map_of es n)))) es"

definition path_parts :: "string \<Rightarrow> string list" where
  "path_parts p = filter (\<lambda>n. n \<noteq> [] \<and> n \<noteq> ''.'') (js_split (CHR ''/'') p)"

text \<open>A resource of the configuration, copied below \<open>resources\<close>.\<close>

definition stage_resource :: "tree_node \<Rightarrow> jsval \<Rightarrow> tree_dir \<Rightarrow> tree_dir result" where
  "stage_resource srcTauri entry es =
     (case entry of
        Str p \<Rightarrow>
          (case node_at srcTauri (path_parts p) of
             Some (TreeFile t) \<Rightarrow> Inr (put_at (''resources'' # path_parts p) (TreeFile t) es)
           | _ \<Rightarrow> Inl (Error (''bundle.resources file missing: '' @ p)))
      | _ \<Rightarrow> Inl (Error ''Unsupported bundle.resources entry''))"

fun stage_all :: "tree_node \<Rightarrow> jsval list \<Rightarrow> tree_dir \<Rightarrow> tree_dir result" where
  "stage_all srcTauri [] es = Inr es"
| "stage_all srcTauri (r # rs) es =
     try_bind (stage_resource srcTauri r es) (\<lambda>es'. stage_all srcTauri rs es')"

definition stageResources :: "tree_node \<Rightarrow> jsval \<Rightarrow> tree_dir \<Rightarrow> tree_dir \<Rightarrow> tree_dir result" where
  "stageResources srcTauri resources dir es =
     (case map_of dir ''resources'' of
        Some x \<Rightarrow> (case x of TreeDir rs \<Rightarrow> Inr (assoc_put ''resources'' (TreeDir (copy_entries rs)) es)
                   | _ \<Rightarrow> Inl (Error ''ENOTDIR''))
      | None \<Rightarrow>
          (case resources of
             Arr rs \<Rightarrow> if rs = [] then Inl (Error ''No resources'') else stage_all srcTauri rs es
           | _ \<Rightarrow> Inl (Error ''No resources'')))"

definition stage_copy :: "string \<Rightarrow> tree_node option \<Rightarrow> tree_dir \<Rightarrow> tree_dir result" where
  "stage_copy n x es = (case x of Some (TreeFile t) \<Rightarrow> Inr (assoc_put n (TreeFile t) es) | _ \<Rightarrow> Inl (Error (''copy '' @ n)))"

definition stage_loader :: "tree_dir \<Rightarrow> tree_dir \<Rightarrow> tree_dir result" where
  "stage_loader dir es =
     (if map_of dir ''WebView2Loader.dll'' = None then Inr es
      else stage_copy ''WebView2Loader.dll'' (map_of dir ''WebView2Loader.dll'') es)"

definition stage_notes :: "string \<Rightarrow> tree_dir \<Rightarrow> tree_dir" where
  "stage_notes readme es =
     assoc_put PORTABLE_README (TreeFile readme) (assoc_put PORTABLE_MARKER (TreeFile (''portable'' @ [CHR 0x0A])) es)"

definition staging_complete :: "tree_dir \<Rightarrow> tree_dir result" where
  "staging_complete es =
     (if map_of es (PRODUCT_NAME @ ''.exe'') = None \<or> map_of es PORTABLE_MARKER = None
      then Inl (Error ''Portable staging incomplete'') else Inr es)"

definition stagePortablePayload :: "string \<Rightarrow> tree_node \<Rightarrow> jsval \<Rightarrow> tree_dir \<Rightarrow> tree_dir result" where
  "stagePortablePayload readme srcTauri resources dir =
     (case findBuiltExe dir of
        None \<Rightarrow> Inl (Error ''Missing Windows binary'')
      | Some exe \<Rightarrow>
          try_bind (stage_copy (PRODUCT_NAME @ ''.exe'') (map_of dir exe) []) (\<lambda>es1.
          try_bind (stage_loader dir es1) (\<lambda>es2.
          try_bind (stageResources srcTauri resources dir es2) (\<lambda>es3.
            staging_complete (stage_notes readme es3)))))"

text \<open>The lines of a listing: split at line ends, trimmed, with forward slashes, without empty ones.\<close>

fun split_crlf :: "string \<Rightarrow> string list" where
  "split_crlf [] = [[]]"
| "split_crlf (c # cs) =
     (if c = CHR 0x0A then [] # split_crlf cs
      else if c = CHR 0x0D \<and> cs \<noteq> [] \<and> hd cs = CHR 0x0A then [] # split_crlf (tl cs)
      else (case split_crlf cs of [] \<Rightarrow> [[c]] | w # ws \<Rightarrow> (c # w) # ws))"

definition zip_entries :: "string \<Rightarrow> string list" where
  "zip_entries listing =
     filter (\<lambda>e. e \<noteq> []) (map (\<lambda>l. map (\<lambda>c. if c = CHR 0x5C then CHR ''/'' else c) (js_trim l)) (split_crlf listing))"

definition has_entry :: "string \<Rightarrow> string list \<Rightarrow> bool" where
  "has_entry n es = list_ex (\<lambda>e. e = PRODUCT_NAME @ ''/'' @ n \<or> suffix (''/'' @ n) e \<or> e = n) es"

definition assertZipLooksValid :: "nat \<Rightarrow> string \<Rightarrow> bool" where
  "assertZipLooksValid bytes listing \<longleftrightarrow>
     \<not> bytes < 1024 * 100 \<and>
     has_entry (PRODUCT_NAME @ ''.exe'') (zip_entries listing) \<and> has_entry PORTABLE_MARKER (zip_entries listing)"

record portable_env =
  pe_target :: "string option"
  pe_version :: "string option"
  pe_releaseId :: string
  pe_repo :: string
  pe_package :: string
  pe_own :: "tree_dir option"
  pe_shared :: "tree_dir option"
  pe_srcTauri :: tree_node
  pe_resources :: jsval
  pe_readme :: string

record portable_run =
  pr_exit :: nat
  pr_zip :: "(string \<times> tree_dir) option"     \<comment> \<open>name and content of the archive\<close>
  pr_calls :: "gh_call list"

text \<open>
  \<open>archive\<close> makes the archive and lists it: size and listing, or an exception; \<open>found\<close> is what the first
  call of \<open>gh\<close> prints and \<open>ok\<close> says which calls succeed. The temporary directory, which is removed on every
  path, is not part of the result.
\<close>

definition package_windows_portable ::
    "(tree_dir \<Rightarrow> (nat \<times> string) option) \<Rightarrow> (gh_call \<Rightarrow> bool) \<Rightarrow> string \<Rightarrow> portable_env \<Rightarrow> portable_run" where
  "package_windows_portable archive ok found env =
     (let failed = \<lparr>pr_exit = 1, pr_zip = None, pr_calls = []\<rparr>;
          target = (case pe_target env of None \<Rightarrow> [] | Some t \<Rightarrow> js_trim t) in
      if target = [] then failed
      else
        (case (archLabel target, findReleaseDir (pe_own env) (pe_shared env)) of
           (Some arch, Some dir) \<Rightarrow>
             (let name = PRODUCT_NAME @ ''_'' @ readVersion (pe_version env) (pe_package env) @ ''_'' @ arch @ ''-portable.zip'' in
              case stagePortablePayload (pe_readme env) (pe_srcTauri env) (pe_resources env) dir of
                Inl e \<Rightarrow> failed
              | Inr es \<Rightarrow>
                  (case archive es of
                     None \<Rightarrow> failed
                   | Some (bytes, listing) \<Rightarrow>
                       if assertZipLooksValid bytes listing
                       then (case gh_run ok (upload_calls ''application/zip'' (pe_releaseId env) (pe_repo env) name found) of
                               (made, fine) \<Rightarrow>
                                 \<lparr>pr_exit = (if fine then 0 else 1), pr_zip = Some (name, es), pr_calls = made\<rparr>)
                       else failed\<lparr>pr_zip := Some (name, es)\<rparr>))
         | _ \<Rightarrow> failed))"

section \<open>The WebAssembly module and the tests\<close>

definition resolveCc :: "(string \<Rightarrow> bool) \<Rightarrow> string \<Rightarrow> string \<Rightarrow> string option" where
  "resolveCc exists0 platform cc =
     (if cc \<noteq> [] then Some cc
      else if platform = ''darwin'' then find exists0 [''/opt/homebrew/opt/llvm/bin/clang'', ''/usr/local/opt/llvm/bin/clang'']
      else if platform = ''linux'' then Some ''clang''
      else if platform = ''win32'' then
        find exists0 [''C:'' @ [CHR 0x5C] @ ''Program Files'' @ [CHR 0x5C] @ ''LLVM'' @ [CHR 0x5C] @ ''bin'' @ [CHR 0x5C] @ ''clang.exe'',
                      ''C:'' @ [CHR 0x5C] @ ''Program Files (x86)'' @ [CHR 0x5C] @ ''LLVM'' @ [CHR 0x5C] @ ''bin'' @ [CHR 0x5C] @ ''clang.exe'']
      else None)"

definition resolveWasmBindgen :: "(nat \<times> string) option \<Rightarrow> string option" where
  "resolveWasmBindgen lookup =
     (case lookup of
        None \<Rightarrow> None
      | Some (status, out) \<Rightarrow>
          (let binary = hd (split_crlf (js_trim out)) in if status = 0 \<and> binary \<noteq> [] then Some binary else None))"

datatype wasm_cmd = CargoBuild bool "string option" | CargoInstall | Bindgen string bool

text \<open>
  \<open>status\<close> is the exit status of a command, \<open>before\<close> and \<open>after\<close> what the lookup of \<open>wasm-bindgen\<close> gives
  before and after the install. The result is the exit code and the commands that were run.
\<close>

definition build_wasm_bridge ::
    "(string \<Rightarrow> bool) \<Rightarrow> string \<Rightarrow> string \<Rightarrow> bool \<Rightarrow> (wasm_cmd \<Rightarrow> nat) \<Rightarrow> (nat \<times> string) option \<Rightarrow> (nat \<times> string) option \<Rightarrow>
     nat \<times> wasm_cmd list" where
  "build_wasm_bridge exists0 platform ccEnv rel status before after =
     (let cc = resolveCc exists0 platform ccEnv; build = CargoBuild rel cc in
      if cc = None \<and> platform = ''darwin'' then (1, [])
      else if status build \<noteq> 0 then (status build, [build])
      else
        (let (code, cmds, bin) =
               (case resolveWasmBindgen before of
                  Some b \<Rightarrow> (0, [build], Some b)
                | None \<Rightarrow> if status CargoInstall \<noteq> 0 then (status CargoInstall, [build, CargoInstall], None)
                          else (if resolveWasmBindgen after = None then 1 else 0, [build, CargoInstall], resolveWasmBindgen after))
         in case bin of
              None \<Rightarrow> (code, cmds)
            | Some b \<Rightarrow> (status (Bindgen b rel), cmds @ [Bindgen b rel])))"

text \<open>The compiled tests of a directory, in the order of \<open>localeCompare\<close> in each directory.\<close>

fun test_files :: "(string \<Rightarrow> string \<Rightarrow> int) \<Rightarrow> string \<Rightarrow> tree_node \<Rightarrow> string list"
  and test_entries :: "(string \<Rightarrow> string \<Rightarrow> int) \<Rightarrow> string \<Rightarrow> tree_dir \<Rightarrow> (string \<times> string list) list" where
  "test_files lc p (TreeDir es) = concat (map snd (js_sort (\<lambda>a b. lc (fst a) (fst b)) (test_entries lc p es)))"
| "test_files lc p (TreeFile t) = (if suffix ''.test.js'' p then [p] else [])"
| "test_files lc p TreeOther = []"
| "test_entries lc p [] = []"
| "test_entries lc p ((n, x) # es) = (n, test_files lc (p @ ''/'' @ n) x) # test_entries lc p es"

definition run_lib_tests ::
    "(string \<Rightarrow> string \<Rightarrow> int) \<Rightarrow> nat \<Rightarrow> (string \<times> tree_dir option) list \<Rightarrow> (string list \<Rightarrow> nat) \<Rightarrow> nat \<times> string list" where
  "run_lib_tests lc tsc dirs node =
     (if tsc \<noteq> 0 then (tsc, [])
      else
        (let files = concat (map (\<lambda>(p, es). case es of None \<Rightarrow> [] | Some e \<Rightarrow> test_files lc p (TreeDir e)) dirs) in
         if files = [] then (1, []) else (node files, files)))"

section \<open>Properties\<close>

subsection \<open>The Debian package\<close>

lemma first_line_replaced: "first_line (replace_line depends_match r False s) = first_line s"
proof (induction s)
  case (Cons c cs)
  then show ?case by (cases "line_end c") (simp_all add: first_line_def)
qed (simp add: first_line_def)

lemma depends_match_first_line: "(depends_match s = None) = (depends_match t = None)" if "first_line s = first_line t"
  using that by (auto simp: depends_match_def Let_def)

lemma takeWhile_dropWhile_Nil: "takeWhile P (dropWhile P s) = []"
  by (induction s) auto

lemma depends_match_split:
  assumes "depends_match s = Some (v, r)"
  shows "s = ''Depends: '' @ v @ r" "v \<noteq> []" "list_all (\<lambda>c. \<not> line_end c) v" "first_line r = []"
proof -
  let ?l = "first_line s"
  have l: "prefix ''Depends: '' ?l" "length ?l > 9" "v = drop 9 ?l" "r = drop (length ?l) s"
    using assms by (auto simp: depends_match_def Let_def split: if_splits)
  have "r = dropWhile (\<lambda>c. \<not> line_end c) s" using l(4) by (simp add: first_line_def dropWhile_eq_drop)
  then have s: "s = ?l @ r" by (simp add: first_line_def)
  have "?l = ''Depends: '' @ v" using l(1,3) by (auto simp: prefix_def)
  then show "s = ''Depends: '' @ v @ r" using s by simp
  show "v \<noteq> []" using l(2,3) by simp
  have "list_all (\<lambda>c. \<not> line_end c) ?l" by (auto simp: first_line_def list_all_iff dest: set_takeWhileD)
  then show "list_all (\<lambda>c. \<not> line_end c) v" using l(3) by (auto simp: list_all_iff dest: in_set_dropD)
  show "first_line r = []"
    using \<open>r = dropWhile _ s\<close> takeWhile_dropWhile_Nil by (simp add: first_line_def)
qed

lemma depends_match_line:
  assumes "v \<noteq> []" "list_all (\<lambda>c. \<not> line_end c) v" "first_line r = []"
  shows "depends_match (''Depends: '' @ v @ r) = Some (v, r)"
proof -
  have "list_all (\<lambda>c. \<not> line_end c) (''Depends: '' @ v)" using assms(2) by (simp add: line_end_def)
  then have "first_line ((''Depends: '' @ v) @ r) = (''Depends: '' @ v) @ first_line r"
    unfolding first_line_def by (subst takeWhile_append2) (auto simp: list_all_iff)
  then have "first_line (''Depends: '' @ v @ r) = ''Depends: '' @ v" using assms(3) by simp
  then show ?thesis using assms(1) by (simp add: depends_match_def Let_def)
qed

lemma replaced_found:
  assumes "find_line depends_match b s = Some v" "u \<noteq> []" "list_all (\<lambda>c. \<not> line_end c) u"
  shows "\<exists>pre post. s = pre @ ''Depends: '' @ v @ post \<and>
      replace_line depends_match (''Depends: '' @ u) b s = pre @ ''Depends: '' @ u @ post \<and>
      find_line depends_match b (replace_line depends_match (''Depends: '' @ u) b s) = Some u \<and>
      replace_line depends_match (''Depends: '' @ u) b (replace_line depends_match (''Depends: '' @ u) b s) =
        replace_line depends_match (''Depends: '' @ u) b s"
  using assms(1)
proof (induction s arbitrary: b)
  case Nil
  then show ?case by (auto simp: depends_match_def first_line_def Let_def split: if_splits)
next
  case (Cons c cs)
  let ?rep = "replace_line depends_match (''Depends: '' @ u)"
  show ?case
  proof (cases "b \<and> depends_match (c # cs) \<noteq> None")
    case True
    then obtain r where m: "depends_match (c # cs) = Some (v, r)" using Cons.prems by (auto split: option.splits)
    have new: "depends_match (''Depends: '' @ u @ r) = Some (u, r)"
      by (rule depends_match_line [OF assms(2,3) depends_match_split(4) [OF m]])
    have rep: "?rep b (c # cs) = ''Depends: '' @ u @ r" using True m by simp
    have "find_line depends_match True (''Depends: '' @ u @ r) = Some u" "?rep True (''Depends: '' @ u @ r) = ''Depends: '' @ u @ r"
      using new by simp_all
    then show ?thesis
      using True rep depends_match_split(1) [OF m] by (intro exI [of _ "[]"] exI [of _ r]) auto
  next
    case False
    have rest: "find_line depends_match (line_end c) cs = Some v" using Cons.prems False by (auto split: option.splits if_splits)
    from Cons.IH [OF rest] obtain pre post where ih: "cs = pre @ ''Depends: '' @ v @ post"
        "?rep (line_end c) cs = pre @ ''Depends: '' @ u @ post"
        "find_line depends_match (line_end c) (?rep (line_end c) cs) = Some u"
        "?rep (line_end c) (?rep (line_end c) cs) = ?rep (line_end c) cs"
      by blast
    have step: "?rep b (c # cs) = c # ?rep (line_end c) cs" using False by (auto split: option.splits)
    have "first_line (c # ?rep (line_end c) cs) = first_line (c # cs)"
      using first_line_replaced [of _ cs] by (cases "line_end c") (simp_all add: first_line_def)
    then have "b \<longrightarrow> depends_match (c # ?rep (line_end c) cs) = None"
      using False depends_match_first_line by blast
    then have again: "find_line depends_match b (c # ?rep (line_end c) cs) = Some u"
        "?rep b (c # ?rep (line_end c) cs) = c # ?rep (line_end c) cs"
      using ih(3,4) by (auto split: if_splits)
    show ?thesis
    proof (intro exI conjI)
      show "c # cs = (c # pre) @ ''Depends: '' @ v @ post" using ih(1) by simp
      show "?rep b (c # cs) = (c # pre) @ ''Depends: '' @ u @ post" unfolding step using ih(2) by simp
      show "find_line depends_match b (?rep b (c # cs)) = Some u" unfolding step by (rule again(1))
      show "?rep b (?rep b (c # cs)) = ?rep b (c # cs)" unfolding step by (rule again(2))
    qed
  qed
qed

lemma compatible_line: "COMPATIBLE_DEPENDS \<noteq> []" "list_all (\<lambda>c. \<not> line_end c) COMPATIBLE_DEPENDS"
  by code_simp+

text \<open>
  Patching replaces the value of one \<open>Depends\<close> line of the control file and keeps every other character;
  a patched file is compatible, so running the script again changes and uploads nothing.
\<close>

theorem deb_patched_once:
  assumes "patchDeb control = Patched new"
  shows "patchDeb new = Compatible \<and>
    (\<exists>pre old post. control = pre @ ''Depends: '' @ old @ post \<and> new = pre @ ''Depends: '' @ COMPATIBLE_DEPENDS @ post)"
proof -
  let ?rep = "replace_line depends_match (''Depends: '' @ COMPATIBLE_DEPENDS) True"
  obtain v where v: "find_line depends_match True control = Some v" and new: "new = ?rep control"
    using assms by (auto simp: patchDeb_def Let_def split: if_splits)
  from replaced_found [OF v compatible_line] obtain pre post where
      "control = pre @ ''Depends: '' @ v @ post" "new = pre @ ''Depends: '' @ COMPATIBLE_DEPENDS @ post"
      "find_line depends_match True new = Some COMPATIBLE_DEPENDS" "?rep new = new"
    unfolding new by blast
  then show ?thesis by (auto simp: patchDeb_def Let_def)
qed

text \<open>
  An upload that fails after the old asset was removed leaves the release without the package, and a
  second run does not repair it: the local package is already compatible, so nothing is uploaded.
\<close>

lemma failed_upload_not_repaired:
  assumes "patchDeb control = Patched new" "releaseId \<noteq> []" "repo \<noteq> []" "js_trim (found name) \<noteq> []"
    and "\<forall>c. ok c \<longleftrightarrow> c \<noteq> GhUpload ''application/vnd.debian.binary-package'' name"
  shows "patch_all ok releaseId repo found [(name, control)] =
      ([(name, new)], [GhFind name, GhDelete (js_trim (found name)), GhUpload ''application/vnd.debian.binary-package'' name], False) \<and>
    patch_all (\<lambda>_. True) releaseId repo found [(name, new)] = ([(name, new)], [], True)"
  using assms deb_patched_once [OF assms(1)]
  by (simp add: gh_run_def reuploadAsset_def upload_calls_def)

subsection \<open>The portable archive\<close>

lemma map_of_put_other: "n \<noteq> m \<Longrightarrow> map_of (put_at (m # ns) x es) n = map_of es n"
  by (cases ns) (auto simp: map_of_assoc_put)

lemma stage_all_keeps:
  "stage_all srcTauri rs es = Inr es' \<Longrightarrow> n \<noteq> ''resources'' \<Longrightarrow> map_of es' n = map_of es n"
proof (induction rs arbitrary: es)
  case (Cons r rs)
  then obtain es1 where step: "stage_resource srcTauri r es = Inr es1" "stage_all srcTauri rs es1 = Inr es'"
    by (auto simp: try_bind_Inr)
  then have "map_of es1 n = map_of es n"
    using Cons.prems(2) by (auto simp: stage_resource_def map_of_put_other split: jsval.splits option.splits tree_node.splits)
  then show ?case using Cons step(2) by simp
qed simp

lemma stageResources_keeps:
  "stageResources srcTauri resources dir es = Inr es' \<Longrightarrow> n \<noteq> ''resources'' \<Longrightarrow> map_of es' n = map_of es n"
  by (auto simp: stageResources_def map_of_assoc_put stage_all_keeps split: option.splits tree_node.splits jsval.splits if_splits)

text \<open>
  A staged payload has the built binary under the name of the product, the marker that turns off the
  updater, and the notes.
\<close>

lemma staged_payload:
  assumes "stagePortablePayload readme srcTauri resources dir = Inr es"
  shows "\<exists>exe t. findBuiltExe dir = Some exe \<and> map_of dir exe = Some (TreeFile t) \<and>
      map_of es (PRODUCT_NAME @ ''.exe'') = Some (TreeFile t) \<and>
      map_of es PORTABLE_MARKER = Some (TreeFile (''portable'' @ [CHR 0x0A])) \<and> map_of es PORTABLE_README = Some (TreeFile readme)"
proof -
  obtain exe es1 es2 es3 where s: "findBuiltExe dir = Some exe"
      "stage_copy (PRODUCT_NAME @ ''.exe'') (map_of dir exe) [] = Inr es1" "stage_loader dir es1 = Inr es2"
      "stageResources srcTauri resources dir es2 = Inr es3" "staging_complete (stage_notes readme es3) = Inr es"
    using assms by (cases "findBuiltExe dir") (auto simp: stagePortablePayload_def)
  have es: "es = stage_notes readme es3" using s(5) by (simp add: staging_complete_def split: if_splits)
  obtain t where t: "map_of dir exe = Some (TreeFile t)" "map_of es1 (PRODUCT_NAME @ ''.exe'') = Some (TreeFile t)"
    using s(2) by (auto simp: stage_copy_def map_of_assoc_put split: option.splits tree_node.splits)
  have "map_of es2 (PRODUCT_NAME @ ''.exe'') = map_of es1 (PRODUCT_NAME @ ''.exe'')"
    using s(3) by (auto simp: stage_loader_def stage_copy_def map_of_assoc_put PRODUCT_NAME_def split: option.splits tree_node.splits if_splits)
  moreover have "map_of es3 (PRODUCT_NAME @ ''.exe'') = map_of es2 (PRODUCT_NAME @ ''.exe'')"
    by (rule stageResources_keeps [OF s(4)]) (simp add: PRODUCT_NAME_def)
  ultimately have "map_of es (PRODUCT_NAME @ ''.exe'') = Some (TreeFile t)"
    using t(2) es by (simp add: stage_notes_def map_of_assoc_put PRODUCT_NAME_def PORTABLE_MARKER_def PORTABLE_README_def)
  moreover have "map_of es PORTABLE_MARKER = Some (TreeFile (''portable'' @ [CHR 0x0A]))" "map_of es PORTABLE_README = Some (TreeFile readme)"
    using es by (simp_all add: stage_notes_def map_of_assoc_put PORTABLE_MARKER_def PORTABLE_README_def)
  ultimately show ?thesis using s(1) t(1) by blast
qed

text \<open>
  What the portable script uploads is an archive it has checked: it was built from a payload with the
  binary of this build, under the name of the product, and the marker that turns off the updater; and
  it ends with success only when such an archive was made.
\<close>

theorem portable_upload_checked:
  fixes archive :: "tree_dir \<Rightarrow> (nat \<times> string) option" and ok :: "gh_call \<Rightarrow> bool" and found :: string and env :: portable_env
  defines "r \<equiv> package_windows_portable archive ok found env"
  assumes "pr_calls r \<noteq> [] \<or> pr_exit r = 0"
  shows "\<exists>name es dir exe t bytes listing. pr_zip r = Some (name, es) \<and> archive es = Some (bytes, listing) \<and>
    assertZipLooksValid bytes listing \<and> dir \<in> set (List.map_filter id [pe_own env, pe_shared env]) \<and>
    findBuiltExe dir = Some exe \<and> map_of dir exe = Some (TreeFile t) \<and>
    map_of es (PRODUCT_NAME @ ''.exe'') = Some (TreeFile t) \<and> map_of es PORTABLE_MARKER \<noteq> None \<and>
    (\<forall>kind n. GhUpload kind n \<in> set (pr_calls r) \<longrightarrow> n = name)"
proof -
  define target where "target = (case pe_target env of None \<Rightarrow> [] | Some t \<Rightarrow> js_trim t)"
  have upload: "GhUpload k n \<in> set (fst (gh_run ok (upload_calls kind i rp name f))) \<Longrightarrow> n = name" for k n kind i rp name f
    by (auto simp: gh_run_def upload_calls_def dest!: set_takeWhileD in_set_takeD set_dropWhileD split: if_splits)
  obtain arch dir where ad: "archLabel target = Some arch" "findReleaseDir (pe_own env) (pe_shared env) = Some dir" "target \<noteq> []"
    using assms(2) unfolding r_def package_windows_portable_def Let_def target_def [symmetric]
    by (cases "archLabel target"; cases "findReleaseDir (pe_own env) (pe_shared env)") (auto split: if_splits)
  obtain es where es: "stagePortablePayload (pe_readme env) (pe_srcTauri env) (pe_resources env) dir = Inr es"
    using assms(2) ad unfolding r_def package_windows_portable_def Let_def target_def [symmetric]
    by (cases "stagePortablePayload (pe_readme env) (pe_srcTauri env) (pe_resources env) dir") simp_all
  obtain bytes listing where zip: "archive es = Some (bytes, listing)" and valid: "assertZipLooksValid bytes listing"
    using assms(2) ad es unfolding r_def package_windows_portable_def Let_def target_def [symmetric]
    by (cases "archive es") (auto split: if_splits)
  define name where "name = PRODUCT_NAME @ ''_'' @ readVersion (pe_version env) (pe_package env) @ ''_'' @ arch @ ''-portable.zip''"
  define calls where "calls = gh_run ok (upload_calls ''application/zip'' (pe_releaseId env) (pe_repo env) name found)"
  have r: "r = \<lparr>pr_exit = (if snd calls then 0 else 1), pr_zip = Some (name, es), pr_calls = fst calls\<rparr>"
    using ad es zip valid unfolding r_def package_windows_portable_def Let_def target_def [symmetric] calls_def name_def
    by (simp add: case_prod_beta)
  have calls: "pr_calls r = fst calls" by (simp add: r)
  have "pr_zip r = Some (name, es)" by (simp add: r)
  moreover have "\<forall>kind n. GhUpload kind n \<in> set (pr_calls r) \<longrightarrow> n = name"
    unfolding calls calls_def using upload by blast
  moreover have "dir \<in> set (List.map_filter id [pe_own env, pe_shared env])"
    using ad(2) unfolding findReleaseDir_def find_Some_iff by (metis nth_mem)
  moreover obtain exe t where "findBuiltExe dir = Some exe" "map_of dir exe = Some (TreeFile t)"
      "map_of es (PRODUCT_NAME @ ''.exe'') = Some (TreeFile t)"
      "map_of es PORTABLE_MARKER = Some (TreeFile (''portable'' @ [CHR 0x0A]))"
    using staged_payload [OF es] by (elim exE conjE)
  ultimately show ?thesis using zip valid
    by (intro exI [of _ name] exI [of _ es] exI [of _ dir] exI [of _ exe] exI [of _ t] exI [of _ bytes] exI [of _ listing] conjI)
      simp_all
qed

definition demo_portable :: portable_env where
  "demo_portable = \<lparr>pe_target = Some ''x86_64-pc-windows-msvc'', pe_version = None, pe_releaseId = ''7'', pe_repo = ''o/r'',
     pe_package = ''1.2.3'', pe_own = Some [(''dashbeam.exe'', TreeFile ''MZ''), (''resources'', TreeDir [])], pe_shared = None,
     pe_srcTauri = TreeDir [], pe_resources = Undefined, pe_readme = ''Extract''\<rparr>"

definition demo_archive :: "tree_dir \<Rightarrow> (nat \<times> string) option" where
  "demo_archive es =
     Some (200000, concat (map (\<lambda>(n, x). ''DashBeam'' @ [CHR 0x5C] @ n @ [CHR 0x0D, CHR 0x0A]) es))"

lemma demo_payload:
  "stagePortablePayload (pe_readme demo_portable) (pe_srcTauri demo_portable) (pe_resources demo_portable)
     [(''dashbeam.exe'', TreeFile ''MZ''), (''resources'', TreeDir [])] =
   Inr [(''DashBeam.exe'', TreeFile ''MZ''), (''resources'', TreeDir []), (''.portable'', TreeFile (''portable'' @ [CHR 0x0A])),
     (''README-PORTABLE.txt'', TreeFile ''Extract'')]"
  by code_simp

lemma demo_archive_valid:
  "assertZipLooksValid 200000
     (concat (map (\<lambda>(n, x). ''DashBeam'' @ [CHR 0x5C] @ n @ [CHR 0x0D, CHR 0x0A])
        [(''DashBeam.exe'', TreeFile ''MZ''), (''resources'', TreeDir []), (''.portable'', TreeFile (''portable'' @ [CHR 0x0A])),
         (''README-PORTABLE.txt'', TreeFile ''Extract'')]))" (is "assertZipLooksValid _ ?l")
proof -
  have "has_entry (PRODUCT_NAME @ ''.exe'') (zip_entries ?l)" "has_entry PORTABLE_MARKER (zip_entries ?l)"
    by code_simp+
  then show ?thesis unfolding assertZipLooksValid_def by simp
qed

lemma demo_target:
  "js_trim ''x86_64-pc-windows-msvc'' = ''x86_64-pc-windows-msvc''" "archLabel ''x86_64-pc-windows-msvc'' = Some ''x64''"
  "findReleaseDir (pe_own demo_portable) (pe_shared demo_portable) = Some [(''dashbeam.exe'', TreeFile ''MZ''), (''resources'', TreeDir [])]"
  "gh_run (\<lambda>_. True) (upload_calls ''application/zip'' (pe_releaseId demo_portable) (pe_repo demo_portable)
     (PRODUCT_NAME @ ''_'' @ readVersion (pe_version demo_portable) (pe_package demo_portable) @ ''_'' @ ''x64'' @ ''-portable.zip'') ''41'') =
   ([GhFind ''DashBeam_1.2.3_x64-portable.zip'', GhDelete ''41'', GhUpload ''application/zip'' ''DashBeam_1.2.3_x64-portable.zip''], True)"
  by code_simp+

theorem portable_upload_checked_witness:
  "pr_calls (package_windows_portable demo_archive (\<lambda>_. True) ''41'' demo_portable) =
      [GhFind ''DashBeam_1.2.3_x64-portable.zip'', GhDelete ''41'', GhUpload ''application/zip'' ''DashBeam_1.2.3_x64-portable.zip''] \<and>
    (\<exists>name es. pr_zip (package_windows_portable demo_archive (\<lambda>_. True) ''41'' demo_portable) = Some (name, es) \<and>
       map_of es (PRODUCT_NAME @ ''.exe'') \<noteq> None)"
proof
  show calls: "pr_calls (package_windows_portable demo_archive (\<lambda>_. True) ''41'' demo_portable) =
      [GhFind ''DashBeam_1.2.3_x64-portable.zip'', GhDelete ''41'', GhUpload ''application/zip'' ''DashBeam_1.2.3_x64-portable.zip'']"
  proof -
    have "pe_target demo_portable = Some ''x86_64-pc-windows-msvc''" by (simp add: demo_portable_def)
    then show ?thesis unfolding package_windows_portable_def Let_def
      by (simp only: option.case demo_target prod.case demo_payload sum.case demo_archive_def demo_archive_valid list.distinct if_True if_False
          portable_run.simps refl)
  qed
  then have "pr_calls (package_windows_portable demo_archive (\<lambda>_. True) ''41'' demo_portable) \<noteq> []" by (simp only:) simp
  then have "pr_calls (package_windows_portable demo_archive (\<lambda>_. True) ''41'' demo_portable) \<noteq> [] \<or>
      pr_exit (package_windows_portable demo_archive (\<lambda>_. True) ''41'' demo_portable) = 0" by (rule disjI1)
  from portable_upload_checked [OF this] obtain name es t where
      "pr_zip (package_windows_portable demo_archive (\<lambda>_. True) ''41'' demo_portable) = Some (name, es)"
      "map_of es (PRODUCT_NAME @ ''.exe'') = Some (TreeFile t)"
    by (elim exE conjE)
  then show "\<exists>name es. pr_zip (package_windows_portable demo_archive (\<lambda>_. True) ''41'' demo_portable) = Some (name, es) \<and>
       map_of es (PRODUCT_NAME @ ''.exe'') \<noteq> None"
    by (intro exI [of _ name] exI [of _ es] conjI) simp_all
qed

text \<open>An archiver that lists what is in the payload never fails the check, unless the archive is too small.\<close>

lemma complete_archive_accepted:
  assumes "stagePortablePayload readme srcTauri resources dir = Inr es" "bytes \<ge> 102400"
    and lists: "\<And>n t. map_of es n = Some (TreeFile t) \<Longrightarrow>
      ''DashBeam/'' @ n \<in> set (split_crlf listing) \<or> ''DashBeam'' @ CHR 0x5C # n \<in> set (split_crlf listing)"
  shows "assertZipLooksValid bytes listing"
proof -
  have entry: "has_entry n (zip_entries listing)"
    if "\<exists>t. map_of es n = Some (TreeFile t)"
      "map (\<lambda>c. if c = CHR 0x5C then CHR ''/'' else c) (js_trim (''DashBeam/'' @ n)) = ''DashBeam/'' @ n"
      "map (\<lambda>c. if c = CHR 0x5C then CHR ''/'' else c) (js_trim (''DashBeam'' @ CHR 0x5C # n)) = ''DashBeam/'' @ n" for n
  proof -
    have "''DashBeam/'' @ n \<in> set (zip_entries listing)"
      using lists that unfolding zip_entries_def by force
    then show ?thesis by (auto simp: has_entry_def list_ex_iff PRODUCT_NAME_def)
  qed
  have "has_entry (PRODUCT_NAME @ ''.exe'') (zip_entries listing)"
    by (rule entry) (use staged_payload [OF assms(1)] in blast, code_simp, code_simp)
  moreover have "has_entry PORTABLE_MARKER (zip_entries listing)"
    by (rule entry) (use staged_payload [OF assms(1)] in blast, code_simp, code_simp)
  ultimately show ?thesis using assms(2) by (simp add: assertZipLooksValid_def)
qed

subsection \<open>The tests\<close>

fun file_paths :: "string \<Rightarrow> tree_node \<Rightarrow> string list" and entry_paths :: "string \<Rightarrow> tree_dir \<Rightarrow> string list" where
  "file_paths p (TreeFile t) = [p]"
| "file_paths p (TreeDir es) = entry_paths p es"
| "file_paths p TreeOther = []"
| "entry_paths p [] = []"
| "entry_paths p ((n, x) # es) = file_paths (p @ ''/'' @ n) x @ entry_paths p es"

lemma mset_concat_js_sort: "mset (concat (map snd (js_sort cmp xs))) = mset (concat (map snd xs))"
proof -
  have "mset (concat (map snd ys)) = \<Sum>\<^sub># (image_mset (mset \<circ> snd) (mset ys))" for ys :: "('b \<times> 'a list) list"
    by (induction ys) auto
  from this [of "js_sort cmp xs"] this [of xs] show ?thesis by simp
qed

text \<open>Every compiled test below the directories is run, once.\<close>

lemma all_tests_run:
  "mset (test_files lc p x) = mset (filter (suffix ''.test.js'') (file_paths p x))"
  "mset (concat (map snd (test_entries lc p es))) = mset (filter (suffix ''.test.js'') (entry_paths p es))"
  by (induction p x and p es rule: file_paths_entry_paths.induct) (auto simp: mset_concat_js_sort)

end
