(* ===== verification/Host_Adapters.thy ===== *)
theory Host_Adapters
  imports Platform Pick_Files Web_Drop Updater
begin

text \<open>
  The layer between the screens and the host: the wrapper of the native plugin (\<open>plugins/nativeUtils.ts\<close>), the
  remaining adapters of \<open>lib/platform-api.ts\<close>, the window listeners of \<open>hooks/useDragDrop.ts\<close>, the icon of a
  file (\<open>lib/fileIcons.tsx\<close>), the navigation of the settings (\<open>setting-sidebar\<close>, \<open>routes/routes.tsx\<close>), the root
  layout and small host queries (\<open>use-windows-portable.ts\<close>, \<open>use-mobile.ts\<close>, \<open>router-basename.ts\<close>,
  \<open>openExternalUrl.ts\<close>, \<open>platformStyles.ts\<close>).

  What the native side answers is the argument of the continuation that receives it.
\<close>

section \<open>The native plugin\<close>

text \<open>
  \<open>FileSelectedHandler\<close>: the calls of \<open>cancel_job\<close> that were made and those not answered yet. \<open>active\<close> is
  cleared only after a call succeeded.
\<close>

record FileSelectedHandler =
  fh_active :: bool
  fh_calls :: nat
  fh_pending :: nat

definition new_handler :: FileSelectedHandler where
  "new_handler = \<lparr>fh_active = True, fh_calls = 0, fh_pending = 0\<rparr>"

datatype handler_event = CancelJob | CancelAnswer bool

definition cancelJob :: "FileSelectedHandler \<Rightarrow> FileSelectedHandler" where
  "cancelJob h = (if \<not> fh_active h then h else h\<lparr>fh_calls := fh_calls h + 1, fh_pending := fh_pending h + 1\<rparr>)"

definition cancel_answer :: "bool \<Rightarrow> FileSelectedHandler \<Rightarrow> FileSelectedHandler" where
  "cancel_answer ok h =
     (if fh_pending h = 0 then h
      else h\<lparr>fh_pending := fh_pending h - 1, fh_active := (if ok then False else fh_active h)\<rparr>)"

fun handler_step :: "FileSelectedHandler \<Rightarrow> handler_event \<Rightarrow> FileSelectedHandler" where
  "handler_step h CancelJob = cancelJob h"
| "handler_step h (CancelAnswer ok) = cancel_answer ok h"

text \<open>
  What a function that starts a copy does: the callbacks it calls at once, and whether it returns a
  handler. \<open>selected\<close> is the answer of the dialog of the browser, \<open>response\<close> that of the plugin.
\<close>

type_synonym copy_start = "copy_message list \<times> bool"

definition picked_paths :: "picked \<Rightarrow> string list option" where
  "picked_paths p =
     (case p of PickedNone \<Rightarrow> None | PickedOne q \<Rightarrow> if q = [] then None else Some [q] | PickedMany qs \<Rightarrow> Some qs)"

definition native_copy :: "bool option result \<Rightarrow> copy_start result" where
  "native_copy response = try_bind response (\<lambda>b. Inr ([], b = Some True))"

definition selectSendDocument :: "platform_env \<Rightarrow> picked result \<Rightarrow> bool option result \<Rightarrow> copy_start result" where
  "selectSendDocument e selected response =
     (if \<not> IS_TAURI e then
        try_bind selected (\<lambda>p.
          case picked_paths p of
            None \<Rightarrow> Inr ([], False)
          | Some paths \<Rightarrow> Inr (concat (map (\<lambda>q. [CopyStart q 0, CopyComplete [q]]) paths), False))
      else native_copy response)"

definition selectSendFolder :: "platform_env \<Rightarrow> picked result \<Rightarrow> bool option result \<Rightarrow> copy_start result" where
  "selectSendFolder e selected response =
     (if \<not> IS_TAURI e then
        try_bind selected (\<lambda>p.
          case picked_paths p of
            Some (q # _) \<Rightarrow> Inr (if q = [] then [] else [CopyStart q 0, CopyComplete [q]], False)
          | _ \<Rightarrow> Inr ([], False))
      else native_copy response)"

definition consumeShareIntent :: "platform_env \<Rightarrow> bool option result \<Rightarrow> copy_start result" where
  "consumeShareIntent e response = (if \<not> IS_TAURI e then Inr ([], False) else native_copy response)"

text \<open>The folder for received files: its URI and the path shown.\<close>

definition selectDownloadFolder ::
    "platform_env \<Rightarrow> string option result \<Rightarrow> (string \<times> string) option result \<Rightarrow> (string \<times> string) option result" where
  "selectDownloadFolder e browser native =
     (if \<not> IS_TAURI e
      then try_bind browser (\<lambda>p. Inr (case p of None \<Rightarrow> None | Some q \<Rightarrow> if q = [] then None else Some (q, q)))
      else native)"

datatype opening_call = OpenTarget string string | OpenTreeFolder string

definition openDownloadTarget :: "platform_env \<Rightarrow> string \<Rightarrow> string option \<Rightarrow> opening_call list" where
  "openDownloadTarget e uri relativePath =
     (if \<not> IS_TAURI e then [] else [OpenTarget uri (case relativePath of None \<Rightarrow> [] | Some p \<Rightarrow> p)])"

definition openDownloadFolder :: "platform_env \<Rightarrow> string \<Rightarrow> opening_call list" where
  "openDownloadFolder e treeUri = (if \<not> IS_TAURI e then [] else [OpenTreeFolder treeUri])"

section \<open>Adapters of the platform\<close>

text \<open>The two ways to listen: on the event bus of the page, or through the native runtime.\<close>

datatype subscription = OnWebBus string | OnNative string

definition listen :: "platform_env \<Rightarrow> string \<Rightarrow> subscription" where
  "listen e event = (if IS_WEB e then OnWebBus event else OnNative event)"

text \<open>
  \<open>opened\<close> says whether the plugin could be loaded and subscribed to, \<open>current\<close> is what \<open>getCurrent\<close> gives. The
  result is the links handled at once, and whether later links are handled.
\<close>

definition listenForReceiveLinks :: "platform_env \<Rightarrow> string \<Rightarrow> unit result \<Rightarrow> string list option result \<Rightarrow> string list \<times> bool" where
  "listenForReceiveLinks e href opened current =
     (if IS_WEB e then ([href], False)
      else
        (case opened of
           Inl _ \<Rightarrow> ([href], False)
         | Inr _ \<Rightarrow> ([href] @ (case current of Inr (Some urls) \<Rightarrow> urls | _ \<Rightarrow> []), True)))"

definition openDialog :: "platform_env \<Rightarrow> picked result \<Rightarrow> picked \<Rightarrow> picked result" where
  "openDialog e native browser = (if IS_TAURI e then native else Inr browser)"

definition saveDialog :: "platform_env \<Rightarrow> string option result \<Rightarrow> string option result" where
  "saveDialog e native = (if IS_TAURI e then native else Inr None)"

definition revealItemInDir :: "platform_env \<Rightarrow> unit result \<Rightarrow> unit result" where
  "revealItemInDir e native = (if IS_TAURI e then native else Inr ())"

text \<open>The stub of the browser does nothing: its calls answer at once and its listeners are never called.\<close>

datatype host_window = NativeWindow | WebWindowStub

definition getCurrentWindow :: "platform_env \<Rightarrow> host_window" where
  "getCurrentWindow e = (if IS_TAURI e then NativeWindow else WebWindowStub)"

text \<open>\<open>openExternalUrl\<close>, with the click handler that swallows its failure.\<close>

datatype opened_url = OpenUrl string | WindowOpen string

definition openExternalUrl :: "platform_env \<Rightarrow> string \<Rightarrow> opened_url" where
  "openExternalUrl e url = (if IS_TAURI e then OpenUrl url else WindowOpen url)"

definition getRouterBasename :: "string option \<Rightarrow> string option" where
  "getRouterBasename base =
     (case base of
        None \<Rightarrow> None
      | Some b \<Rightarrow> if b = [] \<or> b = ''/'' then None else if last b = CHR ''/'' then Some (butlast b) else Some b)"

definition isWindowsPortableBuild :: "platform_env \<Rightarrow> bool result \<Rightarrow> bool result" where
  "isWindowsPortableBuild e native =
     (if IS_WEB e \<or> \<not> IS_TAURI e \<or> \<not> IS_WINDOWS e then Inr False
      else (case native of Inl _ \<Rightarrow> Inr False | Inr b \<Rightarrow> Inr b))"

definition useIsWindowsPortable :: "platform_env \<Rightarrow> bool result \<Rightarrow> bool result" where
  "useIsWindowsPortable e native = (if IS_WEB e \<or> \<not> IS_TAURI e \<or> \<not> IS_WINDOWS e then Inr False else native)"

definition MOBILE_BREAKPOINT :: int where
  "MOBILE_BREAKPOINT = 768"

text \<open>\<open>isMobile\<close> is undefined until the effect has run.\<close>

definition useIsMobile :: "int option \<Rightarrow> bool" where
  "useIsMobile innerWidth = (case innerWidth of None \<Rightarrow> False | Some w \<Rightarrow> w < MOBILE_BREAKPOINT)"

definition getPlatformAlpha :: "platform_env \<Rightarrow> rat" where
  "getPlatformAlpha e = (if \<not> IS_TAURI e then 1 else if IS_MACOS e then 4 / 10 else 1)"

section \<open>The node, when the app starts\<close>

text \<open>
  The other effects of \<open>DeviceNodeSync\<close>, beside the push of the relay: the data of the pairing is read each time the node becomes
  ready, a declined invite is told and an expired pairing window asks for the status again.
\<close>

record device_node_sync =
  dns_ready :: bool                  \<comment> \<open>the value of \<open>isNodeReady\<close> the effect ran for\<close>
  dns_hydrates :: nat
  dns_refreshes :: nat
  dns_toasts :: "string option list"    \<comment> \<open>\<^const>\<open>None\<close>: the name is not known\<close>

definition DeviceNodeSync :: device_node_sync where
  "DeviceNodeSync = \<lparr>dns_ready = False, dns_hydrates = 0, dns_refreshes = 0, dns_toasts = []\<rparr>"

definition hydrate_effect :: "bool \<Rightarrow> device_node_sync \<Rightarrow> device_node_sync" where
  "hydrate_effect ready s =
     (if ready = dns_ready s then s
      else s\<lparr>dns_ready := ready, dns_hydrates := (if ready then dns_hydrates s + 1 else dns_hydrates s)\<rparr>)"

text \<open>The event of an invite that was answered: response and name of the peer, \<^const>\<open>None\<close> if it does not parse.\<close>

definition declined_name :: "(string \<times> string option) option \<Rightarrow> string option option" where
  "declined_name payload =
     (case payload of
        None \<Rightarrow> None
      | Some (response, name) \<Rightarrow>
          if response \<noteq> ''declined'' then None
          else
            (let n = js_trim (case name of None \<Rightarrow> [] | Some t \<Rightarrow> t) in
             Some (if n = [] then None else Some n)))"

datatype device_sync_event = DsReady bool | DsResponse "(string \<times> string option) option" | DsHostExpired

fun device_sync_step :: "device_node_sync \<Rightarrow> device_sync_event \<Rightarrow> device_node_sync" where
  "device_sync_step s (DsReady r) = hydrate_effect r s"
| "device_sync_step s (DsResponse p) =
     (case declined_name p of None \<Rightarrow> s | Some n \<Rightarrow> s\<lparr>dns_toasts := dns_toasts s @ [n]\<rparr>)"
| "device_sync_step s DsHostExpired = s\<lparr>dns_refreshes := dns_refreshes s + 1\<rparr>"

section \<open>Listeners of the window\<close>

text \<open>
  The effect of \<open>useDragDrop\<close> first waits for the window, then asks for its three listeners at once; they are
  answered in any order, each with its own failure. \<open>wl_window\<close> says whether the window was there.
\<close>

record window_listeners =
  wl_disposed :: bool
  wl_window :: bool
  wl_waiting :: "nat list"
  wl_slots :: "nat list"
  wl_attached :: "nat list"

definition mount_window :: window_listeners where
  "mount_window = \<lparr>wl_disposed = False, wl_window = False, wl_waiting = [], wl_slots = [], wl_attached = []\<rparr>"

datatype window_event = WWindow | WAnswer nat bool | WUnmount

definition setupWindowListeners :: "window_listeners \<Rightarrow> window_listeners" where
  "setupWindowListeners s =
     (if wl_window s then s
      else if wl_disposed s then s\<lparr>wl_window := True\<rparr>
      else s\<lparr>wl_window := True, wl_waiting := [0, 1, 2]\<rparr>)"

definition window_answer :: "nat \<Rightarrow> bool \<Rightarrow> window_listeners \<Rightarrow> window_listeners" where
  "window_answer k ok s =
     (if k \<notin> set (wl_waiting s) then s
      else
        (let s1 = s\<lparr>wl_waiting := removeAll k (wl_waiting s)\<rparr> in
         if \<not> ok then s1
         else
           (let s2 = s1\<lparr>wl_attached := wl_attached s1 @ [k]\<rparr> in
            if wl_disposed s2 then s2\<lparr>wl_attached := removeAll k (wl_attached s2)\<rparr>
            else s2\<lparr>wl_slots := wl_slots s2 @ [k]\<rparr>)))"

definition unmount_window :: "window_listeners \<Rightarrow> window_listeners" where
  "unmount_window s =
     (if wl_disposed s then s
      else s\<lparr>wl_disposed := True, wl_attached := filter (\<lambda>k. k \<notin> set (wl_slots s)) (wl_attached s)\<rparr>)"

fun window_step :: "window_listeners \<Rightarrow> window_event \<Rightarrow> window_listeners" where
  "window_step s WWindow = setupWindowListeners s"
| "window_step s (WAnswer k ok) = window_answer k ok s"
| "window_step s WUnmount = unmount_window s"

text \<open>The handler that keeps the browser from opening files dropped outside the drop zone: whether the default is prevented.\<close>

definition rejectWindowFileDrop :: "platform_env \<Rightarrow> string list option \<Rightarrow> bool" where
  "rejectWindowFileDrop e types \<longleftrightarrow> IS_WEB e \<and> (case types of None \<Rightarrow> False | Some ts \<Rightarrow> ''Files'' \<in> set ts)"

section \<open>Icons\<close>

datatype file_icon =
  FolderIcon | DocIcon | XlsxIcon | PptIcon | PdfIcon | JsonIcon | TxtIcon | ZipIcon | ImageIcon | VideoIcon | DefaultFileIcon

definition file_ext :: "string option \<Rightarrow> string" where
  "file_ext fileName = (case fileName of None \<Rightarrow> [] | Some n \<Rightarrow> js_lower (last (js_split (CHR ''.'') n)))"

definition getPreviewFileIcon :: "string option \<Rightarrow> string option \<Rightarrow> file_icon" where
  "getPreviewFileIcon mimeType fileName =
     (let ext = file_ext fileName;
          has = (\<lambda>t. case mimeType of None \<Rightarrow> False | Some m \<Rightarrow> js_includes m t);
          starts = (\<lambda>t. case mimeType of None \<Rightarrow> False | Some m \<Rightarrow> js_starts_with m t) in
      if mimeType = Some ''application/x-iroh-collection'' \<or> mimeType = Some ''inode/directory'' then FolderIcon
      else if has ''word'' \<or> has ''document'' \<or> ext \<in> set [''doc'', ''docx''] then DocIcon
      else if has ''sheet'' \<or> has ''excel'' \<or> has ''csv'' \<or> ext \<in> set [''xls'', ''xlsx'', ''csv''] then XlsxIcon
      else if has ''presentation'' \<or> has ''powerpoint'' \<or> ext \<in> set [''ppt'', ''pptx''] then PptIcon
      else if mimeType = Some ''application/pdf'' \<or> ext = ''pdf'' then PdfIcon
      else if mimeType = Some ''application/json'' \<or> ext = ''json'' then JsonIcon
      else if starts ''text/'' \<or> ext = ''txt'' then TxtIcon
      else if has ''zip'' \<or> has ''tar'' \<or> has ''rar'' \<or> has ''7z'' \<or> has ''gzip'' \<or> ext \<in> set [''zip'', ''rar'', ''7z'', ''tar'', ''gz'']
      then ZipIcon
      else if starts ''image/'' then ImageIcon
      else if starts ''video/'' \<or>
        ext \<in> set [''mp4'', ''mov'', ''avi'', ''mkv'', ''webm'', ''m4v'', ''wmv'', ''flv'', ''mpeg'', ''mpg'', ''3gp'', ''ogv'']
      then VideoIcon
      else DefaultFileIcon)"

section \<open>Pages\<close>

datatype page_component =
    IndexPage | HistoryScreen | SettingGeneralPage | SettingsPage | SettingNetworkPage | SettingDevicesPage
  | NavigateTo string | NotFoundPage

text \<open>The routes below the root layout, with their whole paths; every other path is the page that is not found.\<close>

definition routers :: "(string \<times> page_component) list" where
  "routers =
     [(''/'', IndexPage), (''/receive'', IndexPage), (''/history'', HistoryScreen), (''/settings'', SettingGeneralPage),
      (''/settings/appearance'', SettingsPage), (''/settings/general'', NavigateTo ''/settings''),
      (''/settings/network'', SettingNetworkPage), (''/settings/devices'', SettingDevicesPage)]"

record nav_item =
  ni_label :: string
  ni_to :: string
  ni_disable :: bool

definition settingSidebarConfig :: "nav_item list" where
  "settingSidebarConfig =
     [\<lparr>ni_label = ''General'', ni_to = '''', ni_disable = False\<rparr>,
      \<lparr>ni_label = ''Devices'', ni_to = ''devices'', ni_disable = False\<rparr>,
      \<lparr>ni_label = ''Infra'', ni_to = ''network'', ni_disable = False\<rparr>,
      \<lparr>ni_label = ''Language & Display'', ni_to = ''appearance'', ni_disable = False\<rparr>]"

definition settingsNavValue :: "string \<Rightarrow> string" where
  "settingsNavValue to = js_or to ''general''"

definition nav_path :: "string \<Rightarrow> string" where
  "nav_path to = (if to \<noteq> [] then ''/settings/'' @ to else ''/settings'')"

text \<open>\<open>matchPath\<close> of the router is a parameter: whether a path without parameters matches a location.\<close>

definition useActiveSettingsNavValue :: "(string \<Rightarrow> string \<Rightarrow> bool) \<Rightarrow> nav_item list \<Rightarrow> string \<Rightarrow> string" where
  "useActiveSettingsNavValue matchPath items pathname =
     (case find (\<lambda>i. matchPath (nav_path (ni_to i)) pathname) items of
        None \<Rightarrow> settingsNavValue []
      | Some i \<Rightarrow> settingsNavValue (ni_to i))"

text \<open>A click on an entry: whether the link is followed, and the drawer of small screens afterwards.\<close>

definition nav_click :: "bool \<Rightarrow> nav_item \<Rightarrow> bool \<Rightarrow> bool \<times> bool" where
  "nav_click isMobile item openMobile =
     (if ni_disable item then (False, openMobile) else (True, if isMobile then False else openMobile))"

datatype mounted =
    MAppUpdater | MWindowsContextMenuSync | MDeviceNodeSync | MPairedInviteDialog | MNearbyInviteDialog
  | MNearbyPairRequestDialog | MNearbyVerificationDialog | MTitleBar | MDragRegion | MAppFooter

text \<open>\<open>portable\<close> is what the query of the portable build has answered: nothing yet, a failure, or a value.\<close>

definition RootLayout :: "platform_env \<Rightarrow> bool result option \<Rightarrow> mounted list" where
  "RootLayout e portable =
     (let isWindowsPortable = (case portable of Some (Inr b) \<Rightarrow> b | _ \<Rightarrow> False) in
      (if IS_UPDATER_AVAILABLE e \<and> \<not> isWindowsPortable then [MAppUpdater] else []) @
      (if IS_WINDOWS e then [MWindowsContextMenuSync] else []) @
      (if IS_PAIRING_CAPABLE e
       then [MDeviceNodeSync, MPairedInviteDialog, MNearbyInviteDialog, MNearbyPairRequestDialog, MNearbyVerificationDialog]
       else []) @
      (if IS_LINUX e \<and> \<not> IS_ANDROID e then [MTitleBar] else []) @
      (if IS_MACOS e then [MDragRegion] else []) @ [MAppFooter])"

section \<open>Properties\<close>

subsection \<open>Cancelling a copy\<close>

definition handler_inv :: "FileSelectedHandler \<Rightarrow> bool" where
  "handler_inv h \<longleftrightarrow> fh_pending h \<le> fh_calls h \<and> (fh_active h \<or> 0 < fh_calls h)"

interpretation handler_machine: state_machine new_handler handler_step handler_inv
proof
  show "handler_inv new_handler" by (simp add: handler_inv_def new_handler_def)
  show "handler_inv h \<Longrightarrow> handler_inv (handler_step h e)" for h e
    by (cases e) (auto simp: handler_inv_def cancelJob_def cancel_answer_def)
qed

lemma inactive_step: "\<not> fh_active h \<Longrightarrow> \<not> fh_active (handler_step h e) \<and> fh_calls (handler_step h e) = fh_calls h"
  by (cases e) (simp_all add: cancelJob_def cancel_answer_def)

text \<open>
  A job that was cancelled is not cancelled again: after a call that succeeded no other call is made. A job is
  inactive only if some call was made, and a call that fails leaves it active, so that cancelling can be tried again.
\<close>

theorem cancelled_job_stays:
  fixes es :: "handler_event list" and h :: FileSelectedHandler
  defines "h \<equiv> run_ops handler_step new_handler es"
  shows "(\<not> fh_active h \<longrightarrow> 0 < fh_calls h \<and> fh_calls (run_ops handler_step h es') = fh_calls h) \<and>
    fh_active (cancel_answer False h) = fh_active h \<and> (0 < fh_pending h \<longrightarrow> \<not> fh_active (cancel_answer True h))"
proof -
  have inv: "handler_inv h" unfolding h_def by (rule handler_machine.reachable_inv)
  have "\<not> fh_active g \<Longrightarrow> fh_calls (run_ops handler_step g es') = fh_calls g" for g
    by (induction es' arbitrary: g) (use inactive_step in auto)
  then show ?thesis using inv by (auto simp: handler_inv_def cancel_answer_def)
qed

lemma document_messages:
  "selectedPaths (pk_sender (foldl (\<lambda>s m. on_copy_message env k ty False m s) s
      (concat (map (\<lambda>q. [CopyStart q 0, CopyComplete [q]]) qs)))) = foldl js_set_add (selectedPaths (pk_sender s)) qs"
proof (induction qs arbitrary: s)
  case (Cons q qs)
  have "selectedPaths (pk_sender (on_copy_message env k ty False (CopyComplete [q]) (on_copy_message env k ty False (CopyStart q 0) s))) =
      js_set_add (selectedPaths (pk_sender s)) q"
    by (simp add: on_copy_message_def triggerFilesSelect_def copy_idle_def select_adds)
  then show ?case using Cons by simp
qed simp

text \<open>
  In the browser, choosing documents or a folder through the wrapper of the plugin selects the same files as the
  dialogs of the hook.
\<close>

theorem web_choice_same:
  assumes "\<not> IS_TAURI e"
  shows "selectSendDocument e (Inr p) r = Inr (ms, job) \<Longrightarrow>
      selectedPaths (pk_sender (foldl (\<lambda>s m. on_copy_message env k HFile False m s) s ms)) =
      selectedPaths (pk_sender (browseFile env (Inr (picked_paths p)) s))"
    and "selectSendFolder e (Inr p) r = Inr (ms, job) \<Longrightarrow>
      selectedPaths (pk_sender (foldl (\<lambda>s m. on_copy_message env k HDirectory False m s) s ms)) =
      selectedPaths (pk_sender (browseFolder env (Inr (picked_paths p)) s))"
proof -
  have trigger: "selectedPaths (pk_sender (triggerFilesSelect qs ty s)) = foldl js_set_add (selectedPaths (pk_sender s)) qs" for qs ty
    by (simp add: triggerFilesSelect_def select_adds)
  show "selectedPaths (pk_sender (foldl (\<lambda>s m. on_copy_message env k HFile False m s) s ms)) =
      selectedPaths (pk_sender (browseFile env (Inr (picked_paths p)) s))"
    if "selectSendDocument e (Inr p) r = Inr (ms, job)"
    using that assms document_messages [of env k HFile s]
    by (auto simp: selectSendDocument_def browseFile_def trigger split: option.splits)
  show "selectedPaths (pk_sender (foldl (\<lambda>s m. on_copy_message env k HDirectory False m s) s ms)) =
      selectedPaths (pk_sender (browseFolder env (Inr (picked_paths p)) s))"
    if "selectSendFolder e (Inr p) r = Inr (ms, job)"
    using that assms document_messages [of env k HDirectory s "[hd (the (picked_paths p))]"]
    by (auto simp: selectSendFolder_def browseFolder_def trigger split: option.splits list.splits)
qed

text \<open>
  Cancelling closes the dialog of a copy whatever the native side does, and what the copy still delivers is selected: there
  is no mark of a cancelled copy in the callbacks.
\<close>

lemma cancelled_copy_selected:
  assumes "cancelRef s = Some k" "paths \<noteq> []"
  shows "\<not> isCopying (cancelCopy s) \<and> cancelRef (cancelCopy s) = None \<and>
    set paths \<subseteq> set (selectedPaths (pk_sender (on_copy_message env k ty False (CopyComplete paths) (cancelCopy s))))"
proof -
  have "selectedPaths (pk_sender (on_copy_message env k ty False (CopyComplete paths) (cancelCopy s))) =
      foldl js_set_add (selectedPaths (pk_sender s)) paths"
    using assms by (simp add: on_copy_message_def cancelCopy_def copy_idle_def triggerFilesSelect_def select_adds)
  moreover have "set qs \<subseteq> set (foldl js_set_add xs qs) \<and> set xs \<subseteq> set (foldl js_set_add xs qs)" for xs qs :: "string list"
  proof (induction qs arbitrary: xs)
    case (Cons q qs)
    from this [of "js_set_add xs q"] show ?case by (auto simp: js_set_add_def)
  qed simp
  ultimately show ?thesis using assms by (simp add: cancelCopy_def copy_idle_def)
qed

subsection \<open>The node\<close>

interpretation device_sync_machine: state_machine DeviceNodeSync device_sync_step "\<lambda>s. dns_ready s \<longrightarrow> 0 < dns_hydrates s"
proof
  show "dns_ready DeviceNodeSync \<longrightarrow> 0 < dns_hydrates DeviceNodeSync" by (simp add: DeviceNodeSync_def)
  show "dns_ready s \<longrightarrow> 0 < dns_hydrates s \<Longrightarrow>
      dns_ready (device_sync_step s e) \<longrightarrow> 0 < dns_hydrates (device_sync_step s e)" for s e
    by (cases e) (auto simp: hydrate_effect_def split: option.splits)
qed

text \<open>While the node is ready its pairing data has been asked for, and the toasts are those of the declined invites, in order.\<close>

theorem started_node:
  fixes es :: "device_sync_event list"
  defines "s \<equiv> run_ops device_sync_step DeviceNodeSync es"
  shows "(dns_ready s \<longrightarrow> 0 < dns_hydrates s) \<and>
    dns_toasts s = List.map_filter (\<lambda>e. case e of DsResponse p \<Rightarrow> declined_name p | _ \<Rightarrow> None) es"
proof -
  have "dns_toasts (run_ops device_sync_step t es) =
      dns_toasts t @ List.map_filter (\<lambda>e. case e of DsResponse p \<Rightarrow> declined_name p | _ \<Rightarrow> None) es" for t
  proof (induction es arbitrary: t)
    case (Cons e es)
    show ?case
      by (cases e) (auto simp: Cons map_filter_simps hydrate_effect_def split: option.splits)
  qed (simp add: map_filter_simps)
  then show ?thesis unfolding s_def using device_sync_machine.reachable_inv [of es] by (simp add: DeviceNodeSync_def)
qed

subsection \<open>Listeners of the window\<close>

definition window_inv :: "window_listeners \<Rightarrow> bool" where
  "window_inv s \<longleftrightarrow>
     set (wl_waiting s) \<subseteq> {0, 1, 2} \<and> distinct (wl_attached s) \<and>
     set (wl_waiting s) \<inter> set (wl_attached s) = {} \<and> set (wl_attached s) \<subseteq> {0, 1, 2} \<and>
     (\<not> wl_window s \<longrightarrow> wl_waiting s = [] \<and> wl_attached s = []) \<and>
     (if wl_disposed s then wl_attached s = [] else wl_slots s = wl_attached s)"

interpretation window_machine: state_machine mount_window window_step window_inv
proof
  show "window_inv mount_window" by (simp add: window_inv_def mount_window_def)
  show "window_inv (window_step s e)" if inv: "window_inv s" for s e
  proof (cases e)
    case (WAnswer k ok)
    show ?thesis
    proof (cases "k \<in> set (wl_waiting s)")
      case True
      then have "k \<in> {0, 1, 2}" "k \<notin> set (wl_attached s)" "wl_window s" using inv by (auto simp: window_inv_def)
      then show ?thesis using inv True unfolding WAnswer
        by (cases ok; cases "wl_disposed s") (auto simp: window_inv_def window_answer_def Let_def)
    qed (use inv WAnswer in \<open>simp add: window_answer_def\<close>)
  qed (use inv in \<open>auto simp: window_inv_def setupWindowListeners_def unmount_window_def\<close>)
qed

text \<open>
  The drop zone of the desktop leaves no listener behind: whenever the window comes and in whatever order its
  listeners are answered, a component that is gone has none, and one that is there holds a way to remove each of
  those it has, at most one of each kind.
\<close>

theorem window_listeners_removed:
  fixes es :: "window_event list"
  defines "s \<equiv> run_ops window_step mount_window es"
  shows "if wl_disposed s then wl_attached s = [] else wl_slots s = wl_attached s \<and> distinct (wl_attached s) \<and> set (wl_attached s) \<subseteq> {0, 1, 2}"
proof -
  have "window_inv s" unfolding s_def by (rule window_machine.reachable_inv)
  then show ?thesis by (simp add: window_inv_def)
qed

subsection \<open>Icons and pages\<close>

text \<open>
  The types of the documents of office programs contain the word \<open>document\<close>, which is tested first: a spreadsheet or a
  presentation is shown as a text document, whatever its name. By its name alone it gets its own icon.
\<close>

lemma office_shown_as_document:
  "getPreviewFileIcon (Some ''application/vnd.openxmlformats-officedocument.spreadsheetml.sheet'') n = DocIcon"
  "getPreviewFileIcon (Some ''application/vnd.openxmlformats-officedocument.presentationml.presentation'') n = DocIcon"
  "getPreviewFileIcon None (Some ''report.xlsx'') = XlsxIcon" "getPreviewFileIcon None (Some ''talk.pptx'') = PptIcon"
proof -
  have "js_includes ''application/vnd.openxmlformats-officedocument.spreadsheetml.sheet'' ''document''"
    "js_includes ''application/vnd.openxmlformats-officedocument.presentationml.presentation'' ''document''"
    by code_simp+
  then show "getPreviewFileIcon (Some ''application/vnd.openxmlformats-officedocument.spreadsheetml.sheet'') n = DocIcon"
    "getPreviewFileIcon (Some ''application/vnd.openxmlformats-officedocument.presentationml.presentation'') n = DocIcon"
    unfolding getPreviewFileIcon_def Let_def by simp_all
  show "getPreviewFileIcon None (Some ''report.xlsx'') = XlsxIcon" "getPreviewFileIcon None (Some ''talk.pptx'') = PptIcon"
    by code_simp+
qed

text \<open>
  Every entry of the sidebar leads to a page of its own, none of them a redirect, and is the one that is highlighted
  there, provided the router tells the paths of the entries apart.
\<close>

theorem sidebar_entries:
  assumes "\<And>i j. i \<in> set settingSidebarConfig \<Longrightarrow> j \<in> set settingSidebarConfig \<Longrightarrow>
      matchPath (nav_path (ni_to i)) (nav_path (ni_to j)) = (ni_to i = ni_to j)"
  shows "distinct (map (\<lambda>i. map_of routers (nav_path (ni_to i))) settingSidebarConfig) \<and>
    (\<forall>i \<in> set settingSidebarConfig.
      useActiveSettingsNavValue matchPath settingSidebarConfig (nav_path (ni_to i)) = settingsNavValue (ni_to i) \<and>
      (\<exists>p. map_of routers (nav_path (ni_to i)) = Some p \<and> (\<forall>q. p \<noteq> NavigateTo q)))"
proof -
  have routed: "map (\<lambda>i. map_of routers (nav_path (ni_to i))) settingSidebarConfig =
      [Some SettingGeneralPage, Some SettingDevicesPage, Some SettingNetworkPage, Some SettingsPage]"
    by code_simp
  have "map_of routers (nav_path (ni_to i)) \<in> set [Some SettingGeneralPage, Some SettingDevicesPage, Some SettingNetworkPage, Some SettingsPage]"
    if "i \<in> set settingSidebarConfig" for i
    using that unfolding routed [symmetric] by simp
  moreover have "useActiveSettingsNavValue matchPath settingSidebarConfig (nav_path (ni_to j)) = settingsNavValue (ni_to j)"
    if j: "j \<in> set settingSidebarConfig" for j
  proof -
    have "find (\<lambda>i. matchPath (nav_path (ni_to i)) (nav_path (ni_to j))) settingSidebarConfig =
        find (\<lambda>i. ni_to i = ni_to j) settingSidebarConfig"
      using assms j by (intro find_cong) auto
    moreover have "\<exists>i. find (\<lambda>i. ni_to i = ni_to j) settingSidebarConfig = Some i"
      using j find_None_iff [of "\<lambda>i. ni_to i = ni_to j" settingSidebarConfig] by (metis option.exhaust)
    ultimately obtain i where "find (\<lambda>i. matchPath (nav_path (ni_to i)) (nav_path (ni_to j))) settingSidebarConfig = Some i" "ni_to i = ni_to j"
      by (auto simp: find_Some_iff)
    then show ?thesis by (simp add: useActiveSettingsNavValue_def)
  qed
  ultimately show ?thesis unfolding routed by fastforce
qed

text \<open>In the browser nothing that needs the native side is mounted.\<close>

lemma web_root_plain: "\<not> IS_TAURI e \<Longrightarrow> RootLayout e portable = [MAppFooter]"
  by (simp add: RootLayout_def platform_defs Let_def)

text \<open>
  A portable build never updates itself: once the marker was reported, the updater is not mounted, and every check,
  also one that began before, finds no update, so that there is nothing to install.
\<close>

theorem portable_never_updates:
  assumes "IS_WINDOWS e" "\<not> IS_MOBILE e"
  shows "MAppUpdater \<notin> set (RootLayout e (Some (useIsWindowsPortable e (Inr True)))) \<and>
    checkForUpdate (IS_MOBILE e) enabled (IS_WEB e) flatpak android (isWindowsPortableBuild e (Inr True)) plugin = Inr None"
  using assms by (auto simp: RootLayout_def useIsWindowsPortable_def isWindowsPortableBuild_def checkForUpdate_def try_bind_def
      IS_WEB_def IS_WINDOWS_def Let_def)

end
