(* ===== verification/Screen_Views.thy ===== *)
theory Screen_Views
  imports History_Page Devices_Screen
begin

text \<open>
  What the history page and the devices page show: the markup of \<open>routes/history.tsx\<close>,
  \<open>components/history/TransferHistoryRow.tsx\<close> and \<open>components/settings/devices/devices-settings.tsx\<close>, as data.

  A view lists the controls that are on the screen, each with whether it can be used, and the texts that depend on the
  state; layout, icons and fixed captions are left out. A control has the event its click is, so that what is
  offered can be compared with what the operations of \<open>History_Page\<close> and \<open>Devices_Screen\<close> do.
\<close>

section \<open>The history\<close>

definition default_size :: "nat \<Rightarrow> string" where
  "default_size n = formatFileSize ''0 B'' 0 1 n"

datatype badge_variant = BSecondary | BDestructive | BOutline

definition STATUS_VARIANT :: "TransferHistoryStatus \<Rightarrow> badge_variant" where
  "STATUS_VARIANT st =
     (case st of HCompleted \<Rightarrow> BSecondary | HFailed \<Rightarrow> BDestructive | HCancelled \<Rightarrow> BOutline | HInterrupted \<Rightarrow> BDestructive
      | HInProgress \<Rightarrow> BOutline)"

text \<open>A detail of an expanded row: whether it spans both columns and whether the remove button is at its end.\<close>

record detail_view =
  dv_key :: string
  dv_value :: row_text
  dv_wide :: bool
  dv_remove :: bool

definition detail_wide :: "string \<Rightarrow> bool" where
  "detail_wide key \<longleftrightarrow> key \<in> set [''savedTo'', ''conflicts'', ''error'']"

definition detail_entry :: "nat \<Rightarrow> nat \<Rightarrow> string \<times> row_text \<Rightarrow> detail_view" where
  "detail_entry n index d =
     (let isLast = (Suc index = n) in
      \<lparr>dv_key = fst d, dv_value = snd d, dv_wide = (detail_wide (fst d) \<or> (isLast \<and> index mod 2 = 0)), dv_remove = isLast\<rparr>)"

text \<open>The open part of a row: its details, or the remove button on a line of its own.\<close>

datatype row_panel = Collapsed | Details "detail_view list" | RemoveLine

definition row_panel_of :: "bool \<Rightarrow> bool \<Rightarrow> TransferRecord \<Rightarrow> row_panel" where
  "row_panel_of expanded android r =
     (let details = row_details android r in
      if \<not> expanded then Collapsed
      else if details \<noteq> [] then Details (map2 (detail_entry (length details)) [0..<length details] details)
      else RemoveLine)"

record row_view =
  rv_sent :: bool
  rv_title :: row_text
  rv_badge :: badge_variant
  rv_icon :: device_icon
  rv_peer :: row_text
  rv_age :: "int \<times> time_unit"
  rv_size :: string
  rv_clear :: "string option"        \<comment> \<open>the button that clears partial data, with its size\<close>
  rv_open :: bool                    \<comment> \<open>the open button is there\<close>
  rv_panel :: row_panel

definition TransferHistoryRow ::
    "nat \<Rightarrow> bool \<Rightarrow> bool \<Rightarrow> KnownDevice list \<Rightarrow> TransferTempData option \<Rightarrow> TransferRecord \<Rightarrow> row_view" where
  "TransferHistoryRow now android expanded known temp r =
     \<lparr>rv_sent = (h_direction r = HSend), rv_title = row_title r, rv_badge = STATUS_VARIANT (h_status r),
      rv_icon = deviceTypeIcon (Option.bind (h_peer r) hp_deviceType), rv_peer = row_peer r known,
      rv_age = useRelativeTime now (h_startedAt r), rv_size = default_size (h_payloadBytes r),
      rv_clear = (case temp of Some d \<Rightarrow> if td_exists d then Some (default_size (td_sizeBytes d)) else None | None \<Rightarrow> None),
      rv_open = canOpenTransfer (h_saveUri r) (h_savePath r), rv_panel = row_panel_of expanded android r\<rparr>"

definition removes_in :: "row_panel \<Rightarrow> nat" where
  "removes_in p = (case p of Collapsed \<Rightarrow> 0 | Details ds \<Rightarrow> length (filter dv_remove ds) | RemoveLine \<Rightarrow> 1)"

text \<open>The main part of the page, its dialogs and its controls.\<close>

datatype history_body = HbLoading | HbEmpty string | HbRows "row_view list"

definition history_body_of :: "nat \<Rightarrow> bool \<Rightarrow> (string \<Rightarrow> bool) \<Rightarrow> history_page \<Rightarrow> history_body" where
  "history_body_of now android expanded s =
     (if hp_isLoading s then HbLoading
      else if visible_rows s = [] then
        HbEmpty (if hp_status s = FAll then ''common:history.empty.description'' else ''common:history.empty.filtered'')
      else HbRows (map (\<lambda>r. TransferHistoryRow now android (expanded (h_id r)) (hp_pairedDevices s) (tempData s (h_id r)) r)
             (visible_rows s)))"

definition remove_warning :: "history_page \<Rightarrow> row_text option" where
  "remove_warning s =
     map_option (\<lambda>r. case tempData s (h_id r) of
        Some d \<Rightarrow> if td_exists d then RowName (default_size (td_sizeBytes d)) else RowKey ''common:history.row.removeConfirmBody''
      | None \<Rightarrow> RowKey ''common:history.row.removeConfirmBody'') (pendingRemove s)"

definition missing_path :: "bool \<Rightarrow> history_page \<Rightarrow> row_text option" where
  "missing_path android s =
     map_option (\<lambda>r. let p = formatReceiveSavePath android (h_savePath r) in
        if p \<noteq> [] then RowName p else RowKey ''common:history.row.unknownDestination'') (missingTarget s)"

datatype history_control = HcClearAll | HcClearTemp string | HcOpen TransferRecord | HcRemove TransferRecord | HcConfirmAll | HcConfirmRemove

fun control_event :: "history_control \<Rightarrow> history_event" where
  "control_event HcClearAll = HpAskClearAll True"
| "control_event (HcClearTemp i) = HpClearTemp i"
| "control_event (HcOpen r) = HpOpen r"
| "control_event (HcRemove r) = HpAskRemove (Some r)"
| "control_event HcConfirmAll = HpClearAll"
| "control_event HcConfirmRemove = HpRemove"

definition row_controls :: "(string \<Rightarrow> bool) \<Rightarrow> history_page \<Rightarrow> TransferRecord \<Rightarrow> history_control list" where
  "row_controls expanded s r =
     (case tempData s (h_id r) of Some d \<Rightarrow> if td_exists d then [HcClearTemp (h_id r)] else [] | None \<Rightarrow> []) @
     (if canOpenTransfer (h_saveUri r) (h_savePath r) then [HcOpen r] else []) @
     (if expanded (h_id r) then [HcRemove r] else [])"

text \<open>The controls on the screen. All of them are disabled while the page is busy.\<close>

definition history_controls :: "(string \<Rightarrow> bool) \<Rightarrow> history_page \<Rightarrow> history_control list" where
  "history_controls expanded s =
     (if records s \<noteq> [] then [HcClearAll] else []) @
     (if hp_isLoading s then [] else concat (map (row_controls expanded s) (visible_rows s))) @
     (if confirmClearAll s then [HcConfirmAll] else []) @
     (if pendingRemove s \<noteq> None then [HcConfirmRemove] else [])"

definition history_enabled :: "history_page \<Rightarrow> bool" where
  "history_enabled s \<longleftrightarrow> \<not> hp_isBusy s"

section \<open>The devices\<close>

record this_view =
  tv_name :: string
  tv_subtitle :: string
  tv_code :: "string option"
  tv_copy_enabled :: bool
  tv_copied :: bool
  tv_spinner :: bool
  tv_window :: "nat option"         \<comment> \<open>the seconds the pairing window stays open, with the button that closes it\<close>

record device_row_view =
  dr_id :: string
  dr_name :: string
  dr_icon :: device_icon
  dr_subtitle :: string
  dr_rename :: bool                 \<comment> \<open>the rename button is there\<close>
  dr_hint :: bool                   \<comment> \<open>the hint of a device that is no longer paired\<close>
  dr_trusted :: bool
  dr_switch :: bool                 \<comment> \<open>the trust switch can be used\<close>
  dr_remove :: bool                 \<comment> \<open>the remove button can be used\<close>

datatype devices_list = DlNone | DlNoMatch | DlRows "device_row_view list"

datatype devices_body =
    DbDesktopOnly
  | DbLoading
  | DbUnavailable "string option"
  | DbReady "this_view option" devices_list

definition this_view_of :: "devices_screen \<Rightarrow> DeviceInfo \<Rightarrow> this_view" where
  "this_view_of s d =
     (let code = (case displayPairingCode s of None \<Rightarrow> None | Some c \<Rightarrow> if c = [] then None else Some c) in
      \<lparr>tv_name = di_display_name d, tv_subtitle = deviceSubtitle (Some (di_device_type d)) (Some (di_os d)), tv_code = code,
       tv_copy_enabled = (\<not> ps_isLoading (sc_session s)), tv_copied = copied s,
       tv_spinner = (ps_isLoading (sc_session s) \<and> code = None),
       tv_window = (if hostWindowOpen s then hostExpiresIn (sc_session s) else None)\<rparr>)"

definition device_row_of :: "devices_screen \<Rightarrow> PairedDevice \<Rightarrow> device_row_view" where
  "device_row_of s d =
     (let isActive = isPairedDeviceActive d; isForgetting = (endpoint_id d \<in> set (forgettingIds s)) in
      \<lparr>dr_id = endpoint_id d, dr_name = display_name d, dr_icon = deviceTypeIcon (Some (device_type d)),
       dr_subtitle = deviceSubtitle (Some (device_type d)) (Some (os d)), dr_rename = isActive, dr_hint = (\<not> isActive),
       dr_trusted = isTrustedDevice d, dr_switch = isActive, dr_remove = (\<not> isForgetting)\<rparr>)"

definition devices_list_of :: "(string \<Rightarrow> string \<Rightarrow> int) \<Rightarrow> send_counts \<Rightarrow> devices_screen \<Rightarrow> devices_list" where
  "devices_list_of lc counts s =
     (if sortedDevices lc counts s = [] then DlNone
      else if filteredDevices lc counts s = [] then DlNoMatch
      else DlRows (map (device_row_of s) (filteredDevices lc counts s)))"

definition devices_body_of ::
    "(string \<Rightarrow> string \<Rightarrow> int) \<Rightarrow> send_counts \<Rightarrow> bool \<Rightarrow> node_state \<Rightarrow> devices_screen \<Rightarrow> devices_body" where
  "devices_body_of lc counts capable node s =
     (if \<not> capable then DbDesktopOnly
      else if isPairingDataPending capable node (sc_session s) then DbLoading
      else if \<not> isNodeReady capable node then
        DbUnavailable (case ns_reason (nodeStatus node) of None \<Rightarrow> None | Some r \<Rightarrow> if r = [] then None else Some r)
      else DbReady (map_option (this_view_of s) (thisDevice (ps_data (sc_session s)))) (devices_list_of lc counts s))"

text \<open>
  The dialogs: a dialog of a device is shown while the device is in the list. The buttons of the dialogs that join
  and rename need a text.
\<close>

definition modal_peer :: "confirm_modal \<Rightarrow> devices_screen \<Rightarrow> PairedDevice option" where
  "modal_peer m s =
     (case cm_open m of
        None \<Rightarrow> None
      | Some (e, _) \<Rightarrow> find (\<lambda>d. endpoint_id d = e) (pd_devices (ps_data (sc_session s))))"

definition join_enabled :: "devices_screen \<Rightarrow> bool" where
  "join_enabled s \<longleftrightarrow> \<not> isJoining (sc_session s) \<and> js_trim (join_code s) \<noteq> []"

definition rename_this_enabled :: "devices_screen \<Rightarrow> bool" where
  "rename_this_enabled s \<longleftrightarrow> renameThisOpen s \<and> \<not> this_saving s \<and> js_trim (this_name s) \<noteq> []"

section \<open>Properties\<close>

text \<open>What a click on a control of the history is to do.\<close>

fun control_effect :: "history_control \<Rightarrow> history_page \<Rightarrow> history_page \<Rightarrow> bool" where
  "control_effect HcClearAll s s' \<longleftrightarrow> confirmClearAll s'"
| "control_effect (HcClearTemp i) s s' \<longleftrightarrow> jobs s' = jobs s @ [JClearTemp i] \<and> hp_calls s' = hp_calls s @ [ClearTempData i]"
| "control_effect (HcOpen r) s s' \<longleftrightarrow> missingTarget s' = Some r \<or> (\<exists>c. hp_calls s' = hp_calls s @ [c])"
| "control_effect (HcRemove r) s s' \<longleftrightarrow> pendingRemove s' = Some r"
| "control_effect HcConfirmAll s s' \<longleftrightarrow> jobs s' = jobs s @ [JClearAll] \<and> hp_calls s' = hp_calls s @ [ClearHistory]"
| "control_effect HcConfirmRemove s s' \<longleftrightarrow>
     (\<exists>r. pendingRemove s = Some r \<and> jobs s' = jobs s @ [JRemove (h_id r)] \<and> hp_calls s' = hp_calls s @ [DeleteRecord (h_id r)])"

lemma shown_control_cases:
  assumes "c \<in> set (history_controls expanded s)"
  shows "(c = HcClearAll \<and> records s \<noteq> []) \<or>
    (\<exists>i d. c = HcClearTemp i \<and> tempData s i = Some d \<and> td_exists d) \<or>
    (\<exists>r. c = HcOpen r \<and> canOpenTransfer (h_saveUri r) (h_savePath r)) \<or> (\<exists>r. c = HcRemove r) \<or>
    (c = HcConfirmAll \<and> confirmClearAll s) \<or> (c = HcConfirmRemove \<and> pendingRemove s \<noteq> None)"
  using assms unfolding history_controls_def row_controls_def by (auto split: if_splits option.splits)

text \<open>
  The controls of the history page tell the truth: one that is shown and enabled does what it says when it is
  clicked, and one that is disabled does nothing.
\<close>

theorem history_controls_act:
  assumes "c \<in> set (history_controls expanded s)"
  shows "if history_enabled s then control_effect c s (history_step android s (control_event c))
    else history_step android s (control_event c) = s"
  using shown_control_cases [OF assms]
  by (elim disjE exE conjE)
    (auto simp: history_enabled_def clear_temp_click_def handleOpen_def clear_all_click_def remove_click_def job_start_def
      job_call_def hp_call_def split: option.splits HistoryOpenTarget.splits)

text \<open>An open row has exactly one remove button, whatever details it has; a closed one has none.\<close>

theorem one_remove_button: "removes_in (row_panel_of expanded android r) = (if expanded then 1 else 0)"
proof -
  have "length (filter dv_remove (map2 (detail_entry (length ds)) [0..<length ds] ds)) = 1" if "ds \<noteq> []" for ds :: "(string \<times> row_text) list"
  proof -
    have last: "[0..<length ds] = [0..<length ds - 1] @ [length ds - 1]" using that by (cases ds rule: rev_cases) auto
    have "filter (\<lambda>i. Suc i = length ds) [0..<length ds] = [length ds - 1]"
      unfolding last using that by (auto simp: filter_empty_conv)
    moreover have "length (filter dv_remove (map2 (detail_entry n) is ds')) = length (filter (\<lambda>i. Suc i = n) is)"
      if "length is = length ds'" for n "is" and ds' :: "(string \<times> row_text) list"
      using that by (induction "is" ds' rule: list_induct2) (auto simp: detail_entry_def)
    ultimately show ?thesis by simp
  qed
  then show ?thesis by (simp add: row_panel_of_def removes_in_def Let_def)
qed

lemma sorted_devices_none: "sortedDevices lc counts s = [] \<longleftrightarrow> pd_devices (ps_data (sc_session s)) = []"
  by (simp add: sortedDevices_def sortPairedDevicesForSettings_def flip: length_0_conv)

text \<open>
  The devices page says that there are no devices only when the list was read from a node that is ready and is
  empty, and that none match only when there are devices of which none matches the search. Otherwise
  every matching device has one row.
\<close>

theorem devices_page_truthful:
  assumes "devices_body_of lc counts capable node s = DbReady this body"
  shows "hasHydrated (ps_data (sc_session s)) \<and> ns_status (nodeStatus node) = NReady \<and>
    (case body of
       DlNone \<Rightarrow> pd_devices (ps_data (sc_session s)) = []
     | DlNoMatch \<Rightarrow> pd_devices (ps_data (sc_session s)) \<noteq> [] \<and>
         (\<forall>d \<in> set (pd_devices (ps_data (sc_session s))). \<not> matchesPairedDeviceSearch d (searchQuery s))
     | DlRows rows \<Rightarrow>
         mset (map dr_id rows) =
         mset (map endpoint_id (filter (\<lambda>d. matchesPairedDeviceSearch d (searchQuery s)) (pd_devices (ps_data (sc_session s))))))"
proof -
  have ready: "hasHydrated (ps_data (sc_session s))" "ns_status (nodeStatus node) = NReady" and body: "body = devices_list_of lc counts s"
    using assms by (auto simp: devices_body_of_def isPairingDataPending_def isNodeReady_def split: if_splits)
  have perm: "mset (sortedDevices lc counts s) = mset (pd_devices (ps_data (sc_session s)))"
    by (simp add: sortedDevices_def sortPairedDevicesForSettings_def)
  have "mset (map dr_id (map (device_row_of s) (filteredDevices lc counts s))) = mset (map endpoint_id (filteredDevices lc counts s))"
    by (simp add: device_row_of_def Let_def comp_def)
  then have "mset (map dr_id (map (device_row_of s) (filteredDevices lc counts s))) =
      mset (map endpoint_id (filter (\<lambda>d. matchesPairedDeviceSearch d (searchQuery s)) (pd_devices (ps_data (sc_session s)))))"
    by (simp add: filteredDevices_def perm)
  moreover have "filteredDevices lc counts s = [] \<longleftrightarrow>
      (\<forall>d \<in> set (pd_devices (ps_data (sc_session s))). \<not> matchesPairedDeviceSearch d (searchQuery s))"
    unfolding filteredDevices_def filter_empty_conv using mset_eq_setD [OF perm] by simp
  ultimately show ?thesis using ready sorted_devices_none [of lc counts s] by (simp add: body devices_list_of_def)
qed

text \<open>
  What the row of a device offers is what the screen does: the rename button, the trust switch and the remove button
  open their dialogs for this device when they can be used, and do nothing when they cannot; switching trust off
  needs no dialog.
\<close>

theorem device_row_acts:
  fixes s :: devices_screen and d :: PairedDevice
  defines "row \<equiv> device_row_of s d"
  shows "(if dr_remove row then cm_open (forget_modal (screen_step s (ScTrash (dr_id row)))) \<noteq> None \<and>
            fst (the (cm_open (forget_modal (screen_step s (ScTrash (dr_id row)))))) = endpoint_id d
          else screen_step s (ScTrash (dr_id row)) = s) \<and>
    (if dr_rename row then rename_name (screen_step s (ScRename d)) = dr_name row \<and>
            fst (the (cm_open (rename_modal (screen_step s (ScRename d))))) = endpoint_id d
          else screen_step s (ScRename d) = s) \<and>
    (if dr_switch row then fst (the (cm_open (trust_modal (screen_step s (ScTrust d True))))) = endpoint_id d \<and>
            trust_modal (screen_step s (ScTrust d False)) = trust_modal s
          else screen_step s (ScTrust d v) = s)"
  unfolding row_def
  by (auto simp: device_row_of_def Let_def trash_click_def rename_peer_click_def trust_switch_def cm_show_def on_session_def
      split: option.splits)

lemma join_button_acts:
  "screen_step s (ScJoin ready) = (if join_enabled s then on_session (join_begin ready (join_code s)) (s\<lparr>joins := Suc (joins s)\<rparr>) else s)"
  by (simp add: join_enabled_def handleJoin_def)

lemma rename_this_button_acts:
  "screen_step s ScThisSave =
     (if rename_this_enabled s then on_session (ps_do (PeRenameThis (js_trim (this_name s)))) (s\<lparr>this_saving := True\<rparr>) else s)"
  by (simp add: rename_this_enabled_def this_save_def Let_def)

end
