(* ===== verification/Receive_Link.thy ===== *)
theory Receive_Link
  imports Transfer_View Web_Platform_Api
begin

text \<open>
  Building the link of a share (\<open>buildReceiveLink\<close> of \<open>lib/receive-link.ts\<close>), with the part of the browser's \<open>URL\<close> it uses,
  and \<open>wasmSendFile\<close> of \<open>lib/wasm-bridge-client.ts\<close>.

  \<open>URLSearchParams\<close> writes a value in the form encoding: letters, digits and \<open>*-._\<close> stay, a blank becomes a plus sign and
  every other byte of the UTF-8 text is written with two hexadecimal digits. Characters are code units below 256. The encoding is the
  browser's, written out because the link contains it. The reader of links takes the parser of addresses as a parameter; the round trip
  instantiates it with a parser for the addresses below one origin, whose decoder reads a byte as a character, as UTF-8 does below 128.
\<close>

section \<open>The form encoding\<close>

definition upper_hex :: "nat \<Rightarrow> char" where
  "upper_hex n = (if n < 10 then char_of (48 + n) else char_of (55 + n))"

definition percent :: "nat \<Rightarrow> string" where
  "percent n = [CHR 0x25, upper_hex (n div 16), upper_hex (n mod 16)]"

definition form_safe :: "char \<Rightarrow> bool" where
  "form_safe c \<longleftrightarrow>
     (let n = char_code c in
      (48 \<le> n \<and> n \<le> 57) \<or> (65 \<le> n \<and> n \<le> 90) \<or> (97 \<le> n \<and> n \<le> 122) \<or> c \<in> set ''*-._'')"

definition encode_char :: "char \<Rightarrow> string" where
  "encode_char c =
     (let n = char_code c in
      if form_safe c then [c]
      else if n = 32 then ''+''
      else if n < 128 then percent n
      else percent (192 + n div 64) @ percent (128 + n mod 64))"

definition form_encode :: "string \<Rightarrow> string" where
  "form_encode s = concat (map encode_char s)"

fun form_decode :: "string \<Rightarrow> string" where
  "form_decode [] = []"
| "form_decode (c # cs) =
     (if c = CHR 0x2B then CHR 0x20 # form_decode cs
      else if c = CHR 0x25 then
        (case cs of
           a # b # r \<Rightarrow>
             (case (hex_digit a, hex_digit b) of
                (Some h, Some l) \<Rightarrow> char_of (16 * h + l) # form_decode r
              | _ \<Rightarrow> c # form_decode cs)
         | _ \<Rightarrow> c # form_decode cs)
      else c # form_decode cs)"

section \<open>The link\<close>

definition RECEIVE_ORIGIN :: string where
  "RECEIVE_ORIGIN = ''https://app.dashbeam.net''"

text \<open>\<open>base\<close> is the origin of the page in the browser; only the origin of the base address matters to a path that starts with a slash.\<close>

definition buildReceiveLink :: "string \<Rightarrow> string option \<Rightarrow> string" where
  "buildReceiveLink ticket base =
     (case base of None \<Rightarrow> RECEIVE_ORIGIN | Some b \<Rightarrow> b) @ ''/receive'' @ ''?ticket='' @ form_encode ticket"

text \<open>
  A parser of addresses below one origin: the path up to a question or number sign, and the first value of \<open>ticket\<close> in the
  query. Addresses of other origins are not read.
\<close>

definition query_value :: "string \<Rightarrow> string \<Rightarrow> string option" where
  "query_value key q =
     Option.bind (find (\<lambda>p. prefix (key @ ''='') p) (js_split (CHR ''&'') q)) (\<lambda>p. Some (form_decode (drop (Suc (length key)) p)))"

definition url_of_origin :: "string \<Rightarrow> url_parser" where
  "url_of_origin origin v =
     (if \<not> prefix (origin @ ''/'') v then None
      else
        (let rest = takeWhile (\<lambda>c. c \<noteq> CHR ''#'') (drop (length origin) v);
             path = takeWhile (\<lambda>c. c \<noteq> CHR ''?'') rest
         in Some (path, query_value ''ticket'' (drop (Suc (length path)) rest))))"

section \<open>Sending one file\<close>

text \<open>\<open>send_file\<close> is the function of the engine.\<close>

definition wasmSendFile ::
    "(string \<Rightarrow> byte list \<Rightarrow> string option \<Rightarrow> string option \<Rightarrow> string result) \<Rightarrow> engine \<Rightarrow> string \<Rightarrow> byte list \<Rightarrow>
     string option \<Rightarrow> RelayConfigArg option \<Rightarrow> page \<Rightarrow> page \<times> string result" where
  "wasmSendFile send_file eng fileName bytes meta relay s =
     (case ensureWasmBridge eng s of
        (s1, Inl e) \<Rightarrow> (s1, Inl e)
      | (s1, Inr _) \<Rightarrow>
          (case send_file fileName bytes meta (relayJson relay) of
             Inl e \<Rightarrow> (s1, Inl e)
           | Inr ticket \<Rightarrow> (s1\<lparr>currentTicket := Some ticket\<rparr>, Inr ticket)))"

section \<open>Properties\<close>

lemma hex_round: "n < 16 \<Longrightarrow> hex_digit (upper_hex n) = Some n"
  by (cases "n < 10") (simp_all add: upper_hex_def hex_digit_def char_code_def Let_def)

lemma hex_safe: "n < 16 \<Longrightarrow> form_safe (upper_hex n)"
  by (cases "n < 10") (simp_all add: upper_hex_def form_safe_def char_code_def Let_def)

lemma decode_plain: "c \<noteq> CHR 0x2B \<Longrightarrow> c \<noteq> CHR 0x25 \<Longrightarrow> form_decode (c # cs) = c # form_decode cs"
  by simp

lemma decode_percent: "n < 256 \<Longrightarrow> form_decode (percent n @ cs) = char_of n # form_decode cs"
  using hex_round [of "n div 16"] hex_round [of "n mod 16"] by (simp add: percent_def)

lemma safe_plain: "form_safe c \<Longrightarrow> c \<noteq> CHR 0x2B \<and> c \<noteq> CHR 0x25"
  by (auto simp: form_safe_def char_code_def)

lemma code_blank: "char_code c = 32 \<Longrightarrow> c = CHR 0x20"
  using of_char_eq_iff [of c "CHR 0x20", where ?'a = nat] by (simp add: char_code_def)

lemma decode_encode_char: "char_code c < 128 \<Longrightarrow> form_decode (encode_char c @ cs) = c # form_decode cs"
  using safe_plain [of c] decode_percent [of "char_code c" cs] code_blank [of c]
  by (cases "form_safe c"; cases "char_code c = 32") (simp_all add: encode_char_def Let_def char_code_def decode_plain)

text \<open>What the form encoding writes is read back as it was, for every text of ASCII characters.\<close>

theorem form_roundtrip: "list_all (\<lambda>c. char_code c < 128) s \<Longrightarrow> form_decode (form_encode s) = s"
  by (induction s) (simp_all add: form_encode_def decode_encode_char)

lemma encoded_chars:
  assumes "c \<in> set (form_encode s)"
  shows "form_safe c \<or> c = CHR 0x2B \<or> c = CHR 0x25"
proof -
  have pc: "form_safe x \<or> x = CHR 0x25" if "x \<in> set (percent n)" "n < 256" for x n
    using that hex_safe [of "n div 16"] hex_safe [of "n mod 16"] by (auto simp: percent_def)
  have "form_safe c \<or> c = CHR 0x2B \<or> c = CHR 0x25" if "c \<in> set (encode_char d)" for d
  proof -
    have "char_code d < 256" unfolding char_code_def by (metis mod_less_divisor of_char_mod_256 zero_less_numeral)
    then have "192 + char_code d div 64 < 256" "128 + char_code d mod 64 < 256"
      using div_less_iff_less_mult [of 64 "char_code d" 4] mod_less_divisor [of 64 "char_code d"] by simp_all
    with \<open>char_code d < 256\<close> show ?thesis
      using that pc [of c "char_code d"] pc [of c "192 + char_code d div 64"] pc [of c "128 + char_code d mod 64"]
      by (auto simp: encode_char_def Let_def split: if_splits)
  qed
  then show ?thesis using assms by (auto simp: form_encode_def)
qed

lemma encoded_plain:
  assumes "c \<in> set (form_encode s)"
  shows "\<not> js_space c" "c \<noteq> CHR ''&''" "c \<noteq> CHR ''#''"
  using encoded_chars [OF assms] by (auto simp: form_safe_def js_space_def char_code_def Let_def)

lemma built_link_parsed:
  assumes "list_all (\<lambda>c. char_code c < 128) ticket"
  shows "url_of_origin origin (buildReceiveLink ticket (Some origin)) = Some (''/receive'', Some ticket)"
proof -
  let ?e = "form_encode ticket" and ?q = "''ticket='' @ form_encode ticket"
  have no_amp: "CHR ''&'' \<notin> set ?q" using encoded_plain(2) [of _ ticket] by auto
  have tw: "takeWhile (\<lambda>c. c \<noteq> CHR ''#'') ?e = ?e"
    using encoded_plain(3) [of _ ticket] by (auto simp: takeWhile_eq_all_conv)
  have "query_value ''ticket'' ?q = Some ticket"
    unfolding query_value_def js_split_single [OF no_amp] using form_roundtrip [OF assms] by simp
  then show ?thesis
    by (simp add: url_of_origin_def buildReceiveLink_def Let_def tw del: takeWhile_eq_all_conv)
qed

lemma prefix_includes: "prefix u s \<Longrightarrow> js_includes s u"
  by (cases s) auto

lemma no_http_start:
  assumes "\<not> js_includes u ''http''"
  shows "\<not> prefix ''http'' (u @ CHR 0x0A # r)"
proof
  assume p: "prefix ''http'' (u @ CHR 0x0A # r)"
  show False
  proof (cases "length u \<ge> 4")
    case True
    then have "prefix ''http'' u" using p prefix_length_prefix [OF p, of u] by simp
    then show False using assms prefix_includes by blast
  next
    case False
    then have "(u @ CHR 0x0A # r) ! length u = CHR 0x0A" "length u < length ''http''" by simp_all
    then have "''http'' ! length u = CHR 0x0A" using p by (metis nth_append prefixE)
    moreover have "length u = 0 \<or> length u = 1 \<or> length u = 2 \<or> length u = 3" using False by linarith
    ultimately show False by auto
  qed
qed

text \<open>
  C29. A share gives its ticket back: for every ticket of ASCII characters that is not blank, whatever characters it has, the link that is
  built for it yields the ticket without blanks around it, pasted alone or as the share message with an introduction above it. The
  introduction may say anything without a link; the origin is a secure one, and the parser reads the addresses below it.
\<close>

theorem shared_ticket_roundtrip:
  assumes "list_all (\<lambda>c. char_code c < 128) ticket" "js_trim ticket \<noteq> []"
    and "prefix ''https://'' origin" "list_all (\<lambda>c. \<not> js_space c) origin" "\<not> js_includes intro ''http''"
  shows "ticketFromReceiveLink (url_of_origin origin) (buildReceiveLink ticket (Some origin)) = Some (js_trim ticket) \<and>
    ticketFromReceiveLink (url_of_origin origin) (formatReceiveShareMessage intro (buildReceiveLink ticket (Some origin))) =
      Some (js_trim ticket)"
proof (rule receive_link_roundtrip [where URL = "url_of_origin origin", OF built_link_parsed [OF assms(1), of origin] assms(2)])
  let ?link = "buildReceiveLink ticket (Some origin)"
  have fixed: "list_all (\<lambda>c. \<not> js_space c) ''/receive?ticket=''" by code_simp
  show solid: "list_all (\<lambda>c. \<not> js_space c) ?link"
    using assms(4) fixed encoded_plain(1) [of _ ticket] by (auto simp: buildReceiveLink_def list_all_iff)
  show "prefix ''https://'' ?link" using assms(3) by (auto simp: buildReceiveLink_def elim!: prefixE)
  show "8 < length ?link" by (simp add: buildReceiveLink_def)
  show "\<not> js_includes intro ''http''" by (rule assms(5))
  have ne: "?link \<noteq> []" by (simp add: buildReceiveLink_def)
  have "url_of_origin origin (js_trim (formatReceiveShareMessage intro ?link)) = None" if "js_trim intro \<noteq> []"
  proof -
    have "\<not> prefix ''http'' (js_trim (formatReceiveShareMessage intro ?link))"
      using that no_http_start [OF includes_dropWhile [OF assms(5)]] by (simp add: trim_share_message [OF solid ne])
    moreover have "prefix ''http'' (origin @ ''/'')" using assms(3) by (auto elim!: prefixE)
    ultimately show ?thesis unfolding url_of_origin_def using prefix_order.trans by fastforce
  qed
  then show "case url_of_origin origin (js_trim (formatReceiveShareMessage intro ?link)) of
      None \<Rightarrow> True | Some (pathname, _) \<Rightarrow> js_trim intro = [] \<or> pathname \<noteq> ''/receive''"
    by (cases "js_trim intro = []") (auto split: option.splits)
qed

theorem shared_ticket_roundtrip_witness:
  "buildReceiveLink ''a b&c'' (Some RECEIVE_ORIGIN) = ''https://app.dashbeam.net/receive?ticket=a+b%26c'' \<and>
   ticketFromReceiveLink (url_of_origin RECEIVE_ORIGIN)
     (formatReceiveShareMessage ''Get my files'' (buildReceiveLink ''a b&c'' (Some RECEIVE_ORIGIN))) = Some ''a b&c''"
proof
  show "buildReceiveLink ''a b&c'' (Some RECEIVE_ORIGIN) = ''https://app.dashbeam.net/receive?ticket=a+b%26c''" by code_simp
  have "list_all (\<lambda>c. char_code c < 128) ''a b&c''" "js_trim ''a b&c'' = ''a b&c''" "prefix ''https://'' RECEIVE_ORIGIN"
      "list_all (\<lambda>c. \<not> js_space c) RECEIVE_ORIGIN" "\<not> js_includes ''Get my files'' ''http''"
    by code_simp+
  then show "ticketFromReceiveLink (url_of_origin RECEIVE_ORIGIN)
     (formatReceiveShareMessage ''Get my files'' (buildReceiveLink ''a b&c'' (Some RECEIVE_ORIGIN))) = Some ''a b&c''"
    using shared_ticket_roundtrip [of "''a b&c''" RECEIVE_ORIGIN "''Get my files''"] by simp
qed

lemma send_file_shares:
  assumes "wasmSendFile send_file eng n bytes meta relay s = (s', r)"
  shows "(case r of Inr t \<Rightarrow> getWebSharingTicket s' = Some t | Inl _ \<Rightarrow> getWebSharingTicket s' = getWebSharingTicket s)"
  using assms by (auto simp: wasmSendFile_def getWebSharingTicket_def ensureWasmBridge_def split: sum.splits prod.splits if_splits)

end
