(* ===== verification/Spec2Isabelle.thy ===== *)
theory Spec2Isabelle
  imports Platform Web_Platform_Api App_Settings Updater Fingerprint Nearby Pairing_Session Notifications Network_Settings Invite_Dialogs
    History_Page Devices_Screen General_Settings Release_Version Release_Notes Progress_View Home_Page Send_Panels Translations
    Android_Build Packaging Host_Adapters Screen_Views Receive_Link
    Receiver Sender Pick_Files
begin

text \<open>
  Verification of the front end of DashBeam, a peer-to-peer file transfer program.

  \<^bold>\<open>The program.\<close> DashBeam is a TypeScript front end (\<open>src/frontend/src\<close>) over a transfer engine in Rust. On the desktop and on Android the
  engine runs in a Tauri shell, in the browser it is a WebAssembly module; in both cases the front end calls commands (\<open>invoke\<close>) and
  listens to events (\<open>listen\<close>). The front end holds the state the user sees: what is being sent and received, which devices are
  paired, trusted or nearby, the settings, the updater, and, in the browser, the files themselves, the zip archive and the
  download folder. Its parts are hooks (\<open>hooks/\<close>), stores (\<open>store/\<close>), libraries (\<open>lib/\<close>) and components (\<open>components/\<close>, \<open>routes/\<close>).

  \<^bold>\<open>How it is modelled.\<close> A pure function of the source is a function of the same name. A hook, a store or a screen is a record of its state
  and one operation per handler; an asynchronous handler is split at its \<open>await\<close>s, and what its closure has captured waits in a
  list of the state until the answer, which is an event, arrives in any order. A \<open>*_step\<close> function collects the events of a component, and
  the theorems about runs quantify over all sequences of events. React draws a state change before the next event of the user and
  then runs the effects whose dependencies changed; where that order matters (the queue of trusted invites, the relay form) renders and effects are
  operations of the model. Thrown values and rejected promises are values of \<open>js_error + 'a\<close>. Strings are sequences of code units
  below 256; numbers are natural numbers, integers or exact rationals where the source computes with fractions. The rounding of IEEE
  doubles is modelled where it is visible, in the segments of the progress bar, and not elsewhere. Bytes and checksums are words. The clock, the URL parser, \<open>localeCompare\<close>, the browser's file and clipboard
  interfaces, the router's choice of a layout, the translation of a key and every command of the engine are parameters; what a theorem relies on
  of them is a hypothesis of that theorem.

  \<^bold>\<open>Theories.\<close>
  \<^item> \<open>JS_Prelude\<close>: strings, sorting, association lists and errors of the language, and the interfaces \<open>state_machine\<close>,
    \<open>refinement\<close> and \<open>comparator\<close>; \<open>JS_Json\<close>: JSON values, printing and parsing. The parser's fuel is twice the length
    of the text plus two; \<open>json_fuel_enough\<close> shows that more changes nothing.
  \<^item> \<open>Platform\<close> (\<open>lib/platform.ts\<close>), \<open>Web_Event_Bus\<close>, \<open>Web_File_Store\<close>, \<open>Web_Send\<close>, \<open>Web_Drop\<close>, \<open>Web_Zip\<close>, \<open>Web_Save\<close>,
    \<open>Web_Platform_Api\<close>: the browser as a platform (\<open>lib/web-*.ts\<close>, \<open>wasm-bridge-client.ts\<close>, \<open>platform-api.ts\<close>). A selection is sent completely or refused,
    received files are all saved or downloaded and none is overwritten, the archive is read back by a reader of the format, and the checksum is
    the remainder of the polynomial division that defines CRC-32.
  \<^item> \<open>Relay_Discovery\<close> and \<open>Network_Settings\<close>: validation and configuration of relays and discovery (\<open>lib/relay*.ts\<close>,
    \<open>lib/discovery*.ts\<close>), the two forms, the guard on leaving the settings and the first push to the node (\<open>components/settings/relay\<close>).
  \<^item> \<open>App_Settings\<close>: the persisted settings, their migrations, the themes and autostart (\<open>store/app-setting.ts\<close>, \<open>store/theme-store.ts\<close>,
    \<open>useAutostartFirstRun.ts\<close>); \<open>Updater\<close>: \<open>store/updater-store.ts\<close> and \<open>use-updater.ts\<close>, with a refinement from the store to the snapshot that is drawn.
  \<^item> \<open>Pairing_Api\<close>, \<open>Pairing_Node\<close>, \<open>Pairing_Session\<close>, \<open>Devices_Screen\<close>: the paired devices, the status of the node and the
    hydration of the data, the pairing window with its listeners, and the device settings.
  \<^item> \<open>Fingerprint\<close>, \<open>Nearby\<close>, \<open>Invite_Dialogs\<close>: the short verification code, the list of nearby devices, and the dialogs that ask the user.
  \<^item> \<open>Auto_Accept\<close>, \<open>Notifications\<close>, \<open>Transfer_View\<close>, \<open>Receiver\<close>, \<open>Sender\<close>, \<open>Pick_Files\<close>, \<open>History_Page\<close>: the queue of trusted invites
    behind the interface \<open>bounded_fifo\<close>, banners, progress and history texts, the two transfer hooks, choosing files, and the history.
  \<^item> \<open>General_Settings\<close>: discoverability, start with the system, tray, context menu, history and debug settings and the update section
    (\<open>components/settings\<close>, \<open>lib/autostart.ts\<close>), behind the interface \<open>busy_page\<close>.
  \<^item> \<open>Progress_View\<close>, \<open>Send_Panels\<close>, \<open>Home_Page\<close>: what is drawn and when its controls act: progress and result screens, the ticket form, the
    device list, the share link, the drop zone, the tabs, the update banner, the footer and the relay button
    (\<open>components/common\<close>, \<open>components/receiver\<close>, \<open>components/sender\<close>, \<open>routes/index.tsx\<close>). The conditions of the controls are compared
    with those the hooks check again.
  \<^item> \<open>Translations\<close>: catalogues, lookup, filling in, and the language shared by texts, switcher and storage (\<open>i18n/\<close>).
  \<^item> \<open>Release_Version\<close>, \<open>Release_Notes\<close>: the scripts that set and check the version in four files (\<open>scripts/release.js\<close>, \<open>sync-version.js\<close>,
    \<open>validate-version.js\<close>) and that write the release notes (\<open>scripts/generate-release-notes.js\<close>), on the texts of the files and the
    output of \<open>git\<close>.
  \<^item> \<open>Android_Build\<close>, \<open>Packaging\<close>: the scripts that build, sign and check the Android packages and bundles, patch the Debian packages,
    make the portable archive for Windows, build the WebAssembly module and run the tests (the other files of \<open>scripts/\<close>). A script is a function
    on the files that ends with an exit code or goes on; the tools it runs are parameters.
  \<^item> \<open>Host_Adapters\<close>: the wrapper of the native plugin, the adapters of \<open>lib/platform-api.ts\<close>, the listeners of the window, the start of the
    node, file icons, the navigation of the settings, routes and root layout.
  \<^item> \<open>Receive_Link\<close>: the link of a share (\<open>lib/receive-link.ts\<close>) with the form encoding it uses, and the sending of one file.
  \<^item> \<open>Screen_Views\<close>: what the history page and the devices page show, compared with the operations of \<open>History_Page\<close> and
    \<open>Devices_Screen\<close>.
  \<^item> This theory composes the queue with the receiver and proves the unattended path end to end.

  Every component with state has an invariant that its \<open>state_machine\<close> interpretation proves once for all events; the interfaces
  \<open>url_check\<close> (addresses), \<open>bounded_fifo\<close> (the queue), \<open>question\<close> (dialogs), \<open>busy_page\<close> (settings with a
  pending change), \<open>found_again\<close>, \<open>anchored\<close> (texts that a pattern finds again) and \<open>comparator\<close> (sorting) are interpreted on the model's
  own operations.

  \<^bold>\<open>What is shown.\<close> Safety of files and answers (nothing overwritten, no sender answered twice, no unverified sender accepted, the access token never sent in
  clear), exactness of payloads and archives, consistency of the screens in every interleaving, that nothing hangs (queue, node wait, pair
  rows, dialogs, busy flags), bounds of windows and queues, and equivalence of table-driven or incremental code with a plain
  definition. Where the code does not do what it says the development proves what it does instead, e.g. \<open>silent_edits_not_pushed\<close>,
  \<open>stale_read_restores_row\<close>, \<open>late_discovery_mark\<close>, \<open>broadcast_timer_revives_share\<close>, \<open>late_start_revives\<close>,
  \<open>pending_completion_replaces_stop\<close>, \<open>late_fallback_after_cancel\<close>, \<open>old_status_while_loading\<close>, \<open>inherited_language_taken\<close> and
  \<open>extra_bar_at_ten_percent\<close>.

  \<^bold>\<open>Not modelled.\<close> The Rust engine, the Tauri shell, the Android plugin and the WebAssembly module are not TypeScript of this
  repository and appear as parameters. Markup, styles, animation, icons and the widget library under \<open>components/ui\<close> have no state of the program.
  Translations are keys except in \<open>Translations\<close>. Tools that the scripts run, and the browser, Tauri and router functions the
  front end calls, are parameters with what they answer. The widgets of \<open>components/ui\<close> and \<open>components/animate-ui\<close> wrap a third-party library
  and keep only its state (open, focus, animation); \<open>CustomTitleBar.tsx\<close> and \<open>lib/tauri.ts\<close> have no caller.
\<close>

section \<open>The unattended path\<close>

text \<open>
  The window as a whole: the queue of trusted invites, the receiver, and the handler that the receiver registers with
  the queue. A turn of the queue sees whether the receiver is busy, handles an event and its renders, and hands
  the invite whose accept was begun, if any, to the receiver.
\<close>

record window =
  w_accept :: accept_state
  w_receiver :: receiver

definition started_accept :: "accept_state \<Rightarrow> accept_state \<Rightarrow> (PairedInvitePayload \<times> string) option" where
  "started_accept before after =
     (if length (responses before) < length (responses after) then
        (case last (handled after) of
           (invite, _, Some sub) \<Rightarrow> Some (invite, sub)
         | _ \<Rightarrow> None)
      else None)"

definition window_turn :: "receiver_env \<Rightarrow> accept_event \<Rightarrow> window \<Rightarrow> window" where
  "window_turn env e w =
     (let a0 = (w_accept w)\<lparr>aa_isBusy := isReceiveSessionBusy (w_receiver w)\<rparr>; a = accept_turn True a0 e in
      case started_accept a0 a of
        None \<Rightarrow> w\<lparr>w_accept := a\<rparr>
      | Some (invite, sub) \<Rightarrow>
          w\<lparr>w_accept := a, w_receiver := acceptPairedInvite env invite (Some sub) (w_receiver w)\<rparr>)"

text \<open>The engine completes the running receive, and Android its export.\<close>

definition window_completed :: "receiver_env \<Rightarrow> nat \<Rightarrow> jsval \<Rightarrow> window \<Rightarrow> window" where
  "window_completed env now payload w =
     w\<lparr>w_receiver := export_finished (receive_completed env now payload (w_receiver w))\<rparr>"

text \<open>
  An invite with a ticket whose sender is the trusted, actively paired device \<open>d\<close>: the first device of the list with the
  sender's id, letter case aside. It is received into the folder named after the device, after the name the sender gives if the device's is
  blank, and into no folder of its own if that is blank too.
\<close>

definition invite_from :: "PairedDevice \<Rightarrow> accept_state \<Rightarrow> PairedInvitePayload \<Rightarrow> bool" where
  "invite_from d a p \<longleftrightarrow>
     (\<exists>pre post. aa_devices a = pre @ d # post \<and>
        list_all (\<lambda>x. js_lower (endpoint_id x) \<noteq> js_lower (remote_endpoint_id p)) pre) \<and>
     js_lower (endpoint_id d) = js_lower (remote_endpoint_id p) \<and>
     remote_endpoint_id p \<noteq> [] \<and> js_trim (remote_endpoint_id p) = remote_endpoint_id p \<and>
     (pairing_status d = None \<or> pairing_status d = Some PActive) \<and> trusted d \<and> js_trim (blob_ticket p) \<noteq> []"

definition folder_of :: "PairedDevice \<Rightarrow> PairedInvitePayload \<Rightarrow> string option" where
  "folder_of d p =
     (if js_trim (display_name d) \<noteq> [] then Some (js_trim (display_name d))
      else if js_trim (sender_name p) \<noteq> [] then Some (js_trim (sender_name p)) else None)"

definition receive_call :: "receiver_env \<Rightarrow> receiver \<Rightarrow> PairedDevice \<Rightarrow> PairedInvitePayload \<Rightarrow> receiver_call" where
  "receive_call env r d p =
     ReceiveFile (js_trim (blob_ticket p)) (js_trim (savePathRef r))
       (if ANDROID env \<and> js_trim (downloadsUriRef r) \<noteq> [] then Some (js_trim (downloadsUriRef r)) else None)
       (if ANDROID env \<and> js_trim (downloadsPathRef r) \<noteq> [] then Some (js_trim (downloadsPathRef r)) else None)
       (folder_of d p)"

definition unattended_invite :: "accept_state \<Rightarrow> PairedInvitePayload \<Rightarrow> bool" where
  "unattended_invite a p \<longleftrightarrow>
     isKnownPairedEndpoint (map endpoint_id (aa_devices a)) (remote_endpoint_id p) \<and>
     shouldAutoAccept (aa_devices a) (remote_endpoint_id p) \<and> js_trim (blob_ticket p) \<noteq> []"

lemma invite_from_unattended:
  assumes "invite_from d a p"
  shows "unattended_invite a p"
    and "opt_nonempty (js_trim (subFolderFor (aa_devices a) (remote_endpoint_id p) (sender_name p))) = folder_of d p"
proof -
  obtain pre post where l: "aa_devices a = pre @ d # post"
    "list_all (\<lambda>x. js_lower (endpoint_id x) \<noteq> js_lower (remote_endpoint_id p)) pre"
    using assms by (auto simp: invite_from_def)
  have "find (\<lambda>x. js_lower (endpoint_id x) = js_lower (remote_endpoint_id p)) (aa_devices a) = Some d"
    unfolding find_split using assms l by (auto simp: invite_from_def)
  then have f: "findDevice (aa_devices a) (remote_endpoint_id p) = Some d"
    using assms by (simp add: findDevice_def invite_from_def Let_def)
  have "isKnownPairedEndpoint (map endpoint_id (aa_devices a)) (remote_endpoint_id p)"
    using assms by (auto simp: isKnownPairedEndpoint_def list_ex_iff invite_from_def l(1))
  then show "unattended_invite a p"
    using assms by (auto simp: unattended_invite_def shouldAutoAccept_def f invite_from_def)
  show "opt_nonempty (js_trim (subFolderFor (aa_devices a) (remote_endpoint_id p) (sender_name p))) = folder_of d p"
    by (simp add: subFolderFor_def f folder_of_def opt_nonempty_def js_or_def)
qed

lemma drain_one:
  assumes "\<not> aa_isBusy s" "aa_acceptPairedInvite s = Some h" "queue s = [p]"
    "shouldAutoAccept (aa_devices s) (remote_endpoint_id p)"
  shows "drain_loop s =
    s\<lparr>queue := [],
      handled := handled s @ [(p, aa_devices s, Some (subFolderFor (aa_devices s) (remote_endpoint_id p) (sender_name p)))],
      responses := responses s @ [remote_endpoint_id p], accept_state.in_flight := Some p\<rparr>"
  using assms by (subst drain_loop.simps) (simp add: Let_def)

text \<open>A resting queue takes an invite and begins its accept within the turn.\<close>

lemma turn_starts:
  assumes "settled a" "queue a = []" "\<not> draining a" "\<not> aa_isBusy a" "aa_acceptPairedInvite a = Some h"
    "unattended_invite a p"
  shows "accept_turn True a (AaInvite p) =
    a\<lparr>queue := [], admitted := admitted a @ [p], last_deps := Some (0, False, Some h), draining := True,
      handled := handled a @ [(p, aa_devices a, Some (subFolderFor (aa_devices a) (remote_endpoint_id p) (sender_name p)))],
      responses := responses a @ [remote_endpoint_id p], accept_state.in_flight := Some p\<rparr>"
proof -
  have l: "last_deps a = Some (0, False, Some h)" using assms by (simp add: settled_def drain_deps_def)
  have e: "accept_step True a (AaInvite p) = a\<lparr>queue := [p], admitted := admitted a @ [p]\<rparr>"
    using assms by (simp add: unattended_invite_def route_invite_def enqueue_op_def queue_enqueue_def enqueueInvite_def
        AUTO_ACCEPT_QUEUE_LIMIT_def Let_def)
  show ?thesis
    unfolding accept_turn_def e
    using assms l drain_one [of "a\<lparr>queue := [p], admitted := admitted a @ [p], last_deps := Some (1, False, Some h), draining := True\<rparr>" h p]
    by (simp add: render_def drain_effect_def drain_deps_def unattended_invite_def)
qed

text \<open>While an accept is in flight and the receiver is busy, a further invite waits.\<close>

lemma turn_waits:
  assumes "queue a = []" "aa_isBusy a" "unattended_invite a q"
  shows "queue (accept_turn True a (AaInvite q)) = [q] \<and> responses (accept_turn True a (AaInvite q)) = responses a \<and>
    accept_state.in_flight (accept_turn True a (AaInvite q)) = accept_state.in_flight a \<and> draining (accept_turn True a (AaInvite q)) = draining a \<and>
    aa_devices (accept_turn True a (AaInvite q)) = aa_devices a \<and>
    aa_acceptPairedInvite (accept_turn True a (AaInvite q)) = aa_acceptPairedInvite a"
  using assms by (simp add: accept_turn_def unattended_invite_def route_invite_def enqueue_op_def queue_enqueue_def
      enqueueInvite_def AUTO_ACCEPT_QUEUE_LIMIT_def render_def drain_effect_def drain_deps_def Let_def)

text \<open>When the accept settles and the receiver is free, the one that waits begins.\<close>

lemma turn_continues:
  assumes "queue a = [q]" "\<not> aa_isBusy a" "draining a" "accept_state.in_flight a = Some p" "aa_acceptPairedInvite a = Some h"
    "unattended_invite a q"
  shows "responses (accept_turn True a (AaSettled r)) = responses a @ [remote_endpoint_id q] \<and>
    last (handled (accept_turn True a (AaSettled r))) =
      (q, aa_devices a, Some (subFolderFor (aa_devices a) (remote_endpoint_id q) (sender_name q)))"
  using assms drain_one [of "a\<lparr>accept_state.in_flight := None\<rparr>" h q]
  by (simp add: accept_turn_def accept_settled_def render_def drain_effect_def drain_deps_def unattended_invite_def)

lemma accept_calls:
  assumes "\<not> isReceiveSessionBusy r" "js_trim (blob_ticket p) \<noteq> []"
    "js_trim (savePathRef r) \<noteq> [] \<or> WEB env \<or> ANDROID env"
  shows "rc_calls (acceptPairedInvite env p (Some sub) r) =
      rc_calls r @ [ReceiveFile (js_trim (blob_ticket p)) (js_trim (savePathRef r))
       (if ANDROID env then opt_nonempty (js_trim (downloadsUriRef r)) else None)
       (if ANDROID env then opt_nonempty (js_trim (downloadsPathRef r)) else None) (opt_nonempty (js_trim sub))]"
    "isReceiveSessionBusy (acceptPairedInvite env p (Some sub) r)"
    "savePathRef (acceptPairedInvite env p (Some sub) r) = savePathRef r"
    "downloadsUriRef (acceptPairedInvite env p (Some sub) r) = downloadsUriRef r"
    "downloadsPathRef (acceptPairedInvite env p (Some sub) r) = downloadsPathRef r"
  using assms by (auto simp: acceptPairedInvite_def receiveWithTicket_def start_session_def call_receive_file_def rc_call_def
      Let_def isReceiveSessionBusy_def [of "_ \<lparr>rc_calls := _\<rparr>"])

lemma completed_calls:
  "\<exists>title body. rc_calls (export_finished (receive_completed env now p r)) = rc_calls r @ [SystemNotification title body]"
  "\<not> isReceiveSessionBusy (export_finished (receive_completed env now p r))"
  "savePathRef (export_finished (receive_completed env now p r)) = savePathRef r"
  "downloadsUriRef (export_finished (receive_completed env now p r)) = downloadsUriRef r"
  "downloadsPathRef (export_finished (receive_completed env now p r)) = downloadsPathRef r"
  by (auto simp: export_finished_def receive_completed_def rc_call_def showAlert_def isReceiveSessionBusy_def Let_def
      split: option.splits)

text \<open>The three turns on the whole window.\<close>

definition awaiting :: "PairedInvitePayload \<Rightarrow> nat \<Rightarrow> accept_state \<Rightarrow> bool" where
  "awaiting p h a \<longleftrightarrow> draining a \<and> accept_state.in_flight a = Some p \<and> aa_acceptPairedInvite a = Some h"

lemma window_starts:
  assumes "settled (w_accept w)" "queue (w_accept w) = []" "\<not> draining (w_accept w)" "\<not> aa_isBusy (w_accept w)"
    "aa_acceptPairedInvite (w_accept w) = Some h" "\<not> isReceiveSessionBusy (w_receiver w)" "unattended_invite (w_accept w) p"
  shows "w_receiver (window_turn env (AaInvite p) w) =
      acceptPairedInvite env p (Some (subFolderFor (aa_devices (w_accept w)) (remote_endpoint_id p) (sender_name p))) (w_receiver w)"
    "awaiting p h (w_accept (window_turn env (AaInvite p) w))" "queue (w_accept (window_turn env (AaInvite p) w)) = []"
    "aa_devices (w_accept (window_turn env (AaInvite p) w)) = aa_devices (w_accept w)"
proof -
  have same: "(w_accept w)\<lparr>aa_isBusy := isReceiveSessionBusy (w_receiver w)\<rparr> = w_accept w" using assms(4,6) by simp
  note t = turn_starts [OF assms(1-5,7)]
  show "w_receiver (window_turn env (AaInvite p) w) =
      acceptPairedInvite env p (Some (subFolderFor (aa_devices (w_accept w)) (remote_endpoint_id p) (sender_name p))) (w_receiver w)"
    "awaiting p h (w_accept (window_turn env (AaInvite p) w))" "queue (w_accept (window_turn env (AaInvite p) w)) = []"
    "aa_devices (w_accept (window_turn env (AaInvite p) w)) = aa_devices (w_accept w)"
    unfolding window_turn_def same Let_def t using assms(5) by (simp_all add: started_accept_def awaiting_def)
qed

lemma window_waits:
  assumes "isReceiveSessionBusy (w_receiver w)" "queue (w_accept w) = []" "awaiting p h (w_accept w)"
    "unattended_invite (w_accept w) q"
  shows "w_receiver (window_turn env (AaInvite q) w) = w_receiver w" "queue (w_accept (window_turn env (AaInvite q) w)) = [q]"
    "awaiting p h (w_accept (window_turn env (AaInvite q) w))"
    "aa_devices (w_accept (window_turn env (AaInvite q) w)) = aa_devices (w_accept w)"
proof -
  have "unattended_invite ((w_accept w)\<lparr>aa_isBusy := True\<rparr>) q" using assms(4) by (simp add: unattended_invite_def)
  note t = turn_waits [of "(w_accept w)\<lparr>aa_isBusy := True\<rparr>", OF _ _ this]
  show "w_receiver (window_turn env (AaInvite q) w) = w_receiver w" "queue (w_accept (window_turn env (AaInvite q) w)) = [q]"
    "awaiting p h (w_accept (window_turn env (AaInvite q) w))"
    "aa_devices (w_accept (window_turn env (AaInvite q) w)) = aa_devices (w_accept w)"
    using t assms(1-3) by (simp_all add: window_turn_def started_accept_def awaiting_def Let_def)
qed

lemma window_continues:
  assumes "\<not> isReceiveSessionBusy (w_receiver w)" "queue (w_accept w) = [q]" "awaiting p h (w_accept w)"
    "unattended_invite (w_accept w) q"
  shows "w_receiver (window_turn env (AaSettled r) w) =
    acceptPairedInvite env q (Some (subFolderFor (aa_devices (w_accept w)) (remote_endpoint_id q) (sender_name q))) (w_receiver w)"
proof -
  have "unattended_invite ((w_accept w)\<lparr>aa_isBusy := False\<rparr>) q" using assms(4) by (simp add: unattended_invite_def)
  then show ?thesis
    using turn_continues [of "(w_accept w)\<lparr>aa_isBusy := False\<rparr>" q p h r] assms(1-3)
    by (simp add: window_turn_def started_accept_def awaiting_def Let_def)
qed

text \<open>
  C1. Unattended receiving, end to end. With a resting queue, a mounted and idle receiver and two invites of trusted devices, the first is received at once,
  with its ticket and into the folder named after its device (after the sender's own name only if the device has none); the second,
  arriving while the first runs, calls nothing and waits; and when the first has completed and its accept has settled, successfully
  or not, the second is received too, into the folder of its own device, without a click, whatever the engine reports of the first.
\<close>

theorem unattended_receive:
  assumes "settled (w_accept w)" "queue (w_accept w) = []" "\<not> draining (w_accept w)" "\<not> aa_isBusy (w_accept w)"
    and "aa_acceptPairedInvite (w_accept w) = Some h" "\<not> isReceiveSessionBusy (w_receiver w)"
    and "invite_from dp (w_accept w) p" "invite_from dq (w_accept w) q"
    and "js_trim (savePathRef (w_receiver w)) \<noteq> [] \<or> WEB env \<or> ANDROID env"
  shows "let w1 = window_turn env (AaInvite p) w; w2 = window_turn env (AaInvite q) w1;
             w3 = window_completed env now payload w2; w4 = window_turn env (AaSettled r) w3 in
    rc_calls (w_receiver w1) = rc_calls (w_receiver w) @ [receive_call env (w_receiver w) dp p] \<and>
    w_receiver w2 = w_receiver w1 \<and> queue (w_accept w2) = [q] \<and>
    rc_calls (w_receiver w4) = rc_calls (w_receiver w3) @ [receive_call env (w_receiver w) dq q]"
proof -
  define w1 where "w1 = window_turn env (AaInvite p) w"
  define w2 where "w2 = window_turn env (AaInvite q) w1"
  define w3 where "w3 = window_completed env now payload w2"
  define w4 where "w4 = window_turn env (AaSettled r) w3"
  define sub where "sub = (\<lambda>i :: PairedInvitePayload. subFolderFor (aa_devices (w_accept w)) (remote_endpoint_id i) (sender_name i))"
  note up = invite_from_unattended [OF assms(7)] and uq = invite_from_unattended [OF assms(8)]
  note f1 = window_starts [OF assms(1-6) up(1), of env, folded w1_def]
  note r1 = accept_calls [of "w_receiver w" p env "sub p"]
  have tp: "js_trim (blob_ticket p) \<noteq> []" and tq: "js_trim (blob_ticket q) \<noteq> []"
    using assms(7,8) by (simp_all add: invite_from_def)
  have c1: "w_receiver w1 = acceptPairedInvite env p (Some (sub p)) (w_receiver w)" using f1(1) by (simp add: sub_def)
  have q1: "unattended_invite (w_accept w1) q" using uq(1) f1(4) by (simp add: unattended_invite_def)
  have busy: "isReceiveSessionBusy (w_receiver w1)" using r1(2) [OF assms(6) tp assms(9)] by (simp add: c1)
  note f2 = window_waits [OF busy f1(3,2) q1, of env, folded w2_def]
  have w3: "w_receiver w3 = export_finished (receive_completed env now payload (w_receiver w1))" "w_accept w3 = w_accept w2"
    by (simp_all add: w3_def window_completed_def f2(1))
  note r3 = completed_calls [of env now payload "w_receiver w1", folded w3(1)]
  have q3: "queue (w_accept w3) = [q]" "awaiting p h (w_accept w3)" "unattended_invite (w_accept w3) q"
    using f2 f1(4) uq(1) by (simp_all add: w3(2) unattended_invite_def)
  have c4: "w_receiver w4 = acceptPairedInvite env q (Some (sub q)) (w_receiver w3)"
    using window_continues [OF r3(2) q3, of env r, folded w4_def] f2(4) f1(4) by (simp add: w3(2) sub_def)
  have refs: "savePathRef (w_receiver w3) = savePathRef (w_receiver w)" "downloadsUriRef (w_receiver w3) = downloadsUriRef (w_receiver w)"
    "downloadsPathRef (w_receiver w3) = downloadsPathRef (w_receiver w)"
    using r3(3-5) r1(3-5) [OF assms(6) tp assms(9)] by (simp_all add: c1)
  then have path: "js_trim (savePathRef (w_receiver w3)) \<noteq> [] \<or> WEB env \<or> ANDROID env" using assms(9) by simp
  have "rc_calls (w_receiver w1) = rc_calls (w_receiver w) @ [receive_call env (w_receiver w) dp p]"
    using r1(1) [OF assms(6) tp assms(9)] by (simp add: c1 receive_call_def sub_def up(2)) (simp add: opt_nonempty_def)
  moreover have "rc_calls (w_receiver w4) = rc_calls (w_receiver w3) @ [receive_call env (w_receiver w) dq q]"
    using accept_calls(1) [OF r3(2) tq path, of "sub q"] by (simp add: c4 receive_call_def sub_def refs uq(2)) (simp add: opt_nonempty_def)
  ultimately show ?thesis
    using f2(1,2) by (simp flip: w1_def w2_def w3_def w4_def add: Let_def)
qed

definition trusted_phone :: PairedDevice where
  "trusted_phone = demo_device\<lparr>trusted := True, display_name := ''My phone''\<rparr>"

definition resting_window :: window where
  "resting_window =
     \<lparr>w_accept = accept_start\<lparr>aa_devices := [trusted_phone], aa_acceptPairedInvite := Some 1,
        last_deps := Some (0, False, Some 1)\<rparr>,
      w_receiver = (useReceiver [] [])\<lparr>savePathRef := ''/dl''\<rparr>\<rparr>"

definition demo_invite :: "string \<Rightarrow> PairedInvitePayload" where
  "demo_invite t = \<lparr>blob_ticket = t, file_count = 1, total_size = 2, sender_name = ''Phone'', remote_endpoint_id = ''a1''\<rparr>"

theorem unattended_receive_witness:
  "rc_calls (w_receiver (window_turn demo_env (AaInvite (demo_invite ''t1'')) resting_window)) =
     [ReceiveFile ''t1'' ''/dl'' None None (Some ''My phone'')]"
proof -
  have n: "js_trim ''a1'' = ''a1''" "js_trim ''t1'' = ''t1''" "js_trim ''t2'' = ''t2''" "js_trim ''/dl'' = ''/dl''"
    "js_trim ''My phone'' = ''My phone''"
    by (simp_all add: js_trim_def js_space_def char_code_def)
  have inv: "invite_from trusted_phone (w_accept resting_window) (demo_invite t)" if "js_trim t \<noteq> []" for t
    unfolding invite_from_def
    by (intro conjI exI [of _ "[]"])
      (use that in \<open>simp_all add: resting_window_def demo_invite_def trusted_phone_def demo_device_def n\<close>)
  have "settled (w_accept resting_window)"
    by (simp add: settled_def accept_inv_def log_inv_def flight_inv_def not_stranded_def resting_window_def accept_start_def
        drain_deps_def aq.good_def accepted_invites_def)
  then show ?thesis
    using unattended_receive [of resting_window 1 trusted_phone "demo_invite ''t1''" trusted_phone "demo_invite ''t2''" demo_env 0 Null "Inr ()"]
      inv [of "''t1''"] inv [of "''t2''"] n
    by (simp add: resting_window_def accept_start_def useReceiver_def isReceiveSessionBusy_def Let_def receive_call_def folder_of_def
        trusted_phone_def demo_invite_def demo_env_def)
qed

end
